(* ===== verification/LT_Prelude.thy ===== *)
theory LT_Prelude
  imports Main "HOL-Library.Signed_Division"
begin

section \<open>Prelude: machine integers, scans and finite maps\<close>

text \<open>
  What the component theories share.

  \<^item> \<open>wrap32\<close> and \<open>wrap64\<close>: the two's complement value a C++ \<open>int\<close> or \<open>int64_t\<close> holds.
    They are written out wherever untrusted input reaches an arithmetic operation; elsewhere
    the operands are bounded and plain \<open>int\<close> is used.
  \<^item> C++ division truncates towards zero: \<open>sdiv\<close> and \<open>smod\<close> of HOL-Library.
  \<^item> \<open>find_index\<close>: the index a \<open>for\<close> loop with an early return leaves with, which the fixed-size
    tables of the program (working orders, slot entries) use for every lookup.
  \<^item> sums over the entries of a table that satisfy a predicate, and what changing one entry
    does to them.
\<close>

named_theorems wrap_simps \<open>machine arithmetic that does not overflow\<close>
named_theorems table_simps \<open>scans and sums over fixed-size tables\<close>

subsection \<open>Machine integers\<close>

definition wrap32 :: "int \<Rightarrow> int" where
  "wrap32 k = signed_take_bit 31 k"

definition wrap64 :: "int \<Rightarrow> int" where
  "wrap64 k = signed_take_bit 63 k"

definition int64_min :: int where
  "int64_min = - 9223372036854775808"

definition int64_max :: int where
  "int64_max = 9223372036854775807"

lemma wrap32_id [wrap_simps]: "- 2147483648 \<le> k \<Longrightarrow> k < 2147483648 \<Longrightarrow> wrap32 k = k"
  by (simp add: wrap32_def signed_take_bit_int_eq_self)

lemma wrap64_id [wrap_simps]: "int64_min \<le> k \<Longrightarrow> k \<le> int64_max \<Longrightarrow> wrap64 k = k"
  by (simp add: wrap64_def int64_min_def int64_max_def signed_take_bit_int_eq_self)

lemma wrap32_mult_left: "wrap32 (wrap32 a * b) = wrap32 (a * b)"
  unfolding wrap32_def by (metis signed_take_bit_mult signed_take_bit_signed_take_bit min.idem)

lemma wrap64_add_left: "wrap64 (wrap64 a + b) = wrap64 (a + b)"
  unfolding wrap64_def by (metis signed_take_bit_add signed_take_bit_signed_take_bit min.idem)

lemma wrap64_undo: "int64_min \<le> q \<Longrightarrow> q \<le> int64_max \<Longrightarrow> wrap64 (wrap64 (q + d) - d) = q"
  using wrap64_add_left [of "q + d" "- d"] by (simp add: wrap64_id)

lemma wrap32_0 [simp]: "wrap32 0 = 0"
  by (simp add: wrap32_def)

lemma wrap64_0 [simp]: "wrap64 0 = 0"
  by (simp add: wrap64_def)

lemma sdiv_nonneg: "0 \<le> (a::int) \<Longrightarrow> 0 < b \<Longrightarrow> a sdiv b = a div b"
  by (cases "a = 0") (simp_all add: signed_divide_int_def)

lemma smod_nonneg: "0 \<le> (a::int) \<Longrightarrow> 0 < b \<Longrightarrow> a smod b = a mod b"
  by (cases "a = 0") (simp_all add: signed_modulo_int_def)

lemma sdiv_uminus: "(- a :: int) sdiv b = - (a sdiv b)"
  by (simp add: signed_divide_int_def)

subsection \<open>Scans with an early return\<close>

fun find_index :: "('a \<Rightarrow> bool) \<Rightarrow> 'a list \<Rightarrow> nat option" where
  "find_index P [] = None"
| "find_index P (x # xs) = (if P x then Some 0 else map_option Suc (find_index P xs))"

lemma find_index_None [table_simps]: "find_index P xs = None \<longleftrightarrow> (\<forall>x \<in> set xs. \<not> P x)"
  by (induction xs) auto

lemma find_index_SomeD:
  "find_index P xs = Some i \<Longrightarrow> i < length xs \<and> P (xs ! i) \<and> (\<forall>j < i. \<not> P (xs ! j))"
proof (induction xs arbitrary: i)
  case Nil
  then show ?case by simp
next
  case (Cons x xs)
  show ?case
  proof (cases "P x")
    case True
    with Cons.prems show ?thesis by simp
  next
    case False
    with Cons.prems obtain k where k: "find_index P xs = Some k" "i = Suc k" by auto
    with Cons.IH False show ?thesis by (auto simp: less_Suc_eq_0_disj)
  qed
qed

lemma find_index_SomeI:
  "i < length xs \<Longrightarrow> P (xs ! i) \<Longrightarrow> (\<forall>j < i. \<not> P (xs ! j)) \<Longrightarrow> find_index P xs = Some i"
proof (induction xs arbitrary: i)
  case Nil
  then show ?case by simp
next
  case (Cons x xs)
  show ?case
  proof (cases i)
    case 0
    with Cons.prems show ?thesis by simp
  next
    case (Suc k)
    with Cons.prems(3) have "\<not> P x" by (auto dest: spec [of _ 0])
    moreover have "find_index P xs = Some k"
      using Cons.prems Suc by (intro Cons.IH) auto
    ultimately show ?thesis using Suc by simp
  qed
qed

lemma find_index_less: "find_index P xs = Some i \<Longrightarrow> i < length xs"
  by (simp add: find_index_SomeD)

lemma find_index_holds: "find_index P xs = Some i \<Longrightarrow> P (xs ! i)"
  by (simp add: find_index_SomeD)

lemma find_index_ex: "x \<in> set xs \<Longrightarrow> P x \<Longrightarrow> \<exists>i. find_index P xs = Some i"
  using find_index_None [of P xs] by (cases "find_index P xs") auto

lemma find_index_replicate [table_simps]: "\<not> P x \<Longrightarrow> find_index P (replicate n x) = None"
  by (simp add: find_index_None)

subsection \<open>Sums over a table\<close>

text \<open>The sum of \<open>f\<close> over the entries that satisfy \<open>P\<close>: the accumulation loops of the program.\<close>

definition sum_where :: "('a \<Rightarrow> bool) \<Rightarrow> ('a \<Rightarrow> int) \<Rightarrow> 'a list \<Rightarrow> int" where
  "sum_where P f xs = sum_list (map f (filter P xs))"

lemma sum_where_Nil [simp]: "sum_where P f [] = 0"
  by (simp add: sum_where_def)

lemma sum_where_Cons [simp]:
  "sum_where P f (x # xs) = (if P x then f x else 0) + sum_where P f xs"
  by (simp add: sum_where_def)

lemma sum_where_update [table_simps]:
  "i < length xs \<Longrightarrow>
   sum_where P f (xs[i := y]) =
     sum_where P f xs - (if P (xs ! i) then f (xs ! i) else 0) + (if P y then f y else 0)"
  by (induction xs arbitrary: i) (auto simp: less_Suc_eq_0_disj nth_Cons split: nat.splits)

lemma sum_where_replicate [table_simps]: "\<not> P x \<Longrightarrow> sum_where P f (replicate n x) = 0"
  by (induction n) auto

lemma sum_where_nonneg: "(\<And>x. x \<in> set xs \<Longrightarrow> P x \<Longrightarrow> 0 \<le> f x) \<Longrightarrow> 0 \<le> sum_where P f xs"
  by (induction xs) auto

subsection \<open>Finite maps\<close>

lemma finite_dom_upd [simp]: "finite (dom m) \<Longrightarrow> finite (dom (m(k \<mapsto> v)))"
  by simp

definition lookup_or :: "'v \<Rightarrow> ('k \<rightharpoonup> 'v) \<Rightarrow> 'k \<Rightarrow> 'v" where
  "lookup_or d m k = (case m k of None \<Rightarrow> d | Some v \<Rightarrow> v)"

lemma lookup_or_upd [simp]: "lookup_or d (m(k \<mapsto> v)) k' = (if k' = k then v else lookup_or d m k')"
  by (simp add: lookup_or_def)

lemma lookup_or_empty [simp]: "lookup_or d Map.empty k = d"
  by (simp add: lookup_or_def)

end
