(* ===== verification/LT_Types.thy ===== *)
theory LT_Types
  imports LT_Prelude "HOL-Library.Word"
begin

section \<open>Identifiers, enumerations and constants\<close>

text \<open>
  The vocabulary of src/src/common/types.h and src/src/common/error.h.  The fixed-size identifiers
  (\<open>AssetId\<close>, \<open>OrderId\<close>, \<open>TradeId\<close>) are the strings their \<open>view()\<close> returns; their
  constructors truncate to the capacity less the terminator, and their equality is the equality of
  these strings.  \<open>Price_t\<close>, \<open>Qty_t\<close> and \<open>Timestamp_ns\<close> are \<open>int\<close>.  \<open>Expected\<close> is a datatype
  with one more outcome, \<open>Trap\<close>, for an integer division by zero, which terminates the process.
\<close>

unbundle bit_operations_syntax

type_synonym price = int
type_synonym qty = int
type_synonym timestamp = int
type_synonym asset_id = string
type_synonym order_id = string
type_synonym trade_id = string
type_synonym condition_id = string

definition kMaxAssetIdLen :: nat where "kMaxAssetIdLen = 128"
definition kMaxOrderIdLen :: nat where "kMaxOrderIdLen = 80"
definition kMaxTradeIdLen :: nat where "kMaxTradeIdLen = 48"

definition AssetId :: "string \<Rightarrow> asset_id" where
  "AssetId sv = take (min (length sv) (kMaxAssetIdLen - 1)) sv"

definition OrderId :: "string \<Rightarrow> order_id" where
  "OrderId sv = take (min (length sv) (kMaxOrderIdLen - 1)) sv"

definition TradeId :: "string \<Rightarrow> trade_id" where
  "TradeId sv = take (min (length sv) (kMaxTradeIdLen - 1)) sv"

text \<open>The hash multiplies modulo \<open>2 ^ 64\<close>; a \<open>char\<close> is sign-extended by the cast to \<open>size_t\<close>.\<close>

definition char_to_size :: "char \<Rightarrow> 64 word" where
  "char_to_size c = word_of_int (signed_take_bit 7 (of_char c))"

definition fnv1a_hash :: "string \<Rightarrow> 64 word" where
  "fnv1a_hash data =
     foldl (\<lambda>h c. (h XOR char_to_size c) * 1099511628211) 14695981039346656037 data"

datatype side = BID | ASK

datatype order_type = GTC | GTD | FOK | FAK

definition kPriceMin :: price where "kPriceMin = 0"
definition kPriceMax :: price where "kPriceMax = 10000"
definition kLadderSize :: int where "kLadderSize = 10001"
definition kInvalidPrice :: price where "kInvalidPrice = - 1"
definition kInvalidQty :: qty where "kInvalidQty = - 1"
definition kPriceScale :: int where "kPriceScale = 10000"
definition kQtyScale :: int where "kQtyScale = 1000000"
definition kQtyScaleDigits :: int where "kQtyScaleDigits = 6"

definition qty_from_int :: "int \<Rightarrow> qty" where
  "qty_from_int shares = shares * kQtyScale"

lemmas price_consts = kPriceMin_def kPriceMax_def kInvalidPrice_def kPriceScale_def
lemmas qty_consts = kQtyScale_def kQtyScaleDigits_def kInvalidQty_def

datatype error_code =
    OK
  | EMPTY_INPUT | INVALID_FORMAT | OUT_OF_RANGE | NEGATIVE_VALUE
  | JSON_PARSE_ERROR | JSON_MISSING_FIELD | JSON_TYPE_ERROR | UNKNOWN_EVENT_TYPE | PONG_MESSAGE
  | BOOK_INVALID_PRICE | BOOK_NEGATIVE_QTY | BOOK_CROSSED
  | CONFIG_FILE_NOT_FOUND | CONFIG_PARSE_ERROR
  | USER_UNKNOWN_STATUS | USER_UNKNOWN_EVENT_TYPE | USER_WS_SERVER_ERROR | QTY_OVERFLOW
  | QUEUE_FULL
  | REST_CONNECTION_FAILED | REST_TIMEOUT | REST_AUTH_FAILED
  | EXEC_SIGNING_FAILED | EXEC_BUILD_FAILED
  | NETWORK_ERROR | TIMEOUT

fun error_name :: "error_code \<Rightarrow> string" where
  "error_name OK = ''OK''"
| "error_name EMPTY_INPUT = ''EMPTY_INPUT''"
| "error_name INVALID_FORMAT = ''INVALID_FORMAT''"
| "error_name OUT_OF_RANGE = ''OUT_OF_RANGE''"
| "error_name NEGATIVE_VALUE = ''NEGATIVE_VALUE''"
| "error_name JSON_PARSE_ERROR = ''JSON_PARSE_ERROR''"
| "error_name JSON_MISSING_FIELD = ''JSON_MISSING_FIELD''"
| "error_name JSON_TYPE_ERROR = ''JSON_TYPE_ERROR''"
| "error_name UNKNOWN_EVENT_TYPE = ''UNKNOWN_EVENT_TYPE''"
| "error_name PONG_MESSAGE = ''PONG_MESSAGE''"
| "error_name BOOK_INVALID_PRICE = ''BOOK_INVALID_PRICE''"
| "error_name BOOK_NEGATIVE_QTY = ''BOOK_NEGATIVE_QTY''"
| "error_name BOOK_CROSSED = ''BOOK_CROSSED''"
| "error_name CONFIG_FILE_NOT_FOUND = ''CONFIG_FILE_NOT_FOUND''"
| "error_name CONFIG_PARSE_ERROR = ''CONFIG_PARSE_ERROR''"
| "error_name USER_UNKNOWN_STATUS = ''USER_UNKNOWN_STATUS''"
| "error_name USER_UNKNOWN_EVENT_TYPE = ''USER_UNKNOWN_EVENT_TYPE''"
| "error_name USER_WS_SERVER_ERROR = ''USER_WS_SERVER_ERROR''"
| "error_name QTY_OVERFLOW = ''QTY_OVERFLOW''"
| "error_name QUEUE_FULL = ''QUEUE_FULL''"
| "error_name REST_CONNECTION_FAILED = ''REST_CONNECTION_FAILED''"
| "error_name REST_TIMEOUT = ''REST_TIMEOUT''"
| "error_name REST_AUTH_FAILED = ''REST_AUTH_FAILED''"
| "error_name EXEC_SIGNING_FAILED = ''EXEC_SIGNING_FAILED''"
| "error_name EXEC_BUILD_FAILED = ''EXEC_BUILD_FAILED''"
| "error_name NETWORK_ERROR = ''NETWORK_ERROR''"
| "error_name TIMEOUT = ''TIMEOUT''"

datatype 'a expected = Value 'a | Err error_code | Trap

fun ok :: "'a expected \<Rightarrow> bool" where
  "ok (Value v) = True"
| "ok (Err e) = (e = OK)"
| "ok Trap = False"

lemma AssetId_idem [simp]: "AssetId (AssetId sv) = AssetId sv"
  by (simp add: AssetId_def)

lemma OrderId_idem [simp]: "OrderId (OrderId sv) = OrderId sv"
  by (simp add: OrderId_def)

end
