(* ===== verification/Price.thy ===== *)
theory Price
  imports LT_Types
begin

section \<open>Fixed-point prices and quantities\<close>

text \<open>
  src/src/common/price.cpp.  \<open>parse_price\<close> and \<open>parse_qty\<close> read text that comes from the exchange,
  so every intermediate \<open>int\<close> and \<open>int64_t\<close> value is wrapped to its width.  \<open>std::from_chars\<close> with
  the test that it consumed the whole range is \<open>from_chars\<close>.  The lemmas show that decimals are
  read exactly, that formatting and parsing are inverse on every price of the ladder and on every
  non-negative quantity, and where the divisor loop of the parser makes the program divide by zero.
\<close>

subsection \<open>Decimal numerals\<close>

definition digit_value :: "char \<Rightarrow> nat" where
  "digit_value c = of_char c - 48"

definition is_digit :: "char \<Rightarrow> bool" where
  "is_digit c \<longleftrightarrow> (48::nat) \<le> of_char c \<and> (of_char c :: nat) \<le> 57"

definition dec_value :: "string \<Rightarrow> nat" where
  "dec_value s = foldl (\<lambda>v c. v * 10 + digit_value c) 0 s"

definition from_chars_digits :: "string \<Rightarrow> nat option" where
  "from_chars_digits s = (if s \<noteq> [] \<and> list_all is_digit s then Some (dec_value s) else None)"

definition from_chars :: "string \<Rightarrow> int option" where
  "from_chars s =
     (case s of
        [] \<Rightarrow> None
      | c # cs \<Rightarrow>
          (case from_chars_digits (if c = CHR ''-'' then cs else s) of
             None \<Rightarrow> None
           | Some v \<Rightarrow>
               let k = (if c = CHR ''-'' then - int v else int v)
               in if int64_min \<le> k \<and> k \<le> int64_max then Some k else None))"

definition find_dot :: "string \<Rightarrow> (string \<times> string) option" where
  "find_dot s =
     (case dropWhile (\<lambda>c. c \<noteq> CHR ''.'') s of
        [] \<Rightarrow> None
      | _ # frac \<Rightarrow> Some (takeWhile (\<lambda>c. c \<noteq> CHR ''.'') s, frac))"

fun digit_char :: "nat \<Rightarrow> char" where
  "digit_char d = char_of (48 + d)"

fun to_string :: "nat \<Rightarrow> string" where
  "to_string n = (if n < 10 then [digit_char n] else to_string (n div 10) @ [digit_char (n mod 10)])"

declare to_string.simps [simp del]

text \<open>\<open>std::to_chars\<close> and \<open>%lld\<close> of a signed integer.\<close>

definition int_to_view :: "int \<Rightarrow> string" where
  "int_to_view v = (if v < 0 then CHR ''-'' # to_string (nat (- v)) else to_string (nat v))"

text \<open>\<open>%0wd\<close> of \<open>snprintf\<close>.\<close>

definition pad_zero :: "nat \<Rightarrow> string \<Rightarrow> string" where
  "pad_zero w s = replicate (w - length s) (CHR ''0'') @ s"

definition trim_zeros :: "string \<Rightarrow> string" where
  "trim_zeros s = rev (dropWhile (\<lambda>c. c = CHR ''0'') (rev s))"

subsection \<open>Parsing\<close>

text \<open>The loops \<open>multiplier *= 10\<close> and \<open>divisor *= 10\<close>, on an \<open>int\<close> and on an \<open>int64_t\<close>.\<close>

primrec mul10_int :: "nat \<Rightarrow> int" where
  "mul10_int 0 = 1"
| "mul10_int (Suc n) = wrap32 (mul10_int n * 10)"

primrec mul10_int64 :: "nat \<Rightarrow> int" where
  "mul10_int64 0 = 1"
| "mul10_int64 (Suc n) = wrap64 (mul10_int64 n * 10)"

definition scale_price :: "bool \<Rightarrow> int \<Rightarrow> int \<Rightarrow> int \<Rightarrow> price expected" where
  "scale_price negative integer_part frac_part frac_digits =
     (let base = wrap64 (integer_part * kPriceScale);
          finish = (\<lambda>p. let price = (if negative then wrap64 (- p) else p)
                        in if price < kPriceMin \<or> price > kPriceMax then Err OUT_OF_RANGE
                           else Value price)
      in if frac_digits > 0 then
           (if frac_digits \<le> 4 then
              finish (wrap64 (base + wrap64 (frac_part * mul10_int (nat (4 - frac_digits)))))
            else
              let divisor = mul10_int (nat (frac_digits - 4))
              in if divisor = 0 then Trap
                 else finish (wrap64 (base + frac_part sdiv divisor)))
         else finish base)"

definition parse_price :: "string \<Rightarrow> price expected" where
  "parse_price sv0 =
     (if sv0 = [] then Err EMPTY_INPUT
      else
        let negative = (hd sv0 = CHR ''-'');
            sv = (if negative then tl sv0 else sv0)
        in if sv = [] then Err INVALID_FORMAT
           else
             (case find_dot sv of
                None \<Rightarrow>
                  (case from_chars sv of
                     None \<Rightarrow> Err INVALID_FORMAT
                   | Some integer_part \<Rightarrow> scale_price negative integer_part 0 0)
              | Some (int_sv, frac_sv) \<Rightarrow>
                  (case (if int_sv = [] then Some 0 else from_chars int_sv) of
                     None \<Rightarrow> Err INVALID_FORMAT
                   | Some integer_part \<Rightarrow>
                       let frac_digits = wrap32 (int (length frac_sv))
                       in (case (if frac_digits > 0 then from_chars frac_sv else Some 0) of
                             None \<Rightarrow> Err INVALID_FORMAT
                           | Some frac_part \<Rightarrow>
                               scale_price negative integer_part frac_part frac_digits))))"

definition scale_frac_qty :: "int \<Rightarrow> int \<Rightarrow> qty expected" where
  "scale_frac_qty frac_val frac_digits =
     (if frac_digits \<le> kQtyScaleDigits then
        Value (wrap64 (frac_val * mul10_int64 (nat (kQtyScaleDigits - frac_digits))))
      else
        let divisor = mul10_int64 (nat (frac_digits - kQtyScaleDigits))
        in if divisor = 0 then Trap else Value (frac_val sdiv divisor))"

definition parse_frac_qty :: "string \<Rightarrow> qty expected" where
  "parse_frac_qty frac_sv =
     (let frac_digits = wrap32 (int (length frac_sv))
      in if frac_digits > 0 then
           (case from_chars frac_sv of
              None \<Rightarrow> Err INVALID_FORMAT
            | Some frac_val \<Rightarrow> scale_frac_qty frac_val frac_digits)
         else Value 0)"

definition parse_qty :: "string \<Rightarrow> qty expected" where
  "parse_qty sv =
     (if sv = [] then Err EMPTY_INPUT
      else
        let (int_sv, frac) = (case find_dot sv of
                                None \<Rightarrow> (sv, None)
                              | Some (i, f) \<Rightarrow> (i, Some f))
        in (case (if int_sv = [] then Some 0 else from_chars int_sv) of
              None \<Rightarrow> Err INVALID_FORMAT
            | Some integer_part \<Rightarrow>
                (case (case frac of None \<Rightarrow> Value 0 | Some frac_sv \<Rightarrow> parse_frac_qty frac_sv) of
                   Err e \<Rightarrow> Err e
                 | Trap \<Rightarrow> Trap
                 | Value frac_part \<Rightarrow>
                     if integer_part < 0 then Err NEGATIVE_VALUE
                     else if integer_part > int64_max div kQtyScale then Err QTY_OVERFLOW
                     else Value (wrap64 (integer_part * kQtyScale + frac_part)))))"

definition parse_side :: "string \<Rightarrow> side expected" where
  "parse_side sv =
     (if sv \<in> set [''BUY'', ''BID'', ''buy'', ''bid'', ''Buy'', ''Bid''] then Value BID
      else if sv \<in> set [''SELL'', ''ASK'', ''sell'', ''ask'', ''Sell'', ''Ask''] then Value ASK
      else Err INVALID_FORMAT)"

subsection \<open>Formatting\<close>

definition format_fixed :: "int \<Rightarrow> nat \<Rightarrow> int \<Rightarrow> string" where
  "format_fixed scale width v =
     (let integer = v div scale; frac = v mod scale
      in if frac = 0 then to_string (nat integer)
         else trim_zeros (to_string (nat integer) @ ''.'' @ pad_zero width (to_string (nat frac))))"

definition format_price :: "price \<Rightarrow> string" where
  "format_price price =
     (if price < 0 then ''-'' @ format_fixed kPriceScale 4 (- price)
      else format_fixed kPriceScale 4 price)"

definition format_qty :: "qty \<Rightarrow> string" where
  "format_qty qty =
     (if qty < 0 then ''-'' @ format_fixed kQtyScale 6 (- qty)
      else format_fixed kQtyScale 6 qty)"

definition is_on_tick :: "price \<Rightarrow> int \<Rightarrow> bool" where
  "is_on_tick price tick_size = (if tick_size \<le> 0 then False else price smod tick_size = 0)"

subsection \<open>Numeral lemmas\<close>

lemma dec_value_append:
  "dec_value (s @ t) = dec_value s * 10 ^ length t + dec_value t"
proof (induction t rule: rev_induct)
  case Nil
  then show ?case by (simp add: dec_value_def)
next
  case (snoc c t)
  then show ?case by (simp add: dec_value_def algebra_simps)
qed

lemma digit_char_value [simp]: "d < 10 \<Longrightarrow> digit_value (digit_char d) = d"
  by (simp add: digit_value_def)

lemma digit_char_is_digit [simp]: "d < 10 \<Longrightarrow> is_digit (digit_char d)"
  by (simp add: is_digit_def)

lemma dec_value_single: "dec_value [c] = digit_value c"
  by (simp add: dec_value_def)

lemma to_string_value: "dec_value (to_string n) = n"
proof (induction n rule: to_string.induct)
  case (1 n)
  show ?case
  proof (cases "n < 10")
    case True
    then show ?thesis by (subst to_string.simps) (simp add: dec_value_single del: digit_char.simps)
  next
    case False
    with 1 have "dec_value (to_string (n div 10)) = n div 10" by simp
    with False show ?thesis
      by (subst to_string.simps)
        (simp add: dec_value_append dec_value_single del: digit_char.simps)
  qed
qed

lemma to_string_digits: "list_all is_digit (to_string n)"
proof (induction n rule: to_string.induct)
  case (1 n)
  then show ?case by (subst to_string.simps) (simp del: digit_char.simps)
qed

lemma to_string_nonempty [simp]: "to_string n \<noteq> []"
  by (subst to_string.simps) simp

lemma to_string_length: "n < 10 ^ w \<Longrightarrow> 0 < w \<Longrightarrow> length (to_string n) \<le> w"
proof (induction n arbitrary: w rule: to_string.induct)
  case (1 n)
  show ?case
  proof (cases "n < 10")
    case True
    with 1 show ?thesis by (subst to_string.simps) simp
  next
    case False
    with 1(2) obtain w' where w: "w = Suc w'" "w' \<noteq> 0"
      by (cases w; cases "w - 1") auto
    with 1(2) have "n div 10 < 10 ^ w'" by (simp add: less_mult_imp_div_less mult.commute)
    with 1(1) False w have "length (to_string (n div 10)) \<le> w'" by simp
    with False w show ?thesis by (subst to_string.simps) simp
  qed
qed

lemma zero_digit [simp]: "is_digit (CHR ''0'')" "digit_value (CHR ''0'') = 0"
  by (simp_all add: is_digit_def digit_value_def)

lemma dec_value_zeros [simp]: "dec_value (replicate n (CHR ''0'')) = 0"
  by (induction n) (simp_all add: dec_value_def)

lemma dot_not_digit: "is_digit c \<Longrightarrow> c \<noteq> CHR ''.''" "is_digit c \<Longrightarrow> c \<noteq> CHR ''-''"
  by (auto simp: is_digit_def)

lemma pad_zero_props:
  assumes "n < 10 ^ w" "0 < w"
  shows "length (pad_zero w (to_string n)) = w" "dec_value (pad_zero w (to_string n)) = n"
    "list_all is_digit (pad_zero w (to_string n))"
  using to_string_length [OF assms] to_string_digits [of n] to_string_value [of n]
  by (auto simp: pad_zero_def dec_value_append list_all_iff)

lemma trim_zeros_decomp: "s = trim_zeros s @ replicate (length s - length (trim_zeros s)) (CHR ''0'')"
proof -
  have "rev s = takeWhile (\<lambda>c. c = CHR ''0'') (rev s) @ dropWhile (\<lambda>c. c = CHR ''0'') (rev s)"
    by simp
  hence "s = trim_zeros s @ rev (takeWhile (\<lambda>c. c = CHR ''0'') (rev s))"
    unfolding trim_zeros_def by (metis rev_append rev_rev_ident)
  moreover have "rev (takeWhile (\<lambda>c. c = CHR ''0'') (rev s)) = replicate n (CHR ''0'')"
    if "n = length (takeWhile (\<lambda>c. c = CHR ''0'') (rev s))" for n
    using that by (intro replicate_eqI) (auto dest: set_takeWhileD)
  ultimately show ?thesis by (metis add_diff_cancel_left' length_append length_rev)
qed

lemma dec_value_le: "list_all is_digit s \<Longrightarrow> dec_value s < 10 ^ length s"
proof (induction s rule: rev_induct)
  case Nil
  then show ?case by (simp add: dec_value_def)
next
  case (snoc c s)
  then have "digit_value c < 10" "dec_value s < 10 ^ length s"
    by (auto simp: is_digit_def digit_value_def)
  then show ?case by (simp add: dec_value_append dec_value_single)
qed

lemma from_chars_digits_ok:
  assumes "list_all is_digit s" "s \<noteq> []" "int (dec_value s) \<le> int64_max"
  shows "from_chars s = Some (int (dec_value s))"
proof -
  obtain c cs where s: "s = c # cs" using assms(2) by (cases s) auto
  with assms(1) have "c \<noteq> CHR ''-''" using dot_not_digit by auto
  with s assms show ?thesis
    by (simp add: from_chars_def from_chars_digits_def int64_min_def Let_def)
qed

lemma find_dot_digits:
  assumes "list_all is_digit s"
  shows "find_dot s = None"
proof -
  have "dropWhile (\<lambda>c. c \<noteq> CHR ''.'') s = []"
    using assms dot_not_digit by (auto simp: list_all_iff)
  then show ?thesis by (simp only: find_dot_def list.case)
qed

lemma find_dot_split: "list_all is_digit s \<Longrightarrow> find_dot (s @ CHR ''.'' # t) = Some (s, t)"
proof -
  assume "list_all is_digit s"
  hence "\<forall>c \<in> set s. c \<noteq> CHR ''.''" using dot_not_digit by (auto simp: list_all_iff)
  thus ?thesis by (simp add: find_dot_def)
qed

subsection \<open>The scaling loops\<close>

lemma mul10_int_small: "n \<le> 9 \<Longrightarrow> mul10_int n = 10 ^ n"
proof (induction n)
  case 0
  then show ?case by simp
next
  case (Suc n)
  hence "(10::int) ^ Suc n \<le> 10 ^ 9" by (intro power_increasing) auto
  moreover have "- 2147483648 \<le> (10::int) ^ Suc n"
    using zero_le_power [of "10::int" "Suc n"] by linarith
  ultimately have "wrap32 (10 ^ Suc n) = 10 ^ Suc n" by (intro wrap32_id) auto
  with Suc show ?case by (simp add: mult.commute)
qed

lemma mul10_int64_small: "n \<le> 18 \<Longrightarrow> mul10_int64 n = 10 ^ n"
proof (induction n)
  case 0
  then show ?case by simp
next
  case (Suc n)
  hence "(10::int) ^ Suc n \<le> 10 ^ 18" by (intro power_increasing) auto
  moreover have "int64_min \<le> (10::int) ^ Suc n"
    using zero_le_power [of "10::int" "Suc n"] unfolding int64_min_def by linarith
  ultimately have "wrap64 (10 ^ Suc n) = 10 ^ Suc n"
    by (intro wrap64_id) (auto simp: int64_max_def)
  with Suc show ?case by (simp add: mult.commute)
qed

lemma mul10_int_wrap: "mul10_int n = wrap32 (10 ^ n)"
proof (induction n)
  case 0
  show ?case by (simp add: wrap_simps)
next
  case (Suc n)
  then show ?case using wrap32_mult_left [of "10 ^ n" 10] by (simp add: mult.commute)
qed

lemma mul10_int_zero: "32 \<le> n \<Longrightarrow> mul10_int n = 0"
proof -
  assume "32 \<le> n"
  hence "(2::int) ^ 32 dvd 2 ^ n * 5 ^ n"
    by (intro dvd_mult2 le_imp_power_dvd)
  moreover have "(2::int) ^ n * 5 ^ n = 10 ^ n" by (simp flip: power_mult_distrib)
  ultimately have "take_bit 32 ((10::int) ^ n) = 0" by (simp add: take_bit_eq_0_iff)
  hence "signed_take_bit 31 ((10::int) ^ n) = signed_take_bit 31 0"
    unfolding signed_take_bit_eq_iff_take_bit_eq by simp
  thus ?thesis by (simp add: mul10_int_wrap wrap32_def)
qed

subsection \<open>Decimals are read exactly\<close>

text \<open>The value a decimal numeral denotes at a fixed-point scale, rounded towards zero.\<close>

definition decimal_value :: "nat \<Rightarrow> string \<Rightarrow> string \<Rightarrow> int" where
  "decimal_value scale i f = int (dec_value i * scale + dec_value f * scale div 10 ^ length f)"

lemma frac_scale_low: "k \<le> n \<Longrightarrow> (d::nat) * 10 ^ n div 10 ^ k = d * 10 ^ (n - k)"
proof -
  assume "k \<le> n"
  hence "(10::nat) ^ n = 10 ^ (n - k) * 10 ^ k" by (simp flip: power_add)
  thus ?thesis by simp
qed

lemma frac_scale_high: "n \<le> k \<Longrightarrow> (d::nat) * 10 ^ n div 10 ^ k = d div 10 ^ (k - n)"
proof -
  assume "n \<le> k"
  hence "(10::nat) ^ k = 10 ^ n * 10 ^ (k - n)" by (simp flip: power_add)
  thus ?thesis by (simp add: mult.commute)
qed

lemma scale_price_exact:
  assumes "length f \<le> 13" "list_all is_digit f" "dec_value i \<le> 900000000000000"
  shows "scale_price False (int (dec_value i)) (int (dec_value f)) (int (length f)) =
    (if decimal_value 10000 i f \<le> kPriceMax then Value (decimal_value 10000 i f) else Err OUT_OF_RANGE)"
proof -
  let ?i = "int (dec_value i)" and ?f = "int (dec_value f)" and ?k = "length f"
  have f: "dec_value f < 10 ^ ?k" using assms(2) by (rule dec_value_le)
  have part: "dec_value f * 10000 div 10 ^ ?k < 10000"
    using f by (simp add: less_mult_imp_div_less mult.commute)
  have base: "wrap64 (?i * 10000) = ?i * 10000"
    using assms(3) by (intro wrap64_id) (auto simp: int64_min_def int64_max_def)
  have total: "wrap64 (decimal_value 10000 i f) = decimal_value 10000 i f"
    using part assms(3) by (intro wrap64_id) (auto simp: int64_min_def int64_max_def decimal_value_def)
  have nonneg: "0 \<le> decimal_value 10000 i f" by (simp add: decimal_value_def)
  consider "?k = 0" | "0 < ?k" "?k \<le> 4" | "4 < ?k" by linarith
  thus ?thesis
  proof cases
    case 1
    with base nonneg show ?thesis
      by (auto simp: scale_price_def decimal_value_def price_consts dec_value_def Let_def)
  next
    case 2
    have eq: "dec_value f * 10000 div 10 ^ ?k = dec_value f * 10 ^ (4 - ?k)"
      using frac_scale_low [OF 2(2), of "dec_value f"] by simp
    have "wrap64 (?f * 10 ^ (4 - ?k)) = ?f * 10 ^ (4 - ?k)"
    proof (rule wrap64_id)
      show "int64_min \<le> ?f * 10 ^ (4 - ?k)"
        using zero_le_power [of "10::int"] by (simp add: int64_min_def order_trans [of _ 0])
      show "?f * 10 ^ (4 - ?k) \<le> int64_max"
      proof -
        have "int (dec_value f * 10 ^ (4 - ?k)) < 10000" using part eq by linarith
        thus ?thesis by (simp add: int64_max_def)
      qed
    qed
    moreover have "nat (4 - int ?k) = 4 - ?k" by simp
    moreover have "mul10_int (4 - ?k) = 10 ^ (4 - ?k)" by (intro mul10_int_small) simp
    moreover have "?i * 10000 + ?f * 10 ^ (4 - ?k) = decimal_value 10000 i f"
      by (simp add: decimal_value_def eq)
    ultimately show ?thesis using 2 base total nonneg
      by (simp add: scale_price_def price_consts Let_def)
  next
    case 3
    have eq: "dec_value f * 10000 div 10 ^ ?k = dec_value f div 10 ^ (?k - 4)"
      using frac_scale_high [of 4 ?k "dec_value f"] 3 by simp
    have "?f sdiv 10 ^ (?k - 4) = int (dec_value f div 10 ^ (?k - 4))"
      by (simp add: sdiv_nonneg zdiv_int)
    moreover have "nat (int ?k - 4) = ?k - 4" by simp
    moreover have "mul10_int (?k - 4) = 10 ^ (?k - 4)" using assms(1) by (intro mul10_int_small) simp
    moreover have "?i * 10000 + int (dec_value f div 10 ^ (?k - 4)) = decimal_value 10000 i f"
      by (simp add: decimal_value_def eq)
    ultimately show ?thesis using 3 base total nonneg
      by (auto simp add: scale_price_def price_consts Let_def)
  qed
qed

lemma from_chars_frac:
  assumes "list_all is_digit f" "f \<noteq> []" "length f \<le> 18"
  shows "from_chars f = Some (int (dec_value f))"
proof -
  have "dec_value f < 10 ^ length f" using assms(1) by (rule dec_value_le)
  also have "(10::nat) ^ length f \<le> 10 ^ 18" using assms(3) by (intro power_increasing) auto
  finally show ?thesis using assms by (intro from_chars_digits_ok) (auto simp: int64_max_def)
qed

lemma wrap32_length: "length f \<le> 1000 \<Longrightarrow> wrap32 (int (length f)) = int (length f)"
  by (intro wrap32_id) auto

lemma parse_price_dotted:
  assumes "list_all is_digit i" "list_all is_digit f" "length f \<le> 13" "dec_value i \<le> 900000000000000"
  shows "parse_price (i @ ''.'' @ f) =
    (if decimal_value 10000 i f \<le> kPriceMax then Value (decimal_value 10000 i f) else Err OUT_OF_RANGE)"
proof -
  have hd: "hd (i @ ''.'' @ f) \<noteq> CHR ''-''"
    using assms(1) dot_not_digit by (cases i) auto
  have i: "(if i = [] then Some 0 else from_chars i) = Some (int (dec_value i))"
    using assms(1,4) from_chars_digits_ok [of i] by (auto simp: int64_max_def dec_value_def)
  have f: "(if 0 < int (length f) then from_chars f else Some 0) = Some (int (dec_value f))"
    using assms(2,3) from_chars_frac [of f] by (auto simp: dec_value_def)
  have "find_dot (i @ ''.'' @ f) = Some (i, f)" using find_dot_split [OF assms(1)] by simp
  with hd i f show ?thesis
    using wrap32_length [of f] scale_price_exact [OF assms(3,2,4)] assms(3)
    by (simp add: parse_price_def Let_def)
qed

lemma parse_price_integer:
  assumes "list_all is_digit i" "i \<noteq> []" "dec_value i \<le> 900000000000000"
  shows "parse_price i =
    (if decimal_value 10000 i [] \<le> kPriceMax then Value (decimal_value 10000 i []) else Err OUT_OF_RANGE)"
proof -
  have "hd i \<noteq> CHR ''-''" using assms(1,2) dot_not_digit by (cases i) auto
  moreover have "from_chars i = Some (int (dec_value i))"
    using assms by (intro from_chars_digits_ok) (auto simp: int64_max_def)
  moreover have "int (dec_value []) = 0" by (simp add: dec_value_def)
  ultimately show ?thesis
    using assms find_dot_digits [OF assms(1)] scale_price_exact [of "[]" i]
    by (simp add: parse_price_def Let_def)
qed

subsection \<open>Quantities\<close>

lemma scale_frac_qty_exact:
  assumes "list_all is_digit f" "length f \<le> 18"
  shows "scale_frac_qty (int (dec_value f)) (int (length f)) =
    Value (int (dec_value f * 1000000 div 10 ^ length f))"
proof (cases "length f \<le> 6")
  case True
  have f: "dec_value f < 10 ^ length f" using assms(1) by (rule dec_value_le)
  have eq: "dec_value f * 1000000 div 10 ^ length f = dec_value f * 10 ^ (6 - length f)"
    using frac_scale_low [OF True, of "dec_value f"] by simp
  have "dec_value f * 1000000 div 10 ^ length f < 1000000"
    using f by (simp add: less_mult_imp_div_less mult.commute)
  hence "int (dec_value f * 10 ^ (6 - length f)) < 1000000" using eq by linarith
  hence "wrap64 (int (dec_value f * 10 ^ (6 - length f))) = int (dec_value f * 10 ^ (6 - length f))"
    by (intro wrap64_id) (auto simp: int64_max_def int64_min_def order_trans [of _ 0])
  moreover have "nat (6 - int (length f)) = 6 - length f" by simp
  moreover have "mul10_int64 (6 - length f) = 10 ^ (6 - length f)"
    by (intro mul10_int64_small) simp
  ultimately show ?thesis using True eq by (simp add: scale_frac_qty_def qty_consts)
next
  case False
  hence eq: "dec_value f * 1000000 div 10 ^ length f = dec_value f div 10 ^ (length f - 6)"
    using frac_scale_high [of 6 "length f" "dec_value f"] by simp
  have "int (dec_value f) sdiv 10 ^ (length f - 6) = int (dec_value f div 10 ^ (length f - 6))"
    by (simp add: sdiv_nonneg zdiv_int)
  moreover have "nat (int (length f) - 6) = length f - 6" by simp
  moreover have "mul10_int64 (length f - 6) = 10 ^ (length f - 6)"
    using assms(2) by (intro mul10_int64_small) simp
  ultimately show ?thesis using False eq by (simp add: scale_frac_qty_def qty_consts)
qed

lemma parse_frac_qty_exact:
  assumes "list_all is_digit f" "length f \<le> 18"
  shows "parse_frac_qty f = Value (int (dec_value f * 1000000 div 10 ^ length f))"
  using from_chars_frac [OF assms(1)] wrap32_length [of f] scale_frac_qty_exact [OF assms] assms(2)
  by (cases "f = []") (simp_all add: parse_frac_qty_def Let_def dec_value_def)

lemma parse_qty_dotted:
  assumes "list_all is_digit i" "list_all is_digit f" "length f \<le> 18"
    "decimal_value 1000000 i f \<le> int64_max"
  shows "parse_qty (i @ ''.'' @ f) = Value (decimal_value 1000000 i f)"
proof -
  let ?fr = "int (dec_value f * 1000000 div 10 ^ length f)"
  have v: "int (dec_value i) * 1000000 + ?fr = decimal_value 1000000 i f"
    by (simp add: decimal_value_def)
  have le: "int (dec_value i) \<le> int64_max div 1000000"
    using assms(4) v by (simp add: int64_max_def)
  have i: "(if i = [] then Some 0 else from_chars i) = Some (int (dec_value i))"
    using assms(1) le from_chars_digits_ok [of i] by (auto simp: int64_max_def dec_value_def)
  have w: "wrap64 (decimal_value 1000000 i f) = decimal_value 1000000 i f"
    using assms(4) by (intro wrap64_id) (auto simp: int64_min_def decimal_value_def)
  have "find_dot (i @ ''.'' @ f) = Some (i, f)" using find_dot_split [OF assms(1)] by simp
  with i le w v show ?thesis
    using parse_frac_qty_exact [OF assms(2,3)] by (simp add: parse_qty_def kQtyScale_def Let_def)
qed

lemma parse_qty_integer:
  assumes "list_all is_digit i" "i \<noteq> []" "int (dec_value i) * 1000000 \<le> int64_max"
  shows "parse_qty i = Value (int (dec_value i) * 1000000)"
proof -
  have "from_chars i = Some (int (dec_value i))"
    using assms by (intro from_chars_digits_ok) (auto simp: int64_max_def)
  moreover have "wrap64 (int (dec_value i) * 1000000) = int (dec_value i) * 1000000"
    using assms(3) by (intro wrap64_id) (auto simp: int64_min_def)
  ultimately show ?thesis
    using assms find_dot_digits [OF assms(1)]
    by (simp add: parse_qty_def kQtyScale_def Let_def int64_max_def)
qed

subsection \<open>Formatting is the inverse of parsing\<close>

text \<open>What \<open>format_fixed\<close> prints: either the integer part alone, or a numeral whose fraction has
  between one and \<open>width\<close> digits and denotes the value.\<close>

lemma trim_zeros_dot:
  assumes "trim_zeros t \<noteq> []"
  shows "trim_zeros (s @ t) = s @ trim_zeros t"
proof -
  have "\<exists>c \<in> set (rev t). c \<noteq> CHR ''0''"
    using assms by (auto simp: trim_zeros_def)
  hence "dropWhile (\<lambda>c. c = CHR ''0'') (rev t @ rev s) = dropWhile (\<lambda>c. c = CHR ''0'') (rev t) @ rev s"
    by (metis (mono_tags, lifting) dropWhile_append1)
  thus ?thesis by (simp add: trim_zeros_def)
qed

lemma trim_pad_props:
  assumes "0 < n" "n < 10 ^ w" "0 < w"
  defines "t \<equiv> trim_zeros (pad_zero w (to_string n))"
  shows "t \<noteq> []" "length t \<le> w" "list_all is_digit t" "dec_value t * 10 ^ (w - length t) = n"
proof -
  let ?p = "pad_zero w (to_string n)"
  note pad = pad_zero_props [OF assms(2,3)]
  have dec: "?p = t @ replicate (w - length t) (CHR ''0'')"
    using trim_zeros_decomp [of ?p] pad(1) by (simp add: t_def)
  show v: "dec_value t * 10 ^ (w - length t) = n"
    using pad(2) dec by (simp add: dec_value_append)
  show "t \<noteq> []" using v assms(1) by (auto simp: dec_value_def)
  show "length t \<le> w" using dec pad(1) by (metis length_append le_add1)
  show "list_all is_digit t" using pad(3) dec by (metis list_all_append)
qed

lemma format_fixed_frac:
  assumes "0 \<le> v" "v mod 10 ^ w \<noteq> 0" "0 < w"
  obtains t where "format_fixed (10 ^ w) w v = to_string (nat (v div 10 ^ w)) @ ''.'' @ t"
    "length t \<le> w" "list_all is_digit t" "decimal_value (10 ^ w) (to_string (nat (v div 10 ^ w))) t = v"
proof -
  let ?n = "nat (v mod 10 ^ w)"
  let ?t = "trim_zeros (pad_zero w (to_string ?n))"
  have "0 \<le> v mod 10 ^ w" by simp
  hence "0 < v mod 10 ^ w" using assms(2) by linarith
  hence n: "0 < ?n" "?n < 10 ^ w" by (simp_all add: nat_less_iff)
  note t = trim_pad_props [OF n assms(3)]
  have "trim_zeros (to_string (nat (v div 10 ^ w)) @ ''.'' @ pad_zero w (to_string ?n)) =
      to_string (nat (v div 10 ^ w)) @ ''.'' @ ?t"
    using trim_zeros_dot [OF t(1), of "to_string (nat (v div 10 ^ w)) @ ''.''"] by simp
  moreover have "dec_value ?t * 10 ^ w div 10 ^ length ?t = ?n"
    using t(4) frac_scale_low [OF t(2)] by simp
  moreover have "int (nat (v div 10 ^ w) * 10 ^ w + ?n) = v"
    using assms(1) div_mult_mod_eq [of v "10 ^ w"] by (simp add: pos_imp_zdiv_nonneg_iff)
  ultimately show ?thesis using that [of ?t] t assms
    by (simp add: format_fixed_def Let_def decimal_value_def to_string_value)
qed

lemma nat_div_exact: "0 \<le> v \<Longrightarrow> 0 < m \<Longrightarrow> v mod m = 0 \<Longrightarrow> int (nat (v div m)) * m = v"
  by (simp add: pos_imp_zdiv_nonneg_iff mod_eq_0_iff_dvd)

lemma format_fixed_int:
  "v mod scale = 0 \<Longrightarrow> format_fixed scale w v = to_string (nat (v div scale))"
  by (simp add: format_fixed_def Let_def)

lemma decimal_value_Nil [simp]: "decimal_value scale i [] = int (dec_value i) * int scale"
  by (simp add: decimal_value_def dec_value_def)

lemma parse_format_price:
  assumes "kPriceMin \<le> p" and "p \<le> kPriceMax"
  shows "parse_price (format_price p) = Value p"
proof (cases "p mod 10 ^ 4 = 0")
  case True
  have "format_price p = to_string (nat (p div 10000))"
    using True assms by (simp add: format_price_def format_fixed_int price_consts)
  moreover have "int (nat (p div 10000)) * 10000 = p"
    using True assms by (intro nat_div_exact) (simp_all add: price_consts)
  moreover have "nat (p div 10000) \<le> 900000000000000" using assms by (simp add: price_consts)
  ultimately show ?thesis
    using assms parse_price_integer [OF to_string_digits to_string_nonempty, of "nat (p div 10000)"]
    by (simp add: to_string_value price_consts)
next
  case False
  let ?i = "to_string (nat (p div 10 ^ 4))"
  obtain t where t: "format_fixed (10 ^ 4) 4 p = ?i @ ''.'' @ t"
    "length t \<le> 4" "list_all is_digit t" "decimal_value (10 ^ 4) ?i t = p"
    using assms False by (elim format_fixed_frac [of p 4, rotated]) (auto simp: price_consts)
  have "dec_value ?i \<le> 900000000000000" using assms by (simp add: to_string_value price_consts)
  with t show ?thesis
    using assms parse_price_dotted [OF to_string_digits t(3), of "nat (p div 10 ^ 4)"]
    by (simp add: format_price_def price_consts)
qed

lemma parse_format_qty:
  assumes "0 \<le> q" and "q \<le> int64_max"
  shows "parse_qty (format_qty q) = Value q"
proof (cases "q mod 10 ^ 6 = 0")
  case True
  have "format_qty q = to_string (nat (q div 1000000))"
    using True assms by (simp add: format_qty_def format_fixed_int kQtyScale_def)
  moreover have "int (nat (q div 1000000)) * 1000000 = q"
    using True assms by (intro nat_div_exact) simp_all
  ultimately show ?thesis
    using assms parse_qty_integer [OF to_string_digits to_string_nonempty, of "nat (q div 1000000)"]
    by (simp add: to_string_value)
next
  case False
  let ?i = "to_string (nat (q div 10 ^ 6))"
  obtain t where t: "format_fixed (10 ^ 6) 6 q = ?i @ ''.'' @ t"
    "length t \<le> 6" "list_all is_digit t" "decimal_value (10 ^ 6) ?i t = q"
    using assms False by (elim format_fixed_frac [of q 6, rotated]) auto
  with assms show ?thesis
    using parse_qty_dotted [OF to_string_digits t(3), of "nat (q div 10 ^ 6)"]
    by (simp add: format_qty_def kQtyScale_def)
qed

lemma parse_price_bounds:
  assumes "parse_price sv = Value p"
  shows "kPriceMin \<le> p \<and> p \<le> kPriceMax"
  using assms by (auto simp: parse_price_def scale_price_def Let_def split: if_splits option.splits prod.splits)

subsection \<open>Properties\<close>



text \<open>Formatting a price of the ladder and parsing the text gives the price back.\<close>

theorem format_parse_price:
  assumes "kPriceMin \<le> p" and "p \<le> kPriceMax"
  shows "parse_price (format_price p) = Value p"
  using assms by (rule parse_format_price)

theorem format_parse_price_witness: "parse_price (format_price 5200) = Value 5200"
  using format_parse_price [of 5200] by (simp add: price_consts)

text \<open>Every non-negative 64-bit quantity is formatted to a text that parses back to it.\<close>

theorem format_parse_qty:
  assumes "0 \<le> q" and "q \<le> int64_max"
  shows "parse_qty (format_qty q) = Value q"
  using assms by (rule parse_format_qty)

theorem format_parse_qty_witness: "parse_qty (format_qty 219217767) = Value 219217767"
  using format_parse_qty [of 219217767] by (simp add: int64_max_def)

text \<open>A zero written with 36 or more fraction digits makes the int divisor loop of
  parse_price overflow to 0, and the following division traps.\<close>

theorem parse_price_div_by_zero:
  assumes "36 \<le> n" and "n < 2147483648"
  shows "parse_price (''0.'' @ replicate n (CHR ''0'')) = Trap"
proof -
  let ?f = "replicate n (CHR ''0'')"
  have f: "from_chars ?f = Some 0"
    using from_chars_digits_ok [of ?f] assms by (simp add: list_all_iff int64_max_def)
  have "from_chars ''0'' = Some 0"
    using from_chars_digits_ok [of "''0''"] by (simp add: int64_max_def dec_value_def)
  moreover have "find_dot (''0.'' @ ?f) = Some (''0'', ?f)"
    using find_dot_split [of "''0''" ?f] by simp
  moreover have "wrap32 (int n) = int n" using assms by (simp add: wrap32_id)
  moreover have "mul10_int (nat (int n - 4)) = 0" using assms by (intro mul10_int_zero) simp
  ultimately show ?thesis using assms f
    by (simp add: parse_price_def scale_price_def Let_def)
qed

theorem parse_price_div_by_zero_witness:
  "parse_price (''0.'' @ replicate 36 (CHR ''0'')) = Trap"
  using parse_price_div_by_zero [of 36] by simp

end
