(* ===== verification/Order_Book.thy ===== *)
theory Order_Book
  imports LT_Types
begin

section \<open>Order book\<close>

text \<open>
  src/src/book/book_types.h, src/src/book/order_book.cpp and the market events it consumes.  The two
  ladders are arrays indexed by price; they are modelled as functions, and every access of the code
  is guarded by the range check that the model keeps.  The \<open>for\<close> loops over the ladder are scans of
  the list of prices in the direction of the loop.  The callbacks of \<open>for_each_bid\<close> and its variants
  are modelled by the list of calls they receive.

  The lemmas: the cached best prices always equal a scan of the ladders, for every sequence of
  operations; the conditional recomputation of \<open>apply_price_change\<close> equals an unconditional one; a
  rejected update leaves the book unchanged; the top-n iteration is a prefix of the full one.
\<close>

record bbo =
  best_bid :: price
  best_ask :: price
  bid_size :: qty
  ask_size :: qty

definition empty_bbo :: bbo where
  "empty_bbo = \<lparr> best_bid = kInvalidPrice, best_ask = kInvalidPrice, bid_size = 0, ask_size = 0 \<rparr>"

definition bbo_valid :: "bbo \<Rightarrow> bool" where
  "bbo_valid q \<longleftrightarrow> best_bid q \<noteq> kInvalidPrice \<and> best_ask q \<noteq> kInvalidPrice"

definition bbo_spread :: "bbo \<Rightarrow> price" where
  "bbo_spread q = (if bbo_valid q then best_ask q - best_bid q else 0)"

definition bbo_crossed :: "bbo \<Rightarrow> bool" where
  "bbo_crossed q \<longleftrightarrow> bbo_valid q \<and> best_bid q \<ge> best_ask q"

datatype book_status = EMPTY | LIVE | STALE | CROSSED

record price_level =
  lvl_price :: price
  lvl_size :: qty

record book_snapshot =
  snap_asset_id :: asset_id
  snap_market_id :: asset_id
  snap_bids :: "price_level list"
  snap_asks :: "price_level list"
  snap_exchange_ts :: timestamp

record price_change =
  pc_price :: price
  pc_side :: side
  pc_size :: qty

record asset_price_change =
  apc_asset_id :: asset_id
  apc_best_bid :: price
  apc_best_ask :: price
  apc_changes :: "price_change list"

type_synonym ladder = "price \<Rightarrow> qty"

record order_book =
  bids :: ladder
  asks :: ladder
  book_bbo :: bbo
  status :: book_status
  tick_size :: int

subsection \<open>Operations\<close>

definition clear :: "order_book \<Rightarrow> order_book" where
  "clear b = b\<lparr> bids := (\<lambda>_. 0), asks := (\<lambda>_. 0), book_bbo := empty_bbo, status := EMPTY \<rparr>"

definition new_order_book :: order_book where
  "new_order_book =
     clear \<lparr> bids = (\<lambda>_. 0), asks = (\<lambda>_. 0), book_bbo = empty_bbo, status = EMPTY, tick_size = 100 \<rparr>"

definition price_range :: "price list" where
  "price_range = [kPriceMin..kPriceMax]"

definition scan_bid :: "ladder \<Rightarrow> price option" where
  "scan_bid l = find (\<lambda>p. l p > 0) (rev price_range)"

definition scan_ask :: "ladder \<Rightarrow> price option" where
  "scan_ask l = find (\<lambda>p. l p > 0) price_range"

definition recompute_bbo :: "order_book \<Rightarrow> order_book" where
  "recompute_bbo b =
     (let (bp, bs) = (case scan_bid (bids b) of
                        None \<Rightarrow> (kInvalidPrice, 0) | Some p \<Rightarrow> (p, bids b p));
          (ap, sz) = (case scan_ask (asks b) of
                        None \<Rightarrow> (kInvalidPrice, 0) | Some p \<Rightarrow> (p, asks b p))
      in b\<lparr> book_bbo := \<lparr> best_bid = bp, best_ask = ap, bid_size = bs, ask_size = sz \<rparr> \<rparr>)"

definition status_of_bbo :: "bbo \<Rightarrow> book_status" where
  "status_of_bbo q =
     (if bbo_valid q then (if bbo_crossed q then CROSSED else LIVE)
      else if best_bid q \<noteq> kInvalidPrice \<or> best_ask q \<noteq> kInvalidPrice then LIVE
      else EMPTY)"

definition refresh_status_from_bbo :: "order_book \<Rightarrow> order_book" where
  "refresh_status_from_bbo b = b\<lparr> status := status_of_bbo (book_bbo b) \<rparr>"

definition check_level :: "price \<Rightarrow> qty \<Rightarrow> error_code" where
  "check_level p s =
     (if p < kPriceMin \<or> p > kPriceMax then BOOK_INVALID_PRICE
      else if s < 0 then BOOK_NEGATIVE_QTY
      else OK)"

fun load_levels :: "price_level list \<Rightarrow> ladder \<Rightarrow> error_code + ladder" where
  "load_levels [] l = Inr l"
| "load_levels (x # xs) l =
     (if check_level (lvl_price x) (lvl_size x) \<noteq> OK then Inl (check_level (lvl_price x) (lvl_size x))
      else load_levels xs (l(lvl_price x := lvl_size x)))"

definition apply_snapshot :: "order_book \<Rightarrow> book_snapshot \<Rightarrow> order_book \<times> error_code" where
  "apply_snapshot b snap =
     (let c = clear b
      in case load_levels (snap_bids snap) (bids c) of
           Inl e \<Rightarrow> (clear c, e)
         | Inr bs \<Rightarrow>
             (case load_levels (snap_asks snap) (asks c) of
                Inl e \<Rightarrow> (clear (c\<lparr> bids := bs \<rparr>), e)
              | Inr sks \<Rightarrow>
                  (refresh_status_from_bbo (recompute_bbo (c\<lparr> bids := bs, asks := sks \<rparr>)), OK)))"

fun validate_changes :: "price_change list \<Rightarrow> error_code" where
  "validate_changes [] = OK"
| "validate_changes (ch # chs) =
     (if check_level (pc_price ch) (pc_size ch) \<noteq> OK then check_level (pc_price ch) (pc_size ch)
      else validate_changes chs)"

definition touches_best :: "bbo \<Rightarrow> price_change \<Rightarrow> qty \<Rightarrow> bool" where
  "touches_best q ch old_size =
     (case pc_side ch of
        BID \<Rightarrow> pc_price ch \<ge> best_bid q \<or> (old_size > 0 \<and> pc_size ch = 0)
      | ASK \<Rightarrow> best_ask q = kInvalidPrice \<or> pc_price ch \<le> best_ask q \<or>
               (old_size > 0 \<and> pc_size ch = 0))"

definition set_level :: "price_change \<Rightarrow> order_book \<Rightarrow> order_book" where
  "set_level ch b =
     (case pc_side ch of
        BID \<Rightarrow> b\<lparr> bids := (bids b)(pc_price ch := pc_size ch) \<rparr>
      | ASK \<Rightarrow> b\<lparr> asks := (asks b)(pc_price ch := pc_size ch) \<rparr>)"

definition level_of :: "price_change \<Rightarrow> order_book \<Rightarrow> qty" where
  "level_of ch b = (case pc_side ch of BID \<Rightarrow> bids b (pc_price ch) | ASK \<Rightarrow> asks b (pc_price ch))"

fun apply_levels :: "price_change list \<Rightarrow> order_book \<Rightarrow> bool \<Rightarrow> order_book \<times> bool" where
  "apply_levels [] b touched = (b, touched)"
| "apply_levels (ch # chs) b touched =
     apply_levels chs (set_level ch b) (touched \<or> touches_best (book_bbo b) ch (level_of ch b))"

definition apply_price_change :: "order_book \<Rightarrow> asset_price_change \<Rightarrow> order_book \<times> error_code" where
  "apply_price_change b chg =
     (if validate_changes (apc_changes chg) \<noteq> OK then (b, validate_changes (apc_changes chg))
      else
        let (b1, touched) = apply_levels (apc_changes chg) b False;
            b2 = (if touched then recompute_bbo b1 else b1)
        in (refresh_status_from_bbo b2, OK))"

definition set_tick_size :: "order_book \<Rightarrow> int \<Rightarrow> order_book" where
  "set_tick_size b ts = b\<lparr> tick_size := ts \<rparr>"

definition set_status :: "order_book \<Rightarrow> book_status \<Rightarrow> order_book" where
  "set_status b s = b\<lparr> status := s \<rparr>"

definition bid_qty_at :: "order_book \<Rightarrow> price \<Rightarrow> qty" where
  "bid_qty_at b p = (if p < kPriceMin \<or> p > kPriceMax then 0 else bids b p)"

definition ask_qty_at :: "order_book \<Rightarrow> price \<Rightarrow> qty" where
  "ask_qty_at b p = (if p < kPriceMin \<or> p > kPriceMax then 0 else asks b p)"

fun visit_levels :: "ladder \<Rightarrow> price list \<Rightarrow> (price \<times> qty) list" where
  "visit_levels l [] = []"
| "visit_levels l (p # ps) = (if l p > 0 then (p, l p) # visit_levels l ps else visit_levels l ps)"

fun visit_levels_n :: "ladder \<Rightarrow> int \<Rightarrow> int \<Rightarrow> price list \<Rightarrow> (price \<times> qty) list" where
  "visit_levels_n l count max_count [] = []"
| "visit_levels_n l count max_count (p # ps) =
     (if \<not> count < max_count then []
      else if l p > 0 then (p, l p) # visit_levels_n l (count + 1) max_count ps
      else visit_levels_n l count max_count ps)"

definition for_each_bid :: "order_book \<Rightarrow> (price \<times> qty) list" where
  "for_each_bid b = visit_levels (bids b) (rev price_range)"

definition for_each_ask :: "order_book \<Rightarrow> (price \<times> qty) list" where
  "for_each_ask b = visit_levels (asks b) price_range"

definition for_each_bid_n :: "order_book \<Rightarrow> int \<Rightarrow> (price \<times> qty) list" where
  "for_each_bid_n b max_count = visit_levels_n (bids b) 0 max_count (rev price_range)"

definition for_each_ask_n :: "order_book \<Rightarrow> int \<Rightarrow> (price \<times> qty) list" where
  "for_each_ask_n b max_count = visit_levels_n (asks b) 0 max_count price_range"

definition total_bid_qty :: "order_book \<Rightarrow> qty" where
  "total_bid_qty b = foldl (\<lambda>t p. t + bids b p) 0 price_range"

definition total_ask_qty :: "order_book \<Rightarrow> qty" where
  "total_ask_qty b = foldl (\<lambda>t p. t + asks b p) 0 price_range"

subsection \<open>Scans\<close>

lemma find_sorted_wrt:
  assumes "sorted_wrt R xs" "\<And>x y. R x y \<Longrightarrow> \<not> R y x"
  shows "find P xs = Some x \<longleftrightarrow> x \<in> set xs \<and> P x \<and> (\<forall>y \<in> set xs. R y x \<longrightarrow> \<not> P y)"
  using assms
proof (induction xs)
  case Nil
  then show ?case by simp
next
  case (Cons a xs)
  show ?case
  proof (cases "P a")
    case True
    with Cons.prems show ?thesis by auto
  next
    case False
    moreover have "\<not> R a a" using Cons.prems(2) by blast
    ultimately show ?thesis using Cons by auto
  qed
qed

lemma set_price_range [simp]: "set price_range = {kPriceMin..kPriceMax}"
  by (simp add: price_range_def)

lemma sorted_price_range: "sorted_wrt (<) price_range" "sorted_wrt (>) (rev price_range)"
proof -
  show "sorted_wrt (<) price_range" by (simp add: price_range_def)
  thus "sorted_wrt (>) (rev price_range)" by (simp add: sorted_wrt_rev)
qed

lemma scan_bid_Some:
  "scan_bid l = Some p \<longleftrightarrow>
     p \<in> {kPriceMin..kPriceMax} \<and> l p > 0 \<and> (\<forall>q \<in> {kPriceMin..kPriceMax}. q > p \<longrightarrow> \<not> l q > 0)"
  unfolding scan_bid_def by (subst find_sorted_wrt [OF sorted_price_range(2)]) auto

lemma scan_ask_Some:
  "scan_ask l = Some p \<longleftrightarrow>
     p \<in> {kPriceMin..kPriceMax} \<and> l p > 0 \<and> (\<forall>q \<in> {kPriceMin..kPriceMax}. q < p \<longrightarrow> \<not> l q > 0)"
  unfolding scan_ask_def by (subst find_sorted_wrt [OF sorted_price_range(1)]) auto

lemma scan_None:
  "scan_bid l = None \<longleftrightarrow> (\<forall>q \<in> {kPriceMin..kPriceMax}. \<not> l q > 0)"
  "scan_ask l = None \<longleftrightarrow> (\<forall>q \<in> {kPriceMin..kPriceMax}. \<not> l q > 0)"
  by (auto simp: scan_bid_def scan_ask_def find_None_iff)

lemma recompute_bbo_fields [simp]:
  "bids (recompute_bbo b) = bids b" "asks (recompute_bbo b) = asks b"
  "status (recompute_bbo b) = status b" "tick_size (recompute_bbo b) = tick_size b"
  by (simp_all add: recompute_bbo_def split: option.splits)

lemma set_level_fields [simp]:
  "book_bbo (set_level ch b) = book_bbo b" "status (set_level ch b) = status b"
  "tick_size (set_level ch b) = tick_size b"
  by (simp_all add: set_level_def split: side.splits)

text \<open>The best prices of a book are those of its ladders: the cached value is what a scan gives.\<close>

definition bbo_current :: "order_book \<Rightarrow> bool" where
  "bbo_current b \<longleftrightarrow> recompute_bbo b = b"

definition bbo_matches :: "ladder \<Rightarrow> ladder \<Rightarrow> bbo \<Rightarrow> bool" where
  "bbo_matches bl al q \<longleftrightarrow>
     (case scan_bid bl of
        None \<Rightarrow> best_bid q = kInvalidPrice \<and> bid_size q = 0
      | Some p \<Rightarrow> best_bid q = p \<and> bid_size q = bl p) \<and>
     (case scan_ask al of
        None \<Rightarrow> best_ask q = kInvalidPrice \<and> ask_size q = 0
      | Some p \<Rightarrow> best_ask q = p \<and> ask_size q = al p)"

lemma bbo_current_iff: "bbo_current b \<longleftrightarrow> bbo_matches (bids b) (asks b) (book_bbo b)"
  by (cases b; cases "book_bbo b")
    (auto simp: bbo_current_def bbo_matches_def recompute_bbo_def split: option.splits)

lemma bbo_current_recompute [simp]: "bbo_current (recompute_bbo b)"
  by (simp add: bbo_current_def recompute_bbo_def split: option.splits)

lemma bbo_current_refresh [simp]: "bbo_current (refresh_status_from_bbo b) \<longleftrightarrow> bbo_current b"
  by (simp add: bbo_current_iff refresh_status_from_bbo_def)

lemma bbo_current_status [simp]: "bbo_current (b\<lparr> status := s \<rparr>) \<longleftrightarrow> bbo_current b"
  by (simp add: bbo_current_iff)

lemma bbo_current_tick [simp]: "bbo_current (b\<lparr> tick_size := s \<rparr>) \<longleftrightarrow> bbo_current b"
  by (simp add: bbo_current_iff)

lemma scan_zero [simp]: "scan_bid (\<lambda>_. 0) = None" "scan_ask (\<lambda>_. 0) = None"
  by (simp_all add: scan_None)

lemma bbo_current_clear [simp]: "bbo_current (clear b)"
  by (simp add: bbo_current_iff bbo_matches_def clear_def empty_bbo_def)

lemma untouched_level_current:
  assumes cur: "bbo_current b" and ok: "check_level (pc_price ch) (pc_size ch) = OK"
    and nt: "\<not> touches_best (book_bbo b) ch (level_of ch b)"
  shows "bbo_current (set_level ch b)"
proof (cases "pc_side ch")
  case BID
  let ?p = "best_bid (book_bbo b)"
  have lt: "pc_price ch < ?p" "kPriceMin \<le> pc_price ch"
    using nt ok BID by (auto simp: touches_best_def check_level_def split: if_splits)
  hence scan: "scan_bid (bids b) = Some ?p"
    using cur by (auto simp: bbo_current_iff bbo_matches_def price_consts split: option.splits)
  hence "scan_bid ((bids b)(pc_price ch := pc_size ch)) = Some ?p"
    using lt by (auto simp: scan_bid_Some)
  with cur scan lt BID show ?thesis by (simp add: bbo_current_iff bbo_matches_def set_level_def)
next
  case ASK
  let ?p = "best_ask (book_bbo b)"
  have lt: "?p < pc_price ch" "?p \<noteq> kInvalidPrice"
    using nt ASK by (auto simp: touches_best_def)
  hence scan: "scan_ask (asks b) = Some ?p"
    using cur by (auto simp: bbo_current_iff bbo_matches_def split: option.splits)
  hence "scan_ask ((asks b)(pc_price ch := pc_size ch)) = Some ?p"
    using lt by (auto simp: scan_ask_Some)
  with cur scan lt ASK show ?thesis by (simp add: bbo_current_iff bbo_matches_def set_level_def)
qed

lemma apply_levels_touched: "snd (apply_levels chs b True)"
  by (induction chs arbitrary: b) simp_all

lemma apply_levels_current:
  assumes "bbo_current b" "validate_changes chs = OK" "\<not> snd (apply_levels chs b t)"
  shows "bbo_current (fst (apply_levels chs b t))"
  using assms
proof (induction chs arbitrary: b t)
  case Nil
  then show ?case by simp
next
  case (Cons ch chs)
  let ?t = "touches_best (book_bbo b) ch (level_of ch b)"
  have "\<not> ?t" using Cons.prems(3) apply_levels_touched by (cases ?t) auto
  moreover have "check_level (pc_price ch) (pc_size ch) = OK" "validate_changes chs = OK"
    using Cons.prems(2) by (auto split: if_splits)
  ultimately show ?case
    using Cons.IH [of "set_level ch b"] Cons.prems untouched_level_current by auto
qed

lemma apply_levels_fst: "fst (apply_levels chs b t) = fold set_level chs b"
  by (induction chs arbitrary: b t) simp_all

subsection \<open>Well-formed books\<close>

definition ladder_ok :: "ladder \<Rightarrow> bool" where
  "ladder_ok l \<longleftrightarrow> (\<forall>p. 0 \<le> l p \<and> (p < kPriceMin \<or> kPriceMax < p \<longrightarrow> l p = 0))"

definition book_inv :: "order_book \<Rightarrow> bool" where
  "book_inv b \<longleftrightarrow> bbo_current b \<and> ladder_ok (bids b) \<and> ladder_ok (asks b)"

lemma check_level_OK: "check_level p s = OK \<longleftrightarrow> kPriceMin \<le> p \<and> p \<le> kPriceMax \<and> 0 \<le> s"
  by (auto simp: check_level_def)

lemma ladder_ok_zero [simp]: "ladder_ok (\<lambda>_. 0)"
  by (simp add: ladder_ok_def)

lemma ladder_ok_upd: "ladder_ok l \<Longrightarrow> check_level p s = OK \<Longrightarrow> ladder_ok (l(p := s))"
  by (auto simp: ladder_ok_def check_level_OK)

lemma load_levels_ok: "ladder_ok l \<Longrightarrow> load_levels xs l = Inr l' \<Longrightarrow> ladder_ok l'"
proof (induction xs arbitrary: l)
  case Nil
  then show ?case by simp
next
  case (Cons x xs)
  then show ?case using ladder_ok_upd [of l] by (auto split: if_splits simp del: fun_upd_apply)
qed

lemma load_levels_Inl: "load_levels xs l = Inl e \<Longrightarrow> e \<noteq> OK"
  by (induction xs arbitrary: l) (auto split: if_splits)

lemma fold_set_level_ok:
  "ladder_ok (bids b) \<Longrightarrow> ladder_ok (asks b) \<Longrightarrow> validate_changes chs = OK \<Longrightarrow>
   ladder_ok (bids (fold set_level chs b)) \<and> ladder_ok (asks (fold set_level chs b))"
  by (induction chs arbitrary: b) (auto simp: set_level_def ladder_ok_upd split: if_splits side.splits)

lemma refresh_fields [simp]:
  "bids (refresh_status_from_bbo b) = bids b" "asks (refresh_status_from_bbo b) = asks b"
  "book_bbo (refresh_status_from_bbo b) = book_bbo b"
  "tick_size (refresh_status_from_bbo b) = tick_size b"
  "status (refresh_status_from_bbo b) = status_of_bbo (book_bbo b)"
  by (simp_all add: refresh_status_from_bbo_def)

lemma book_inv_clear [simp]: "book_inv (clear b)"
  by (simp add: book_inv_def) (simp add: clear_def)

lemma book_inv_new [simp]: "book_inv new_order_book"
  by (simp add: new_order_book_def)

lemma book_inv_tick [simp]: "book_inv (set_tick_size b ts) \<longleftrightarrow> book_inv b"
  by (simp add: book_inv_def set_tick_size_def)

lemma book_inv_status [simp]: "book_inv (set_status b s) \<longleftrightarrow> book_inv b"
  by (simp add: book_inv_def set_status_def)

lemma book_inv_refreshed:
  "ladder_ok (bids b) \<Longrightarrow> ladder_ok (asks b) \<Longrightarrow>
   book_inv (refresh_status_from_bbo (recompute_bbo b))"
  by (simp add: book_inv_def)

lemma book_inv_snapshot: "book_inv (fst (apply_snapshot b snap))"
proof -
  have l: "load_levels xs (\<lambda>_. 0) = Inr l \<Longrightarrow> ladder_ok l" for xs l
    using load_levels_ok [of "\<lambda>_. 0"] by simp
  have "bids (clear b) = (\<lambda>_. 0)" "asks (clear b) = (\<lambda>_. 0)" by (simp_all add: clear_def)
  thus ?thesis
    by (auto simp: apply_snapshot_def Let_def l intro!: book_inv_refreshed split: sum.splits)
qed

text \<open>Phase two of \<open>apply_price_change\<close> with the recomputation always done.\<close>

lemma apply_price_change_ok:
  assumes "bbo_current b" "validate_changes (apc_changes chg) = OK"
  shows "apply_price_change b chg =
    (refresh_status_from_bbo (recompute_bbo (fold set_level (apc_changes chg) b)), OK)"
proof -
  obtain b1 t where bt: "apply_levels (apc_changes chg) b False = (b1, t)" by force
  have b1: "b1 = fold set_level (apc_changes chg) b"
    using apply_levels_fst [of "apc_changes chg" b False] bt by simp
  have "\<not> t \<Longrightarrow> recompute_bbo b1 = b1"
    using apply_levels_current [OF assms, of False] bt by (simp add: bbo_current_def)
  with b1 bt assms(2) show ?thesis by (simp add: apply_price_change_def)
qed

lemma apply_price_change_err:
  "validate_changes (apc_changes chg) \<noteq> OK \<Longrightarrow>
   apply_price_change b chg = (b, validate_changes (apc_changes chg))"
  by (simp add: apply_price_change_def)

lemma book_inv_price_change: "book_inv b \<Longrightarrow> book_inv (fst (apply_price_change b chg))"
  using fold_set_level_ok [of b "apc_changes chg"]
  by (cases "validate_changes (apc_changes chg) = OK")
    (auto simp: apply_price_change_ok apply_price_change_err book_inv_def)

subsection \<open>Sequences of operations\<close>

datatype book_op =
    OpSnapshot book_snapshot
  | OpPriceChange asset_price_change
  | OpTickSize int
  | OpStatus book_status
  | OpClear

fun run_book_op :: "book_op \<Rightarrow> order_book \<Rightarrow> order_book" where
  "run_book_op (OpSnapshot snap) b = fst (apply_snapshot b snap)"
| "run_book_op (OpPriceChange chg) b = fst (apply_price_change b chg)"
| "run_book_op (OpTickSize ts) b = set_tick_size b ts"
| "run_book_op (OpStatus s) b = set_status b s"
| "run_book_op OpClear b = clear b"

lemma book_inv_op: "book_inv b \<Longrightarrow> book_inv (run_book_op op b)"
  by (cases op) (simp_all add: book_inv_snapshot book_inv_price_change)

lemma book_inv_ops: "book_inv b \<Longrightarrow> book_inv (fold run_book_op ops b)"
  by (induction ops arbitrary: b) (simp_all add: book_inv_op)

text \<open>What it means for a price and a size to be the best of one side, over the sizes that the
  accessor of that side reports.\<close>

definition best_bid_spec :: "(price \<Rightarrow> qty) \<Rightarrow> price \<Rightarrow> qty \<Rightarrow> bool" where
  "best_bid_spec qty_at p s \<longleftrightarrow>
     (p = kInvalidPrice \<and> s = 0 \<and> (\<forall>q. qty_at q = 0)) \<or>
     (0 < s \<and> qty_at p = s \<and> (\<forall>q > p. qty_at q = 0))"

definition best_ask_spec :: "(price \<Rightarrow> qty) \<Rightarrow> price \<Rightarrow> qty \<Rightarrow> bool" where
  "best_ask_spec qty_at p s \<longleftrightarrow>
     (p = kInvalidPrice \<and> s = 0 \<and> (\<forall>q. qty_at q = 0)) \<or>
     (0 < s \<and> qty_at p = s \<and> (\<forall>q < p. qty_at q = 0))"

lemma ladder_ok_nonzero: "ladder_ok l \<Longrightarrow> l p \<noteq> 0 \<Longrightarrow> 0 < l p \<and> p \<in> {kPriceMin..kPriceMax}"
  unfolding ladder_ok_def by (metis atLeastAtMost_iff not_le order_le_less)

lemma qty_at_eq: "ladder_ok (bids b) \<Longrightarrow> bid_qty_at b = bids b"
  "ladder_ok (asks b) \<Longrightarrow> ask_qty_at b = asks b"
  by (auto simp: bid_qty_at_def ask_qty_at_def ladder_ok_def)

lemma scan_bid_best:
  assumes "ladder_ok l"
  shows "scan_bid l = None \<Longrightarrow> best_bid_spec l kInvalidPrice 0"
    "scan_bid l = Some p \<Longrightarrow> best_bid_spec l p (l p)"
  using ladder_ok_nonzero [OF assms] unfolding best_bid_spec_def scan_None scan_bid_Some by blast+

lemma scan_ask_best:
  assumes "ladder_ok l"
  shows "scan_ask l = None \<Longrightarrow> best_ask_spec l kInvalidPrice 0"
    "scan_ask l = Some p \<Longrightarrow> best_ask_spec l p (l p)"
  using ladder_ok_nonzero [OF assms] unfolding best_ask_spec_def scan_None scan_ask_Some by blast+

lemma book_inv_best:
  assumes "book_inv b"
  shows "best_bid_spec (bid_qty_at b) (best_bid (book_bbo b)) (bid_size (book_bbo b))"
    "best_ask_spec (ask_qty_at b) (best_ask (book_bbo b)) (ask_size (book_bbo b))"
  using assms scan_bid_best [of "bids b"] scan_ask_best [of "asks b"]
  by (auto simp: book_inv_def bbo_current_iff bbo_matches_def qty_at_eq split: option.splits)

subsection \<open>Levels after an accepted update\<close>

definition last_change :: "side \<Rightarrow> price \<Rightarrow> price_change list \<Rightarrow> price_change option" where
  "last_change sd p chs = find (\<lambda>ch. pc_side ch = sd \<and> pc_price ch = p) (rev chs)"

lemma find_append: "find P (xs @ ys) = (case find P xs of None \<Rightarrow> find P ys | Some x \<Rightarrow> Some x)"
  by (induction xs) auto

lemma last_change_Cons:
  "last_change sd p (ch # chs) =
     (case last_change sd p chs of
        None \<Rightarrow> if pc_side ch = sd \<and> pc_price ch = p then Some ch else None
      | Some c \<Rightarrow> Some c)"
  by (simp add: last_change_def find_append split: option.splits)

lemma set_level_at:
  "bids (set_level ch b) p = (if pc_side ch = BID \<and> pc_price ch = p then pc_size ch else bids b p)"
  "asks (set_level ch b) p = (if pc_side ch = ASK \<and> pc_price ch = p then pc_size ch else asks b p)"
  by (auto simp: set_level_def split: side.splits)

lemma fold_set_level_at:
  "bids (fold set_level chs b) p =
     (case last_change BID p chs of None \<Rightarrow> bids b p | Some ch \<Rightarrow> pc_size ch)"
  "asks (fold set_level chs b) p =
     (case last_change ASK p chs of None \<Rightarrow> asks b p | Some ch \<Rightarrow> pc_size ch)"
proof (induction chs arbitrary: b)
  case Nil
  { case 1 show ?case by (simp add: last_change_def) }
  { case 2 show ?case by (simp add: last_change_def) }
next
  case (Cons ch chs)
  { case 1 show ?case
      by (simp add: Cons(1) last_change_Cons set_level_at split: option.splits) }
  { case 2 show ?case
      by (simp add: Cons(2) last_change_Cons set_level_at split: option.splits) }
qed

lemma validate_changes_OK:
  "validate_changes chs = OK \<longleftrightarrow>
     (\<forall>ch \<in> set chs. kPriceMin \<le> pc_price ch \<and> pc_price ch \<le> kPriceMax \<and> 0 \<le> pc_size ch)"
  by (induction chs) (auto simp: check_level_OK)

subsection \<open>Iteration\<close>

lemma visit_levels_eq: "visit_levels l ps = map (\<lambda>p. (p, l p)) (filter (\<lambda>p. l p > 0) ps)"
  by (induction ps) auto

lemma visit_levels_n_eq: "visit_levels_n l c m ps = take (nat (m - c)) (visit_levels l ps)"
proof (induction ps arbitrary: c)
  case Nil
  then show ?case by simp
next
  case (Cons p ps)
  have "c < m \<Longrightarrow> nat (m - c) = Suc (nat (m - (c + 1)))" by linarith
  with Cons show ?case by auto
qed

lemma sorted_wrt_filter_map:
  "sorted_wrt R ps \<Longrightarrow> sorted_wrt (\<lambda>x y. R (fst x) (fst y)) (visit_levels l ps)"
  by (simp add: visit_levels_eq sorted_wrt_map sorted_wrt_filter)

lemma hd_visit: "find (\<lambda>p. l p > 0) ps = (case visit_levels l ps of [] \<Rightarrow> None | x # _ \<Rightarrow> Some (fst x))"
  by (induction ps) auto

lemma visit_levels_mem: "(p, s) \<in> set (visit_levels l ps) \<longleftrightarrow> p \<in> set ps \<and> 0 < s \<and> l p = s"
  by (auto simp: visit_levels_eq)

subsection \<open>Properties\<close>

text \<open>C1: After every sequence of snapshots, price changes, tick-size and status changes and
  clears, accepted or rejected, the cached best bid is the highest bid price with a positive size,
  and the cached best ask the lowest such ask price, each with its size; a side without quantity has
  the invalid price and size 0.\<close>

theorem book_bbo_is_best:
  "let b = fold run_book_op ops new_order_book; q = book_bbo b
   in best_bid_spec (bid_qty_at b) (best_bid q) (bid_size q) \<and>
      best_ask_spec (ask_qty_at b) (best_ask q) (ask_size q)"
  using book_inv_best [OF book_inv_ops [OF book_inv_new]] by (simp add: Let_def)

definition apply_price_change_ref :: "order_book \<Rightarrow> asset_price_change \<Rightarrow> order_book \<times> error_code" where
  "apply_price_change_ref b chg =
     (if validate_changes (apc_changes chg) \<noteq> OK then (b, validate_changes (apc_changes chg))
      else (refresh_status_from_bbo (recompute_bbo (fold set_level (apc_changes chg) b)), OK))"

text \<open>C2: The update that recomputes the best prices only when touches_best was set gives the same
  book as the update that always recomputes them, on every book whose best prices are current.\<close>

theorem apply_price_change_conditional_recompute:
  assumes "book_inv b"
  shows "apply_price_change b chg = apply_price_change_ref b chg"
  using assms by (auto simp: book_inv_def apply_price_change_ref_def apply_price_change_ok
      apply_price_change_err)

theorem apply_price_change_conditional_recompute_witness:
  "apply_price_change new_order_book
     \<lparr> apc_asset_id = ''a'', apc_best_bid = 0, apc_best_ask = 0,
       apc_changes = [\<lparr> pc_price = 5200, pc_side = BID, pc_size = 7 \<rparr>] \<rparr> =
   apply_price_change_ref new_order_book
     \<lparr> apc_asset_id = ''a'', apc_best_bid = 0, apc_best_ask = 0,
       apc_changes = [\<lparr> pc_price = 5200, pc_side = BID, pc_size = 7 \<rparr>] \<rparr>"
  by (rule apply_price_change_conditional_recompute) simp

text \<open>A batch with an invalid price or a negative size leaves the book as it was and reports an
  error; an accepted batch sets every level to the size of the last change for it, leaves the other
  levels alone, and derives the status from the new best prices.\<close>

theorem apply_price_change_levels:
  assumes "book_inv b"
  shows "case apply_price_change b chg of (b', e) \<Rightarrow>
    if list_all (\<lambda>ch. check_level (pc_price ch) (pc_size ch) = OK) (apc_changes chg)
    then e = OK \<and>
      bids b' = (\<lambda>p. case last_change BID p (apc_changes chg) of None \<Rightarrow> bids b p | Some ch \<Rightarrow> pc_size ch) \<and>
      asks b' = (\<lambda>p. case last_change ASK p (apc_changes chg) of None \<Rightarrow> asks b p | Some ch \<Rightarrow> pc_size ch) \<and>
      status b' = status_of_bbo (book_bbo b') \<and> tick_size b' = tick_size b
    else e \<noteq> OK \<and> b' = b"
proof -
  have v: "list_all (\<lambda>ch. check_level (pc_price ch) (pc_size ch) = OK) chs \<longleftrightarrow> validate_changes chs = OK"
    for chs by (auto simp: validate_changes_OK check_level_OK list_all_iff)
  have t: "tick_size (fold set_level chs b) = tick_size b" for chs
    by (induction chs rule: rev_induct) simp_all
  show ?thesis using assms
    by (auto simp: v t fun_eq_iff fold_set_level_at book_inv_def apply_price_change_ok apply_price_change_err)
qed

theorem apply_price_change_levels_witness:
  "apply_price_change new_order_book
     \<lparr> apc_asset_id = ''a'', apc_best_bid = 0, apc_best_ask = 0,
       apc_changes = [\<lparr> pc_price = 10001, pc_side = BID, pc_size = 7 \<rparr>] \<rparr> =
   (new_order_book, BOOK_INVALID_PRICE)"
  using apply_price_change_levels [of new_order_book
     "\<lparr> apc_asset_id = ''a'', apc_best_bid = 0, apc_best_ask = 0,
       apc_changes = [\<lparr> pc_price = 10001, pc_side = BID, pc_size = 7 \<rparr>] \<rparr>"]
  by (auto simp: check_level_def price_consts apply_price_change_def)

text \<open>A full iteration of a side visits exactly the levels with a positive size, bids from
  the highest price down and asks from the lowest up, and the top-n iterations visit exactly the
  first n of these levels.\<close>

theorem for_each_n_prefix:
  "for_each_bid_n b n = take (nat n) (for_each_bid b) \<and>
   for_each_ask_n b n = take (nat n) (for_each_ask b) \<and>
   sorted_wrt (\<lambda>x y. fst x > fst y) (for_each_bid b) \<and>
   sorted_wrt (\<lambda>x y. fst x < fst y) (for_each_ask b) \<and>
   set (for_each_bid b) = {(p, s). 0 < s \<and> bid_qty_at b p = s} \<and>
   set (for_each_ask b) = {(p, s). 0 < s \<and> ask_qty_at b p = s}"
  using sorted_wrt_filter_map [OF sorted_price_range(1), of "asks b"]
    sorted_wrt_filter_map [OF sorted_price_range(2), of "bids b"]
  by (auto simp: for_each_bid_n_def for_each_ask_n_def for_each_bid_def for_each_ask_def
      visit_levels_n_eq visit_levels_mem bid_qty_at_def ask_qty_at_def)

end
