(* ===== verification/Market_Pair.thy ===== *)
theory Market_Pair
  imports LT_Types
begin

section \<open>Market pairs and the pair registry\<close>

text \<open>
  src/src/common/market_pair.h.  A binary market has an UP and a DOWN token; the registry keeps three
  maps (condition to pair, token to condition, token to complement).  The lemmas: \<open>add_pair\<close> keeps
  the three maps consistent, so that the complement is an involution without fixed points whose
  orbits are exactly the registered pairs, and a registration is never changed by a later one.
\<close>

record market_pair =
  mp_condition_id :: asset_id
  token_id_up :: asset_id
  token_id_down :: asset_id
  mp_neg_risk :: bool
  mp_fee_rate_bps :: int

definition get_complement_price :: "price \<Rightarrow> price expected" where
  "get_complement_price p =
     (if p < kPriceMin \<or> p > kPriceMax then Err OUT_OF_RANGE else Value (kPriceScale - p))"

record market_pair_registry =
  reg_frozen :: bool
  by_condition :: "asset_id \<rightharpoonup> market_pair"
  condition_by_token :: "asset_id \<rightharpoonup> asset_id"
  complement_by_token :: "asset_id \<rightharpoonup> asset_id"

definition empty_registry :: market_pair_registry where
  "empty_registry =
     \<lparr> reg_frozen = False, by_condition = Map.empty, condition_by_token = Map.empty,
       complement_by_token = Map.empty \<rparr>"

text \<open>\<open>emplace\<close> does not replace an existing entry.\<close>

definition emplace :: "('k \<rightharpoonup> 'v) \<Rightarrow> 'k \<Rightarrow> 'v \<Rightarrow> ('k \<rightharpoonup> 'v)" where
  "emplace m k v = (if m k = None then m(k \<mapsto> v) else m)"

definition add_pair :: "market_pair_registry \<Rightarrow> market_pair \<Rightarrow> market_pair_registry \<times> bool" where
  "add_pair r pair =
     (if reg_frozen r then (r, False)
      else if mp_condition_id pair = [] \<or> token_id_up pair = [] \<or> token_id_down pair = [] then (r, False)
      else if token_id_up pair = token_id_down pair then (r, False)
      else if by_condition r (mp_condition_id pair) \<noteq> None then (r, False)
      else if condition_by_token r (token_id_up pair) \<noteq> None then (r, False)
      else if condition_by_token r (token_id_down pair) \<noteq> None then (r, False)
      else
        (r\<lparr> by_condition := emplace (by_condition r) (mp_condition_id pair) pair,
            condition_by_token :=
              emplace (emplace (condition_by_token r) (token_id_up pair) (mp_condition_id pair))
                (token_id_down pair) (mp_condition_id pair),
            complement_by_token :=
              emplace (emplace (complement_by_token r) (token_id_up pair) (token_id_down pair))
                (token_id_down pair) (token_id_up pair) \<rparr>, True))"

definition add_pair_ids ::
  "market_pair_registry \<Rightarrow> asset_id \<Rightarrow> asset_id \<Rightarrow> asset_id \<Rightarrow> market_pair_registry \<times> bool" where
  "add_pair_ids r condition_id up down =
     add_pair r \<lparr> mp_condition_id = condition_id, token_id_up = up, token_id_down = down,
                  mp_neg_risk = False, mp_fee_rate_bps = 0 \<rparr>"

definition find_by_condition :: "market_pair_registry \<Rightarrow> asset_id \<Rightarrow> market_pair option" where
  "find_by_condition r c = by_condition r c"

definition condition_for_token :: "market_pair_registry \<Rightarrow> asset_id \<Rightarrow> asset_id option" where
  "condition_for_token r t = condition_by_token r t"

definition get_complement_token :: "market_pair_registry \<Rightarrow> asset_id \<Rightarrow> asset_id option" where
  "get_complement_token r t = complement_by_token r t"

definition registry_size :: "market_pair_registry \<Rightarrow> nat" where
  "registry_size r = card (dom (by_condition r))"

definition freeze_registry :: "market_pair_registry \<Rightarrow> market_pair_registry" where
  "freeze_registry r = r\<lparr> reg_frozen := True \<rparr>"

subsection \<open>Consistency\<close>

definition registry_inv :: "market_pair_registry \<Rightarrow> bool" where
  "registry_inv r \<longleftrightarrow>
     (\<forall>c pr. by_condition r c = Some pr \<longrightarrow>
        mp_condition_id pr = c \<and> token_id_up pr \<noteq> token_id_down pr \<and>
        condition_by_token r (token_id_up pr) = Some c \<and>
        condition_by_token r (token_id_down pr) = Some c \<and>
        complement_by_token r (token_id_up pr) = Some (token_id_down pr) \<and>
        complement_by_token r (token_id_down pr) = Some (token_id_up pr)) \<and>
     (\<forall>t c. condition_by_token r t = Some c \<longrightarrow>
        (\<exists>pr. by_condition r c = Some pr \<and> (t = token_id_up pr \<or> t = token_id_down pr))) \<and>
     dom (complement_by_token r) = dom (condition_by_token r)"

lemma registry_inv_empty [simp]: "registry_inv empty_registry"
  by (simp add: registry_inv_def empty_registry_def)

lemma registry_inv_freeze [simp]: "registry_inv (freeze_registry r) \<longleftrightarrow> registry_inv r"
  by (simp add: registry_inv_def freeze_registry_def)

lemma add_pair_accepted:
  assumes "snd (add_pair r pair)"
  shows "fst (add_pair r pair) =
      r\<lparr> by_condition := emplace (by_condition r) (mp_condition_id pair) pair,
         condition_by_token :=
           emplace (emplace (condition_by_token r) (token_id_up pair) (mp_condition_id pair))
             (token_id_down pair) (mp_condition_id pair),
         complement_by_token :=
           emplace (emplace (complement_by_token r) (token_id_up pair) (token_id_down pair))
             (token_id_down pair) (token_id_up pair) \<rparr>"
    "token_id_up pair \<noteq> token_id_down pair" "by_condition r (mp_condition_id pair) = None"
    "condition_by_token r (token_id_up pair) = None" "condition_by_token r (token_id_down pair) = None"
    "\<not> reg_frozen r"
  using assms by (auto simp: add_pair_def split: if_splits)

lemma add_pair_rejected: "\<not> snd (add_pair r pair) \<Longrightarrow> fst (add_pair r pair) = r"
  by (auto simp: add_pair_def split: if_splits)

lemma add_pair_maps:
  assumes "snd (add_pair r pair)" "dom (complement_by_token r) = dom (condition_by_token r)"
  shows "by_condition (fst (add_pair r pair)) = (by_condition r)(mp_condition_id pair \<mapsto> pair)"
    "condition_by_token (fst (add_pair r pair)) =
       (condition_by_token r)(token_id_up pair \<mapsto> mp_condition_id pair, token_id_down pair \<mapsto> mp_condition_id pair)"
    "complement_by_token (fst (add_pair r pair)) =
       (complement_by_token r)(token_id_up pair \<mapsto> token_id_down pair, token_id_down pair \<mapsto> token_id_up pair)"
proof -
  note acc = add_pair_accepted [OF assms(1)]
  have "complement_by_token r (token_id_up pair) = None" "complement_by_token r (token_id_down pair) = None"
    using acc(4,5) assms(2) by (metis domIff)+
  with acc show
    "by_condition (fst (add_pair r pair)) = (by_condition r)(mp_condition_id pair \<mapsto> pair)"
    "condition_by_token (fst (add_pair r pair)) =
       (condition_by_token r)(token_id_up pair \<mapsto> mp_condition_id pair, token_id_down pair \<mapsto> mp_condition_id pair)"
    "complement_by_token (fst (add_pair r pair)) =
       (complement_by_token r)(token_id_up pair \<mapsto> token_id_down pair, token_id_down pair \<mapsto> token_id_up pair)"
    by (simp_all add: emplace_def)
qed

lemma registry_inv_add: "registry_inv r \<Longrightarrow> registry_inv (fst (add_pair r pair))"
proof (cases "snd (add_pair r pair)")
  case False
  then show "registry_inv r \<Longrightarrow> ?thesis" by (simp add: add_pair_rejected)
next
  case True
  assume inv: "registry_inv r"
  note acc = add_pair_accepted [OF True]
  have maps: "dom (complement_by_token r) = dom (condition_by_token r)"
    using inv by (simp add: registry_inv_def)
  have fresh: "token_id_up pr \<notin> {token_id_up pair, token_id_down pair} \<and>
      token_id_down pr \<notin> {token_id_up pair, token_id_down pair}"
    if "by_condition r c = Some pr" for c pr
    using inv that acc(4,5) by (force simp: registry_inv_def)
  from inv fresh acc(2,3) show ?thesis
    by (simp add: registry_inv_def add_pair_maps [OF True maps]) (metis option.distinct(1))
qed

fun run_adds :: "market_pair list \<Rightarrow> market_pair_registry \<Rightarrow> market_pair_registry" where
  "run_adds [] r = r"
| "run_adds (p # ps) r = run_adds ps (fst (add_pair r p))"

lemma registry_inv_run_adds: "registry_inv r \<Longrightarrow> registry_inv (run_adds ps r)"
  by (induction ps arbitrary: r) (simp_all add: registry_inv_add)

lemma registry_complement:
  assumes "registry_inv r" "get_complement_token r t = Some u"
  shows "u \<noteq> t" "get_complement_token r u = Some t" "condition_for_token r u = condition_for_token r t"
proof -
  from assms have "t \<in> dom (condition_by_token r)"
    unfolding registry_inv_def get_complement_token_def by blast
  then obtain c pr where "condition_by_token r t = Some c" "by_condition r c = Some pr"
      "t = token_id_up pr \<or> t = token_id_down pr"
    using assms(1) unfolding registry_inv_def by blast
  with assms show "u \<noteq> t" "get_complement_token r u = Some t"
    "condition_for_token r u = condition_for_token r t"
    unfolding registry_inv_def get_complement_token_def condition_for_token_def
    by (metis option.inject)+
qed

lemma complement_price_involution:
  "get_complement_price p = Value q \<Longrightarrow> get_complement_price q = Value p \<and> p + q = kPriceScale"
  by (auto simp: get_complement_price_def price_consts split: if_splits)

text \<open>In every registry built from the empty one by registrations, the complement of a token is
  another token of the same condition, and the complement of the complement is the token itself.\<close>

theorem complement_token_involution:
  assumes "r = run_adds pairs empty_registry" and "get_complement_token r t = Some u"
  shows "u \<noteq> t \<and> get_complement_token r u = Some t \<and>
    condition_for_token r u = condition_for_token r t \<and> condition_for_token r t \<noteq> None"
proof -
  have inv: "registry_inv r" using assms(1) by (simp add: registry_inv_run_adds)
  moreover have "t \<in> dom (condition_by_token r)"
    using inv assms(2) unfolding registry_inv_def get_complement_token_def by blast
  ultimately show ?thesis using registry_complement [OF inv assms(2)]
    by (auto simp: condition_for_token_def)
qed

theorem complement_token_involution_witness:
  "get_complement_token (run_adds
     [\<lparr> mp_condition_id = ''c'', token_id_up = ''u'', token_id_down = ''d'',
        mp_neg_risk = False, mp_fee_rate_bps = 0 \<rparr>] empty_registry) ''d'' = Some ''u''"
  using complement_token_involution [OF refl, of
     "[\<lparr> mp_condition_id = ''c'', token_id_up = ''u'', token_id_down = ''d'',
        mp_neg_risk = False, mp_fee_rate_bps = 0 \<rparr>]" "''u''" "''d''"]
  by (simp add: add_pair_def empty_registry_def emplace_def get_complement_token_def)

end
