(* ===== verification/Exec_Types.thy ===== *)
theory Exec_Types
  imports LT_Types
begin

section \<open>Execution intents and feedback\<close>

text \<open>
  src/src/exec/exec_intent.h and src/src/exec/exec_feedback.h: the messages between the strategy
  thread and the execution gateway.
\<close>

datatype exec_intent_type = PLACE_ORDER | CANCEL_ORDER | CANCEL_ALL | REPLACE_ORDER | HEARTBEAT

record exec_intent =
  xi_type :: exec_intent_type
  xi_asset_id :: asset_id
  xi_market_id :: asset_id
  xi_client_order_id :: order_id
  xi_exchange_order_id :: order_id
  xi_side :: side
  xi_price :: price
  xi_size :: qty
  xi_order_type :: order_type
  xi_intent_id :: nat
  xi_created_ts :: timestamp
  xi_recv_ts :: timestamp
  xi_neg_risk :: bool
  xi_fee_rate_bps :: int
  xi_expiration :: int

definition new_intent :: exec_intent where
  "new_intent =
     \<lparr> xi_type = PLACE_ORDER, xi_asset_id = [], xi_market_id = [], xi_client_order_id = [],
       xi_exchange_order_id = [], xi_side = BID, xi_price = 0, xi_size = 0, xi_order_type = GTC,
       xi_intent_id = 0, xi_created_ts = 0, xi_recv_ts = 0, xi_neg_risk = False,
       xi_fee_rate_bps = 0, xi_expiration = 0 \<rparr>"

datatype exec_feedback_kind =
    REQUEST_SENT | ORDER_ACCEPTED | ORDER_REJECTED | CANCEL_CONFIRMED | RATE_LIMITED
  | EXCHANGE_UNAVAILABLE | FB_TIMEOUT | HEARTBEAT_OK | HEARTBEAT_FAILED
  | GATEWAY_DEGRADED | GATEWAY_RECOVERED

record exec_feedback =
  fb_kind :: exec_feedback_kind
  fb_intent_id :: nat
  fb_client_order_id :: order_id
  fb_exchange_order_id :: order_id
  fb_http_status :: int
  fb_latency_ns :: timestamp
  fb_created_ts :: timestamp
  fb_error_msg :: string

definition new_feedback :: exec_feedback where
  "new_feedback =
     \<lparr> fb_kind = REQUEST_SENT, fb_intent_id = 0, fb_client_order_id = [], fb_exchange_order_id = [],
       fb_http_status = 0, fb_latency_ns = 0, fb_created_ts = 0, fb_error_msg = [] \<rparr>"

text \<open>The message is copied up to its terminator, at most 127 characters of it.\<close>

definition set_error :: "exec_feedback \<Rightarrow> string \<Rightarrow> exec_feedback" where
  "set_error fb msg =
     fb\<lparr> fb_error_msg := take 127 (takeWhile (\<lambda>c. of_char c \<noteq> (0::nat)) msg) \<rparr>"

end
