(* ===== verification/Token_Inventory.thy ===== *)
theory Token_Inventory
  imports Exec_Types
begin

section \<open>Token inventory\<close>

text \<open>
  src/src/common/token_inventory.h and src/src/exec/inventory_safety.h.  Positions per token shared by
  the fill ingestion, the execution safety checks and the inventory service.  The operations are
  serialised by the locks of the class, so each is one state transformer; the positions wrap at
  64 bits as \<open>fetch_add\<close> does.  \<open>inventory_view\<close> is the interface the gateway and the strategies
  read: the laws a reader relies on, interpreted on the class below.
\<close>

record token_inventory =
  inv_frozen :: bool
  positions :: "asset_id \<rightharpoonup> qty"
  usdc_balance :: int
  our_order_ids :: "order_id set"

definition empty_inventory :: token_inventory where
  "empty_inventory =
     \<lparr> inv_frozen = False, positions = Map.empty, usdc_balance = 0, our_order_ids = {} \<rparr>"

definition register_token :: "token_inventory \<Rightarrow> asset_id \<Rightarrow> token_inventory" where
  "register_token v t =
     (if inv_frozen v then v
      else if positions v t = None then v\<lparr> positions := (positions v)(t \<mapsto> 0) \<rparr>
      else v)"

definition position_for :: "token_inventory \<Rightarrow> asset_id \<Rightarrow> qty" where
  "position_for v t = (case positions v t of None \<Rightarrow> 0 | Some q \<Rightarrow> q)"

definition adjust_position :: "token_inventory \<Rightarrow> asset_id \<Rightarrow> qty \<Rightarrow> token_inventory" where
  "adjust_position v t delta =
     (case positions v t of
        None \<Rightarrow> v
      | Some q \<Rightarrow> v\<lparr> positions := (positions v)(t \<mapsto> wrap64 (q + delta)) \<rparr>)"

definition set_position :: "token_inventory \<Rightarrow> asset_id \<Rightarrow> qty \<Rightarrow> token_inventory" where
  "set_position v t q =
     (case positions v t of
        Some _ \<Rightarrow> v\<lparr> positions := (positions v)(t \<mapsto> q) \<rparr>
      | None \<Rightarrow> if inv_frozen v then v else v\<lparr> positions := (positions v)(t \<mapsto> q) \<rparr>)"

definition freeze_inventory :: "token_inventory \<Rightarrow> token_inventory" where
  "freeze_inventory v = v\<lparr> inv_frozen := True \<rparr>"

definition token_count :: "token_inventory \<Rightarrow> nat" where
  "token_count v = card (dom (positions v))"

definition set_usdc_balance :: "token_inventory \<Rightarrow> int \<Rightarrow> token_inventory" where
  "set_usdc_balance v b = v\<lparr> usdc_balance := b \<rparr>"

definition adjust_usdc_balance :: "token_inventory \<Rightarrow> int \<Rightarrow> token_inventory" where
  "adjust_usdc_balance v delta = v\<lparr> usdc_balance := wrap64 (usdc_balance v + delta) \<rparr>"

definition register_our_order :: "token_inventory \<Rightarrow> order_id \<Rightarrow> token_inventory" where
  "register_our_order v oid = v\<lparr> our_order_ids := insert oid (our_order_ids v) \<rparr>"

definition is_our_order :: "token_inventory \<Rightarrow> order_id \<Rightarrow> bool" where
  "is_our_order v oid \<longleftrightarrow> oid \<in> our_order_ids v"

record inventory_check_result =
  icr_allowed :: bool
  icr_available :: qty

definition check_inventory_for_intent ::
  "exec_intent \<Rightarrow> token_inventory option \<Rightarrow> inventory_check_result" where
  "check_inventory_for_intent intent view =
     (let available = (case view of None \<Rightarrow> 0 | Some v \<Rightarrow> position_for v (xi_asset_id intent))
      in if xi_side intent \<noteq> ASK then \<lparr> icr_allowed = True, icr_available = available \<rparr>
         else \<lparr> icr_allowed = (available \<ge> xi_size intent), icr_available = available \<rparr>)"

subsection \<open>The interface the readers rely on\<close>

locale inventory_view =
  fixes pos :: "'inv \<Rightarrow> asset_id \<Rightarrow> qty"
    and known :: "'inv \<Rightarrow> asset_id \<Rightarrow> bool"
    and adjust :: "'inv \<Rightarrow> asset_id \<Rightarrow> qty \<Rightarrow> 'inv"
  assumes known_adjust: "known (adjust v t d) u = known v u"
    and pos_adjust_other: "u \<noteq> t \<Longrightarrow> pos (adjust v t d) u = pos v u"
    and pos_adjust_same: "known v t \<Longrightarrow> int64_min \<le> pos v t + d \<Longrightarrow> pos v t + d \<le> int64_max \<Longrightarrow>
      pos (adjust v t d) t = pos v t + d"
    and pos_unknown: "\<not> known v t \<Longrightarrow> pos v t = 0"
begin

text \<open>A run of adjustments adds up, token by token, when no prefix overflows.\<close>

fun run_adjust :: "'inv \<Rightarrow> (asset_id \<times> qty) list \<Rightarrow> 'inv" where
  "run_adjust v [] = v"
| "run_adjust v ((t, d) # ds) = run_adjust (adjust v t d) ds"

fun no_overflow :: "qty \<Rightarrow> asset_id \<Rightarrow> (asset_id \<times> qty) list \<Rightarrow> bool" where
  "no_overflow q t [] = True"
| "no_overflow q t ((u, d) # ds) =
     (if u = t then int64_min \<le> q + d \<and> q + d \<le> int64_max \<and> no_overflow (q + d) t ds
      else no_overflow q t ds)"

lemma run_adjust_sum:
  "known v t \<Longrightarrow> no_overflow (pos v t) t ds \<Longrightarrow>
   pos (run_adjust v ds) t = pos v t + sum_where (\<lambda>x. fst x = t) snd ds"
proof (induction ds arbitrary: v)
  case Nil
  then show ?case by simp
next
  case (Cons x ds)
  obtain u d where x: "x = (u, d)" by force
  show ?case
  proof (cases "u = t")
    case True
    with Cons x show ?thesis by (simp add: known_adjust pos_adjust_same)
  next
    case False
    with Cons x show ?thesis by (simp add: known_adjust pos_adjust_other)
  qed
qed

end

interpretation token_view: inventory_view position_for "\<lambda>v t. positions v t \<noteq> None" adjust_position
  by unfold_locales
    (auto simp: adjust_position_def position_for_def wrap_simps split: option.splits)

lemma adjust_unregistered: "positions v t = None \<Longrightarrow> adjust_position v t d = v"
  by (simp add: adjust_position_def)

lemma set_position_get:
  "positions v t \<noteq> None \<or> \<not> inv_frozen v \<Longrightarrow> position_for (set_position v t q) t = q"
  by (auto simp: set_position_def position_for_def split: option.splits)

lemma set_position_other: "u \<noteq> t \<Longrightarrow> position_for (set_position v t q) u = position_for v u"
  by (auto simp: set_position_def position_for_def split: option.splits)

lemma frozen_dom:
  assumes "inv_frozen v"
  shows "dom (positions (register_token v t)) = dom (positions v)"
    "dom (positions (set_position v t q)) = dom (positions v)"
    "dom (positions (adjust_position v t q)) = dom (positions v)"
  using assms by (auto simp: register_token_def set_position_def adjust_position_def split: option.splits)

lemma check_inventory_sell:
  "xi_side intent = ASK \<Longrightarrow> icr_allowed (check_inventory_for_intent intent (Some v)) \<longleftrightarrow>
   xi_size intent \<le> position_for v (xi_asset_id intent)"
  by (simp add: check_inventory_for_intent_def Let_def)

lemma check_inventory_buy:
  "xi_side intent = BID \<Longrightarrow> icr_allowed (check_inventory_for_intent intent view)"
  by (simp add: check_inventory_for_intent_def Let_def)

end
