(* ===== verification/Sched_Events.thy ===== *)
theory Sched_Events
  imports Order_Book Exec_Types
begin

section \<open>Scheduler events and execution intents of the strategy thread\<close>

text \<open>
  src/src/events/event_variant.h, src/src/events/user_events.h and src/src/events/scheduler_events.h.
  The raw \<open>uint8_t\<close> fields of \<open>SchedulerEvent\<close> that hold a cast enumeration keep the enumeration
  itself; their zero value is the first constructor.  An \<open>IntentBatch\<close> is the list of its first
  \<open>count\<close> slots, and \<open>batch_add\<close> drops what does not fit, as the class does.
\<close>

datatype order_status = O_UNKNOWN | O_LIVE | O_PARTIAL | O_FILLED | O_CANCELED | O_FAILED

datatype trade_status = T_UNKNOWN | T_MATCHED | T_MINED | T_CONFIRMED | T_RETRYING | T_FAILED

datatype order_event_type = PLACEMENT | UPDATE | CANCELLATION

record user_order_update =
  uo_order_id :: order_id
  uo_client_order_id :: order_id
  uo_asset_id :: asset_id
  uo_market_id :: asset_id
  uo_event_type :: order_event_type
  uo_side :: side
  uo_price :: price
  uo_original_size :: qty
  uo_size_matched :: qty
  uo_exchange_ts :: timestamp
  uo_size_matched_exceeds_original :: bool

record maker_order_entry =
  mo_order_id :: order_id
  mo_matched_amount :: qty

record user_trade_update =
  ut_trade_id :: trade_id
  ut_taker_order_id :: order_id
  ut_asset_id :: asset_id
  ut_market_id :: asset_id
  ut_status :: trade_status
  ut_side :: side
  ut_fill_price :: price
  ut_fill_size :: qty
  ut_match_ts :: timestamp
  ut_last_update_ts :: timestamp
  ut_maker_entries :: "maker_order_entry list"

datatype notification_kind =
    N_BOOK_SNAPSHOT | N_PRICE_CHANGE | N_BBO_UPDATE | N_TICK_SIZE_CHANGE | N_LAST_TRADE
  | N_NEW_MARKET | N_MARKET_RESOLVED

record market_notification =
  mn_kind :: notification_kind
  mn_asset_id :: asset_id
  mn_recv_ts :: timestamp
  mn_seq :: nat
  mn_bbo :: bbo
  mn_exchange_ts :: timestamp
  mn_tick_size :: int
  mn_resolved_winning_asset_id :: asset_id

datatype event_source = MARKET_WS | USER_WS | EXEC_INTERNAL | CONTROL

definition kEventSourceCount :: int where "kEventSourceCount = 4"

fun source_priority :: "event_source \<Rightarrow> int" where
  "source_priority USER_WS = 0"
| "source_priority EXEC_INTERNAL = 1"
| "source_priority MARKET_WS = 2"
| "source_priority CONTROL = 3"

datatype scheduler_event_kind =
    MARKET_BOOK_SNAPSHOT | MARKET_PRICE_CHANGE | MARKET_BBO_UPDATE | MARKET_TICK_SIZE_CHANGE
  | MARKET_LAST_TRADE
  | USER_ORDER_UPDATE | USER_TRADE_UPDATE | USER_BALANCE_UPDATE
  | EXEC_ORDER_ACK | EXEC_ORDER_REJECT | EXEC_FILL
  | CONTROL_SHUTDOWN | CONTROL_PAUSE | CONTROL_RESUME | CONTROL_CONFIG_UPDATE
  | CONTROL_CANCEL_ALL | CONTROL_SET_MODE | CONTROL_SET_SPREAD | CONTROL_SET_SIZE
  | CONTROL_ENABLE_STRATEGY | CONTROL_INVENTORY_SPLIT | CONTROL_INVENTORY_MERGE
  | CONTROL_INVENTORY_REDEEM
  | MARKET_NEW_MARKET | MARKET_RESOLVED
  | SLOT_ACTIVATED | SLOT_CLOSING | SLOT_PROMOTED | SLOT_DEMOTED | SLOT_REMOVED
  | CONTROL_START_SESSION | CONTROL_STOP_SESSION | CONTROL_LATENCY_PROBE
  | CONTROL_MARKET_SELL_ALL | CONTROL_MARKET_SELL_DOWN

definition kSchedulerEventKindCount :: int where "kSchedulerEventKindCount = 33"

record scheduler_event =
  ev_source :: event_source
  ev_kind :: scheduler_event_kind
  ev_asset_id :: asset_id
  ev_recv_ts :: timestamp
  ev_seq :: nat
  ev_bbo :: bbo
  ev_exchange_ts :: timestamp
  ev_market_tick_size :: int
  ev_intent_ref_id :: nat
  ev_exec_accepted :: bool
  ev_exec_feedback_kind :: exec_feedback_kind
  ev_exec_http_status :: int
  ev_order_id :: order_id
  ev_client_order_id :: order_id
  ev_trade_id :: trade_id
  ev_order_status_raw :: order_status
  ev_trade_status_raw :: trade_status
  ev_user_side :: side
  ev_user_market_id :: asset_id
  ev_user_price :: price
  ev_user_original_size :: qty
  ev_user_fill_size :: qty
  ev_user_cumulative_filled :: qty
  ev_is_new_fill :: bool
  ev_control_cmd :: nat
  ev_control_mode :: nat
  ev_control_int_param :: int
  ev_control_bool_param :: bool
  ev_control_condition_id :: asset_id
  ev_control_token_id :: asset_id
  ev_control_qty_param :: qty
  ev_resolved_condition_id :: asset_id
  ev_resolved_winning_asset_id :: asset_id
  ev_slot_name :: nat

definition new_event :: scheduler_event where
  "new_event =
     \<lparr> ev_source = MARKET_WS, ev_kind = MARKET_BOOK_SNAPSHOT, ev_asset_id = [], ev_recv_ts = 0,
       ev_seq = 0, ev_bbo = empty_bbo, ev_exchange_ts = 0, ev_market_tick_size = 0,
       ev_intent_ref_id = 0, ev_exec_accepted = False, ev_exec_feedback_kind = REQUEST_SENT,
       ev_exec_http_status = 0, ev_order_id = [], ev_client_order_id = [], ev_trade_id = [],
       ev_order_status_raw = O_UNKNOWN, ev_trade_status_raw = T_UNKNOWN, ev_user_side = BID,
       ev_user_market_id = [], ev_user_price = 0, ev_user_original_size = 0, ev_user_fill_size = 0,
       ev_user_cumulative_filled = 0, ev_is_new_fill = False, ev_control_cmd = 0,
       ev_control_mode = 0, ev_control_int_param = 0, ev_control_bool_param = False,
       ev_control_condition_id = [], ev_control_token_id = [], ev_control_qty_param = 0,
       ev_resolved_condition_id = [], ev_resolved_winning_asset_id = [], ev_slot_name = 0 \<rparr>"

subsection \<open>Event factories\<close>

fun kind_of_notification :: "notification_kind \<Rightarrow> scheduler_event_kind" where
  "kind_of_notification N_BOOK_SNAPSHOT = MARKET_BOOK_SNAPSHOT"
| "kind_of_notification N_PRICE_CHANGE = MARKET_PRICE_CHANGE"
| "kind_of_notification N_BBO_UPDATE = MARKET_BBO_UPDATE"
| "kind_of_notification N_TICK_SIZE_CHANGE = MARKET_TICK_SIZE_CHANGE"
| "kind_of_notification N_LAST_TRADE = MARKET_LAST_TRADE"
| "kind_of_notification N_NEW_MARKET = MARKET_NEW_MARKET"
| "kind_of_notification N_MARKET_RESOLVED = MARKET_RESOLVED"

definition from_market :: "market_notification \<Rightarrow> scheduler_event" where
  "from_market notif =
     (let ev = new_event\<lparr> ev_source := MARKET_WS, ev_kind := kind_of_notification (mn_kind notif),
                 ev_asset_id := mn_asset_id notif, ev_recv_ts := mn_recv_ts notif,
                 ev_seq := mn_seq notif, ev_bbo := mn_bbo notif,
                 ev_exchange_ts := mn_exchange_ts notif,
                 ev_market_tick_size := mn_tick_size notif \<rparr>
      in if mn_kind notif = N_MARKET_RESOLVED
         then ev\<lparr> ev_resolved_condition_id := mn_asset_id notif,
                  ev_resolved_winning_asset_id := mn_resolved_winning_asset_id notif \<rparr>
         else ev)"

definition from_order_update :: "user_order_update \<Rightarrow> timestamp \<Rightarrow> nat \<Rightarrow> scheduler_event" where
  "from_order_update upd recv_ts seq =
     new_event\<lparr> ev_source := USER_WS, ev_kind := USER_ORDER_UPDATE, ev_asset_id := uo_asset_id upd,
       ev_recv_ts := recv_ts, ev_seq := seq, ev_order_id := uo_order_id upd,
       ev_client_order_id := uo_client_order_id upd, ev_user_side := uo_side upd,
       ev_user_market_id := uo_market_id upd, ev_user_price := uo_price upd,
       ev_user_original_size := uo_original_size upd, ev_user_fill_size := uo_size_matched upd,
       ev_user_cumulative_filled := uo_size_matched upd \<rparr>"

definition from_trade_update ::
  "user_trade_update \<Rightarrow> timestamp \<Rightarrow> nat \<Rightarrow> bool \<Rightarrow> scheduler_event" where
  "from_trade_update upd recv_ts seq new_fill =
     new_event\<lparr> ev_source := USER_WS, ev_kind := USER_TRADE_UPDATE, ev_asset_id := ut_asset_id upd,
       ev_recv_ts := recv_ts, ev_seq := seq, ev_trade_id := ut_trade_id upd,
       ev_order_id := ut_taker_order_id upd, ev_trade_status_raw := ut_status upd,
       ev_user_side := ut_side upd, ev_user_market_id := ut_market_id upd,
       ev_user_price := ut_fill_price upd, ev_user_fill_size := ut_fill_size upd,
       ev_is_new_fill := new_fill \<rparr>"

definition control_event :: "scheduler_event_kind \<Rightarrow> scheduler_event" where
  "control_event k = new_event\<lparr> ev_source := CONTROL, ev_kind := k \<rparr>"

definition make_cancel_all :: scheduler_event where
  "make_cancel_all = control_event CONTROL_CANCEL_ALL"

definition make_set_mode :: "nat \<Rightarrow> scheduler_event" where
  "make_set_mode mode = (control_event CONTROL_SET_MODE)\<lparr> ev_control_mode := mode \<rparr>"

definition make_set_spread :: "int \<Rightarrow> scheduler_event" where
  "make_set_spread ticks = (control_event CONTROL_SET_SPREAD)\<lparr> ev_control_int_param := ticks \<rparr>"

definition make_set_size :: "int \<Rightarrow> scheduler_event" where
  "make_set_size sz = (control_event CONTROL_SET_SIZE)\<lparr> ev_control_int_param := sz \<rparr>"

definition make_enable_strategy :: "bool \<Rightarrow> scheduler_event" where
  "make_enable_strategy enabled =
     (control_event CONTROL_ENABLE_STRATEGY)\<lparr> ev_control_bool_param := enabled \<rparr>"

definition make_inventory_split :: "asset_id \<Rightarrow> qty \<Rightarrow> scheduler_event" where
  "make_inventory_split c q =
     (control_event CONTROL_INVENTORY_SPLIT)\<lparr> ev_control_condition_id := c, ev_control_qty_param := q \<rparr>"

definition make_inventory_merge :: "asset_id \<Rightarrow> qty \<Rightarrow> scheduler_event" where
  "make_inventory_merge c q =
     (control_event CONTROL_INVENTORY_MERGE)\<lparr> ev_control_condition_id := c, ev_control_qty_param := q \<rparr>"

definition make_inventory_redeem :: "asset_id \<Rightarrow> asset_id \<Rightarrow> qty \<Rightarrow> scheduler_event" where
  "make_inventory_redeem c t q =
     (control_event CONTROL_INVENTORY_REDEEM)\<lparr> ev_control_condition_id := c,
       ev_control_token_id := t, ev_control_qty_param := q \<rparr>"

definition make_slot_event :: "scheduler_event_kind \<Rightarrow> nat \<Rightarrow> asset_id \<Rightarrow> scheduler_event" where
  "make_slot_event k slot c =
     (control_event k)\<lparr> ev_slot_name := slot, ev_control_condition_id := c \<rparr>"

definition make_slot_activated :: "nat \<Rightarrow> asset_id \<Rightarrow> scheduler_event" where
  "make_slot_activated = make_slot_event SLOT_ACTIVATED"

definition make_slot_closing :: "nat \<Rightarrow> asset_id \<Rightarrow> scheduler_event" where
  "make_slot_closing = make_slot_event SLOT_CLOSING"

definition make_slot_promoted :: "nat \<Rightarrow> asset_id \<Rightarrow> int \<Rightarrow> scheduler_event" where
  "make_slot_promoted slot c window_end_s =
     (make_slot_event SLOT_PROMOTED slot c)\<lparr> ev_control_qty_param := window_end_s \<rparr>"

definition make_slot_demoted :: "nat \<Rightarrow> asset_id \<Rightarrow> scheduler_event" where
  "make_slot_demoted = make_slot_event SLOT_DEMOTED"

definition make_slot_removed :: "nat \<Rightarrow> asset_id \<Rightarrow> scheduler_event" where
  "make_slot_removed = make_slot_event SLOT_REMOVED"

definition make_start_session :: "int \<Rightarrow> scheduler_event" where
  "make_start_session end_time_s =
     (control_event CONTROL_START_SESSION)\<lparr> ev_control_qty_param := end_time_s \<rparr>"

definition make_stop_session :: scheduler_event where
  "make_stop_session = control_event CONTROL_STOP_SESSION"

definition make_latency_probe :: scheduler_event where
  "make_latency_probe = control_event CONTROL_LATENCY_PROBE"

definition make_market_sell_all :: scheduler_event where
  "make_market_sell_all = control_event CONTROL_MARKET_SELL_ALL"

definition make_market_sell_down :: scheduler_event where
  "make_market_sell_down = control_event CONTROL_MARKET_SELL_DOWN"

subsection \<open>Execution intents\<close>

datatype intent_action =
    WOULD_PLACE_BID | WOULD_PLACE_ASK | WOULD_CANCEL_BID | WOULD_CANCEL_ASK | WOULD_CANCEL_ALL

record execution_intent =
  in_action :: intent_action
  in_asset_id :: asset_id
  in_market_id :: asset_id
  in_exchange_order_id :: order_id
  in_client_order_id :: order_id
  in_price :: price
  in_qty :: qty
  in_created_ts :: timestamp
  in_recv_ts :: timestamp
  in_intent_id :: nat
  in_neg_risk :: bool
  in_fee_rate_bps :: int
  in_order_type :: order_type
  in_level :: nat

definition new_execution_intent :: execution_intent where
  "new_execution_intent =
     \<lparr> in_action = WOULD_PLACE_BID, in_asset_id = [], in_market_id = [], in_exchange_order_id = [],
       in_client_order_id = [], in_price = 0, in_qty = 0, in_created_ts = 0, in_recv_ts = 0,
       in_intent_id = 0, in_neg_risk = False, in_fee_rate_bps = 0, in_order_type = GTC,
       in_level = 0 \<rparr>"

definition is_placement :: "intent_action \<Rightarrow> bool" where
  "is_placement a \<longleftrightarrow> a = WOULD_PLACE_BID \<or> a = WOULD_PLACE_ASK"

type_synonym intent_batch = "execution_intent list"

definition kMaxIntents :: nat where "kMaxIntents = 32"

definition batch_add :: "intent_batch \<Rightarrow> execution_intent \<Rightarrow> intent_batch" where
  "batch_add b i = (if length b < kMaxIntents then b @ [i] else b)"

datatype risk_decision = ALLOW | DENY

lemma batch_add_le: "length b \<le> kMaxIntents \<Longrightarrow> length (batch_add b i) \<le> kMaxIntents"
  by (simp add: batch_add_def)

lemma fold_batch_add: "foldl batch_add b xs = b @ take (kMaxIntents - length b) xs"
proof (induction xs arbitrary: b)
  case Nil
  then show ?case by simp
next
  case (Cons x xs)
  show ?case
  proof (cases "kMaxIntents - length b")
    case 0
    then show ?thesis using Cons by (simp add: batch_add_def)
  next
    case (Suc k)
    then have "kMaxIntents - Suc (length b) = k" by simp
    with Suc show ?thesis using Cons by (simp add: batch_add_def)
  qed
qed

end
