(* ===== verification/Working_Tracker.thy ===== *)
theory Working_Tracker
  imports Sched_Events
begin

section \<open>Working order tracker\<close>

text \<open>
  src/src/scheduler/working_order_tracker.h and .cpp.  The tracker is an array of 256 slots scanned
  linearly: a list of that length, with \<open>find_index\<close> for each scan that returns the first match.
  The lemmas describe each operation through its effect on the four observations its clients use:
  the lookups by identifier, the signed pending exposure per token, the working notional and the
  cancel intents.  \<open>order_table\<close> is the contract the risk gate relies on.
\<close>

record working_order =
  wo_client_order_id :: order_id
  wo_exchange_order_id :: order_id
  wo_asset_id :: asset_id
  wo_market_id :: asset_id
  wo_side :: side
  wo_price :: price
  wo_original_size :: qty
  wo_filled_size :: qty
  wo_sent_ts :: timestamp
  wo_is_live :: bool
  wo_is_pending :: bool
  wo_is_terminal :: bool
  wo_occupied :: bool
  wo_level :: nat

definition empty_slot :: working_order where
  "empty_slot =
     \<lparr> wo_client_order_id = [], wo_exchange_order_id = [], wo_asset_id = [], wo_market_id = [],
       wo_side = BID, wo_price = 0, wo_original_size = 0, wo_filled_size = 0, wo_sent_ts = 0,
       wo_is_live = False, wo_is_pending = True, wo_is_terminal = False, wo_occupied = False,
       wo_level = 0 \<rparr>"

type_synonym tracker = "working_order list"

definition kMaxWorking :: nat where "kMaxWorking = 256"

definition clear_all :: "tracker \<Rightarrow> tracker" where
  "clear_all t = map (\<lambda>_. empty_slot) t"

definition new_tracker :: tracker where
  "new_tracker = replicate kMaxWorking empty_slot"

definition working :: "working_order \<Rightarrow> bool" where
  "working w \<longleftrightarrow> wo_occupied w \<and> \<not> wo_is_terminal w"

definition remaining :: "working_order \<Rightarrow> qty" where
  "remaining w = wo_original_size w - wo_filled_size w"

subsection \<open>Slots\<close>

definition find_slot_by_client_id :: "tracker \<Rightarrow> order_id \<Rightarrow> nat option" where
  "find_slot_by_client_id t oid =
     (if oid = [] then None else find_index (\<lambda>w. working w \<and> wo_client_order_id w = oid) t)"

definition find_slot_by_exchange_id :: "tracker \<Rightarrow> order_id \<Rightarrow> nat option" where
  "find_slot_by_exchange_id t oid =
     (if oid = [] then None else find_index (\<lambda>w. working w \<and> wo_exchange_order_id w = oid) t)"

definition fallback_match :: "scheduler_event \<Rightarrow> working_order \<Rightarrow> bool" where
  "fallback_match ev w \<longleftrightarrow>
     working w \<and> \<not> wo_exchange_order_id w \<noteq> [] \<and> wo_asset_id w = ev_asset_id ev \<and>
     wo_side w = ev_user_side ev \<and> \<not> (ev_user_price ev > 0 \<and> wo_price w \<noteq> ev_user_price ev)"

fun fallback_scan ::
  "scheduler_event \<Rightarrow> nat \<Rightarrow> nat option \<Rightarrow> timestamp \<Rightarrow> tracker \<Rightarrow> nat option" where
  "fallback_scan ev i best_slot oldest_sent [] = best_slot"
| "fallback_scan ev i best_slot oldest_sent (w # ws) =
     (if fallback_match ev w \<and> wo_sent_ts w \<le> oldest_sent
      then fallback_scan ev (Suc i) (Some i) (wo_sent_ts w) ws
      else fallback_scan ev (Suc i) best_slot oldest_sent ws)"

definition find_slot_for_user_update_fallback :: "tracker \<Rightarrow> scheduler_event \<Rightarrow> nat option" where
  "find_slot_for_user_update_fallback t ev =
     (if ev_asset_id ev = [] then None else fallback_scan ev 0 None int64_max t)"

definition find_free_slot :: "tracker \<Rightarrow> nat option" where
  "find_free_slot t = find_index (\<lambda>w. \<not> wo_occupied w) t"

definition remove_slot :: "tracker \<Rightarrow> nat \<Rightarrow> tracker" where
  "remove_slot t i = t[i := empty_slot]"

subsection \<open>State changes\<close>

definition order_of_intent :: "execution_intent \<Rightarrow> working_order" where
  "order_of_intent i =
     \<lparr> wo_client_order_id = in_client_order_id i, wo_exchange_order_id = [],
       wo_asset_id = in_asset_id i, wo_market_id = in_market_id i,
       wo_side = (if in_action i = WOULD_PLACE_BID then BID else ASK),
       wo_price = in_price i, wo_original_size = in_qty i, wo_filled_size = 0,
       wo_sent_ts = in_created_ts i, wo_is_live = False, wo_is_pending = True,
       wo_is_terminal = False, wo_occupied = True, wo_level = in_level i \<rparr>"

definition on_intent_sent :: "tracker \<Rightarrow> execution_intent \<Rightarrow> tracker \<times> bool" where
  "on_intent_sent t i =
     (if in_action i \<noteq> WOULD_PLACE_BID \<and> in_action i \<noteq> WOULD_PLACE_ASK then (t, True)
      else (case find_free_slot t of
              None \<Rightarrow> (t, False)
            | Some s \<Rightarrow> (t[s := order_of_intent i], True)))"

definition accept_order :: "order_id \<Rightarrow> working_order \<Rightarrow> working_order" where
  "accept_order oid w =
     (let w1 = w\<lparr> wo_is_pending := False, wo_is_live := True \<rparr>
      in if oid \<noteq> [] then w1\<lparr> wo_exchange_order_id := oid \<rparr> else w1)"

definition slot_by_ids :: "tracker \<Rightarrow> scheduler_event \<Rightarrow> nat option" where
  "slot_by_ids t ev =
     (case find_slot_by_exchange_id t (ev_order_id ev) of
        Some s \<Rightarrow> Some s
      | None \<Rightarrow> find_slot_by_client_id t (ev_client_order_id ev))"

definition on_exec_feedback :: "tracker \<Rightarrow> scheduler_event \<Rightarrow> tracker" where
  "on_exec_feedback t ev =
     (if ev_source ev \<noteq> EXEC_INTERNAL then t
      else if ev_exec_feedback_kind ev = ORDER_ACCEPTED then
        (case find_slot_by_client_id t (ev_client_order_id ev) of
           None \<Rightarrow> t
         | Some s \<Rightarrow> t[s := accept_order (ev_order_id ev) (t ! s)])
      else if ev_exec_feedback_kind ev = ORDER_REJECTED \<or> ev_exec_feedback_kind ev = RATE_LIMITED \<or>
              ev_exec_feedback_kind ev = EXCHANGE_UNAVAILABLE then
        (case find_slot_by_client_id t (ev_client_order_id ev) of
           None \<Rightarrow> t
         | Some s \<Rightarrow> remove_slot t s)
      else if ev_exec_feedback_kind ev = CANCEL_CONFIRMED then
        (case slot_by_ids t ev of None \<Rightarrow> t | Some s \<Rightarrow> remove_slot t s)
      else t)"

definition update_order :: "scheduler_event \<Rightarrow> working_order \<Rightarrow> working_order" where
  "update_order ev w =
     (let w1 = (if ev_order_id ev \<noteq> [] then w\<lparr> wo_exchange_order_id := ev_order_id ev \<rparr> else w)
      in case ev_order_status_raw ev of
           O_FILLED \<Rightarrow> empty_slot
         | O_CANCELED \<Rightarrow> empty_slot
         | O_FAILED \<Rightarrow> empty_slot
         | O_PARTIAL \<Rightarrow>
             let w2 = (if ev_user_cumulative_filled ev > wo_filled_size w1
                       then w1\<lparr> wo_filled_size := ev_user_cumulative_filled ev \<rparr> else w1)
             in w2\<lparr> wo_is_live := True, wo_is_pending := False \<rparr>
         | O_LIVE \<Rightarrow> w1\<lparr> wo_is_live := True, wo_is_pending := False \<rparr>
         | O_UNKNOWN \<Rightarrow> w1)"

definition on_user_update :: "tracker \<Rightarrow> scheduler_event \<Rightarrow> tracker" where
  "on_user_update t ev =
     (if ev_source ev \<noteq> USER_WS then t
      else if ev_kind ev = USER_ORDER_UPDATE then
        (case (case slot_by_ids t ev of
                 Some s \<Rightarrow> Some s
               | None \<Rightarrow> find_slot_for_user_update_fallback t ev) of
           None \<Rightarrow> t
         | Some s \<Rightarrow> t[s := update_order ev (t ! s)])
      else t)"

definition stale_pending :: "timestamp \<Rightarrow> int \<Rightarrow> working_order \<Rightarrow> bool" where
  "stale_pending now max_age_ns w \<longleftrightarrow>
     working w \<and> wo_is_pending w \<and> wo_sent_ts w > 0 \<and> now > wo_sent_ts w \<and>
     now - wo_sent_ts w > max_age_ns"

fun gc_stale_pending :: "tracker \<Rightarrow> timestamp \<Rightarrow> int \<Rightarrow> tracker \<times> int" where
  "gc_stale_pending [] now max_age_ns = ([], 0)"
| "gc_stale_pending (w # ws) now max_age_ns =
     (let (ws', n) = gc_stale_pending ws now max_age_ns
      in if stale_pending now max_age_ns w then (empty_slot # ws', n + 1) else (w # ws', n))"

subsection \<open>Queries\<close>

definition working_count :: "tracker \<Rightarrow> nat" where
  "working_count t = length (filter working t)"

definition working_count_for_market :: "tracker \<Rightarrow> asset_id \<Rightarrow> nat" where
  "working_count_for_market t m = length (filter (\<lambda>w. working w \<and> wo_market_id w = m) t)"

definition find_order :: "(working_order \<Rightarrow> bool) \<Rightarrow> tracker \<Rightarrow> working_order option" where
  "find_order P t = map_option ((!) t) (find_index (\<lambda>w. working w \<and> P w) t)"

definition working_bid_price :: "tracker \<Rightarrow> asset_id \<Rightarrow> price" where
  "working_bid_price t m =
     (case find_order (\<lambda>w. wo_market_id w = m \<and> wo_side w = BID) t of
        None \<Rightarrow> kInvalidPrice | Some w \<Rightarrow> wo_price w)"

definition working_ask_price :: "tracker \<Rightarrow> asset_id \<Rightarrow> price" where
  "working_ask_price t m =
     (case find_order (\<lambda>w. wo_market_id w = m \<and> wo_side w = ASK) t of
        None \<Rightarrow> kInvalidPrice | Some w \<Rightarrow> wo_price w)"

definition total_working_notional :: "tracker \<Rightarrow> int" where
  "total_working_notional t = sum_where working (\<lambda>w. wo_price w * remaining w) t"

definition pending_exposure_for_token :: "tracker \<Rightarrow> asset_id \<Rightarrow> qty" where
  "pending_exposure_for_token t tok =
     sum_where (\<lambda>w. working w \<and> wo_asset_id w = tok)
       (\<lambda>w. if wo_side w = BID then remaining w else - remaining w) t"

definition cancel_of :: "working_order \<Rightarrow> execution_intent" where
  "cancel_of w =
     new_execution_intent\<lparr>
       in_action := (if wo_side w = BID then WOULD_CANCEL_BID else WOULD_CANCEL_ASK),
       in_asset_id := wo_asset_id w, in_market_id := wo_market_id w,
       in_exchange_order_id := wo_exchange_order_id w, in_client_order_id := wo_client_order_id w,
       in_price := wo_price w, in_qty := remaining w \<rparr>"

fun collect_cancels :: "(working_order \<Rightarrow> bool) \<Rightarrow> tracker \<Rightarrow> intent_batch \<Rightarrow> intent_batch" where
  "collect_cancels P [] batch = batch"
| "collect_cancels P (w # ws) batch =
     (if \<not> length batch < kMaxIntents then batch
      else if \<not> working w then collect_cancels P ws batch
      else if \<not> P w then collect_cancels P ws batch
      else collect_cancels P ws (batch_add batch (cancel_of w)))"

definition cancel_all_intents :: "tracker \<Rightarrow> intent_batch" where
  "cancel_all_intents t = collect_cancels (\<lambda>_. True) t []"

definition cancel_intents_for_market :: "tracker \<Rightarrow> asset_id \<Rightarrow> intent_batch" where
  "cancel_intents_for_market t c = collect_cancels (\<lambda>w. wo_market_id w = c) t []"

definition find_by_client_id :: "tracker \<Rightarrow> order_id \<Rightarrow> working_order option" where
  "find_by_client_id t oid = map_option ((!) t) (find_slot_by_client_id t oid)"

definition find_by_exchange_id :: "tracker \<Rightarrow> order_id \<Rightarrow> working_order option" where
  "find_by_exchange_id t oid = map_option ((!) t) (find_slot_by_exchange_id t oid)"

definition find_by_market_side :: "tracker \<Rightarrow> asset_id \<Rightarrow> side \<Rightarrow> working_order option" where
  "find_by_market_side t m sd = find_order (\<lambda>w. wo_market_id w = m \<and> wo_side w = sd) t"

definition find_by_market_side_level ::
  "tracker \<Rightarrow> asset_id \<Rightarrow> side \<Rightarrow> int \<Rightarrow> working_order option" where
  "find_by_market_side_level t m sd level =
     find_order (\<lambda>w. wo_market_id w = m \<and> wo_side w = sd \<and> int (wo_level w) = level mod 256) t"

definition working_price_at_level :: "tracker \<Rightarrow> asset_id \<Rightarrow> side \<Rightarrow> int \<Rightarrow> price" where
  "working_price_at_level t m sd level =
     (case find_by_market_side_level t m sd level of
        None \<Rightarrow> kInvalidPrice | Some w \<Rightarrow> wo_price w)"

subsection \<open>Scans\<close>

lemma empty_slot_simps [simp]:
  "\<not> wo_occupied empty_slot" "\<not> working empty_slot" "\<not> wo_is_terminal empty_slot"
  by (simp_all add: empty_slot_def working_def)

lemma slot_lt:
  "find_slot_by_client_id t oid = Some s \<Longrightarrow> s < length t"
  "find_slot_by_exchange_id t oid = Some s \<Longrightarrow> s < length t"
  "find_free_slot t = Some s \<Longrightarrow> s < length t"
  "slot_by_ids t ev = Some s \<Longrightarrow> s < length t"
  by (auto simp: find_slot_by_client_id_def find_slot_by_exchange_id_def find_free_slot_def
      slot_by_ids_def dest: find_index_less split: if_splits option.splits)

lemma slot_working:
  "find_slot_by_client_id t oid = Some s \<Longrightarrow> working (t ! s) \<and> wo_client_order_id (t ! s) = oid"
  "find_slot_by_exchange_id t oid = Some s \<Longrightarrow> working (t ! s) \<and> wo_exchange_order_id (t ! s) = oid"
  by (auto simp: find_slot_by_client_id_def find_slot_by_exchange_id_def
      dest: find_index_holds split: if_splits)

lemma slot_by_ids_working: "slot_by_ids t ev = Some s \<Longrightarrow> working (t ! s)"
  by (auto simp: slot_by_ids_def dest: slot_working split: option.splits)

lemma fallback_scan_props:
  "fallback_scan ev (length xs) best oldest ys = Some s \<Longrightarrow>
   (\<forall>b. best = Some b \<longrightarrow> b < length xs \<and> fallback_match ev (xs ! b)) \<Longrightarrow>
   s < length (xs @ ys) \<and> fallback_match ev ((xs @ ys) ! s)"
proof (induction ys arbitrary: xs best oldest)
  case Nil
  then show ?case by simp
next
  case (Cons w ys)
  have 1: "fallback_scan ev (length (xs @ [w])) (Some (length xs)) (wo_sent_ts w) ys = Some s \<Longrightarrow>
      fallback_match ev w \<Longrightarrow> ?case"
    using Cons.IH [of "xs @ [w]" "Some (length xs)" "wo_sent_ts w"] by simp
  have 2: "fallback_scan ev (length (xs @ [w])) best oldest ys = Some s \<Longrightarrow> ?case"
    using Cons.IH [of "xs @ [w]" best oldest] Cons.prems(2) by (fastforce simp: nth_append)
  from Cons.prems(1) 1 2 show ?case by (auto split: if_splits)
qed

lemma fallback_slot:
  "find_slot_for_user_update_fallback t ev = Some s \<Longrightarrow> s < length t \<and> working (t ! s)"
  using fallback_scan_props [of ev "[]" None int64_max t s]
  by (auto simp: find_slot_for_user_update_fallback_def fallback_match_def split: if_splits)

lemma free_slot_not_working: "find_free_slot t = Some s \<Longrightarrow> \<not> working (t ! s)"
  by (auto simp: find_free_slot_def working_def dest: find_index_holds)

lemma find_index_update_hit:
  assumes "i < length xs" "\<And>x. x \<in> set xs \<Longrightarrow> \<not> P x" "P y"
  shows "find_index P (xs[i := y]) = Some i"
  using assms by (intro find_index_SomeI) auto

lemma find_index_update_skip:
  assumes "\<not> P (xs ! i)" "\<not> P y" "i < length xs"
  shows "find_index P (xs[i := y]) = find_index P xs"
  using assms by (induction xs arbitrary: i) (auto simp: nth_Cons split: nat.splits)

lemma map_option_nth_update:
  "(\<And>j. m = Some j \<Longrightarrow> j \<noteq> i) \<Longrightarrow> map_option ((!) (xs[i := y])) m = map_option ((!) xs) m"
  by (cases m) auto

subsection \<open>Placing and looking up\<close>

lemma on_intent_sent_len [simp]: "length (fst (on_intent_sent t i)) = length t"
  by (auto simp: on_intent_sent_def split: option.splits)

lemma on_exec_feedback_len [simp]: "length (on_exec_feedback t ev) = length t"
  by (auto simp: on_exec_feedback_def remove_slot_def split: option.splits)

lemma on_user_update_len [simp]: "length (on_user_update t ev) = length t"
  by (auto simp: on_user_update_def split: option.splits)

lemma order_of_intent_simps [simp]:
  "working (order_of_intent i)" "wo_client_order_id (order_of_intent i) = in_client_order_id i"
  "wo_asset_id (order_of_intent i) = in_asset_id i" "wo_price (order_of_intent i) = in_price i"
  "remaining (order_of_intent i) = in_qty i" "wo_market_id (order_of_intent i) = in_market_id i"
  "wo_occupied (order_of_intent i)" "wo_side (order_of_intent i) = (if in_action i = WOULD_PLACE_BID then BID else ASK)"
  by (simp_all add: order_of_intent_def working_def remaining_def)

lemma on_intent_sent_placed:
  assumes "is_placement (in_action i)" "snd (on_intent_sent t i)"
  obtains s where "s < length t" "\<not> working (t ! s)" "\<not> wo_occupied (t ! s)"
    "fst (on_intent_sent t i) = t[s := order_of_intent i]"
proof -
  from assms obtain s where s: "find_free_slot t = Some s"
    by (auto simp: on_intent_sent_def is_placement_def split: option.splits if_splits)
  with assms have "fst (on_intent_sent t i) = t[s := order_of_intent i]"
    by (auto simp: on_intent_sent_def is_placement_def)
  moreover have "\<not> wo_occupied (t ! s)"
    using s find_index_holds [of "\<lambda>w. \<not> wo_occupied w" t s] by (simp add: find_free_slot_def)
  ultimately show ?thesis
    using slot_lt(3) [OF s] free_slot_not_working [OF s] by (intro that [of s])
qed

lemma on_intent_sent_full:
  "is_placement (in_action i) \<Longrightarrow> snd (on_intent_sent t i) \<longleftrightarrow> (\<exists>w \<in> set t. \<not> wo_occupied w)"
  using find_index_None [of "\<lambda>w. \<not> wo_occupied w" t]
  by (auto simp: on_intent_sent_def is_placement_def find_free_slot_def split: option.splits)

lemma find_by_client_id_placed:
  assumes "is_placement (in_action i)" "snd (on_intent_sent t i)" "in_client_order_id i \<noteq> []"
    "find_by_client_id t (in_client_order_id i) = None"
  shows "find_by_client_id (fst (on_intent_sent t i)) (in_client_order_id i) = Some (order_of_intent i)"
    "oid \<noteq> in_client_order_id i \<Longrightarrow>
     find_by_client_id (fst (on_intent_sent t i)) oid = find_by_client_id t oid"
proof -
  obtain s where s: "s < length t" "\<not> working (t ! s)"
    "fst (on_intent_sent t i) = t[s := order_of_intent i]"
    using assms(1,2) by (rule on_intent_sent_placed)
  have none: "find_index (\<lambda>w. working w \<and> wo_client_order_id w = in_client_order_id i) t = None"
    using assms(3,4) by (simp add: find_by_client_id_def find_slot_by_client_id_def)
  with s show "find_by_client_id (fst (on_intent_sent t i)) (in_client_order_id i) = Some (order_of_intent i)"
    using assms(3) by (simp add: find_by_client_id_def find_slot_by_client_id_def
        find_index_update_hit find_index_None)
  assume "oid \<noteq> in_client_order_id i"
  with s have "find_slot_by_client_id (t[s := order_of_intent i]) oid = find_slot_by_client_id t oid"
    by (simp add: find_slot_by_client_id_def find_index_update_skip)
  moreover have "j \<noteq> s" if "find_slot_by_client_id t oid = Some j" for j
    using slot_working(1) [OF that] s(2) by auto
  ultimately show "find_by_client_id (fst (on_intent_sent t i)) oid = find_by_client_id t oid"
    using s(3) by (simp add: find_by_client_id_def map_option_nth_update)
qed

text \<open>The two sums after a placement.\<close>

definition signed_qty :: "execution_intent \<Rightarrow> qty" where
  "signed_qty i = (if in_action i = WOULD_PLACE_ASK then - in_qty i else in_qty i)"

lemma exposure_placed:
  assumes "is_placement (in_action i)" "snd (on_intent_sent t i)"
  shows "pending_exposure_for_token (fst (on_intent_sent t i)) tok =
    pending_exposure_for_token t tok + (if in_asset_id i = tok then signed_qty i else 0)"
proof -
  obtain s where "s < length t" "\<not> working (t ! s)"
    "fst (on_intent_sent t i) = t[s := order_of_intent i]"
    using assms by (rule on_intent_sent_placed)
  with assms(1) show ?thesis
    by (auto simp: pending_exposure_for_token_def sum_where_update signed_qty_def is_placement_def)
qed

lemma notional_placed:
  assumes "is_placement (in_action i)" "snd (on_intent_sent t i)"
  shows "total_working_notional (fst (on_intent_sent t i)) =
    total_working_notional t + in_price i * in_qty i"
proof -
  obtain s where "s < length t" "\<not> working (t ! s)"
    "fst (on_intent_sent t i) = t[s := order_of_intent i]"
    using assms by (rule on_intent_sent_placed)
  thus ?thesis by (simp add: total_working_notional_def sum_where_update)
qed

subsection \<open>Cancels and garbage collection\<close>

lemma collect_cancels_eq:
  "collect_cancels P ws batch =
     batch @ take (kMaxIntents - length batch) (map cancel_of (filter (\<lambda>w. working w \<and> P w) ws))"
proof (induction ws arbitrary: batch)
  case Nil
  then show ?case by simp
next
  case (Cons w ws)
  show ?case
  proof (cases "kMaxIntents - length batch")
    case 0
    then show ?thesis using Cons by simp
  next
    case (Suc k)
    then have "kMaxIntents - Suc (length batch) = k" "length batch < kMaxIntents" by simp_all
    with Suc show ?thesis using Cons by (simp add: batch_add_def)
  qed
qed

lemma cancel_all_intents_eq:
  "cancel_all_intents t = take kMaxIntents (map cancel_of (filter working t))"
  by (simp add: cancel_all_intents_def collect_cancels_eq)

lemma cancel_intents_for_market_eq:
  "cancel_intents_for_market t c =
     take kMaxIntents (map cancel_of (filter (\<lambda>w. working w \<and> wo_market_id w = c) t))"
  by (simp add: cancel_intents_for_market_def collect_cancels_eq)

lemma gc_stale_pending_eq:
  "gc_stale_pending t now age =
     (map (\<lambda>w. if stale_pending now age w then empty_slot else w) t,
      int (length (filter (stale_pending now age) t)))"
  by (induction t) (simp_all add: split_def)

subsection \<open>User updates\<close>

lemma update_order_filled:
  "update_order ev w = empty_slot \<or> wo_filled_size w \<le> wo_filled_size (update_order ev w)"
  by (auto simp: update_order_def Let_def split: order_status.splits)

lemma on_user_update_cases:
  obtains (same) "on_user_update t ev = t"
  | (slot) s where "s < length t" "working (t ! s)" "on_user_update t ev = t[s := update_order ev (t ! s)]"
proof (cases "ev_source ev = USER_WS \<and> ev_kind ev = USER_ORDER_UPDATE")
  case False
  then show ?thesis using same by (auto simp: on_user_update_def)
next
  case True
  show ?thesis
  proof (cases "case slot_by_ids t ev of Some s \<Rightarrow> Some s | None \<Rightarrow> find_slot_for_user_update_fallback t ev")
    case None
    with True same show ?thesis by (simp add: on_user_update_def)
  next
    case (Some s)
    hence "s < length t \<and> working (t ! s)"
      using slot_lt(4) slot_by_ids_working fallback_slot by (auto split: option.splits)
    moreover have "on_user_update t ev = t[s := update_order ev (t ! s)]"
      using True Some by (simp add: on_user_update_def)
    ultimately show ?thesis by (intro slot [of s]) simp_all
  qed
qed

lemma on_user_update_filled:
  "i < length t \<Longrightarrow> on_user_update t ev ! i = empty_slot \<or>
     wo_filled_size (t ! i) \<le> wo_filled_size (on_user_update t ev ! i)"
  by (rule on_user_update_cases [of t ev]) (auto simp: nth_list_update update_order_filled)

lemma on_user_update_unoccupied:
  "i < length t \<Longrightarrow> \<not> working (t ! i) \<Longrightarrow> on_user_update t ev ! i = t ! i"
  by (rule on_user_update_cases [of t ev]) (auto simp: nth_list_update)

subsection \<open>No slot is ever terminal\<close>

definition tracker_inv :: "tracker \<Rightarrow> bool" where
  "tracker_inv t \<longleftrightarrow> length t = kMaxWorking \<and> (\<forall>w \<in> set t. \<not> wo_is_terminal w)"

lemma tracker_inv_update:
  "tracker_inv t \<Longrightarrow> \<not> wo_is_terminal w \<Longrightarrow> tracker_inv (t[i := w])"
  by (auto simp: tracker_inv_def dest!: set_update_subset_insert [THEN subsetD])

lemma tracker_inv_new [simp]: "tracker_inv new_tracker"
  by (simp add: tracker_inv_def new_tracker_def)

lemma tracker_inv_nth: "tracker_inv t \<Longrightarrow> i < length t \<Longrightarrow> \<not> wo_is_terminal (t ! i)"
  by (simp add: tracker_inv_def)

lemma accept_order_terminal [simp]: "wo_is_terminal (accept_order oid w) = wo_is_terminal w"
  by (simp add: accept_order_def Let_def)

lemma update_order_terminal: "\<not> wo_is_terminal w \<Longrightarrow> \<not> wo_is_terminal (update_order ev w)"
  by (auto simp: update_order_def Let_def split: order_status.splits)

lemma tracker_inv_intent: "tracker_inv t \<Longrightarrow> tracker_inv (fst (on_intent_sent t i))"
  by (auto simp: on_intent_sent_def order_of_intent_def intro!: tracker_inv_update split: option.splits)

lemma tracker_inv_feedback: "tracker_inv t \<Longrightarrow> tracker_inv (on_exec_feedback t ev)"
  by (auto simp: on_exec_feedback_def remove_slot_def tracker_inv_nth slot_lt
      intro!: tracker_inv_update split: option.splits)

lemma tracker_inv_user: "tracker_inv t \<Longrightarrow> tracker_inv (on_user_update t ev)"
  by (rule on_user_update_cases [of t ev])
    (auto simp: tracker_inv_nth update_order_terminal intro!: tracker_inv_update)

lemma tracker_inv_gc: "tracker_inv t \<Longrightarrow> tracker_inv (fst (gc_stale_pending t now age))"
  by (auto simp: gc_stale_pending_eq tracker_inv_def)

lemma tracker_inv_clear: "tracker_inv t \<Longrightarrow> tracker_inv (clear_all t)"
  by (auto simp: clear_all_def tracker_inv_def)

lemmas tracker_inv_ops =
  tracker_inv_intent tracker_inv_feedback tracker_inv_user tracker_inv_gc tracker_inv_clear

subsection \<open>The contract the risk gate relies on\<close>

locale order_table =
  fixes exposure :: "'t \<Rightarrow> asset_id \<Rightarrow> qty"
    and notional :: "'t \<Rightarrow> int"
    and track :: "'t \<Rightarrow> execution_intent \<Rightarrow> 't \<times> bool"
  assumes track_exposure: "is_placement (in_action i) \<Longrightarrow> snd (track t i) \<Longrightarrow>
      exposure (fst (track t i)) tok = exposure t tok + (if in_asset_id i = tok then signed_qty i else 0)"
    and track_notional: "is_placement (in_action i) \<Longrightarrow> snd (track t i) \<Longrightarrow>
      notional (fst (track t i)) = notional t + in_price i * in_qty i"
begin

text \<open>A limit that holds for the projected exposure holds for the exposure after tracking, and the
  same for the notional.\<close>

lemma limits_after_track:
  assumes "is_placement (in_action i)" "snd (track t i)"
    and "\<bar>pos + exposure t (in_asset_id i) + signed_qty i\<bar> \<le> max_pos"
    and "notional t + in_price i * in_qty i \<le> max_notional"
  shows "\<bar>pos + exposure (fst (track t i)) (in_asset_id i)\<bar> \<le> max_pos"
    "notional (fst (track t i)) \<le> max_notional"
  using assms track_exposure [OF assms(1,2), of "in_asset_id i"] track_notional [OF assms(1,2)]
  by (simp_all add: algebra_simps)

end

interpretation wot: order_table pending_exposure_for_token total_working_notional on_intent_sent
  by unfold_locales (simp_all add: exposure_placed notional_placed)

subsection \<open>Properties\<close>

text \<open>A placement that the tracker records is found under its client id with exactly the
  intent's fields, pending and unfilled, every other client id keeps its order, and the pending
  exposure of every token and the working notional change by exactly the placed order.\<close>

theorem tracked_placement:
  assumes "is_placement (in_action i)" and "snd (on_intent_sent t i)" and "in_client_order_id i \<noteq> []"
    and "find_by_client_id t (in_client_order_id i) = None"
  shows "find_by_client_id (fst (on_intent_sent t i)) oid =
      (if oid = in_client_order_id i then Some (order_of_intent i) else find_by_client_id t oid) \<and>
    pending_exposure_for_token (fst (on_intent_sent t i)) tok =
      pending_exposure_for_token t tok +
        (if in_asset_id i = tok then (if in_action i = WOULD_PLACE_ASK then - in_qty i else in_qty i) else 0) \<and>
    total_working_notional (fst (on_intent_sent t i)) = total_working_notional t + in_price i * in_qty i"
  using find_by_client_id_placed(1) [OF assms] find_by_client_id_placed(2) [OF assms, of oid]
    exposure_placed [OF assms(1,2), of tok]
    notional_placed [OF assms(1,2)]
  by (simp add: signed_qty_def)

theorem tracked_placement_witness:
  "total_working_notional (fst (on_intent_sent [empty_slot]
     (new_execution_intent\<lparr> in_client_order_id := ''c1'', in_price := 5200, in_qty := 3 \<rparr>))) = 15600"
  using tracked_placement [of "new_execution_intent\<lparr> in_client_order_id := ''c1'', in_price := 5200, in_qty := 3 \<rparr>"
      "[empty_slot]" "''c1''" "''t''"]
  by (simp add: is_placement_def new_execution_intent_def on_intent_sent_def find_free_slot_def
      find_by_client_id_def find_slot_by_client_id_def total_working_notional_def)

text \<open>The cancel batch for a market lists its working orders in slot order, but never more
  than the 32 a batch holds: when a market has more working orders, the remaining ones get no cancel.\<close>

theorem cancel_batch_capped:
  "cancel_intents_for_market t c =
     take 32 (map cancel_of (filter (\<lambda>w. working w \<and> wo_market_id w = c) t)) \<and>
   length (cancel_intents_for_market t c) = min 32 (working_count_for_market t c)"
  by (simp add: cancel_intents_for_market_eq working_count_for_market_def kMaxIntents_def)

text \<open>Garbage collection empties exactly the slots of pending orders that are older than the
  limit, keeps every other slot, and returns the number of slots it emptied.\<close>

theorem gc_removes_stale_pending:
  "gc_stale_pending t now max_age_ns =
     (map (\<lambda>w. if stale_pending now max_age_ns w then empty_slot else w) t,
      int (length (filter (stale_pending now max_age_ns) t)))"
  by (rule gc_stale_pending_eq)

text \<open>A user update never lowers the filled size of an order: each slot is emptied or keeps at
  least the fill it had, and a slot without a working order is not touched.\<close>

theorem user_update_fill_monotone:
  assumes "i < length t"
  shows "(on_user_update t ev ! i = empty_slot \<or>
      wo_filled_size (t ! i) \<le> wo_filled_size (on_user_update t ev ! i)) \<and>
    (working (t ! i) \<or> on_user_update t ev ! i = t ! i)"
  using on_user_update_filled [OF assms] on_user_update_unoccupied [OF assms] by blast

theorem user_update_fill_monotone_witness:
  "wo_filled_size (empty_slot\<lparr> wo_occupied := True, wo_client_order_id := ''c'', wo_filled_size := 5 \<rparr>) \<le>
   wo_filled_size (on_user_update
     [empty_slot\<lparr> wo_occupied := True, wo_client_order_id := ''c'', wo_filled_size := 5 \<rparr>]
     (new_event\<lparr> ev_source := USER_WS, ev_kind := USER_ORDER_UPDATE, ev_client_order_id := ''c'',
        ev_order_status_raw := O_PARTIAL, ev_user_cumulative_filled := 3 \<rparr>) ! 0)"
  using user_update_fill_monotone [of 0
     "[empty_slot\<lparr> wo_occupied := True, wo_client_order_id := ''c'', wo_filled_size := 5 \<rparr>]"
     "new_event\<lparr> ev_source := USER_WS, ev_kind := USER_ORDER_UPDATE, ev_client_order_id := ''c'',
        ev_order_status_raw := O_PARTIAL, ev_user_cumulative_filled := 3 \<rparr>"]
  by (auto simp: on_user_update_def slot_by_ids_def find_slot_by_exchange_id_def
      find_slot_by_client_id_def working_def empty_slot_def new_event_def update_order_def)

end
