(* ===== verification/Pnl_Tracker.thy ===== *)
theory Pnl_Tracker
  imports LT_Types "HOL-Library.AList"
begin

section \<open>FIFO profit and loss\<close>

text \<open>
  src/src/common/pnl_tracker.h.  The open buys and sells of an asset are two ring buffers of 256
  entries; \<open>record_fill\<close> matches a fill against the opposite buffer in FIFO order and, for a buy,
  the open buys of the two tokens of a market against each other.  The ring operations are proved to
  implement a bounded FIFO queue on lists (\<open>fifo\<close>), and the matching loops to conserve quantity.
\<close>

record fifo_entry =
  fe_price :: price
  fe_remaining :: qty

definition kMaxEntries :: int where "kMaxEntries = 256"

record ring =
  ring_data :: "fifo_entry list"
  ring_head :: int
  ring_count :: int

definition empty_ring :: ring where
  "empty_ring = \<lparr> ring_data = replicate 256 \<lparr> fe_price = 0, fe_remaining = 0 \<rparr>,
                  ring_head = 0, ring_count = 0 \<rparr>"

text \<open>\<open>push_long\<close>/\<open>push_short\<close>, \<open>front_long\<close>/\<open>front_short\<close>, \<open>pop_long\<close>/\<open>pop_short\<close>: the two buffers
  have the same code.\<close>

definition ring_push :: "ring \<Rightarrow> price \<Rightarrow> qty \<Rightarrow> ring" where
  "ring_push r p q =
     (if ring_count r \<ge> kMaxEntries then r
      else r\<lparr> ring_data := (ring_data r)[nat ((ring_head r + ring_count r) mod kMaxEntries) :=
                 \<lparr> fe_price = p, fe_remaining = q \<rparr>],
              ring_count := ring_count r + 1 \<rparr>)"

definition ring_front :: "ring \<Rightarrow> fifo_entry" where
  "ring_front r = ring_data r ! nat (ring_head r)"

definition ring_set_front :: "ring \<Rightarrow> fifo_entry \<Rightarrow> ring" where
  "ring_set_front r e = r\<lparr> ring_data := (ring_data r)[nat (ring_head r) := e] \<rparr>"

definition ring_pop :: "ring \<Rightarrow> ring" where
  "ring_pop r = r\<lparr> ring_head := (ring_head r + 1) mod kMaxEntries, ring_count := ring_count r - 1 \<rparr>"

definition take_front :: "ring \<Rightarrow> qty \<Rightarrow> ring" where
  "take_front r matched =
     (let e = ring_front r;
          e' = e\<lparr> fe_remaining := fe_remaining e - matched \<rparr>;
          r' = ring_set_front r e'
      in if fe_remaining e' = 0 then ring_pop r' else r')"

record asset_pnl_state =
  longs :: ring
  shorts :: ring
  settled :: bool

definition empty_pnl_state :: asset_pnl_state where
  "empty_pnl_state = \<lparr> longs = empty_ring, shorts = empty_ring, settled = False \<rparr>"

record pnl_tracker =
  pnl_states :: "asset_id \<rightharpoonup> asset_pnl_state"
  pnl_complement :: "asset_id \<rightharpoonup> asset_id"
  realized_pnl :: int

definition new_pnl_tracker :: pnl_tracker where
  "new_pnl_tracker = \<lparr> pnl_states = Map.empty, pnl_complement = Map.empty, realized_pnl = 0 \<rparr>"

lemma ring_pop_count [simp]: "ring_count (ring_pop r) = ring_count r - 1"
  by (simp add: ring_pop_def)

lemma ring_set_front_count [simp]: "ring_count (ring_set_front r e) = ring_count r"
  by (simp add: ring_set_front_def)

lemma take_front_count:
  "ring_count (take_front r m) = ring_count r - (if fe_remaining (ring_front r) = m then 1 else 0)"
  by (simp add: take_front_def Let_def)

subsection \<open>Matching loops\<close>

text \<open>A buy against the open shorts (\<open>sign = -1\<close> on the price difference of the source) and a sell
  against the open longs: \<open>pnl_of entry_price\<close> is the price difference of the branch.\<close>

function match_fifo :: "(price \<Rightarrow> int) \<Rightarrow> ring \<Rightarrow> qty \<Rightarrow> int \<Rightarrow> ring \<times> qty \<times> int" where
  "match_fifo diff r remaining fill_pnl =
     (if remaining > 0 \<and> ring_count r > 0 then
        let e = ring_front r;
            matched = min remaining (fe_remaining e);
            pnl = (diff (fe_price e) * matched) sdiv kPriceScale
        in match_fifo diff (take_front r matched) (remaining - matched) (fill_pnl + pnl)
      else (r, remaining, fill_pnl))"
  by pat_completeness auto
termination
  by (relation "measures [\<lambda>(d, r, q, p). nat (ring_count r), \<lambda>(d, r, q, p). nat q]")
    (auto simp: take_front_count min_def)

declare match_fifo.simps [simp del]

function match_pairs :: "ring \<Rightarrow> ring \<Rightarrow> int \<Rightarrow> ring \<times> ring \<times> int" where
  "match_pairs r c fill_pnl =
     (if ring_count r > 0 \<and> ring_count c > 0 then
        let e = ring_front r; f = ring_front c;
            matched = min (fe_remaining e) (fe_remaining f);
            pnl = ((kPriceScale - fe_price e - fe_price f) * matched) sdiv kPriceScale
        in match_pairs (take_front r matched) (take_front c matched) (fill_pnl + pnl)
      else (r, c, fill_pnl))"
  by pat_completeness auto
termination
  by (relation "measure (\<lambda>(r, c, p). nat (ring_count r) + nat (ring_count c))")
    (auto simp: take_front_count min_def)

declare match_pairs.simps [simp del]

definition register_pair :: "pnl_tracker \<Rightarrow> asset_id \<Rightarrow> asset_id \<Rightarrow> pnl_tracker" where
  "register_pair t up down =
     (let emp = (\<lambda>m k v. if m k = None then m(k \<mapsto> v) else m);
          ensure = (\<lambda>m k. if m k = None then m(k \<mapsto> empty_pnl_state) else m)
      in t\<lparr> pnl_complement := emp (emp (pnl_complement t) up down) down up,
            pnl_states := ensure (ensure (pnl_states t) up) down \<rparr>)"

definition push_if_left :: "ring \<Rightarrow> price \<Rightarrow> qty \<Rightarrow> ring" where
  "push_if_left r p left = (if left > 0 then ring_push r p left else r)"

text \<open>The cross-asset step of a buy.  In the source \<open>state\<close> and \<open>comp_state\<close> are references into the
  same map, so both updates are written back; the two tokens of a pair are distinct.\<close>

definition cross_match ::
  "pnl_tracker \<Rightarrow> asset_id \<Rightarrow> asset_pnl_state \<Rightarrow> int \<Rightarrow> (asset_id \<rightharpoonup> asset_pnl_state) \<times> int" where
  "cross_match t a st fill_pnl =
     (let states = (pnl_states t)(a \<mapsto> st)
      in case pnl_complement t a of
           None \<Rightarrow> (states, fill_pnl)
         | Some c \<Rightarrow>
             (case states c of
                None \<Rightarrow> (states, fill_pnl)
              | Some cs \<Rightarrow>
                  if settled cs then (states, fill_pnl)
                  else
                    let (l, cl, pnl) = match_pairs (longs st) (longs cs) fill_pnl
                    in (states(a \<mapsto> st\<lparr> longs := l \<rparr>, c \<mapsto> cs\<lparr> longs := cl \<rparr>), pnl)))"

definition pnl_record_fill ::
  "pnl_tracker \<Rightarrow> asset_id \<Rightarrow> side \<Rightarrow> price \<Rightarrow> qty \<Rightarrow> pnl_tracker \<times> int" where
  "pnl_record_fill t a sd p sz =
     (let st = (case pnl_states t a of None \<Rightarrow> empty_pnl_state | Some s \<Rightarrow> s);
          t1 = t\<lparr> pnl_states := (pnl_states t)(a \<mapsto> st) \<rparr>
      in if settled st then (t1, 0)
         else
           (case sd of
              BID \<Rightarrow>
                let (sh, left, pnl) = match_fifo (\<lambda>ep. ep - p) (shorts st) sz 0;
                    st1 = st\<lparr> shorts := sh, longs := push_if_left (longs st) p left \<rparr>;
                    (states, pnl2) = cross_match t1 a st1 pnl
                in (t1\<lparr> pnl_states := states, realized_pnl := wrap64 (realized_pnl t1 + pnl2) \<rparr>, pnl2)
            | ASK \<Rightarrow>
                let (lg, left, pnl) = match_fifo (\<lambda>ep. p - ep) (longs st) sz 0;
                    st1 = st\<lparr> longs := lg, shorts := push_if_left (shorts st) p left \<rparr>
                in (t1\<lparr> pnl_states := (pnl_states t1)(a \<mapsto> st1),
                        realized_pnl := wrap64 (realized_pnl t1 + pnl) \<rparr>, pnl)))"

definition pnl_reverse_fill :: "pnl_tracker \<Rightarrow> int \<Rightarrow> pnl_tracker" where
  "pnl_reverse_fill t delta = t\<lparr> realized_pnl := wrap64 (realized_pnl t - delta) \<rparr>"

function settle_ring :: "(price \<Rightarrow> int) \<Rightarrow> ring \<Rightarrow> int \<Rightarrow> ring \<times> int" where
  "settle_ring diff r pnl =
     (if ring_count r > 0 then
        let e = ring_front r
        in settle_ring diff (ring_pop r)
             (wrap64 (pnl + (diff (fe_price e) * fe_remaining e) sdiv kPriceScale))
      else (r, pnl))"
  by pat_completeness auto
termination
  by (relation "measure (\<lambda>(d, r, p). nat (ring_count r))") auto

declare settle_ring.simps [simp del]

definition settle_asset :: "pnl_tracker \<Rightarrow> asset_id \<Rightarrow> price \<Rightarrow> pnl_tracker" where
  "settle_asset t a settlement =
     (case pnl_states t a of
        None \<Rightarrow> t
      | Some st \<Rightarrow>
          if settled st then t
          else
            let (lg, p1) = settle_ring (\<lambda>ep. settlement - ep) (longs st) (realized_pnl t);
                (sh, p2) = settle_ring (\<lambda>ep. ep - settlement) (shorts st) p1
            in t\<lparr> pnl_states := (pnl_states t)(a \<mapsto> \<lparr> longs = lg, shorts = sh, settled = True \<rparr>),
                  realized_pnl := p2 \<rparr>)"

subsection \<open>The ring buffer is a bounded FIFO queue\<close>

locale bounded_fifo =
  fixes elems :: "'q \<Rightarrow> 'e list"
    and invar :: "'q \<Rightarrow> bool"
    and cap :: nat
    and push :: "'q \<Rightarrow> 'e \<Rightarrow> 'q"
    and front :: "'q \<Rightarrow> 'e"
    and set_front :: "'q \<Rightarrow> 'e \<Rightarrow> 'q"
    and pop :: "'q \<Rightarrow> 'q"
  assumes elems_push: "invar q \<Longrightarrow> elems (push q e) = (if length (elems q) < cap then elems q @ [e] else elems q)"
    and front_hd: "invar q \<Longrightarrow> elems q \<noteq> [] \<Longrightarrow> front q = hd (elems q)"
    and elems_set_front: "invar q \<Longrightarrow> elems q \<noteq> [] \<Longrightarrow> elems (set_front q e) = e # tl (elems q)"
    and elems_pop: "invar q \<Longrightarrow> elems q \<noteq> [] \<Longrightarrow> elems (pop q) = tl (elems q)"
    and invar_push: "invar q \<Longrightarrow> invar (push q e)"
    and invar_set_front: "invar q \<Longrightarrow> elems q \<noteq> [] \<Longrightarrow> invar (set_front q e)"
    and invar_pop: "invar q \<Longrightarrow> elems q \<noteq> [] \<Longrightarrow> invar (pop q)"
begin

text \<open>Replacing the front and dropping it when it is used up, on the list.\<close>

lemma replace_front:
  assumes "invar q" "elems q = x # xs"
  shows "elems (if done then pop (set_front q e) else set_front q e) = (if done then xs else e # xs)"
    "invar (if done then pop (set_front q e) else set_front q e)"
proof -
  have 1: "elems (set_front q e) = e # xs" using assms elems_set_front by simp
  moreover have "invar (set_front q e)" using assms invar_set_front by simp
  ultimately show "elems (if done then pop (set_front q e) else set_front q e) = (if done then xs else e # xs)"
    "invar (if done then pop (set_front q e) else set_front q e)"
    using elems_pop invar_pop by simp_all
qed

end

definition ring_list :: "ring \<Rightarrow> fifo_entry list" where
  "ring_list r =
     map (\<lambda>i. ring_data r ! nat ((ring_head r + int i) mod kMaxEntries)) [0..<nat (ring_count r)]"

definition ring_inv :: "ring \<Rightarrow> bool" where
  "ring_inv r \<longleftrightarrow> length (ring_data r) = 256 \<and> 0 \<le> ring_head r \<and> ring_head r < 256 \<and>
     0 \<le> ring_count r \<and> ring_count r \<le> 256"

lemma length_ring_list [simp]: "length (ring_list r) = nat (ring_count r)"
  by (simp add: ring_list_def)

lemma ring_list_eqI:
  assumes "nat (ring_count r) = length xs"
    "\<And>i. i < length xs \<Longrightarrow> ring_data r ! nat ((ring_head r + int i) mod 256) = xs ! i"
  shows "ring_list r = xs"
  using assms by (intro nth_equalityI) (simp_all add: ring_list_def kMaxEntries_def)

lemma ring_nth:
  "i < nat (ring_count r) \<Longrightarrow> ring_list r ! i = ring_data r ! nat ((ring_head r + int i) mod 256)"
  by (simp add: ring_list_def kMaxEntries_def)

lemma ring_index_inj:
  assumes "0 \<le> h" "h < 256" "i < 256" "j < 256" "i \<noteq> j"
  shows "nat ((h + int i) mod 256) \<noteq> nat ((h + int j) mod 256)"
proof
  assume "nat ((h + int i) mod 256) = nat ((h + int j) mod 256)"
  hence "(h + int i) mod 256 = (h + int j) mod 256" by simp
  hence "(256::int) dvd int i - int j" by (simp add: mod_eq_dvd_iff)
  moreover have "\<bar>int i - int j\<bar> < 256" using assms by linarith
  ultimately have "int i - int j = 0" using zdvd_imp_le [of 256 "\<bar>int i - int j\<bar>"] by fastforce
  thus False using assms(5) by simp
qed

lemma ring_index_lt: "nat ((h :: int) mod 256) < 256"
  by (simp add: nat_less_iff)

lemma ring_list_push:
  assumes "ring_inv r"
  shows "ring_list (ring_push r p q) =
    (if length (ring_list r) < 256 then ring_list r @ [\<lparr> fe_price = p, fe_remaining = q \<rparr>] else ring_list r)"
proof (cases "ring_count r < 256")
  case False
  with assms show ?thesis by (simp add: ring_push_def kMaxEntries_def)
next
  case True
  let ?e = "\<lparr> fe_price = p, fe_remaining = q \<rparr>"
  have inv: "length (ring_data r) = 256" "0 \<le> ring_head r" "ring_head r < 256" "0 \<le> ring_count r"
    using assms by (auto simp: ring_inv_def)
  have "ring_list (ring_push r p q) = ring_list r @ [?e]"
  proof (rule ring_list_eqI)
    show "nat (ring_count (ring_push r p q)) = length (ring_list r @ [?e])"
      using True inv by (simp add: ring_push_def kMaxEntries_def nat_add_distrib)
    fix i assume i: "i < length (ring_list r @ [?e])"
    let ?n = "nat (ring_count r)"
    have n: "int ?n = ring_count r" using inv by simp
    show "ring_data (ring_push r p q) ! nat ((ring_head (ring_push r p q) + int i) mod 256) =
        (ring_list r @ [?e]) ! i"
    proof (cases "i = ?n")
      case True
      with \<open>ring_count r < 256\<close> inv n show ?thesis
        by (simp add: ring_push_def kMaxEntries_def nth_append ring_index_lt)
    next
      case False
      with i have lt: "i < ?n" by simp
      have "nat ((ring_head r + int ?n) mod 256) \<noteq> nat ((ring_head r + int i) mod 256)"
        using inv lt True False by (intro ring_index_inj) auto
      with lt True inv n show ?thesis
        by (simp add: ring_push_def kMaxEntries_def nth_append ring_nth)
    qed
  qed
  with True inv show ?thesis by simp
qed

lemma ring_front_hd:
  assumes "ring_inv r" "ring_list r \<noteq> []"
  shows "ring_front r = hd (ring_list r)"
proof -
  have c: "0 < nat (ring_count r)" using assms(2) by (metis length_greater_0_conv length_ring_list)
  have "hd (ring_list r) = ring_list r ! 0" using assms(2) by (simp add: hd_conv_nth)
  with c assms(1) show ?thesis by (simp add: ring_nth ring_front_def ring_inv_def)
qed

lemma ring_list_pop:
  assumes "ring_inv r" "ring_list r \<noteq> []"
  shows "ring_list (ring_pop r) = tl (ring_list r)" "ring_inv (ring_pop r)"
proof -
  have c: "0 < nat (ring_count r)" using assms(2) by (metis length_greater_0_conv length_ring_list)
  show "ring_list (ring_pop r) = tl (ring_list r)"
  proof (rule ring_list_eqI)
    show "nat (ring_count (ring_pop r)) = length (tl (ring_list r))" using c by simp
    fix i assume "i < length (tl (ring_list r))"
    hence i: "Suc i < nat (ring_count r)" by simp
    have "((ring_head r + 1) mod 256 + int i) mod 256 = (ring_head r + int (Suc i)) mod 256"
      by (simp add: mod_add_left_eq add.assoc)
    with i show "ring_data (ring_pop r) ! nat ((ring_head (ring_pop r) + int i) mod 256) =
        tl (ring_list r) ! i"
      by (simp add: ring_pop_def kMaxEntries_def nth_tl ring_nth)
  qed
  show "ring_inv (ring_pop r)" using assms(1) c by (auto simp: ring_inv_def ring_pop_def kMaxEntries_def)
qed

lemma ring_list_set_front:
  assumes "ring_inv r" "ring_list r \<noteq> []"
  shows "ring_list (ring_set_front r e) = e # tl (ring_list r)" "ring_inv (ring_set_front r e)"
proof -
  have c: "0 < nat (ring_count r)" using assms(2) by (metis length_greater_0_conv length_ring_list)
  have inv: "length (ring_data r) = 256" "0 \<le> ring_head r" "ring_head r < 256" "ring_count r \<le> 256"
    using assms(1) by (auto simp: ring_inv_def)
  show "ring_list (ring_set_front r e) = e # tl (ring_list r)"
  proof (rule ring_list_eqI)
    show "nat (ring_count (ring_set_front r e)) = length (e # tl (ring_list r))" using c by simp
    fix i assume "i < length (e # tl (ring_list r))"
    hence i: "i < nat (ring_count r)" using c by simp
    show "ring_data (ring_set_front r e) ! nat ((ring_head (ring_set_front r e) + int i) mod 256) =
        (e # tl (ring_list r)) ! i"
    proof (cases i)
      case 0
      with inv show ?thesis by (simp add: ring_set_front_def)
    next
      case (Suc k)
      have "nat ((ring_head r + int 0) mod 256) \<noteq> nat ((ring_head r + int i) mod 256)"
        using inv i Suc by (intro ring_index_inj) auto
      with Suc i inv show ?thesis by (simp add: ring_set_front_def nth_tl ring_nth)
    qed
  qed
  show "ring_inv (ring_set_front r e)" using assms(1) by (simp add: ring_inv_def ring_set_front_def)
qed

lemma ring_inv_push: "ring_inv r \<Longrightarrow> ring_inv (ring_push r p q)"
  by (auto simp: ring_inv_def ring_push_def kMaxEntries_def)

interpretation pnl_ring: bounded_fifo ring_list ring_inv 256
    "\<lambda>r e. ring_push r (fe_price e) (fe_remaining e)" ring_front ring_set_front ring_pop
  by unfold_locales (simp_all add: ring_list_push ring_front_hd ring_list_pop ring_list_set_front ring_inv_push)

subsection \<open>Matching on lists\<close>

text \<open>The specification of the matching loops: consume the entries of a FIFO list from its head.\<close>

fun fifo_match :: "(price \<Rightarrow> int) \<Rightarrow> fifo_entry list \<Rightarrow> qty \<Rightarrow> int \<Rightarrow> fifo_entry list \<times> qty \<times> int" where
  "fifo_match diff [] q pnl = ([], q, pnl)"
| "fifo_match diff (e # es) q pnl =
     (if q \<le> 0 then (e # es, q, pnl)
      else if fe_remaining e \<le> q then
        fifo_match diff es (q - fe_remaining e)
          (pnl + (diff (fe_price e) * fe_remaining e) sdiv kPriceScale)
      else (e\<lparr> fe_remaining := fe_remaining e - q \<rparr> # es, 0, pnl + (diff (fe_price e) * q) sdiv kPriceScale))"

definition open_qty :: "fifo_entry list \<Rightarrow> qty" where
  "open_qty es = sum_list (map fe_remaining es)"

definition entries_pos :: "fifo_entry list \<Rightarrow> bool" where
  "entries_pos es \<longleftrightarrow> (\<forall>e \<in> set es. 0 < fe_remaining e)"

lemma open_qty_simps [simp]:
  "open_qty [] = 0" "open_qty (e # es) = fe_remaining e + open_qty es"
  "open_qty (es @ fs) = open_qty es + open_qty fs"
  by (simp_all add: open_qty_def)

lemma entries_pos_simps [simp]:
  "entries_pos []" "entries_pos (e # es) \<longleftrightarrow> 0 < fe_remaining e \<and> entries_pos es"
  "entries_pos (es @ fs) \<longleftrightarrow> entries_pos es \<and> entries_pos fs"
  by (auto simp: entries_pos_def)

lemma ring_count_pos: "ring_inv r \<Longrightarrow> ring_count r > 0 \<longleftrightarrow> ring_list r \<noteq> []"
  using length_ring_list [of r] by (auto simp: ring_inv_def simp flip: length_greater_0_conv)

lemma take_front_list:
  assumes "ring_inv r" "ring_list r = e # es"
  shows "ring_list (take_front r m) =
      (if fe_remaining e = m then es else e\<lparr> fe_remaining := fe_remaining e - m \<rparr> # es)"
    "ring_inv (take_front r m)"
proof -
  have f: "ring_front r = e" using ring_front_hd [of r] assms by simp
  have t: "take_front r m =
      (if fe_remaining e = m then ring_pop (ring_set_front r (e\<lparr> fe_remaining := fe_remaining e - m \<rparr>))
       else ring_set_front r (e\<lparr> fe_remaining := fe_remaining e - m \<rparr>))"
    by (simp add: take_front_def Let_def f)
  show "ring_list (take_front r m) =
      (if fe_remaining e = m then es else e\<lparr> fe_remaining := fe_remaining e - m \<rparr> # es)"
    "ring_inv (take_front r m)"
    unfolding t using pnl_ring.replace_front [OF assms] by simp_all
qed

lemma match_fifo_refines:
  "ring_inv r \<Longrightarrow>
   (case match_fifo diff r q pnl of (r', q', pnl') \<Rightarrow>
      ring_inv r' \<and> fifo_match diff (ring_list r) q pnl = (ring_list r', q', pnl'))"
proof (induction diff r q pnl rule: match_fifo.induct)
  case (1 diff r q pnl)
  show ?case
  proof (cases "q > 0 \<and> ring_count r > 0")
    case False
    then have "ring_list r = [] \<or> q \<le> 0" using 1(2) ring_count_pos by auto
    then have "fifo_match diff (ring_list r) q pnl = (ring_list r, q, pnl)"
      by (cases "ring_list r") auto
    with False 1(2) show ?thesis by (auto simp: match_fifo.simps [of diff r q pnl])
  next
    case True
    then obtain e es where l: "ring_list r = e # es"
      using 1(2) ring_count_pos by (cases "ring_list r") auto
    let ?m = "min q (fe_remaining e)"
    have f: "ring_front r = e" using ring_front_hd [of r] 1(2) l by simp
    note tf = take_front_list [OF 1(2) l, of ?m]
    have "fifo_match diff (ring_list r) q pnl =
        fifo_match diff (ring_list (take_front r ?m)) (q - ?m)
          (pnl + (diff (fe_price e) * ?m) sdiv kPriceScale)"
      using True l tf(1) by (auto simp: min_def)
    moreover have "case match_fifo diff (take_front r ?m) (q - ?m)
          (pnl + (diff (fe_price e) * ?m) sdiv kPriceScale) of (r', q', pnl') \<Rightarrow>
        ring_inv r' \<and> fifo_match diff (ring_list (take_front r ?m)) (q - ?m)
          (pnl + (diff (fe_price e) * ?m) sdiv kPriceScale) = (ring_list r', q', pnl')"
      using 1(1) [OF True refl refl refl] tf(2) f by simp
    ultimately show ?thesis
      using True f by (simp add: match_fifo.simps [of diff r q pnl] Let_def)
  qed
qed

lemma fifo_match_conserves:
  assumes "fifo_match diff es q pnl = (es', q', pnl')" "entries_pos es" "0 \<le> q"
  shows "open_qty es - open_qty es' = q - q' \<and> entries_pos es' \<and> 0 \<le> q' \<and> (q' = 0 \<or> es' = []) \<and>
    length es' \<le> length es"
  using assms
proof (induction diff es q pnl rule: fifo_match.induct)
  case (1 diff q pnl)
  then show ?case by simp
next
  case (2 diff e es q pnl)
  consider "q \<le> 0" | "q > 0" "fe_remaining e \<le> q" | "q > 0" "q < fe_remaining e" by linarith
  then show ?case
  proof cases
    case 1
    with 2(2-4) show ?thesis by auto
  next
    case a: 2
    with 2 have "open_qty es - open_qty es' = q - fe_remaining e - q' \<and> entries_pos es' \<and> 0 \<le> q' \<and>
        (q' = 0 \<or> es' = []) \<and> length es' \<le> length es"
      by simp
    then show ?thesis by auto
  next
    case 3
    with 2(2-4) show ?thesis by auto
  qed
qed

lemma match_pairs_conserves:
  assumes "match_pairs r c pnl = (r', c', pnl')" "ring_inv r" "ring_inv c"
    "entries_pos (ring_list r)" "entries_pos (ring_list c)"
  shows "open_qty (ring_list r) - open_qty (ring_list r') = open_qty (ring_list c) - open_qty (ring_list c') \<and>
    entries_pos (ring_list r') \<and> entries_pos (ring_list c') \<and> ring_inv r' \<and> ring_inv c' \<and>
    (ring_list r' = [] \<or> ring_list c' = []) \<and>
    (ring_list r = [] \<longrightarrow> ring_list r' = []) \<and> (ring_list c = [] \<longrightarrow> ring_list c' = [])"
  using assms
proof (induction r c pnl rule: match_pairs.induct)
  case (1 r c pnl)
  show ?case
  proof (cases "ring_count r > 0 \<and> ring_count c > 0")
    case False
    with 1 show ?thesis by (auto simp: match_pairs.simps [of r c pnl] ring_count_pos)
  next
    case True
    then obtain e es f fs where l: "ring_list r = e # es" "ring_list c = f # fs"
      using 1(3,4) ring_count_pos by (metis list.exhaust)
    let ?m = "min (fe_remaining e) (fe_remaining f)"
    have fr: "ring_front r = e" "ring_front c = f"
      using ring_front_hd [of r] ring_front_hd [of c] 1(3,4) l by simp_all
    note tr = take_front_list [OF 1(3) l(1), of ?m] and tc = take_front_list [OF 1(4) l(2), of ?m]
    have pos: "entries_pos (ring_list (take_front r ?m))" "entries_pos (ring_list (take_front c ?m))"
      using tr(1) tc(1) 1(5,6) l by (auto simp: min_def)
    have "open_qty (ring_list r) - open_qty (ring_list (take_front r ?m)) = ?m"
      "open_qty (ring_list c) - open_qty (ring_list (take_front c ?m)) = ?m"
      using tr(1) tc(1) l by auto
    with 1(1) [OF True refl refl refl refl] 1(2) True fr pos tr(2) tc(2) l show ?thesis
      by (simp add: match_pairs.simps [of r c pnl] Let_def)
  qed
qed

subsection \<open>Invariant of the tracker\<close>

definition state_inv :: "asset_pnl_state \<Rightarrow> bool" where
  "state_inv st \<longleftrightarrow> ring_inv (longs st) \<and> ring_inv (shorts st) \<and>
     entries_pos (ring_list (longs st)) \<and> entries_pos (ring_list (shorts st)) \<and>
     (ring_list (longs st) = [] \<or> ring_list (shorts st) = [])"

definition pnl_inv :: "pnl_tracker \<Rightarrow> bool" where
  "pnl_inv t \<longleftrightarrow> (\<forall>a st. pnl_states t a = Some st \<longrightarrow> state_inv st) \<and>
     (\<forall>a. pnl_complement t a \<noteq> Some a)"

definition state_net :: "asset_pnl_state \<Rightarrow> qty" where
  "state_net st = open_qty (ring_list (longs st)) - open_qty (ring_list (shorts st))"

definition pnl_net :: "pnl_tracker \<Rightarrow> asset_id \<Rightarrow> qty" where
  "pnl_net t a = (case pnl_states t a of None \<Rightarrow> 0 | Some st \<Rightarrow> state_net st)"

definition pnl_settled :: "pnl_tracker \<Rightarrow> asset_id \<Rightarrow> bool" where
  "pnl_settled t a = (case pnl_states t a of None \<Rightarrow> False | Some st \<Rightarrow> settled st)"

definition pnl_room :: "pnl_tracker \<Rightarrow> asset_id \<Rightarrow> bool" where
  "pnl_room t a = (case pnl_states t a of None \<Rightarrow> True
     | Some st \<Rightarrow> ring_count (longs st) < 256 \<and> ring_count (shorts st) < 256)"

lemma ring_list_empty_ring [simp]: "ring_list empty_ring = []"
  by (simp add: ring_list_def empty_ring_def)

lemma state_inv_empty [simp]: "state_inv empty_pnl_state"
  by (simp add: state_inv_def empty_pnl_state_def) (simp add: ring_inv_def empty_ring_def)

lemma state_net_empty [simp]: "state_net empty_pnl_state = 0"
  by (simp add: state_net_def empty_pnl_state_def)

lemma empty_pnl_state_simps [simp]:
  "ring_count (longs empty_pnl_state) = 0" "ring_count (shorts empty_pnl_state) = 0"
  "\<not> settled empty_pnl_state"
  by (simp_all add: empty_pnl_state_def empty_ring_def)

definition state_for :: "pnl_tracker \<Rightarrow> asset_id \<Rightarrow> asset_pnl_state" where
  "state_for t a = (case pnl_states t a of None \<Rightarrow> empty_pnl_state | Some s \<Rightarrow> s)"

lemma state_for_props:
  "pnl_inv t \<Longrightarrow> state_inv (state_for t a)" "pnl_net t a = state_net (state_for t a)"
  "pnl_settled t a = settled (state_for t a)"
  "pnl_room t a \<Longrightarrow> ring_count (longs (state_for t a)) < 256 \<and> ring_count (shorts (state_for t a)) < 256"
  by (auto simp: pnl_inv_def state_for_def pnl_net_def pnl_settled_def pnl_room_def split: option.splits)

text \<open>One side of a fill: consume the opposite ring \<open>x\<close>, push what is left on the own ring \<open>y\<close>.\<close>

lemma fill_side:
  assumes m: "match_fifo diff x sz 0 = (x', left, pnl)" and sz: "0 < sz"
    and inv: "ring_inv x" "ring_inv y" "entries_pos (ring_list x)" "entries_pos (ring_list y)"
      "ring_list x = [] \<or> ring_list y = []" and room: "ring_count y < 256"
    and y': "y' = push_if_left y p left"
  shows "ring_inv x' \<and> ring_inv y' \<and> entries_pos (ring_list x') \<and> entries_pos (ring_list y') \<and>
    (ring_list x' = [] \<or> ring_list y' = []) \<and>
    open_qty (ring_list y') - open_qty (ring_list x') = open_qty (ring_list y) - open_qty (ring_list x) + sz"
proof -
  have r: "ring_inv x'" "fifo_match diff (ring_list x) sz 0 = (ring_list x', left, pnl)"
    using match_fifo_refines [OF inv(1), of diff sz 0] m by simp_all
  note c = fifo_match_conserves [OF r(2) inv(3)]
  have y: "ring_list y' = (if left > 0 then ring_list y @ [\<lparr> fe_price = p, fe_remaining = left \<rparr>] else ring_list y)"
    "ring_inv y'"
    using room inv(2) by (auto simp: y' push_if_left_def ring_list_push ring_inv_push nat_less_iff)
  have "ring_list x = [] \<Longrightarrow> left = sz" using r(2) by simp
  with c y r(1) inv sz show ?thesis by auto
qed

lemma fill_side_inv:
  assumes m: "match_fifo diff x sz 0 = (x', left, pnl)" and sz: "0 < sz"
    and inv: "ring_inv x" "ring_inv y" "entries_pos (ring_list x)" "entries_pos (ring_list y)"
      "ring_list x = [] \<or> ring_list y = []"
  shows "ring_inv x' \<and> ring_inv (push_if_left y p left) \<and> entries_pos (ring_list x') \<and>
    entries_pos (ring_list (push_if_left y p left)) \<and>
    (ring_list x' = [] \<or> ring_list (push_if_left y p left) = [])"
proof -
  have r: "ring_inv x'" "fifo_match diff (ring_list x) sz 0 = (ring_list x', left, pnl)"
    using match_fifo_refines [OF inv(1), of diff sz 0] m by simp_all
  note c = fifo_match_conserves [OF r(2) inv(3)]
  have "ring_list x = [] \<Longrightarrow> left = sz" using r(2) by simp
  with c r(1) inv sz show ?thesis by (auto simp: push_if_left_def ring_list_push ring_inv_push)
qed

lemma cross_match_props:
  assumes "cross_match t a st pnl = (states, pnl')" "state_inv st"
    "\<forall>b s. pnl_states t b = Some s \<longrightarrow> state_inv s" "pnl_complement t a \<noteq> Some a"
  shows "\<forall>b s. states b = Some s \<longrightarrow> state_inv s"
    "pnl_complement t a = Some c \<Longrightarrow>
      state_net (case states a of None \<Rightarrow> empty_pnl_state | Some s \<Rightarrow> s) -
      state_net (case states c of None \<Rightarrow> empty_pnl_state | Some s \<Rightarrow> s) =
      state_net st - pnl_net t c"
    "pnl_complement t a = None \<Longrightarrow> states = (pnl_states t)(a \<mapsto> st)"
proof -
  let ?plain = "(pnl_states t)(a \<mapsto> st)"
  show "pnl_complement t a = None \<Longrightarrow> states = ?plain"
    using assms(1) by (simp add: cross_match_def)
  have plain_net: "state_net st - state_net (case ?plain c of None \<Rightarrow> empty_pnl_state | Some s \<Rightarrow> s) =
      state_net st - pnl_net t c" if "c \<noteq> a"
    using that by (simp add: pnl_net_def split: option.splits)
  consider "states = ?plain" | c' cs l cl where "pnl_complement t a = Some c'" "c' \<noteq> a"
      "pnl_states t c' = Some cs" "match_pairs (longs st) (longs cs) pnl = (l, cl, pnl')"
      "states = ?plain(a \<mapsto> st\<lparr> longs := l \<rparr>, c' \<mapsto> cs\<lparr> longs := cl \<rparr>)"
    using assms(1,4) by (auto simp: cross_match_def Let_def split: option.splits if_splits prod.splits)
  then have "(\<forall>b s. states b = Some s \<longrightarrow> state_inv s) \<and> (pnl_complement t a = Some c \<longrightarrow>
      state_net (case states a of None \<Rightarrow> empty_pnl_state | Some s \<Rightarrow> s) -
      state_net (case states c of None \<Rightarrow> empty_pnl_state | Some s \<Rightarrow> s) = state_net st - pnl_net t c)"
  proof cases
    case 1
    with assms(2,3,4) plain_net show ?thesis by auto
  next
    case (2 c' cs l cl)
    have cs: "state_inv cs" using 2(3) assms(3) by blast
    have mp: "open_qty (ring_list (longs st)) - open_qty (ring_list l) =
        open_qty (ring_list (longs cs)) - open_qty (ring_list cl) \<and>
      entries_pos (ring_list l) \<and> entries_pos (ring_list cl) \<and> ring_inv l \<and> ring_inv cl \<and>
      (ring_list (longs st) = [] \<longrightarrow> ring_list l = []) \<and> (ring_list (longs cs) = [] \<longrightarrow> ring_list cl = [])"
      using match_pairs_conserves [OF 2(4)] assms(2) cs by (auto simp: state_inv_def)
    have "state_inv (st\<lparr> longs := l \<rparr>)" "state_inv (cs\<lparr> longs := cl \<rparr>)"
      using mp assms(2) cs by (auto simp: state_inv_def)
    moreover have "state_net (st\<lparr> longs := l \<rparr>) - state_net (cs\<lparr> longs := cl \<rparr>) = state_net st - state_net cs"
      using mp by (simp add: state_net_def)
    ultimately show ?thesis using 2 assms(3) by (auto simp: pnl_net_def)
  qed
  then show "\<forall>b s. states b = Some s \<longrightarrow> state_inv s"
    "pnl_complement t a = Some c \<Longrightarrow>
      state_net (case states a of None \<Rightarrow> empty_pnl_state | Some s \<Rightarrow> s) -
      state_net (case states c of None \<Rightarrow> empty_pnl_state | Some s \<Rightarrow> s) = state_net st - pnl_net t c"
    by blast+
qed

lemma pnl_record_fill_eqs:
  assumes "\<not> settled (state_for t a)"
  shows "pnl_record_fill t a BID p sz =
      (let (sh, left, pnl) = match_fifo (\<lambda>ep. ep - p) (shorts (state_for t a)) sz 0;
           (states, pnl2) = cross_match (t\<lparr> pnl_states := (pnl_states t)(a \<mapsto> state_for t a) \<rparr>) a
             ((state_for t a)\<lparr> shorts := sh, longs := push_if_left (longs (state_for t a)) p left \<rparr>) pnl
       in (t\<lparr> pnl_states := states, realized_pnl := wrap64 (realized_pnl t + pnl2) \<rparr>, pnl2))"
    "pnl_record_fill t a ASK p sz =
      (let (lg, left, pnl) = match_fifo (\<lambda>ep. p - ep) (longs (state_for t a)) sz 0
       in (t\<lparr> pnl_states := (pnl_states t)(a \<mapsto> (state_for t a)\<lparr> longs := lg,
                shorts := push_if_left (shorts (state_for t a)) p left \<rparr>),
             realized_pnl := wrap64 (realized_pnl t + pnl) \<rparr>, pnl))"
  using assms by (simp_all add: pnl_record_fill_def Let_def split_def flip: state_for_def)

lemma pnl_record_fill_settled:
  "settled (state_for t a) \<Longrightarrow>
   pnl_record_fill t a sd p sz = (t\<lparr> pnl_states := (pnl_states t)(a \<mapsto> state_for t a) \<rparr>, 0)"
  by (simp add: pnl_record_fill_def Let_def flip: state_for_def)

lemma pnl_inv_record:
  assumes inv: "pnl_inv t" and sz: "0 < sz"
  shows "pnl_inv (fst (pnl_record_fill t a sd p sz))"
proof (cases "settled (state_for t a)")
  case True
  with inv state_for_props(1) [OF inv, of a] show ?thesis
    by (auto simp: pnl_record_fill_settled pnl_inv_def)
next
  case False
  let ?st = "state_for t a"
  have st: "state_inv ?st" using inv by (rule state_for_props)
  note d = st [unfolded state_inv_def]
  show ?thesis
  proof (cases sd)
    case BID
    obtain sh left pnl where m: "match_fifo (\<lambda>ep. ep - p) (shorts ?st) sz 0 = (sh, left, pnl)"
      by (rule prod_cases3)
    let ?st1 = "?st\<lparr> shorts := sh, longs := push_if_left (longs ?st) p left \<rparr>"
    let ?t = "t\<lparr> pnl_states := (pnl_states t)(a \<mapsto> ?st) \<rparr>"
    obtain states pnl2 where c: "cross_match ?t a ?st1 pnl = (states, pnl2)" by force
    have st1: "state_inv ?st1"
      using fill_side_inv [OF m sz, of "longs ?st" p] d by (auto simp: state_inv_def)
    have "\<forall>b s. states b = Some s \<longrightarrow> state_inv s"
      using inv st st1 by (intro cross_match_props(1) [OF c]) (auto simp: pnl_inv_def)
    with BID m c inv show ?thesis by (simp add: pnl_record_fill_eqs [OF False] pnl_inv_def)
  next
    case ASK
    obtain lg left pnl where m: "match_fifo (\<lambda>ep. p - ep) (longs ?st) sz 0 = (lg, left, pnl)"
      by (rule prod_cases3)
    have "state_inv (?st\<lparr> longs := lg, shorts := push_if_left (shorts ?st) p left \<rparr>)"
      using fill_side_inv [OF m sz, of "shorts ?st" p] d by (auto simp: state_inv_def)
    with ASK m inv show ?thesis by (simp add: pnl_record_fill_eqs [OF False] pnl_inv_def)
  qed
qed

lemma pnl_record_net:
  assumes inv: "pnl_inv t" and sz: "0 < sz" and ns: "\<not> pnl_settled t a" and room: "pnl_room t a"
    and c: "pnl_complement t a = Some c"
  shows "pnl_net (fst (pnl_record_fill t a sd p sz)) a - pnl_net (fst (pnl_record_fill t a sd p sz)) c =
    pnl_net t a - pnl_net t c + (if sd = BID then sz else - sz)"
proof -
  let ?st = "state_for t a"
  have False': "\<not> settled ?st" using ns by (simp add: state_for_props)
  have st: "state_inv ?st" using inv by (rule state_for_props)
  note d = st [unfolded state_inv_def]
  have ca: "c \<noteq> a" using inv c by (auto simp: pnl_inv_def)
  have rm: "ring_count (longs ?st) < 256" "ring_count (shorts ?st) < 256"
    using state_for_props(4) [OF room] by auto
  have na: "pnl_net t a = state_net ?st" by (rule state_for_props)
  show ?thesis
  proof (cases sd)
    case BID
    obtain sh left pnl where m: "match_fifo (\<lambda>ep. ep - p) (shorts ?st) sz 0 = (sh, left, pnl)"
      by (rule prod_cases3)
    let ?st1 = "?st\<lparr> shorts := sh, longs := push_if_left (longs ?st) p left \<rparr>"
    let ?t = "t\<lparr> pnl_states := (pnl_states t)(a \<mapsto> ?st) \<rparr>"
    obtain states pnl2 where cm: "cross_match ?t a ?st1 pnl = (states, pnl2)" by force
    note f = fill_side [OF m sz, of "longs ?st" "push_if_left (longs ?st) p left" p]
    have st1: "state_inv ?st1" "state_net ?st1 = state_net ?st + sz"
      using f d rm by (auto simp: state_inv_def state_net_def)
    have "state_net (case states a of None \<Rightarrow> empty_pnl_state | Some s \<Rightarrow> s) -
        state_net (case states c of None \<Rightarrow> empty_pnl_state | Some s \<Rightarrow> s) = state_net ?st1 - pnl_net ?t c"
      using inv st st1 c by (intro cross_match_props(2) [OF cm]) (auto simp: pnl_inv_def)
    moreover have "pnl_net ?t c = pnl_net t c" using ca by (simp add: pnl_net_def)
    moreover have "pnl_net (fst (pnl_record_fill t a sd p sz)) b =
        state_net (case states b of None \<Rightarrow> empty_pnl_state | Some s \<Rightarrow> s)" for b
      using BID m cm by (simp add: pnl_record_fill_eqs [OF False'] pnl_net_def split: option.splits)
    ultimately show ?thesis using BID st1(2) na by simp
  next
    case ASK
    obtain lg left pnl where m: "match_fifo (\<lambda>ep. p - ep) (longs ?st) sz 0 = (lg, left, pnl)"
      by (rule prod_cases3)
    let ?st1 = "?st\<lparr> longs := lg, shorts := push_if_left (shorts ?st) p left \<rparr>"
    note f = fill_side [OF m sz, of "shorts ?st" "push_if_left (shorts ?st) p left" p]
    have "state_net ?st1 = state_net ?st - sz" using f d rm by (auto simp: state_net_def)
    with ASK m ca na show ?thesis by (simp add: pnl_record_fill_eqs [OF False'] pnl_net_def)
  qed
qed

fun run_fills :: "pnl_tracker \<Rightarrow> (asset_id \<times> side \<times> price \<times> qty) list \<Rightarrow> pnl_tracker" where
  "run_fills t [] = t"
| "run_fills t ((a, sd, p, sz) # fs) = run_fills (fst (pnl_record_fill t a sd p sz)) fs"

lemma pnl_inv_fills:
  "pnl_inv t \<Longrightarrow> list_all (\<lambda>(a, sd, p, sz). 0 < sz) fs \<Longrightarrow> pnl_inv (run_fills t fs)"
  by (induction t fs rule: run_fills.induct) (auto simp: pnl_inv_record)

lemma pnl_inv_register:
  assumes "pnl_inv t" "up \<noteq> down"
  shows "pnl_inv (register_pair t up down)"
  using assms by (auto simp: pnl_inv_def register_pair_def Let_def split: if_splits)

lemma pnl_inv_new [simp]: "pnl_inv new_pnl_tracker"
  by (simp add: pnl_inv_def new_pnl_tracker_def)

subsection \<open>Properties\<close>

text \<open>C10: The matching loop over the ring buffer computes what FIFO matching of the list of open
  entries computes: the same entries left, the same unmatched quantity, the same profit.\<close>

theorem match_fifo_is_fifo:
  assumes "ring_inv r"
  shows "case match_fifo diff r q pnl of (r', q', pnl') \<Rightarrow>
    ring_inv r' \<and> fifo_match diff (ring_list r) q pnl = (ring_list r', q', pnl')"
  using match_fifo_refines [OF assms] by simp

theorem match_fifo_is_fifo_witness:
  "case match_fifo (\<lambda>p. p - 4000) (ring_push empty_ring 5000 10) 4 0 of (r', q', pnl') \<Rightarrow>
     ring_list r' = [\<lparr> fe_price = 5000, fe_remaining = 6 \<rparr>] \<and> q' = 0"
proof -
  have "ring_inv empty_ring" by (simp add: ring_inv_def empty_ring_def)
  hence "ring_inv (ring_push empty_ring 5000 10)"
    "ring_list (ring_push empty_ring 5000 10) = [\<lparr> fe_price = 5000, fe_remaining = 10 \<rparr>]"
    by (simp_all add: ring_inv_push ring_list_push)
  thus ?thesis
    using match_fifo_is_fifo [of "ring_push empty_ring 5000 10" "\<lambda>p. p - 4000" 4 0] by auto
qed

text \<open>C22: From any state reached by fills, a fill of an unsettled asset with room in its buffers
  moves the open position of the asset, net of the position of its complement token, by exactly the
  signed fill size: matching and pairing never create or lose quantity.  No asset ever has open
  buys and open sells at the same time.\<close>

theorem fill_conserves_net_position:
  assumes "up \<noteq> down" and "list_all (\<lambda>(a, sd, p, sz). 0 < sz) fs" and "0 < sz"
    and "t = run_fills (register_pair new_pnl_tracker up down) fs"
    and "\<not> pnl_settled t up" and "pnl_room t up"
    and "t' = fst (pnl_record_fill t up sd p sz)" and "pnl_complement t up = Some down"
  shows "pnl_net t' up - pnl_net t' down = pnl_net t up - pnl_net t down + (if sd = BID then sz else - sz) \<and>
    (case pnl_states t' up of None \<Rightarrow> False
     | Some st \<Rightarrow> ring_list (longs st) = [] \<or> ring_list (shorts st) = [])"
proof -
  have inv: "pnl_inv t" using assms(1,2,4) by (simp add: pnl_inv_fills pnl_inv_register)
  hence inv': "pnl_inv t'" using assms(3,7) by (simp add: pnl_inv_record)
  have "pnl_states t' up \<noteq> None"
    using assms(7) by (auto simp: pnl_record_fill_def cross_match_def Let_def
        split: side.splits prod.splits option.splits if_splits)
  with inv' have "case pnl_states t' up of None \<Rightarrow> False
     | Some st \<Rightarrow> ring_list (longs st) = [] \<or> ring_list (shorts st) = []"
    by (auto simp: pnl_inv_def state_inv_def)
  with pnl_record_net [OF inv assms(3,5,6,8)] assms(7) show ?thesis by simp
qed

theorem fill_conserves_net_position_witness:
  "let t' = fst (pnl_record_fill (register_pair new_pnl_tracker ''u'' ''d'') ''u'' BID 5000 7)
   in pnl_net t' ''u'' - pnl_net t' ''d'' = 7"
  using fill_conserves_net_position [of "''u''" "''d''" "[]" 7 "register_pair new_pnl_tracker ''u'' ''d''"
      "fst (pnl_record_fill (register_pair new_pnl_tracker ''u'' ''d'') ''u'' BID 5000 7)" BID 5000]
  by (simp add: register_pair_def new_pnl_tracker_def pnl_settled_def pnl_room_def pnl_net_def Let_def)

end
