(* ===== verification/Exec_State.thy ===== *)
theory Exec_State
  imports Sched_Events Token_Inventory Pnl_Tracker
begin

section \<open>Order, trade and position state\<close>

text \<open>
  src/src/state/exec_state_store.h and .cpp.  The three hash maps keyed by order and trade id are
  association lists with distinct keys: the list order stands for the iteration order of the map, on
  which only the choice among equally old entries of an eviction depends.  The push of the emitted
  event to the scheduler queue is an argument (\<open>pushed\<close>: did the queue take it), the emitted event
  a result.  Metrics and log lines are left out.  The token inventory and the profit tracker that
  the store updates are part of its state.
\<close>

datatype apply_result = APPLIED | DUPLICATE | QUEUE_OVERFLOW

record tracked_order =
  to_order_id :: order_id
  to_client_order_id :: order_id
  to_asset_id :: asset_id
  to_status :: order_status
  to_side :: side
  to_price :: price
  to_original_size :: qty
  to_size_matched :: qty
  to_first_seen_ts :: timestamp
  to_last_update_ts :: timestamp
  to_last_seq :: nat

record tracked_trade =
  tt_trade_id :: trade_id
  tt_taker_order_id :: order_id
  tt_asset_id :: asset_id
  tt_status :: trade_status
  tt_side :: side
  tt_fill_price :: price
  tt_fill_size :: qty
  tt_first_seen_ts :: timestamp
  tt_last_update_ts :: timestamp
  tt_pnl_delta :: int

record position_delta =
  net_position :: qty
  total_bought :: qty
  total_sold :: qty
  fill_count :: int

definition no_position :: position_delta where
  "no_position = \<lparr> net_position = 0, total_bought = 0, total_sold = 0, fill_count = 0 \<rparr>"

record exec_state_store_config =
  max_orders :: nat
  max_trades :: nat
  max_seen_trade_fills :: nat
  terminal_order_ttl_ms :: int
  terminal_trade_ttl_ms :: int
  seen_trade_fill_ttl_ms :: int
  sweep_interval_ms :: int

definition default_store_config :: exec_state_store_config where
  "default_store_config =
     \<lparr> max_orders = 50000, max_trades = 50000, max_seen_trade_fills = 100000,
       terminal_order_ttl_ms = 1800000, terminal_trade_ttl_ms = 1800000,
       seen_trade_fill_ttl_ms = 3600000, sweep_interval_ms = 1000 \<rparr>"

record exec_store =
  es_orders :: "(order_id \<times> tracked_order) list"
  es_trades :: "(trade_id \<times> tracked_trade) list"
  es_seen :: "(trade_id \<times> timestamp) list"
  es_positions :: "asset_id \<rightharpoonup> position_delta"
  es_fatal :: bool
  es_inventory :: "token_inventory option"
  es_pnl :: "pnl_tracker option"
  es_config :: exec_state_store_config
  es_next_sweep_ts :: timestamp

definition new_store :: "exec_state_store_config \<Rightarrow> token_inventory option \<Rightarrow> pnl_tracker option \<Rightarrow> exec_store" where
  "new_store cfg iv pnl =
     \<lparr> es_orders = [], es_trades = [], es_seen = [], es_positions = Map.empty, es_fatal = False,
       es_inventory = iv, es_pnl = pnl, es_config = cfg, es_next_sweep_ts = 0 \<rparr>"

definition is_terminal_order_status :: "order_status \<Rightarrow> bool" where
  "is_terminal_order_status s \<longleftrightarrow> s = O_FILLED \<or> s = O_CANCELED \<or> s = O_FAILED"

fun trade_status_rank :: "trade_status \<Rightarrow> int" where
  "trade_status_rank T_UNKNOWN = 0"
| "trade_status_rank T_MATCHED = 1"
| "trade_status_rank T_RETRYING = 2"
| "trade_status_rank T_MINED = 3"
| "trade_status_rank T_CONFIRMED = 4"
| "trade_status_rank T_FAILED = 4"

definition is_terminal_trade_status :: "trade_status \<Rightarrow> bool" where
  "is_terminal_trade_status s \<longleftrightarrow> s = T_CONFIRMED \<or> s = T_FAILED"

subsection \<open>Eviction\<close>

text \<open>The \<open>erase_oldest\<close> lambdas: the first entry in iteration order with the least time stamp.\<close>

fun oldest_key :: "('v \<Rightarrow> bool) \<Rightarrow> ('v \<Rightarrow> timestamp) \<Rightarrow> 'k option \<Rightarrow> timestamp \<Rightarrow> ('k \<times> 'v) list \<Rightarrow> 'k option" where
  "oldest_key P ts victim oldest [] = victim"
| "oldest_key P ts victim oldest ((k, v) # kvs) =
     (if P v \<and> ts v < oldest then oldest_key P ts (Some k) (ts v) kvs
      else oldest_key P ts victim oldest kvs)"

definition erase_oldest :: "('v \<Rightarrow> bool) \<Rightarrow> ('v \<Rightarrow> timestamp) \<Rightarrow> ('k \<times> 'v) list \<Rightarrow> ('k \<times> 'v) list option" where
  "erase_oldest P ts kvs =
     (case oldest_key P ts None int64_max kvs of
        None \<Rightarrow> None
      | Some k \<Rightarrow> Some (AList.delete k kvs))"

lemma oldest_key_mem:
  "oldest_key P ts victim oldest kvs = Some k \<Longrightarrow> victim = Some k \<or> k \<in> fst ` set kvs"
  by (induction P ts victim oldest kvs rule: oldest_key.induct) (auto split: if_splits)

lemma delete_length: "k \<in> fst ` set kvs \<Longrightarrow> length (AList.delete k kvs) < length kvs"
proof -
  assume "k \<in> fst ` set kvs"
  then obtain v where "(k, v) \<in> set kvs" by auto
  then show ?thesis unfolding AList.delete_eq by (rule length_filter_less) simp
qed

lemma erase_oldest_less: "erase_oldest P ts kvs = Some kvs' \<Longrightarrow> length kvs' < length kvs"
  by (auto simp: erase_oldest_def dest!: oldest_key_mem intro!: delete_length split: option.splits)

function evict_loop :: "('v \<Rightarrow> bool) \<Rightarrow> ('v \<Rightarrow> timestamp) \<Rightarrow> nat \<Rightarrow> ('k \<times> 'v) list \<Rightarrow> ('k \<times> 'v) list" where
  "evict_loop terminal ts cap kvs =
     (if length kvs > cap then
        (case erase_oldest terminal ts kvs of
           Some kvs' \<Rightarrow> evict_loop terminal ts cap kvs'
         | None \<Rightarrow>
             (case erase_oldest (\<lambda>_. True) ts kvs of
                Some kvs' \<Rightarrow> evict_loop terminal ts cap kvs'
              | None \<Rightarrow> kvs))
      else kvs)"
  by pat_completeness auto
termination
  by (relation "measure (\<lambda>(P, ts, cap, kvs). length kvs)") (auto dest: erase_oldest_less)

declare evict_loop.simps [simp del]

definition ttl_filter :: "('v \<Rightarrow> bool) \<Rightarrow> ('v \<Rightarrow> timestamp) \<Rightarrow> int \<Rightarrow> timestamp \<Rightarrow> ('k \<times> 'v) list \<Rightarrow> ('k \<times> 'v) list" where
  "ttl_filter terminal ts ttl_ms now kvs =
     (let ttl_ns = (if ttl_ms > 0 then ttl_ms * 1000000 else 0)
      in if ttl_ns > 0 then filter (\<lambda>(k, v). \<not> (terminal v \<and> now - ts v \<ge> ttl_ns)) kvs else kvs)"

definition evict_terminal_orders :: "exec_store \<Rightarrow> timestamp \<Rightarrow> exec_store" where
  "evict_terminal_orders s now =
     (let terminal = (\<lambda>v. is_terminal_order_status (to_status v));
          kvs = ttl_filter terminal to_last_update_ts (terminal_order_ttl_ms (es_config s)) now (es_orders s)
      in s\<lparr> es_orders := (if max_orders (es_config s) > 0
                          then evict_loop terminal to_last_update_ts (max_orders (es_config s)) kvs
                          else kvs) \<rparr>)"

definition evict_terminal_trades :: "exec_store \<Rightarrow> timestamp \<Rightarrow> exec_store" where
  "evict_terminal_trades s now =
     (let terminal = (\<lambda>v. is_terminal_trade_status (tt_status v));
          kvs = ttl_filter terminal tt_last_update_ts (terminal_trade_ttl_ms (es_config s)) now (es_trades s)
      in s\<lparr> es_trades := (if max_trades (es_config s) > 0
                          then evict_loop terminal tt_last_update_ts (max_trades (es_config s)) kvs
                          else kvs) \<rparr>)"

definition evict_seen_trade_fills :: "exec_store \<Rightarrow> timestamp \<Rightarrow> exec_store" where
  "evict_seen_trade_fills s now =
     (let kvs = ttl_filter (\<lambda>_. True) (\<lambda>ts. ts) (seen_trade_fill_ttl_ms (es_config s)) now (es_seen s)
      in s\<lparr> es_seen := (if max_seen_trade_fills (es_config s) = 0 then kvs
                        else evict_loop (\<lambda>_. True) (\<lambda>ts. ts) (max_seen_trade_fills (es_config s)) kvs) \<rparr>)"

definition over_cap :: "exec_store \<Rightarrow> bool" where
  "over_cap s \<longleftrightarrow>
     (max_orders (es_config s) > 0 \<and> length (es_orders s) > max_orders (es_config s)) \<or>
     (max_trades (es_config s) > 0 \<and> length (es_trades s) > max_trades (es_config s)) \<or>
     (max_seen_trade_fills (es_config s) > 0 \<and>
      length (es_seen s) > max_seen_trade_fills (es_config s))"

definition maybe_sweep :: "exec_store \<Rightarrow> timestamp \<Rightarrow> exec_store" where
  "maybe_sweep s now =
     (if sweep_interval_ms (es_config s) \<le> 0 \<and> \<not> over_cap s then s
      else if \<not> over_cap s \<and> es_next_sweep_ts s \<noteq> 0 \<and> now < es_next_sweep_ts s then s
      else
        let s1 = evict_seen_trade_fills (evict_terminal_trades (evict_terminal_orders s now) now) now
        in if sweep_interval_ms (es_config s) > 0
           then s1\<lparr> es_next_sweep_ts := now + sweep_interval_ms (es_config s) * 1000000 \<rparr>
           else s1)"

subsection \<open>Fills\<close>

definition usdc_delta :: "price \<Rightarrow> qty \<Rightarrow> int" where
  "usdc_delta fill_price sz = (fill_price * sz) sdiv kPriceScale"

definition inv_fill :: "asset_id \<Rightarrow> qty \<Rightarrow> price \<Rightarrow> int \<Rightarrow> token_inventory \<Rightarrow> token_inventory" where
  "inv_fill a delta fill_price usdc v =
     (let v1 = adjust_position v a delta
      in if fill_price > 0 then adjust_usdc_balance v1 usdc else v1)"

definition record_fill :: "exec_store \<Rightarrow> asset_id \<Rightarrow> side \<Rightarrow> qty \<Rightarrow> price \<Rightarrow> exec_store \<times> int" where
  "record_fill s a sd sz fill_price =
     (let pos = lookup_or no_position (es_positions s) a;
          pos1 = (if sd = BID
                  then pos\<lparr> net_position := net_position pos + sz, total_bought := total_bought pos + sz \<rparr>
                  else pos\<lparr> net_position := net_position pos - sz, total_sold := total_sold pos + sz \<rparr>);
          pos2 = pos1\<lparr> fill_count := fill_count pos1 + 1 \<rparr>;
          usdc = usdc_delta fill_price sz;
          iv = map_option (inv_fill a (if sd = BID then sz else - sz) fill_price
                              (if sd = BID then - usdc else usdc)) (es_inventory s);
          (pnl, delta) =
            (case es_pnl s of
               Some t \<Rightarrow> if fill_price > 0
                         then let (t', d) = pnl_record_fill t a sd fill_price sz in (Some t', d)
                         else (Some t, 0)
             | None \<Rightarrow> (None, 0))
      in (s\<lparr> es_positions := (es_positions s)(a \<mapsto> pos2), es_inventory := iv, es_pnl := pnl \<rparr>, delta))"

definition reverse_fill :: "exec_store \<Rightarrow> asset_id \<Rightarrow> side \<Rightarrow> qty \<Rightarrow> price \<Rightarrow> int \<Rightarrow> exec_store" where
  "reverse_fill s a sd sz fill_price pnl_delta =
     (let pos = lookup_or no_position (es_positions s) a;
          pos1 = (if sd = BID
                  then pos\<lparr> net_position := net_position pos - sz,
                            total_bought := (if total_bought pos > sz then total_bought pos - sz else 0) \<rparr>
                  else pos\<lparr> net_position := net_position pos + sz,
                            total_sold := (if total_sold pos > sz then total_sold pos - sz else 0) \<rparr>);
          pos2 = (if fill_count pos1 > 0 then pos1\<lparr> fill_count := fill_count pos1 - 1 \<rparr> else pos1);
          usdc = usdc_delta fill_price sz;
          iv = map_option (inv_fill a (if sd = BID then - sz else sz) fill_price
                              (if sd = BID then usdc else - usdc)) (es_inventory s)
      in s\<lparr> es_positions := (es_positions s)(a \<mapsto> pos2), es_inventory := iv,
            es_pnl := map_option (\<lambda>t. pnl_reverse_fill t pnl_delta) (es_pnl s) \<rparr>)"

subsection \<open>Order updates\<close>

definition emit :: "exec_store \<Rightarrow> scheduler_event \<Rightarrow> bool \<Rightarrow> exec_store \<times> apply_result \<times> scheduler_event option" where
  "emit s ev pushed =
     (if \<not> pushed then (s\<lparr> es_fatal := True \<rparr>, QUEUE_OVERFLOW, None) else (s, APPLIED, Some ev))"

definition order_update_rejected :: "tracked_order \<Rightarrow> user_order_update \<Rightarrow> bool" where
  "order_update_rejected tr upd \<longleftrightarrow>
     to_asset_id tr \<noteq> uo_asset_id upd \<or> to_side tr \<noteq> uo_side upd \<or>
     (is_terminal_order_status (to_status tr) \<and> uo_event_type upd \<noteq> CANCELLATION \<and>
      (uo_event_type upd = PLACEMENT \<or> uo_size_matched upd \<le> to_size_matched tr)) \<or>
     (uo_event_type upd = UPDATE \<and> uo_size_matched upd = to_size_matched tr) \<or>
     uo_size_matched upd < to_size_matched tr"

definition next_order_status :: "order_status \<Rightarrow> user_order_update \<Rightarrow> order_status" where
  "next_order_status st upd =
     (case uo_event_type upd of
        PLACEMENT \<Rightarrow> if st = O_UNKNOWN then O_LIVE else st
      | UPDATE \<Rightarrow>
          if uo_size_matched upd \<ge> uo_original_size upd \<and> uo_original_size upd > 0 then O_FILLED
          else if uo_size_matched upd > 0 then (if st = O_LIVE \<or> st = O_UNKNOWN then O_PARTIAL else st)
          else st
      | CANCELLATION \<Rightarrow> O_CANCELED)"

definition first_order_status :: "user_order_update \<Rightarrow> order_status" where
  "first_order_status upd =
     (case uo_event_type upd of
        PLACEMENT \<Rightarrow> O_LIVE
      | UPDATE \<Rightarrow>
          if uo_size_matched upd \<ge> uo_original_size upd \<and> uo_original_size upd > 0 then O_FILLED
          else if uo_size_matched upd > 0 then O_PARTIAL
          else O_LIVE
      | CANCELLATION \<Rightarrow> O_CANCELED)"

definition apply_order_update ::
  "exec_store \<Rightarrow> user_order_update \<Rightarrow> timestamp \<Rightarrow> nat \<Rightarrow> bool \<Rightarrow>
   exec_store \<times> apply_result \<times> scheduler_event option" where
  "apply_order_update s0 upd recv_ts seq pushed =
     (let s = maybe_sweep s0 recv_ts; oid = uo_order_id upd
      in case map_of (es_orders s) oid of
           Some tr \<Rightarrow>
             if order_update_rejected tr upd then (s, DUPLICATE, None)
             else
               let tr' = tr\<lparr> to_size_matched := uo_size_matched upd, to_last_update_ts := recv_ts,
                             to_last_seq := seq, to_status := next_order_status (to_status tr) upd \<rparr>
               in emit (s\<lparr> es_orders := AList.update oid tr' (es_orders s) \<rparr>)
                    ((from_order_update upd recv_ts seq)\<lparr> ev_order_status_raw := to_status tr' \<rparr>) pushed
         | None \<Rightarrow>
             let tr = \<lparr> to_order_id = oid, to_client_order_id = uo_client_order_id upd,
                        to_asset_id = uo_asset_id upd, to_status = first_order_status upd,
                        to_side = uo_side upd, to_price = uo_price upd,
                        to_original_size = uo_original_size upd, to_size_matched = uo_size_matched upd,
                        to_first_seen_ts = recv_ts, to_last_update_ts = recv_ts, to_last_seq = seq \<rparr>
             in emit (s\<lparr> es_orders := AList.update oid tr (es_orders s) \<rparr>)
                  ((from_order_update upd recv_ts seq)\<lparr> ev_order_status_raw := to_status tr \<rparr>) pushed)"

subsection \<open>Trade updates\<close>

text \<open>Which of our orders a trade filled: the first maker entry that is ours, else the taker order.
  An order of the store fixes asset and side, and a fill reported on the complement book has the
  complementary price; an order known only to the shared set keeps the data of the message.\<close>

record attribution =
  at_fill :: qty
  at_ours :: bool
  at_asset :: asset_id
  at_side :: side
  at_price :: price

definition unattributed :: "user_trade_update \<Rightarrow> attribution" where
  "unattributed upd =
     \<lparr> at_fill = 0, at_ours = False, at_asset = ut_asset_id upd, at_side = ut_side upd,
       at_price = ut_fill_price upd \<rparr>"

definition attribute_to :: "user_trade_update \<Rightarrow> tracked_order \<Rightarrow> qty \<Rightarrow> attribution" where
  "attribute_to upd tr fill =
     \<lparr> at_fill = fill, at_ours = True, at_asset = to_asset_id tr, at_side = to_side tr,
       at_price = (if to_asset_id tr \<noteq> ut_asset_id upd then kPriceScale - ut_fill_price upd
                   else ut_fill_price upd) \<rparr>"

definition shared_order :: "exec_store \<Rightarrow> order_id \<Rightarrow> bool" where
  "shared_order s oid = (case es_inventory s of None \<Rightarrow> False | Some v \<Rightarrow> is_our_order v oid)"

fun attribute_maker :: "exec_store \<Rightarrow> user_trade_update \<Rightarrow> maker_order_entry list \<Rightarrow> attribution option" where
  "attribute_maker s upd [] = None"
| "attribute_maker s upd (me # mes) =
     (case map_of (es_orders s) (mo_order_id me) of
        Some tr \<Rightarrow> Some (attribute_to upd tr (mo_matched_amount me))
      | None \<Rightarrow>
          if shared_order s (mo_order_id me)
          then Some ((unattributed upd)\<lparr> at_fill := mo_matched_amount me, at_ours := True \<rparr>)
          else attribute_maker s upd mes)"

definition attribute_taker :: "exec_store \<Rightarrow> user_trade_update \<Rightarrow> attribution" where
  "attribute_taker s upd =
     (if ut_taker_order_id upd = [] then unattributed upd
      else
        (case map_of (es_orders s) (ut_taker_order_id upd) of
           Some tr \<Rightarrow> attribute_to upd tr (ut_fill_size upd)
         | None \<Rightarrow>
             if shared_order s (ut_taker_order_id upd)
             then (unattributed upd)\<lparr> at_fill := ut_fill_size upd, at_ours := True \<rparr>
             else unattributed upd))"

definition attribute_trade :: "exec_store \<Rightarrow> user_trade_update \<Rightarrow> attribution" where
  "attribute_trade s upd =
     (case attribute_maker s upd (ut_maker_entries upd) of
        Some at \<Rightarrow> at
      | None \<Rightarrow> attribute_taker s upd)"

definition seen_fill :: "exec_store \<Rightarrow> trade_id \<Rightarrow> bool" where
  "seen_fill s tid \<longleftrightarrow> map_of (es_seen s) tid \<noteq> None"

text \<open>Count the fill of a tracked trade, unless it was counted before.\<close>

definition count_fill :: "exec_store \<Rightarrow> trade_id \<Rightarrow> tracked_trade \<Rightarrow> timestamp \<Rightarrow> exec_store \<times> bool" where
  "count_fill s tid tr recv_ts =
     (if seen_fill s tid then (s, False)
      else
        let (s1, delta) = record_fill (s\<lparr> es_seen := AList.update tid recv_ts (es_seen s) \<rparr>)
                            (tt_asset_id tr) (tt_side tr) (tt_fill_size tr) (tt_fill_price tr)
        in (s1\<lparr> es_trades := AList.update tid (tr\<lparr> tt_pnl_delta := delta \<rparr>) (es_trades s1) \<rparr>, True))"

definition store_trade :: "exec_store \<Rightarrow> trade_id \<Rightarrow> tracked_trade \<Rightarrow> exec_store" where
  "store_trade s tid tr = s\<lparr> es_trades := AList.update tid tr (es_trades s) \<rparr>"

text \<open>The state change of a trade message: \<open>None\<close> is the early return with DUPLICATE.\<close>

definition known_trade ::
  "exec_store \<Rightarrow> tracked_trade \<Rightarrow> user_trade_update \<Rightarrow> timestamp \<Rightarrow> (exec_store \<times> bool) option" where
  "known_trade s tr upd recv_ts =
     (let tid = ut_trade_id upd
      in if tt_status tr = ut_status upd then None
         else if trade_status_rank (ut_status upd) < trade_status_rank (tt_status tr) then
           (if ut_status upd = T_MATCHED then
              (if \<not> seen_fill s tid then Some (count_fill s tid tr recv_ts) else None)
            else None)
         else
           let tr1 = tr\<lparr> tt_status := ut_status upd, tt_last_update_ts := recv_ts \<rparr>;
               s1 = store_trade s tid tr1;
               (s2, new_fill) = (if ut_status upd = T_MATCHED then count_fill s1 tid tr1 recv_ts
                                 else (s1, False));
               s3 = (if ut_status upd = T_FAILED \<and> seen_fill s2 tid
                     then reverse_fill s2 (tt_asset_id tr1) (tt_side tr1) (tt_fill_size tr1)
                            (tt_fill_price tr1) (tt_pnl_delta tr1)
                     else s2)
           in Some (s3, new_fill))"

definition first_trade ::
  "exec_store \<Rightarrow> attribution \<Rightarrow> user_trade_update \<Rightarrow> timestamp \<Rightarrow> exec_store \<times> bool" where
  "first_trade s at upd recv_ts =
     (let tid = ut_trade_id upd;
          tr = \<lparr> tt_trade_id = tid, tt_taker_order_id = ut_taker_order_id upd,
                 tt_asset_id = at_asset at, tt_status = ut_status upd, tt_side = at_side at,
                 tt_fill_price = at_price at, tt_fill_size = at_fill at, tt_first_seen_ts = recv_ts,
                 tt_last_update_ts = recv_ts, tt_pnl_delta = 0 \<rparr>;
          s1 = store_trade s tid tr
      in if ut_status upd = T_MATCHED \<and> at_fill at > 0 then count_fill s1 tid tr recv_ts
         else (s1, False))"

definition corrected_trade :: "user_trade_update \<Rightarrow> attribution \<Rightarrow> user_trade_update" where
  "corrected_trade upd at =
     upd\<lparr> ut_asset_id := at_asset at, ut_side := at_side at, ut_fill_price := at_price at,
          ut_fill_size := at_fill at \<rparr>"

definition trade_effect :: "exec_store \<Rightarrow> user_trade_update \<Rightarrow> timestamp \<Rightarrow> (exec_store \<times> bool) option" where
  "trade_effect s upd recv_ts =
     (case map_of (es_trades s) (ut_trade_id upd) of
        Some tr \<Rightarrow> known_trade s tr upd recv_ts
      | None \<Rightarrow> Some (first_trade s (attribute_trade s upd) upd recv_ts))"

definition apply_trade_update ::
  "exec_store \<Rightarrow> user_trade_update \<Rightarrow> timestamp \<Rightarrow> nat \<Rightarrow> bool \<Rightarrow>
   exec_store \<times> apply_result \<times> scheduler_event option" where
  "apply_trade_update s0 upd recv_ts seq pushed =
     (let s = maybe_sweep s0 recv_ts; at = attribute_trade s upd
      in case trade_effect s upd recv_ts of
           None \<Rightarrow> (s, DUPLICATE, None)
         | Some (s1, new_fill) \<Rightarrow>
             emit s1 (from_trade_update (corrected_trade upd at) recv_ts seq new_fill) pushed)"

definition get_order :: "exec_store \<Rightarrow> order_id \<Rightarrow> tracked_order option" where
  "get_order s oid = map_of (es_orders s) oid"

definition get_trade :: "exec_store \<Rightarrow> trade_id \<Rightarrow> tracked_trade option" where
  "get_trade s tid = map_of (es_trades s) tid"

definition get_position :: "exec_store \<Rightarrow> asset_id \<Rightarrow> position_delta option" where
  "get_position s a = es_positions s a"

subsection \<open>Sweeps\<close>

lemma evict_loop_id: "length kvs \<le> cap \<Longrightarrow> evict_loop P ts cap kvs = kvs"
  by (simp add: evict_loop.simps)

lemma evict_fields [simp]:
  "es_positions (evict_terminal_orders s now) = es_positions s"
  "es_positions (evict_terminal_trades s now) = es_positions s"
  "es_positions (evict_seen_trade_fills s now) = es_positions s"
  "es_config (evict_terminal_orders s now) = es_config s"
  "es_config (evict_terminal_trades s now) = es_config s"
  "es_config (evict_seen_trade_fills s now) = es_config s"
  "es_inventory (evict_terminal_orders s now) = es_inventory s"
  "es_inventory (evict_terminal_trades s now) = es_inventory s"
  "es_inventory (evict_seen_trade_fills s now) = es_inventory s"
  "es_seen (evict_terminal_orders s now) = es_seen s"
  "es_seen (evict_terminal_trades s now) = es_seen s"
  by (simp_all add: evict_terminal_orders_def evict_terminal_trades_def evict_seen_trade_fills_def Let_def)

lemma maybe_sweep_fields [simp]:
  "es_positions (maybe_sweep s now) = es_positions s" "es_config (maybe_sweep s now) = es_config s"
  "es_inventory (maybe_sweep s now) = es_inventory s"
  by (simp_all add: maybe_sweep_def Let_def)

text \<open>A sweep keeps the whole list of counted fills while it is below its cap and younger than its
  time to live.\<close>

definition seen_fresh :: "exec_state_store_config \<Rightarrow> timestamp \<Rightarrow> (trade_id \<times> timestamp) list \<Rightarrow> bool" where
  "seen_fresh cfg now kvs \<longleftrightarrow>
     (max_seen_trade_fills cfg = 0 \<or> length kvs \<le> max_seen_trade_fills cfg) \<and>
     (\<forall>(k, ts) \<in> set kvs. seen_trade_fill_ttl_ms cfg > 0 \<longrightarrow> now - ts < seen_trade_fill_ttl_ms cfg * 1000000)"

lemma ttl_filter_id:
  "(\<And>k v. (k, v) \<in> set kvs \<Longrightarrow> ttl > 0 \<Longrightarrow> now - ts v < ttl * 1000000) \<Longrightarrow> ttl_filter P ts ttl now kvs = kvs"
  by (force simp: ttl_filter_def Let_def filter_id_conv)

lemma maybe_sweep_seen:
  assumes "seen_fresh (es_config s) now (es_seen s)"
  shows "es_seen (maybe_sweep s now) = es_seen s"
proof -
  have "ttl_filter (\<lambda>_. True) (\<lambda>ts. ts) (seen_trade_fill_ttl_ms (es_config s)) now (es_seen s) = es_seen s"
    using assms by (intro ttl_filter_id) (auto simp: seen_fresh_def)
  hence "es_seen (evict_seen_trade_fills (evict_terminal_trades (evict_terminal_orders s now) now) now) = es_seen s"
    using assms unfolding evict_seen_trade_fills_def Let_def
    by (auto simp: seen_fresh_def evict_loop_id)
  thus ?thesis by (simp add: maybe_sweep_def Let_def)
qed

subsection \<open>Each fill is counted once\<close>

lemma record_fill_fields [simp]:
  "es_seen (fst (record_fill s a sd sz p)) = es_seen s"
  "es_config (fst (record_fill s a sd sz p)) = es_config s"
  "es_trades (fst (record_fill s a sd sz p)) = es_trades s"
  "es_orders (fst (record_fill s a sd sz p)) = es_orders s"
  by (simp_all add: record_fill_def Let_def split_def)

lemma reverse_fill_fields [simp]:
  "es_seen (reverse_fill s a sd sz p d) = es_seen s"
  "es_config (reverse_fill s a sd sz p d) = es_config s"
  "es_trades (reverse_fill s a sd sz p d) = es_trades s"
  "es_orders (reverse_fill s a sd sz p d) = es_orders s"
  by (simp_all add: reverse_fill_def Let_def)

lemma store_trade_fields [simp]:
  "es_seen (store_trade s tid tr) = es_seen s" "es_config (store_trade s tid tr) = es_config s"
  "es_orders (store_trade s tid tr) = es_orders s" "seen_fill (store_trade s tid tr) t' = seen_fill s t'"
  by (simp_all add: store_trade_def seen_fill_def)

lemma count_fill_props:
  "snd (count_fill s tid tr ts) \<longleftrightarrow> \<not> seen_fill s tid"
  "es_config (fst (count_fill s tid tr ts)) = es_config s"
  "es_orders (fst (count_fill s tid tr ts)) = es_orders s"
  "es_seen (fst (count_fill s tid tr ts)) =
     (if seen_fill s tid then es_seen s else AList.update tid ts (es_seen s))"
  by (simp_all add: count_fill_def Let_def split_def)

lemma trade_effect_seen:
  assumes "trade_effect s upd ts = Some (s', new_fill)"
  shows "es_config s' = es_config s \<and>
    (if new_fill then \<not> seen_fill s (ut_trade_id upd) \<and> es_seen s' = AList.update (ut_trade_id upd) ts (es_seen s)
     else es_seen s' = es_seen s)"
proof (cases "map_of (es_trades s) (ut_trade_id upd)")
  case None
  with assms have "s' = fst (first_trade s (attribute_trade s upd) upd ts)"
    "new_fill = snd (first_trade s (attribute_trade s upd) upd ts)"
    by (simp_all add: trade_effect_def)
  thus ?thesis by (simp add: first_trade_def Let_def count_fill_props)
next
  case (Some tr)
  with assms have "known_trade s tr upd ts = Some (s', new_fill)" by (simp add: trade_effect_def)
  thus ?thesis
    by (auto simp: known_trade_def Let_def split_def count_fill_props prod_eq_iff split: if_splits)
qed

text \<open>A trade message with its receive time, sequence number and queue outcome.\<close>

type_synonym trade_msg = "user_trade_update \<times> timestamp \<times> nat \<times> bool"

definition counts_fill :: "exec_store \<Rightarrow> trade_msg \<Rightarrow> bool" where
  "counts_fill s m =
     (case m of (upd, ts, seq, pushed) \<Rightarrow>
        (case trade_effect (maybe_sweep s ts) upd ts of None \<Rightarrow> False | Some (s', new_fill) \<Rightarrow> new_fill))"

definition step_trade :: "exec_store \<Rightarrow> trade_msg \<Rightarrow> exec_store" where
  "step_trade s m = (case m of (upd, ts, seq, pushed) \<Rightarrow> fst (apply_trade_update s upd ts seq pushed))"

text \<open>How often a run of trade messages counts the fill of a trade.\<close>

fun fills_counted :: "trade_id \<Rightarrow> exec_store \<Rightarrow> trade_msg list \<Rightarrow> nat" where
  "fills_counted tid s [] = 0"
| "fills_counted tid s (m # ms) =
     (if ut_trade_id (fst m) = tid \<and> counts_fill s m then 1 else 0) + fills_counted tid (step_trade s m) ms"

definition in_ttl_window :: "exec_state_store_config \<Rightarrow> timestamp \<Rightarrow> timestamp \<Rightarrow> bool" where
  "in_ttl_window cfg t0 ts \<longleftrightarrow> t0 \<le> ts \<and>
     (seen_trade_fill_ttl_ms cfg > 0 \<longrightarrow> ts < t0 + seen_trade_fill_ttl_ms cfg * 1000000)"

lemma step_trade_props:
  assumes "seen_fresh (es_config s) ts (es_seen s)"
  shows "es_config (step_trade s (upd, ts, sq, pushed)) = es_config s"
    "counts_fill s (upd, ts, sq, pushed) \<Longrightarrow> \<not> seen_fill s (ut_trade_id upd)"
    "es_seen (step_trade s (upd, ts, sq, pushed)) =
       (if counts_fill s (upd, ts, sq, pushed) then AList.update (ut_trade_id upd) ts (es_seen s) else es_seen s)"
proof -
  let ?s = "maybe_sweep s ts"
  have seen: "es_seen ?s = es_seen s" using assms by (rule maybe_sweep_seen)
  have *: "es_config (step_trade s (upd, ts, sq, pushed)) = es_config s \<and>
      (counts_fill s (upd, ts, sq, pushed) \<longrightarrow> \<not> seen_fill s (ut_trade_id upd)) \<and>
      es_seen (step_trade s (upd, ts, sq, pushed)) =
       (if counts_fill s (upd, ts, sq, pushed) then AList.update (ut_trade_id upd) ts (es_seen s) else es_seen s)"
  proof (cases "trade_effect ?s upd ts")
    case None
    thus ?thesis by (simp add: step_trade_def apply_trade_update_def counts_fill_def Let_def seen)
  next
    case (Some p)
    obtain s' nf where p: "p = (s', nf)" by force
    from trade_effect_seen [OF Some [unfolded p]] seen show ?thesis
      unfolding step_trade_def apply_trade_update_def counts_fill_def Let_def
      by (auto simp: Some p emit_def seen_fill_def split: if_splits)
  qed
  from * show "es_config (step_trade s (upd, ts, sq, pushed)) = es_config s" by blast
  from * show "counts_fill s (upd, ts, sq, pushed) \<Longrightarrow> \<not> seen_fill s (ut_trade_id upd)" by blast
  from * show "es_seen (step_trade s (upd, ts, sq, pushed)) =
       (if counts_fill s (upd, ts, sq, pushed) then AList.update (ut_trade_id upd) ts (es_seen s) else es_seen s)"
    by blast
qed

lemma length_AList_update: "length (AList.update k v kvs) \<le> Suc (length kvs)"
  by (induction kvs) auto

lemma set_AList_update: "set (AList.update k v kvs) \<subseteq> insert (k, v) (set kvs)"
  by (induction kvs) auto

lemma fills_counted_le:
  assumes "list_all (\<lambda>(u, ts, sq, pushed). in_ttl_window (es_config s) t0 ts) ms"
    "\<forall>(k, ts) \<in> set (es_seen s). t0 \<le> ts"
    "max_seen_trade_fills (es_config s) = 0 \<or>
       length (es_seen s) + length ms \<le> max_seen_trade_fills (es_config s)"
  shows "fills_counted tid s ms \<le> (if seen_fill s tid then 0 else 1)"
  using assms
proof (induction ms arbitrary: s)
  case Nil
  then show ?case by simp
next
  case (Cons m ms)
  obtain upd ts sq pushed where m: "m = (upd, ts, sq, pushed)" by (cases m)
  let ?s' = "step_trade s m"
  have win: "in_ttl_window (es_config s) t0 ts" using Cons.prems(1) m by simp
  have fresh: "seen_fresh (es_config s) ts (es_seen s)"
    using Cons.prems(2,3) win by (fastforce simp: seen_fresh_def in_ttl_window_def)
  note st = step_trade_props [OF fresh, of upd sq pushed, folded m]
  have "fills_counted tid ?s' ms \<le> (if seen_fill ?s' tid then 0 else 1)"
  proof (rule Cons.IH)
    show "list_all (\<lambda>(u, ts, sq, pushed). in_ttl_window (es_config ?s') t0 ts) ms"
      using Cons.prems(1) st(1) by (simp add: split_def)
    show "\<forall>(k, ts) \<in> set (es_seen ?s'). t0 \<le> ts"
    proof -
      have "set (es_seen ?s') \<subseteq> insert (ut_trade_id upd, ts) (set (es_seen s))"
        using st(3) set_AList_update [of "ut_trade_id upd" ts "es_seen s"] by auto
      moreover have "t0 \<le> ts" using win by (simp add: in_ttl_window_def)
      ultimately show ?thesis using Cons.prems(2) by blast
    qed
    show "max_seen_trade_fills (es_config ?s') = 0 \<or>
        length (es_seen ?s') + length ms \<le> max_seen_trade_fills (es_config ?s')"
      using Cons.prems(3) st(1,3) length_AList_update [of "ut_trade_id upd" ts "es_seen s"] by auto
  qed
  moreover have "seen_fill ?s' tid \<longleftrightarrow> seen_fill s tid \<or> (counts_fill s m \<and> ut_trade_id upd = tid)"
    using st(3) by (auto simp: seen_fill_def AList.update_conv)
  ultimately show ?case using st(2) m by (auto split: if_splits)
qed

subsection \<open>Orders only move forward\<close>

lemma next_status_terminal:
  "is_terminal_order_status st \<Longrightarrow> is_terminal_order_status (next_order_status st upd)"
  by (auto simp: is_terminal_order_status_def next_order_status_def split: order_event_type.splits)

lemma get_order_apply:
  assumes "map_of (es_orders (maybe_sweep s ts)) (uo_order_id upd) = Some tr"
  shows "get_order (fst (apply_order_update s upd ts sq pushed)) (uo_order_id upd) =
    Some (if order_update_rejected tr upd then tr
          else tr\<lparr> to_size_matched := uo_size_matched upd, to_last_update_ts := ts,
                   to_last_seq := sq, to_status := next_order_status (to_status tr) upd \<rparr>)"
  using assms by (simp add: apply_order_update_def Let_def get_order_def emit_def AList.update_conv)

lemma get_order_apply_other:
  "oid \<noteq> uo_order_id upd \<Longrightarrow>
   get_order (fst (apply_order_update s upd ts sq pushed)) oid = get_order (maybe_sweep s ts) oid"
  by (simp add: apply_order_update_def Let_def get_order_def emit_def AList.update_conv split: option.splits)

subsection \<open>A reversal undoes a fill\<close>

definition int64_inventory :: "token_inventory \<Rightarrow> bool" where
  "int64_inventory v \<longleftrightarrow>
     (\<forall>a q. positions v a = Some q \<longrightarrow> int64_min \<le> q \<and> q \<le> int64_max) \<and>
     int64_min \<le> usdc_balance v \<and> usdc_balance v \<le> int64_max"

lemma inv_fill_undo:
  assumes "int64_inventory v"
  shows "inv_fill a (- d) p (- u) (inv_fill a d p u v) = v"
proof -
  have "wrap64 (wrap64 (usdc_balance v + u) - u) = usdc_balance v"
    using assms by (intro wrap64_undo) (auto simp: int64_inventory_def)
  moreover have "wrap64 (wrap64 (q + d) - d) = q" if "positions v a = Some q" for q
    using assms that by (intro wrap64_undo) (auto simp: int64_inventory_def)
  ultimately show ?thesis
    by (cases v)
      (auto simp: inv_fill_def adjust_position_def adjust_usdc_balance_def Let_def fun_upd_idem_iff
        split: option.splits)
qed

lemma pnl_record_delta:
  "realized_pnl (fst (pnl_record_fill t a sd p sz)) =
     wrap64 (realized_pnl t + snd (pnl_record_fill t a sd p sz)) \<or>
   realized_pnl (fst (pnl_record_fill t a sd p sz)) = realized_pnl t \<and> snd (pnl_record_fill t a sd p sz) = 0"
  by (auto simp: pnl_record_fill_def Let_def split_def split: side.splits)

lemma reverse_restores:
  assumes "record_fill s a sd sz p = (s1, d)" "s2 = reverse_fill s1 a sd sz p d"
    and "0 \<le> total_bought (lookup_or no_position (es_positions s) a)"
    and "0 \<le> total_sold (lookup_or no_position (es_positions s) a)"
    and "0 \<le> fill_count (lookup_or no_position (es_positions s) a)"
  shows "lookup_or no_position (es_positions s2) b = lookup_or no_position (es_positions s) b"
    "\<forall>v. es_inventory s = Some v \<longrightarrow> int64_inventory v \<Longrightarrow> es_inventory s2 = es_inventory s"
    "\<forall>t. es_pnl s = Some t \<longrightarrow> int64_min \<le> realized_pnl t \<and> realized_pnl t \<le> int64_max \<Longrightarrow>
      map_option realized_pnl (es_pnl s2) = map_option realized_pnl (es_pnl s)"
proof -
  show "lookup_or no_position (es_positions s2) b = lookup_or no_position (es_positions s) b"
    using assms by (auto simp: record_fill_def reverse_fill_def Let_def split_def)
  show "es_inventory s2 = es_inventory s" if "\<forall>v. es_inventory s = Some v \<longrightarrow> int64_inventory v"
    using assms(1,2) that inv_fill_undo [of _ a sz p "- usdc_delta p sz"]
      inv_fill_undo [of _ a "- sz" p "usdc_delta p sz"]
    by (cases "es_inventory s") (auto simp: record_fill_def reverse_fill_def Let_def split_def)
  show "map_option realized_pnl (es_pnl s2) = map_option realized_pnl (es_pnl s)"
    if "\<forall>t. es_pnl s = Some t \<longrightarrow> int64_min \<le> realized_pnl t \<and> realized_pnl t \<le> int64_max"
  proof (cases "es_pnl s")
    case None
    with assms(1,2) show ?thesis by (auto simp: record_fill_def reverse_fill_def Let_def split_def)
  next
    case (Some t)
    hence r: "wrap64 (realized_pnl t) = realized_pnl t"
      "wrap64 (wrap64 (realized_pnl t + x) - x) = realized_pnl t" for x
      using that by (auto intro: wrap64_id wrap64_undo)
    with Some assms(1,2) pnl_record_delta [of t a sd p sz] show ?thesis
      by (auto simp: record_fill_def reverse_fill_def pnl_reverse_fill_def Let_def split_def
          split: if_splits)
  qed
qed

subsection \<open>Properties\<close>

text \<open>C7: Starting from an empty store, a run of trade messages in any order of statuses, with
  repetitions and queue overflows, counts the fill of each trade at most once, as long as the
  messages lie within one time-to-live window and do not exceed the cap on remembered fills.\<close>

theorem fill_counted_once:
  assumes "list_all (\<lambda>(u, ts, sq, pushed). in_ttl_window cfg t0 ts) msgs"
    and "max_seen_trade_fills cfg = 0 \<or> length msgs \<le> max_seen_trade_fills cfg"
  shows "fills_counted tid (new_store cfg iv pnl) msgs \<le> 1"
  using fills_counted_le [of "new_store cfg iv pnl" t0 msgs tid] assms
  by (auto simp: new_store_def split: if_splits)

definition sample_trade :: "trade_status \<Rightarrow> user_trade_update" where
  "sample_trade st =
     \<lparr> ut_trade_id = ''t1'', ut_taker_order_id = ''o1'', ut_asset_id = ''up'', ut_market_id = ''m'',
       ut_status = st, ut_side = BID, ut_fill_price = 5000, ut_fill_size = 5, ut_match_ts = 0,
       ut_last_update_ts = 0, ut_maker_entries = [] \<rparr>"

theorem fill_counted_once_witness:
  "fills_counted ''t1'' (new_store default_store_config None None)
     [(sample_trade T_MATCHED, 10, 0, True), (sample_trade T_MINED, 20, 1, True),
      (sample_trade T_MATCHED, 30, 2, False)] \<le> 1"
  using fill_counted_once [of default_store_config 10
     "[(sample_trade T_MATCHED, 10, 0, True), (sample_trade T_MINED, 20, 1, True),
      (sample_trade T_MATCHED, 30, 2, False)]" "''t1''" None None]
  by (simp add: in_ttl_window_def default_store_config_def)

text \<open>C21: An order that the store still holds when an update for it arrives keeps its asset and
  side, its matched size never decreases, and a terminal order stays terminal.\<close>

theorem order_state_progress:
  assumes "get_order (maybe_sweep s ts) (uo_order_id upd) = Some tr"
  shows "case get_order (fst (apply_order_update s upd ts sq pushed)) (uo_order_id upd) of
      None \<Rightarrow> False
    | Some tr' \<Rightarrow> to_asset_id tr' = to_asset_id tr \<and> to_side tr' = to_side tr \<and>
        to_size_matched tr \<le> to_size_matched tr' \<and>
        (is_terminal_order_status (to_status tr) \<longrightarrow> is_terminal_order_status (to_status tr'))"
  using get_order_apply [OF assms [unfolded get_order_def]] next_status_terminal
  by (auto simp: order_update_rejected_def)

definition sample_order :: "order_event_type \<Rightarrow> qty \<Rightarrow> user_order_update" where
  "sample_order et matched =
     \<lparr> uo_order_id = ''o1'', uo_client_order_id = ''c1'', uo_asset_id = ''up'', uo_market_id = ''m'',
       uo_event_type = et, uo_side = BID, uo_price = 5000, uo_original_size = 5,
       uo_size_matched = matched, uo_exchange_ts = 0, uo_size_matched_exceeds_original = False \<rparr>"

theorem order_state_progress_witness:
  "case get_order (fst (apply_order_update
       (fst (apply_order_update (new_store (default_store_config\<lparr> sweep_interval_ms := 0 \<rparr>) None None)
          (sample_order UPDATE 3) 10 0 True)) (sample_order UPDATE 2) 20 1 True)) ''o1'' of
     None \<Rightarrow> False | Some tr' \<Rightarrow> 3 \<le> to_size_matched tr'"
proof -
  let ?s = "fst (apply_order_update (new_store (default_store_config\<lparr> sweep_interval_ms := 0 \<rparr>) None None)
          (sample_order UPDATE 3) 10 0 True)"
  have "\<exists>tr. get_order (maybe_sweep ?s 20) (uo_order_id (sample_order UPDATE 2)) = Some tr \<and> to_size_matched tr = 3"
    by (simp add: apply_order_update_def maybe_sweep_def over_cap_def new_store_def default_store_config_def
        sample_order_def emit_def get_order_def Let_def)
  then obtain tr where tr: "get_order (maybe_sweep ?s 20) (uo_order_id (sample_order UPDATE 2)) = Some tr"
      "to_size_matched tr = 3" by blast
  have "uo_order_id (sample_order UPDATE 2) = ''o1''" by (simp add: sample_order_def)
  with order_state_progress [OF tr(1), of 1 True] tr(2) show ?thesis by (auto split: option.splits)
qed

text \<open>Reversing a counted fill with the profit it was recorded with restores the position
  record of every asset, the token inventory and the cash balance, and the realised profit.\<close>

theorem reverse_fill_restores:
  assumes "record_fill s a sd sz p = (s1, d)"
    and "0 \<le> total_bought (lookup_or no_position (es_positions s) a)"
    and "0 \<le> total_sold (lookup_or no_position (es_positions s) a)"
    and "0 \<le> fill_count (lookup_or no_position (es_positions s) a)"
    and "es_inventory s = Some v" and "int64_inventory v"
    and "es_pnl s = Some t" and "int64_min \<le> realized_pnl t" and "realized_pnl t \<le> int64_max"
  shows "lookup_or no_position (es_positions (reverse_fill s1 a sd sz p d)) b =
      lookup_or no_position (es_positions s) b \<and>
    es_inventory (reverse_fill s1 a sd sz p d) = Some v \<and>
    map_option realized_pnl (es_pnl (reverse_fill s1 a sd sz p d)) = Some (realized_pnl t)"
  using reverse_restores [OF assms(1) refl assms(2-4)] assms(5-9) by simp

theorem reverse_fill_restores_witness:
  "let s = new_store default_store_config (Some (register_token empty_inventory ''up'')) (Some new_pnl_tracker);
       (s1, d) = record_fill s ''up'' BID 5000000 5200
   in es_inventory (reverse_fill s1 ''up'' BID 5000000 5200 d) = es_inventory s"
proof -
  let ?s = "new_store default_store_config (Some (register_token empty_inventory ''up'')) (Some new_pnl_tracker)"
  obtain s1 d where r: "record_fill ?s ''up'' BID 5000000 5200 = (s1, d)" by force
  have "int64_inventory (register_token empty_inventory ''up'')"
    by (simp add: int64_inventory_def register_token_def empty_inventory_def int64_min_def int64_max_def)
  with reverse_fill_restores [OF r, of "register_token empty_inventory ''up''" new_pnl_tracker] r
  show ?thesis
    by (simp add: new_store_def no_position_def new_pnl_tracker_def int64_min_def int64_max_def)
qed

definition failing_trade_run :: exec_store where
  "failing_trade_run =
     fold (\<lambda>st s. fst (apply_trade_update s (sample_trade st) 20 1 True))
       [T_MATCHED, T_FAILED, T_CONFIRMED, T_FAILED]
       (fst (apply_order_update (new_store default_store_config None None) (sample_order PLACEMENT 0) 10 0 True))"

text \<open>CONFIRMED and FAILED have the same rank, so a trade can leave FAILED and fail again, and each
  failure reverses the fill: a bought and failed quantity of 5 ends as a short position of 5.\<close>

theorem failed_twice_reverses_twice:
  "map_option net_position (get_position failing_trade_run ''up'') = Some (- 5)"
  by (simp add: failing_trade_run_def apply_order_update_def apply_trade_update_def maybe_sweep_def
      over_cap_def new_store_def default_store_config_def sample_order_def sample_trade_def emit_def
      evict_terminal_orders_def evict_terminal_trades_def evict_seen_trade_fills_def ttl_filter_def
      evict_loop_id first_order_status_def trade_effect_def first_trade_def known_trade_def count_fill_def
      seen_fill_def store_trade_def record_fill_def reverse_fill_def attribute_trade_def
      attribute_taker_def attribute_to_def get_position_def no_position_def
      is_terminal_order_status_def is_terminal_trade_status_def Let_def)

end
