(* ===== verification/Risk_Gate.thy ===== *)
theory Risk_Gate
  imports Working_Tracker Market_Pair Token_Inventory
begin

section \<open>Risk gate and quote planner\<close>

text \<open>
  src/src/scheduler/risk_gate.h and .cpp, src/src/scheduler/quote_planner.h and .cpp.  The gate reads
  the token inventory, the working order tracker and the pair registry through pointers that may be
  null, hence options.  The lemmas: a cancel is never refused; a placement that is allowed and then
  recorded by the tracker leaves the position with its pending orders, the exposure of the market
  and the working notional within the configured limits.
\<close>

datatype risk_deny_reason = RD_NONE | POSITION_LIMIT | EXPOSURE_LIMIT | NOTIONAL_LIMIT

record risk_result =
  rr_decision :: risk_decision
  rr_reason :: risk_deny_reason

record risk_config =
  max_position_per_token :: qty
  max_net_exposure_per_market :: qty
  max_notional :: int
  max_loss :: int
  cancel_all_on_violation :: bool

definition default_risk_config :: risk_config where
  "default_risk_config =
     \<lparr> max_position_per_token = 50, max_net_exposure_per_market = 50, max_notional = 500000,
       max_loss = 100000, cancel_all_on_violation = False \<rparr>"

record risk_gate =
  rg_config :: risk_config
  rg_pending_cancel_all :: bool
  rg_check_count :: int
  rg_allow_count :: int
  rg_deny_count :: int

definition new_risk_gate :: "risk_config \<Rightarrow> risk_gate" where
  "new_risk_gate cfg =
     \<lparr> rg_config = cfg, rg_pending_cancel_all = False, rg_check_count = 0, rg_allow_count = 0,
       rg_deny_count = 0 \<rparr>"

definition risk_allow :: "risk_gate \<Rightarrow> risk_gate \<times> risk_result" where
  "risk_allow g = (g\<lparr> rg_allow_count := rg_allow_count g + 1 \<rparr>, \<lparr> rr_decision = ALLOW, rr_reason = RD_NONE \<rparr>)"

definition risk_deny :: "risk_gate \<Rightarrow> risk_deny_reason \<Rightarrow> risk_gate \<times> risk_result" where
  "risk_deny g reason =
     (g\<lparr> rg_deny_count := rg_deny_count g + 1,
         rg_pending_cancel_all := (if cancel_all_on_violation (rg_config g) then True
                                   else rg_pending_cancel_all g) \<rparr>,
      \<lparr> rr_decision = DENY, rr_reason = reason \<rparr>)"

definition pending_of :: "tracker option \<Rightarrow> asset_id \<Rightarrow> qty" where
  "pending_of tr tok = (case tr of None \<Rightarrow> 0 | Some t \<Rightarrow> pending_exposure_for_token t tok)"

definition projected_position :: "token_inventory \<Rightarrow> tracker option \<Rightarrow> execution_intent \<Rightarrow> qty" where
  "projected_position v tr i =
     position_for v (in_asset_id i) + pending_of tr (in_asset_id i) + signed_qty i"

definition projected_exposure :: "token_inventory \<Rightarrow> tracker option \<Rightarrow> market_pair \<Rightarrow> execution_intent \<Rightarrow> qty" where
  "projected_exposure v tr pair i =
     (let pos_up = position_for v (token_id_up pair) + pending_of tr (token_id_up pair);
          pos_down = position_for v (token_id_down pair) + pending_of tr (token_id_down pair)
      in if in_asset_id i = token_id_up pair then \<bar>pos_up + signed_qty i\<bar> + \<bar>pos_down\<bar>
         else if in_asset_id i = token_id_down pair then \<bar>pos_up\<bar> + \<bar>pos_down + signed_qty i\<bar>
         else \<bar>pos_up\<bar> + \<bar>pos_down\<bar>)"

definition risk_evaluate ::
  "risk_gate \<Rightarrow> token_inventory option \<Rightarrow> tracker option \<Rightarrow> market_pair_registry option \<Rightarrow>
   execution_intent \<Rightarrow> risk_gate \<times> risk_result" where
  "risk_evaluate g0 iv tr reg i =
     (let g = g0\<lparr> rg_check_count := rg_check_count g0 + 1 \<rparr>; cfg = rg_config g
      in if in_action i = WOULD_CANCEL_BID \<or> in_action i = WOULD_CANCEL_ASK \<or>
            in_action i = WOULD_CANCEL_ALL then risk_allow g
         else if (case iv of None \<Rightarrow> False
                  | Some v \<Rightarrow> \<bar>projected_position v tr i\<bar> > max_position_per_token cfg)
         then risk_deny g POSITION_LIMIT
         else if (case (iv, reg) of
                    (Some v, Some r) \<Rightarrow>
                      in_market_id i \<noteq> [] \<and>
                      (case find_by_condition r (in_market_id i) of
                         None \<Rightarrow> False
                       | Some pair \<Rightarrow> projected_exposure v tr pair i > max_net_exposure_per_market cfg)
                  | _ \<Rightarrow> False)
         then risk_deny g EXPOSURE_LIMIT
         else if (case tr of None \<Rightarrow> False
                  | Some t \<Rightarrow> total_working_notional t + in_price i * in_qty i > max_notional cfg)
         then risk_deny g NOTIONAL_LIMIT
         else risk_allow g)"

definition risk_set_config :: "risk_gate \<Rightarrow> risk_config \<Rightarrow> risk_gate" where
  "risk_set_config g c = g\<lparr> rg_config := c \<rparr>"

definition clear_pending_cancel_all :: "risk_gate \<Rightarrow> risk_gate" where
  "clear_pending_cancel_all g = g\<lparr> rg_pending_cancel_all := False \<rparr>"

subsection \<open>Quote planner\<close>

definition round_down_to_tick :: "price \<Rightarrow> int \<Rightarrow> price" where
  "round_down_to_tick p tick = (if tick \<le> 1 then p else (p sdiv tick) * tick)"

definition round_up_to_tick :: "price \<Rightarrow> int \<Rightarrow> price" where
  "round_up_to_tick p tick = (if tick \<le> 1 then p else ((p + tick - 1) sdiv tick) * tick)"

record quote_planner =
  qp_tick_sizes :: "asset_id \<rightharpoonup> int"
  qp_default_tick_size :: int

definition new_quote_planner :: quote_planner where
  "new_quote_planner = \<lparr> qp_tick_sizes = Map.empty, qp_default_tick_size = 100 \<rparr>"

definition plan :: "execution_intent \<Rightarrow> intent_batch" where
  "plan i = batch_add [] i"

definition planner_set_tick_size :: "quote_planner \<Rightarrow> asset_id \<Rightarrow> int \<Rightarrow> quote_planner" where
  "planner_set_tick_size q tok tick = q\<lparr> qp_tick_sizes := (qp_tick_sizes q)(tok \<mapsto> tick) \<rparr>"

definition tick_size_for :: "quote_planner \<Rightarrow> asset_id \<Rightarrow> int" where
  "tick_size_for q tok =
     (case qp_tick_sizes q tok of Some t \<Rightarrow> t | None \<Rightarrow> qp_default_tick_size q)"

definition set_default_tick_size :: "quote_planner \<Rightarrow> int \<Rightarrow> quote_planner" where
  "set_default_tick_size q tick = q\<lparr> qp_default_tick_size := tick \<rparr>"

subsection \<open>Lemmas\<close>

lemma plan_passthrough [simp]: "plan i = [i]"
  by (simp add: plan_def batch_add_def kMaxIntents_def)

lemma risk_allow_deny [simp]:
  "rr_decision (snd (risk_allow g)) = ALLOW" "rr_decision (snd (risk_deny g r)) = DENY"
  "rr_reason (snd (risk_deny g r)) = r"
  by (simp_all add: risk_allow_def risk_deny_def)

lemma allowed_limits:
  assumes "rr_decision (snd (risk_evaluate g (Some v) (Some t) reg i)) = ALLOW"
    "is_placement (in_action i)"
  shows "\<bar>projected_position v (Some t) i\<bar> \<le> max_position_per_token (rg_config g)"
    "total_working_notional t + in_price i * in_qty i \<le> max_notional (rg_config g)"
  using assms by (auto simp: risk_evaluate_def is_placement_def Let_def split: if_splits)

lemma allowed_exposure:
  assumes "rr_decision (snd (risk_evaluate g (Some v) (Some t) (Some r) i)) = ALLOW"
    "is_placement (in_action i)" "in_market_id i \<noteq> []" "find_by_condition r (in_market_id i) = Some pair"
  shows "projected_exposure v (Some t) pair i \<le> max_net_exposure_per_market (rg_config g)"
  using assms by (auto simp: risk_evaluate_def is_placement_def Let_def split: if_splits)

lemma projected_exposure_tracked:
  assumes "is_placement (in_action i)" "snd (on_intent_sent t i)" "token_id_up pair \<noteq> token_id_down pair"
  shows "projected_exposure v (Some t) pair i =
    \<bar>position_for v (token_id_up pair) + pending_exposure_for_token (fst (on_intent_sent t i)) (token_id_up pair)\<bar> +
    \<bar>position_for v (token_id_down pair) + pending_exposure_for_token (fst (on_intent_sent t i)) (token_id_down pair)\<bar>"
  using assms(3) wot.track_exposure [OF assms(1,2)]
  by (simp add: projected_exposure_def pending_of_def Let_def algebra_simps)

lemma risk_counts:
  "rg_check_count (fst (risk_evaluate g iv tr reg i)) = rg_check_count g + 1"
  "rg_allow_count (fst (risk_evaluate g iv tr reg i)) + rg_deny_count (fst (risk_evaluate g iv tr reg i)) =
   rg_allow_count g + rg_deny_count g + 1"
  by (simp_all add: risk_evaluate_def risk_allow_def risk_deny_def Let_def)

lemma round_down_bounds:
  assumes "0 \<le> p" "0 < tick"
  shows "round_down_to_tick p tick \<le> p" "p < round_down_to_tick p tick + tick"
    "tick dvd round_down_to_tick p tick"
proof -
  have d: "round_down_to_tick p tick = p div tick * tick"
    using assms by (cases "tick = 1") (auto simp: round_down_to_tick_def sdiv_nonneg)
  have "p div tick * tick + p mod tick = p" "0 \<le> p mod tick" "p mod tick < tick"
    using assms by (simp_all add: pos_mod_bound)
  thus "round_down_to_tick p tick \<le> p" "p < round_down_to_tick p tick + tick"
    unfolding d by linarith+
  show "tick dvd round_down_to_tick p tick" by (simp add: d)
qed

subsection \<open>Properties\<close>

text \<open>C20: A placement that the gate allows and the tracker then records keeps, with all pending
  orders counted as filled, the absolute position of its token, the sum of the absolute positions of
  the two tokens of its market, and the working notional within the configured limits.\<close>

theorem allowed_placement_within_limits:
  assumes "rr_decision (snd (risk_evaluate g (Some v) (Some t) (Some r) i)) = ALLOW"
    and "is_placement (in_action i)" and "snd (on_intent_sent t i)"
    and "in_market_id i \<noteq> []" and "find_by_condition r (in_market_id i) = Some pair"
    and "token_id_up pair \<noteq> token_id_down pair" and "t' = fst (on_intent_sent t i)"
  shows "\<bar>position_for v (in_asset_id i) + pending_exposure_for_token t' (in_asset_id i)\<bar>
      \<le> max_position_per_token (rg_config g) \<and>
    \<bar>position_for v (token_id_up pair) + pending_exposure_for_token t' (token_id_up pair)\<bar> +
    \<bar>position_for v (token_id_down pair) + pending_exposure_for_token t' (token_id_down pair)\<bar>
      \<le> max_net_exposure_per_market (rg_config g) \<and>
    total_working_notional t' \<le> max_notional (rg_config g)"
proof -
  note lim = allowed_limits [OF assms(1,2)]
  have "\<bar>position_for v (in_asset_id i) + pending_exposure_for_token t (in_asset_id i) + signed_qty i\<bar>
      \<le> max_position_per_token (rg_config g)"
    using lim(1) by (simp add: projected_position_def pending_of_def)
  with lim(2) wot.limits_after_track [OF assms(2,3)] allowed_exposure [OF assms(1,2,4,5)]
    projected_exposure_tracked [OF assms(2,3,6), of v] assms(7)
  show ?thesis by simp
qed

theorem allowed_placement_within_limits_witness:
  "let i = new_execution_intent\<lparr> in_asset_id := ''u'', in_market_id := ''c'', in_price := 5200, in_qty := 10 \<rparr>
   in total_working_notional (fst (on_intent_sent [empty_slot] i)) \<le> 500000"
proof -
  let ?i = "new_execution_intent\<lparr> in_asset_id := ''u'', in_market_id := ''c'', in_price := 5200, in_qty := 10 \<rparr>"
  let ?pair = "\<lparr> mp_condition_id = ''c'', token_id_up = ''u'', token_id_down = ''d'',
     mp_neg_risk = False, mp_fee_rate_bps = 0 \<rparr>"
  let ?r = "fst (add_pair empty_registry ?pair)"
  have "rr_decision (snd (risk_evaluate (new_risk_gate default_risk_config) (Some empty_inventory)
      (Some [empty_slot]) (Some ?r) ?i)) = ALLOW"
    by (simp add: risk_evaluate_def new_risk_gate_def default_risk_config_def projected_position_def
        projected_exposure_def position_for_def empty_inventory_def pending_of_def
        pending_exposure_for_token_def total_working_notional_def signed_qty_def new_execution_intent_def
        find_by_condition_def add_pair_def empty_registry_def emplace_def risk_allow_def Let_def)
  moreover have "is_placement (in_action ?i)" "snd (on_intent_sent [empty_slot] ?i)" "in_market_id ?i \<noteq> []"
    by (simp_all add: is_placement_def new_execution_intent_def on_intent_sent_def find_free_slot_def)
  moreover have "find_by_condition ?r (in_market_id ?i) = Some ?pair"
    by (simp add: find_by_condition_def add_pair_def empty_registry_def emplace_def)
  ultimately have "total_working_notional (fst (on_intent_sent [empty_slot] ?i)) \<le>
      max_notional (rg_config (new_risk_gate default_risk_config))"
    using allowed_placement_within_limits [of "new_risk_gate default_risk_config" empty_inventory
        "[empty_slot]" ?r ?i ?pair "fst (on_intent_sent [empty_slot] ?i)"] by simp
  thus ?thesis by (simp add: new_risk_gate_def default_risk_config_def Let_def)
qed

text \<open>Cancels are always allowed, whatever the positions, limits and working orders, and never
  request a cancel-all.\<close>

theorem cancels_always_allowed:
  assumes "\<not> is_placement (in_action i)"
  shows "rr_decision (snd (risk_evaluate g iv tr reg i)) = ALLOW \<and>
    rg_pending_cancel_all (fst (risk_evaluate g iv tr reg i)) = rg_pending_cancel_all g"
  using assms
  by (cases "in_action i") (simp_all add: risk_evaluate_def is_placement_def risk_allow_def Let_def)

theorem cancels_always_allowed_witness:
  "rr_decision (snd (risk_evaluate (new_risk_gate (default_risk_config\<lparr> max_notional := - 1 \<rparr>)) None None None
     (new_execution_intent\<lparr> in_action := WOULD_CANCEL_ASK \<rparr>))) = ALLOW"
  using cancels_always_allowed [of "new_execution_intent\<lparr> in_action := WOULD_CANCEL_ASK \<rparr>"]
  by (simp add: is_placement_def)

end
