(* ===== verification/Rate_Limiter.thy ===== *)
theory Rate_Limiter
  imports Exec_Types
begin

section \<open>Rate limiter\<close>

text \<open>
  src/src/exec/rate_limiter.h and .cpp.  A sliding window has ten one-second buckets in a ring; a
  request passes when the buckets sum to less than the limit.  The random draw of \<open>apply_jitter\<close> is
  an argument.  The lemmas: whatever the request times, as long as they do not go backwards, the
  requests a window grants within nine seconds never exceed its limit (the buckets are counted from
  the last slide, so the tenth second is not covered); the back-off blocks every request; while the
  exchange is unavailable only cancels and heartbeats pass.
\<close>

record rate_limit_config =
  global_tokens_per_10s :: int
  order_tokens_per_10s :: int
  cancel_tokens_per_10s :: int
  heartbeat_tokens_per_10s :: int
  backoff_base_ms :: int
  backoff_max_ms :: int
  max_consecutive_429s :: int

definition default_rate_limit_config :: rate_limit_config where
  "default_rate_limit_config =
     \<lparr> global_tokens_per_10s = 9000, order_tokens_per_10s = 3500, cancel_tokens_per_10s = 3000,
       heartbeat_tokens_per_10s = 200, backoff_base_ms = 500, backoff_max_ms = 30000,
       max_consecutive_429s = 5 \<rparr>"

definition kNumBuckets :: nat where "kNumBuckets = 10"
definition kBucketMs :: int where "kBucketMs = 1000"

record sliding_window =
  limit_per_10s :: int
  buckets :: "int list"
  current_bucket :: nat
  last_slide_ts :: timestamp

definition new_window :: "int \<Rightarrow> sliding_window" where
  "new_window limit = \<lparr> limit_per_10s = limit, buckets = replicate kNumBuckets 0, current_bucket = 0,
                        last_slide_ts = 0 \<rparr>"

primrec advance :: "nat \<Rightarrow> sliding_window \<Rightarrow> sliding_window" where
  "advance 0 w = w"
| "advance (Suc n) w =
     advance n (let c = (current_bucket w + 1) mod kNumBuckets
                in w\<lparr> current_bucket := c, buckets := (buckets w)[c := 0] \<rparr>)"

definition to_ms :: "timestamp \<Rightarrow> int" where
  "to_ms ts = ts sdiv 1000000"

definition slide :: "sliding_window \<Rightarrow> timestamp \<Rightarrow> sliding_window" where
  "slide w now =
     (if last_slide_ts w = 0 then w\<lparr> last_slide_ts := now \<rparr>
      else
        let elapsed_ms = to_ms now - to_ms (last_slide_ts w)
        in if elapsed_ms \<le> 0 then w
           else
             let buckets_to_advance = elapsed_ms sdiv kBucketMs
             in if buckets_to_advance \<le> 0 then w
                else if buckets_to_advance \<ge> int kNumBuckets then
                  w\<lparr> buckets := replicate kNumBuckets 0, current_bucket := 0, last_slide_ts := now \<rparr>
                else (advance (nat buckets_to_advance) w)\<lparr> last_slide_ts := now \<rparr>)"

definition window_total :: "sliding_window \<Rightarrow> int" where
  "window_total w = sum_list (buckets w)"

definition try_consume :: "sliding_window \<Rightarrow> timestamp \<Rightarrow> sliding_window \<times> bool" where
  "try_consume w0 now =
     (let w = slide w0 now
      in if window_total w \<ge> limit_per_10s w then (w, False)
         else (w\<lparr> buckets := (buckets w)[current_bucket w := buckets w ! current_bucket w + 1] \<rparr>, True))"

definition k425BackoffBaseMs :: int where "k425BackoffBaseMs = 1500"
definition k425MaxConsecutive :: int where "k425MaxConsecutive = 10"

record rate_limiter =
  rl_config :: rate_limit_config
  global_window :: sliding_window
  order_window :: sliding_window
  cancel_window :: sliding_window
  heartbeat_window :: sliding_window
  consecutive_429s :: int
  exchange_unavailable :: bool
  backoff_until :: timestamp
  current_backoff_ms :: int
  consecutive_425s :: int
  current_425_backoff_ms :: int
  rtt_ema_ns :: int
  rtt_baseline_ns :: int
  rtt_count :: int
  throttled_count :: int
  backoff_count :: int

definition new_rate_limiter :: "rate_limit_config \<Rightarrow> rate_limiter" where
  "new_rate_limiter cfg =
     \<lparr> rl_config = cfg, global_window = new_window (global_tokens_per_10s cfg),
       order_window = new_window (order_tokens_per_10s cfg),
       cancel_window = new_window (cancel_tokens_per_10s cfg),
       heartbeat_window = new_window (heartbeat_tokens_per_10s cfg),
       consecutive_429s = 0, exchange_unavailable = False, backoff_until = 0,
       current_backoff_ms = backoff_base_ms cfg, consecutive_425s = 0,
       current_425_backoff_ms = k425BackoffBaseMs, rtt_ema_ns = 0, rtt_baseline_ns = 0,
       rtt_count = 0, throttled_count = 0, backoff_count = 0 \<rparr>"

datatype window_class = OrderWindow | CancelWindow | HeartbeatWindow

fun window_for :: "exec_intent_type \<Rightarrow> window_class" where
  "window_for PLACE_ORDER = OrderWindow"
| "window_for REPLACE_ORDER = OrderWindow"
| "window_for CANCEL_ORDER = CancelWindow"
| "window_for CANCEL_ALL = CancelWindow"
| "window_for HEARTBEAT = HeartbeatWindow"

fun get_window :: "window_class \<Rightarrow> rate_limiter \<Rightarrow> sliding_window" where
  "get_window OrderWindow l = order_window l"
| "get_window CancelWindow l = cancel_window l"
| "get_window HeartbeatWindow l = heartbeat_window l"

fun set_window :: "window_class \<Rightarrow> sliding_window \<Rightarrow> rate_limiter \<Rightarrow> rate_limiter" where
  "set_window OrderWindow w l = l\<lparr> order_window := w \<rparr>"
| "set_window CancelWindow w l = l\<lparr> cancel_window := w \<rparr>"
| "set_window HeartbeatWindow w l = l\<lparr> heartbeat_window := w \<rparr>"

definition throttle :: "rate_limiter \<Rightarrow> rate_limiter \<times> bool" where
  "throttle l = (l\<lparr> throttled_count := throttled_count l + 1 \<rparr>, False)"

definition try_acquire :: "rate_limiter \<Rightarrow> exec_intent_type \<Rightarrow> timestamp \<Rightarrow> rate_limiter \<times> bool" where
  "try_acquire l type now =
     (if now < backoff_until l then throttle l
      else if exchange_unavailable l \<and> type \<noteq> CANCEL_ORDER \<and> type \<noteq> CANCEL_ALL \<and> type \<noteq> HEARTBEAT
      then throttle l
      else
        let (gw, g_ok) = try_consume (global_window l) now;
            l1 = l\<lparr> global_window := gw \<rparr>
        in if \<not> g_ok then throttle l1
           else
             let c = window_for type;
                 (tw, t_ok) = try_consume (get_window c l1) now;
                 l2 = set_window c tw l1
             in if \<not> t_ok then throttle l2 else (l2, True))"

definition next_allowed :: "rate_limiter \<Rightarrow> exec_intent_type \<Rightarrow> timestamp \<Rightarrow> timestamp" where
  "next_allowed l type now =
     (if now < backoff_until l then backoff_until l else now + kBucketMs * 1000000)"

definition is_matching_engine_down :: "rate_limiter \<Rightarrow> bool" where
  "is_matching_engine_down l \<longleftrightarrow> consecutive_425s l \<ge> k425MaxConsecutive"

definition is_degraded :: "rate_limiter \<Rightarrow> bool" where
  "is_degraded l \<longleftrightarrow>
     consecutive_429s l \<ge> max_consecutive_429s (rl_config l) \<or>
     (if rtt_count l \<ge> 20 \<and> rtt_baseline_ns l > 0 then rtt_ema_ns l > rtt_baseline_ns l * 3 else False)"

definition apply_jitter :: "int \<Rightarrow> int \<Rightarrow> int" where
  "apply_jitter base_ms draw =
     (let jitter_range = base_ms sdiv 4
      in if jitter_range \<le> 0 then base_ms else max 1 (base_ms + draw))"

definition record_response :: "rate_limiter \<Rightarrow> int \<Rightarrow> timestamp \<Rightarrow> int \<Rightarrow> rate_limiter" where
  "record_response l http_status now draw =
     (if http_status = 429 then
        l\<lparr> consecutive_429s := consecutive_429s l + 1, backoff_count := backoff_count l + 1,
           backoff_until := now + apply_jitter (current_backoff_ms l) draw * 1000000,
           current_backoff_ms := min (current_backoff_ms l * 2) (backoff_max_ms (rl_config l)) \<rparr>
      else if http_status = 425 then
        l\<lparr> consecutive_425s := consecutive_425s l + 1, backoff_count := backoff_count l + 1,
           backoff_until := max (backoff_until l) (now + apply_jitter (current_425_backoff_ms l) draw * 1000000),
           current_425_backoff_ms := min (current_425_backoff_ms l * 2) (backoff_max_ms (rl_config l)) \<rparr>
      else if http_status = 503 then
        l\<lparr> exchange_unavailable := True, backoff_count := backoff_count l + 1,
           backoff_until := now + apply_jitter (backoff_base_ms (rl_config l)) draw * 1000000 \<rparr>
      else if http_status \<ge> 200 \<and> http_status < 300 then
        l\<lparr> consecutive_429s := 0, exchange_unavailable := False,
           current_backoff_ms := backoff_base_ms (rl_config l), consecutive_425s := 0,
           current_425_backoff_ms := k425BackoffBaseMs \<rparr>
      else l)"

definition record_rtt :: "rate_limiter \<Rightarrow> int \<Rightarrow> rate_limiter" where
  "record_rtt l0 rtt_ns =
     (let l = l0\<lparr> rtt_count := rtt_count l0 + 1 \<rparr>
      in if rtt_count l \<le> 10 then
           let b = (rtt_baseline_ns l * (rtt_count l - 1) + rtt_ns) sdiv rtt_count l
           in l\<lparr> rtt_baseline_ns := b, rtt_ema_ns := b \<rparr>
         else l\<lparr> rtt_ema_ns := (rtt_ema_ns l * 9 + rtt_ns) sdiv 10 \<rparr>)"

definition reset_backoff :: "rate_limiter \<Rightarrow> rate_limiter" where
  "reset_backoff l =
     l\<lparr> consecutive_429s := 0, exchange_unavailable := False, backoff_until := 0,
        current_backoff_ms := backoff_base_ms (rl_config l), consecutive_425s := 0,
        current_425_backoff_ms := k425BackoffBaseMs \<rparr>"

subsection \<open>Buckets by age\<close>

text \<open>\<open>age_sum w a\<close> adds the \<open>a\<close> youngest buckets.  Every request granted at or after the last slide
  less \<open>a - 1\<close> seconds is in one of them: \<open>covers\<close> says so for the granted times \<open>h\<close> (in ms).\<close>

definition age_bucket :: "sliding_window \<Rightarrow> nat \<Rightarrow> int" where
  "age_bucket w j = buckets w ! ((current_bucket w + 10 - j) mod 10)"

definition age_sum :: "sliding_window \<Rightarrow> nat \<Rightarrow> int" where
  "age_sum w a = (\<Sum>j<a. age_bucket w j)"

definition window_ok :: "sliding_window \<Rightarrow> bool" where
  "window_ok w \<longleftrightarrow> length (buckets w) = 10 \<and> current_bucket w < 10 \<and> (\<forall>b \<in> set (buckets w). 0 \<le> b)"

definition granted_since :: "int \<Rightarrow> int list \<Rightarrow> int" where
  "granted_since x h = int (length (filter (\<lambda>t. x \<le> t) h))"

definition covers :: "sliding_window \<Rightarrow> int list \<Rightarrow> bool" where
  "covers w h \<longleftrightarrow> window_ok w \<and>
     (if last_slide_ts w = 0 then h = [] \<and> buckets w = replicate 10 0
      else (\<forall>t \<in> set h. t < to_ms (last_slide_ts w) + 1000) \<and>
        (\<forall>a \<in> {1..10}. granted_since (to_ms (last_slide_ts w) - 1000 * (int a - 1)) h \<le> age_sum w a))"

lemma granted_since_mono: "x \<le> y \<Longrightarrow> granted_since y h \<le> granted_since x h"
  unfolding granted_since_def
  by (induction h) auto

lemma granted_since_zero: "(\<And>t. t \<in> set h \<Longrightarrow> t < x) \<Longrightarrow> granted_since x h = 0"
  by (force simp: granted_since_def filter_empty_conv)

lemma granted_since_Cons: "granted_since x (t # h) \<le> granted_since x h + 1"
  by (simp add: granted_since_def)

lemma list10: "length xs = 10 \<Longrightarrow> \<exists>a b c d e f g h i j. xs = [a, b, c, d, e, f, g, h, i, j]"
  by (auto simp: numeral_eq_Suc length_Suc_conv)

lemma less10: "(n::nat) < 10 \<Longrightarrow> n \<in> {0, 1, 2, 3, 4, 5, 6, 7, 8, 9}"
  by auto

lemma lessThan10: "{..<10::nat} = {0, 1, 2, 3, 4, 5, 6, 7, 8, 9}"
  by auto

lemma age_sum_total: "window_ok w \<Longrightarrow> age_sum w 10 = window_total w"
proof -
  assume ok: "window_ok w"
  hence "current_bucket w \<in> {0, 1, 2, 3, 4, 5, 6, 7, 8, 9}" by (intro less10) (simp add: window_ok_def)
  moreover obtain a b c d e f g h i j where "buckets w = [a, b, c, d, e, f, g, h, i, j]"
    using list10 [of "buckets w"] ok by (auto simp: window_ok_def)
  ultimately show ?thesis
    by (elim insertE emptyE) (simp_all add: age_sum_def age_bucket_def window_total_def lessThan10)
qed

lemma age_sum_mono: "window_ok w \<Longrightarrow> a \<le> b \<Longrightarrow> age_sum w a \<le> age_sum w b"
  unfolding age_sum_def
  by (rule sum_mono2) (auto simp: age_bucket_def window_ok_def)

lemma age_sum_nonneg: "window_ok w \<Longrightarrow> 0 \<le> age_sum w a"
  using age_sum_mono [of w 0 a] by (simp add: age_sum_def)

definition advance1 :: "sliding_window \<Rightarrow> sliding_window" where
  "advance1 w = (let c = (current_bucket w + 1) mod kNumBuckets
                 in w\<lparr> current_bucket := c, buckets := (buckets w)[c := 0] \<rparr>)"

lemma advance_eq: "advance n w = (advance1 ^^ n) w"
  by (induction n arbitrary: w) (simp_all add: advance1_def funpow_swap1)

lemma advance1_ok: "window_ok w \<Longrightarrow> window_ok (advance1 w)"
  using set_update_subset_insert [of "buckets w" "(current_bucket w + 1) mod 10" 0]
  by (auto simp: window_ok_def advance1_def Let_def kNumBuckets_def)

lemma advance1_bucket:
  assumes "window_ok w"
  shows "age_bucket (advance1 w) 0 = 0" "j < 9 \<Longrightarrow> age_bucket (advance1 w) (Suc j) = age_bucket w j"
proof -
  have c: "current_bucket w < 10" and l: "length (buckets w) = 10"
    using assms by (simp_all add: window_ok_def)
  show "age_bucket (advance1 w) 0 = 0"
    using l by (simp add: age_bucket_def advance1_def Let_def kNumBuckets_def)
  assume j: "j < 9"
  let ?c = "(current_bucket w + 1) mod 10"
  have "(?c + 10 - Suc j) mod 10 = (current_bucket w + 10 - j) mod 10 \<and> (?c + 10 - Suc j) mod 10 \<noteq> ?c"
  proof (cases "current_bucket w = 9")
    case True
    with j show ?thesis by (auto simp: mod_if)
  next
    case False
    with c have "?c = current_bucket w + 1" by simp
    with False c j show ?thesis by (auto simp: mod_if)
  qed
  thus "age_bucket (advance1 w) (Suc j) = age_bucket w j"
    by (simp add: age_bucket_def advance1_def Let_def kNumBuckets_def nth_list_update_neq)
qed

lemma advance1_age_sum:
  assumes "window_ok w" "Suc a \<le> 10"
  shows "age_sum (advance1 w) (Suc a) = age_sum w a"
proof -
  have "age_sum (advance1 w) (Suc a) = (\<Sum>j<a. age_bucket (advance1 w) (Suc j))"
    using advance1_bucket(1) [OF assms(1)] by (simp add: age_sum_def sum.lessThan_Suc_shift del: sum.lessThan_Suc)
  also have "\<dots> = age_sum w a"
    unfolding age_sum_def using assms(2) by (intro sum.cong refl advance1_bucket(2) [OF assms(1)]) simp
  finally show ?thesis .
qed

lemma advance_age_sum:
  assumes "window_ok w" "a + n \<le> 10"
  shows "age_sum (advance n w) (a + n) = age_sum w a" "window_ok (advance n w)"
    "limit_per_10s (advance n w) = limit_per_10s w"
proof -
  have "age_sum ((advance1 ^^ n) w) (a + n) = age_sum w a \<and> window_ok ((advance1 ^^ n) w) \<and>
      limit_per_10s ((advance1 ^^ n) w) = limit_per_10s w"
    using assms(2)
  proof (induction n)
    case 0
    then show ?case using assms(1) by simp
  next
    case (Suc n)
    hence IH: "age_sum ((advance1 ^^ n) w) (a + n) = age_sum w a" "window_ok ((advance1 ^^ n) w)"
      "limit_per_10s ((advance1 ^^ n) w) = limit_per_10s w" by simp_all
    have "age_sum (advance1 ((advance1 ^^ n) w)) (Suc (a + n)) = age_sum w a"
      using advance1_age_sum [OF IH(2), of "a + n"] IH(1) Suc.prems by simp
    moreover have "limit_per_10s (advance1 ((advance1 ^^ n) w)) = limit_per_10s w"
      using IH(3) by (simp add: advance1_def Let_def)
    ultimately show ?case using advance1_ok [OF IH(2)] by simp
  qed
  thus "age_sum (advance n w) (a + n) = age_sum w a" "window_ok (advance n w)"
    "limit_per_10s (advance n w) = limit_per_10s w"
    by (simp_all add: advance_eq)
qed

lemma to_ms_div: "0 \<le> t \<Longrightarrow> to_ms t = t div 1000000"
  by (simp add: to_ms_def sdiv_nonneg)

lemma to_ms_mono: "0 \<le> s \<Longrightarrow> s \<le> t \<Longrightarrow> to_ms s \<le> to_ms t"
  by (simp add: to_ms_div zdiv_mono1)

lemma window_ok_zero: "window_ok (w\<lparr> buckets := replicate 10 0, current_bucket := 0, last_slide_ts := n \<rparr>)"
  by (simp add: window_ok_def)

lemma slide_limit [simp]: "limit_per_10s (slide w now) = limit_per_10s w"
proof -
  have "limit_per_10s (advance n w) = limit_per_10s w" for n
    by (induction n arbitrary: w) (simp_all add: Let_def)
  thus ?thesis by (simp add: slide_def Let_def)
qed

text \<open>The slide forgets a granted request only when it is more than nine seconds old.\<close>

lemma covers_shift:
  assumes w: "covers w h" "last_slide_ts w \<noteq> 0" and S: "S = to_ms (last_slide_ts w)"
    and k: "1000 * int k \<le> S' - S" and a: "a \<in> {1..10}"
  shows "granted_since (S' - 1000 * (int a - 1)) h \<le> (if k < a then age_sum w (a - k) else 0)"
proof (cases "k < a")
  case True
  have "granted_since (S' - 1000 * (int a - 1)) h \<le> granted_since (S - 1000 * (int (a - k) - 1)) h"
    using k True by (intro granted_since_mono) (simp add: of_nat_diff)
  also have "\<dots> \<le> age_sum w (a - k)"
  proof -
    have "\<forall>a \<in> {1..10}. granted_since (S - 1000 * (int a - 1)) h \<le> age_sum w a"
      using w by (simp add: covers_def S)
    moreover have "a - k \<in> {1..10}" using a True by auto
    ultimately show ?thesis by (rule bspec)
  qed
  finally show ?thesis using True by simp
next
  case False
  have "\<forall>t \<in> set h. t < S + 1000" using w S by (auto simp: covers_def)
  moreover have "S + 1000 \<le> S' - 1000 * (int a - 1)" using k False by simp
  ultimately have "granted_since (S' - 1000 * (int a - 1)) h = 0"
    by (intro granted_since_zero) force
  with False show ?thesis by simp
qed

lemma covers_slide:
  assumes w: "covers w h" and t: "0 < now" "0 \<le> last_slide_ts w" "last_slide_ts w \<le> now"
  shows "covers (slide w now) h \<and> last_slide_ts (slide w now) \<noteq> 0 \<and> 0 \<le> last_slide_ts (slide w now) \<and>
    last_slide_ts (slide w now) \<le> now \<and> to_ms now < to_ms (last_slide_ts (slide w now)) + 1000"
proof (cases "last_slide_ts w = 0")
  case True
  with w have h: "h = []" and "window_ok w" by (simp_all add: covers_def)
  with True t age_sum_nonneg show ?thesis
    by (auto simp: slide_def covers_def granted_since_def window_ok_def)
next
  case False
  let ?S = "to_ms (last_slide_ts w)" and ?S' = "to_ms now"
  let ?k = "(?S' - ?S) div 1000"
  have mono: "?S \<le> ?S'" using t by (intro to_ms_mono) auto
  hence k: "(?S' - ?S) sdiv kBucketMs = ?k" by (simp add: kBucketMs_def sdiv_nonneg)
  have kb: "1000 * ?k \<le> ?S' - ?S" "?S' - ?S < 1000 * ?k + 1000" by linarith+
  have upper: "\<forall>x \<in> set h. x < ?S' + 1000" using w False mono by (force simp: covers_def)
  have ok: "window_ok w" using w by (simp add: covers_def)
  consider "?k \<le> 0" | "0 < ?k" "?k \<ge> 10" | "0 < ?k" "?k < 10" by linarith
  thus ?thesis
  proof cases
    case 1
    hence "slide w now = w" using False k mono by (auto simp: slide_def Let_def)
    with 1 w False t kb show ?thesis by auto
  next
    case 2
    hence s: "slide w now = w\<lparr> buckets := replicate 10 0, current_bucket := 0, last_slide_ts := now \<rparr>"
      using False k kb by (auto simp: slide_def Let_def kNumBuckets_def)
    have "granted_since (?S' - 1000 * (int a - 1)) h \<le> 0" if "a \<in> {1..10}" for a
      using covers_shift [OF w False refl, of "nat ?k" ?S' a] that 2 kb(1) by (auto split: if_splits)
    moreover have "0 \<le> age_sum (slide w now) a" for a
      unfolding s by (intro age_sum_nonneg window_ok_zero)
    ultimately have "\<forall>a \<in> {1..10}. granted_since (?S' - 1000 * (int a - 1)) h \<le> age_sum (slide w now) a"
      by (meson order_trans)
    with s t upper window_ok_zero [where w = w and n = now] show ?thesis by (simp add: covers_def)
  next
    case 3
    let ?n = "nat ?k"
    have s: "slide w now = (advance ?n w)\<lparr> last_slide_ts := now \<rparr>"
      using 3 False k kb by (auto simp: slide_def Let_def kNumBuckets_def)
    have sum: "age_sum (slide w now) a = age_sum (advance ?n w) a" for a
      by (simp add: s age_sum_def age_bucket_def)
    have ok': "window_ok (slide w now)" using advance_age_sum(2) [OF ok, of 0 ?n] 3 by (simp add: s window_ok_def)
    have "granted_since (?S' - 1000 * (int a - 1)) h \<le> age_sum (slide w now) a" if a: "a \<in> {1..10}" for a
    proof -
      have "granted_since (?S' - 1000 * (int a - 1)) h \<le> (if ?n < a then age_sum w (a - ?n) else 0)"
        using covers_shift [OF w False refl, of ?n ?S' a] a 3 kb(1) by simp
      also have "\<dots> \<le> age_sum (slide w now) a"
        using advance_age_sum(1) [OF ok, of "a - ?n" ?n] a age_sum_nonneg [OF ok', of a] by (auto simp: sum)
      finally show ?thesis .
    qed
    with s t upper ok' show ?thesis by (simp add: covers_def)
  qed
qed

lemma age_sum_bump:
  assumes "window_ok w" "a \<in> {1..10}"
  defines "w' \<equiv> w\<lparr> buckets := (buckets w)[current_bucket w := buckets w ! current_bucket w + 1] \<rparr>"
  shows "age_sum w' a = age_sum w a + 1" "window_ok w'"
proof -
  have c: "current_bucket w < 10" and l: "length (buckets w) = 10"
    using assms by (simp_all add: window_ok_def)
  have j: "age_bucket w' j = age_bucket w j" if "0 < j" "j < 10" for j
  proof -
    have "(current_bucket w + 10 - j) mod 10 \<noteq> current_bucket w" using that c by (auto simp: mod_if)
    thus ?thesis by (simp add: age_bucket_def w'_def)
  qed
  have "age_bucket w' 0 = age_bucket w 0 + 1" using c l by (simp add: age_bucket_def w'_def)
  moreover obtain a' where a': "a = Suc a'" "a' < 10" using assms(2) by (cases a) auto
  moreover have "(\<Sum>j<a'. age_bucket w' (Suc j)) = (\<Sum>j<a'. age_bucket w (Suc j))"
    using a' j by (intro sum.cong) auto
  ultimately show "age_sum w' a = age_sum w a + 1"
    by (simp add: age_sum_def sum.lessThan_Suc_shift del: sum.lessThan_Suc)
  show "window_ok w'"
    using assms(1) c l set_update_subset_insert [of "buckets w" "current_bucket w"]
    by (force simp: window_ok_def w'_def)
qed

text \<open>What a window promises for a request time that is not before its last slide.\<close>

lemma try_consume_covers:
  assumes w: "covers w h" and t: "0 < now" "0 \<le> last_slide_ts w" "last_slide_ts w \<le> now"
    and r: "try_consume w now = (w', granted)"
  shows "covers w' h \<and> 0 \<le> last_slide_ts w' \<and> last_slide_ts w' \<le> now \<and> limit_per_10s w' = limit_per_10s w \<and>
    (granted \<longrightarrow> covers w' (to_ms now # h) \<and>
       granted_since (to_ms now - 9000) (to_ms now # h) \<le> limit_per_10s w)"
proof -
  let ?s = "slide w now"
  let ?S = "to_ms (last_slide_ts ?s)"
  note sl = covers_slide [OF w t]
  hence ok: "window_ok ?s" by (simp add: covers_def)
  have le: "?S \<le> to_ms now" using sl by (intro to_ms_mono) auto
  show ?thesis
  proof (cases "window_total ?s \<ge> limit_per_10s ?s")
    case True
    with r sl show ?thesis by (auto simp: try_consume_def Let_def)
  next
    case False
    let ?w = "?s\<lparr> buckets := (buckets ?s)[current_bucket ?s := buckets ?s ! current_bucket ?s + 1] \<rparr>"
    have w': "w' = ?w" "granted" using r False by (auto simp: try_consume_def Let_def)
    have inv: "\<forall>a \<in> {1..10}. granted_since (?S - 1000 * (int a - 1)) h \<le> age_sum ?s a"
      "\<forall>x \<in> set h. x < ?S + 1000"
      using sl by (auto simp: covers_def)
    have bump: "age_sum ?w a = age_sum ?s a + 1" if "a \<in> {1..10}" for a
      using age_sum_bump(1) [OF ok that] .
    have okw: "window_ok ?w" using age_sum_bump(2) [OF ok, of 1] by simp
    have c2: "granted_since (?S - 1000 * (int a - 1)) (to_ms now # h) \<le> age_sum ?w a" if "a \<in> {1..10}" for a
      using granted_since_Cons [of "?S - 1000 * (int a - 1)" "to_ms now" h] bspec [OF inv(1) that] bump [OF that]
      by linarith
    have c1: "granted_since (?S - 1000 * (int a - 1)) h \<le> age_sum ?w a" if "a \<in> {1..10}" for a
      using bspec [OF inv(1) that] bump [OF that] by linarith
    have "granted_since (to_ms now - 9000) (to_ms now # h) \<le> granted_since (?S - 1000 * (int 10 - 1)) (to_ms now # h)"
      using le by (intro granted_since_mono) simp
    also have "\<dots> \<le> age_sum ?s 10 + 1" using c2 [of 10] bump [of 10] by simp
    also have "\<dots> \<le> limit_per_10s w" using False age_sum_total [OF ok] by simp
    finally have "granted_since (to_ms now - 9000) (to_ms now # h) \<le> limit_per_10s w" .
    moreover have "covers ?w h" "covers ?w (to_ms now # h)"
      using c1 c2 inv(2) okw sl by (auto simp: covers_def)
    ultimately show ?thesis using w' sl by simp
  qed
qed

lemma covers_new [simp]: "covers (new_window n) []"
  by (simp add: covers_def new_window_def window_ok_def kNumBuckets_def)

subsection \<open>The contract of a request window\<close>

text \<open>\<open>within_limit n h\<close>: for every granted request of the history (newest first), at most \<open>n\<close>
  requests were granted in the nine seconds up to it.\<close>

fun within_limit :: "int \<Rightarrow> int list \<Rightarrow> bool" where
  "within_limit n [] = True"
| "within_limit n (t # h) = (granted_since (t - 9000) (t # h) \<le> n \<and> within_limit n h)"

locale request_window =
  fixes cov :: "'w \<Rightarrow> int list \<Rightarrow> bool"
    and start :: "'w \<Rightarrow> timestamp"
    and limit :: "'w \<Rightarrow> int"
    and consume :: "'w \<Rightarrow> timestamp \<Rightarrow> 'w \<times> bool"
  assumes consume_law: "cov w h \<Longrightarrow> 0 < now \<Longrightarrow> 0 \<le> start w \<Longrightarrow> start w \<le> now \<Longrightarrow>
    consume w now = (w', granted) \<Longrightarrow>
    cov w' h \<and> 0 \<le> start w' \<and> start w' \<le> now \<and> limit w' = limit w \<and>
    (granted \<longrightarrow> cov w' (to_ms now # h) \<and> granted_since (to_ms now - 9000) (to_ms now # h) \<le> limit w)"
begin

definition good :: "'w \<Rightarrow> int list \<Rightarrow> timestamp \<Rightarrow> int \<Rightarrow> bool" where
  "good w h t n \<longleftrightarrow> cov w h \<and> 0 \<le> start w \<and> start w \<le> t \<and> limit w = n \<and> within_limit n h"

lemma good_later: "good w h t n \<Longrightarrow> t \<le> t' \<Longrightarrow> good w h t' n"
  by (simp add: good_def)

lemma good_consume:
  assumes "good w h t n" "0 < now" "t \<le> now" "consume w now = (w', granted)"
  shows "good w' h now n" "granted \<Longrightarrow> good w' (to_ms now # h) now n"
  using assms consume_law [of w h now w' granted] by (auto simp: good_def)

end

interpretation sw: request_window covers last_slide_ts limit_per_10s try_consume
  by unfold_locales (rule try_consume_covers)

subsection \<open>Runs of the limiter\<close>

datatype rl_event = Acquire exec_intent_type timestamp | Respond int timestamp int | Rtt int | ResetBackoff

type_synonym grants = "(exec_intent_type \<times> int) list"

fun rl_step :: "rl_event \<Rightarrow> rate_limiter \<times> grants \<Rightarrow> rate_limiter \<times> grants" where
  "rl_step (Acquire ty now) (l, G) =
     (let (l', granted) = try_acquire l ty now in (l', if granted then (ty, to_ms now) # G else G))"
| "rl_step (Respond http_status now draw) (l, G) = (record_response l http_status now draw, G)"
| "rl_step (Rtt rtt) (l, G) = (record_rtt l rtt, G)"
| "rl_step ResetBackoff (l, G) = (reset_backoff l, G)"

fun acquire_times :: "rl_event list \<Rightarrow> timestamp list" where
  "acquire_times [] = []"
| "acquire_times (Acquire ty now # evs) = now # acquire_times evs"
| "acquire_times (ev # evs) = acquire_times evs"

definition class_grants :: "window_class \<Rightarrow> grants \<Rightarrow> int list" where
  "class_grants c G = map snd (filter (\<lambda>g. window_for (fst g) = c) G)"

fun class_limit :: "window_class \<Rightarrow> rate_limit_config \<Rightarrow> int" where
  "class_limit OrderWindow cfg = order_tokens_per_10s cfg"
| "class_limit CancelWindow cfg = cancel_tokens_per_10s cfg"
| "class_limit HeartbeatWindow cfg = heartbeat_tokens_per_10s cfg"

definition rl_inv :: "rate_limit_config \<Rightarrow> rate_limiter \<Rightarrow> grants \<Rightarrow> timestamp \<Rightarrow> bool" where
  "rl_inv cfg l G t \<longleftrightarrow>
     sw.good (global_window l) (map snd G) t (global_tokens_per_10s cfg) \<and>
     (\<forall>c. sw.good (get_window c l) (class_grants c G) t (class_limit c cfg))"

lemma get_set_window [simp]:
  "get_window c (set_window c' w l) = (if c = c' then w else get_window c l)"
  "global_window (set_window c' w l) = global_window l"
  "exchange_unavailable (set_window c' w l) = exchange_unavailable l"
  by (cases c; cases c'; simp)+

lemma class_grants_Cons:
  "class_grants c ((ty, t) # G) = (if window_for ty = c then t # class_grants c G else class_grants c G)"
  by (simp add: class_grants_def)

lemma get_window_global [simp]: "get_window c (l\<lparr> global_window := w \<rparr>) = get_window c l"
  by (cases c) simp_all

lemma get_window_throttled [simp]:
  "get_window c (l\<lparr> throttled_count := n \<rparr>) = get_window c l"
  by (cases c) simp_all

lemma throttle_eq: "throttle l = (l\<lparr> throttled_count := throttled_count l + 1 \<rparr>, False)"
  by (simp add: throttle_def)

definition blocked :: "rate_limiter \<Rightarrow> exec_intent_type \<Rightarrow> timestamp \<Rightarrow> bool" where
  "blocked l ty now \<longleftrightarrow> now < backoff_until l \<or>
     (exchange_unavailable l \<and> ty \<noteq> CANCEL_ORDER \<and> ty \<noteq> CANCEL_ALL \<and> ty \<noteq> HEARTBEAT)"

lemma try_acquire_outcomes:
  assumes "try_consume (global_window l) now = (gw, g_ok)" "c = window_for ty"
    "try_consume (get_window c l) now = (tw, t_ok)"
  shows "try_acquire l ty now =
    (if blocked l ty now then throttle l
     else if \<not> g_ok then throttle (l\<lparr> global_window := gw \<rparr>)
     else if \<not> t_ok then throttle (set_window c tw (l\<lparr> global_window := gw \<rparr>))
     else (set_window c tw (l\<lparr> global_window := gw \<rparr>), True))"
  using assms by (auto simp: try_acquire_def blocked_def Let_def simp del: set_window.simps)

lemma rl_inv_acquire:
  assumes inv: "rl_inv cfg l G t" and now: "0 < now" "t \<le> now"
    and st: "rl_step (Acquire ty now) (l, G) = (l', G')"
  shows "rl_inv cfg l' G' now"
proof -
  have base: "sw.good (global_window l) (map snd G) now (global_tokens_per_10s cfg)"
    "\<And>c. sw.good (get_window c l) (class_grants c G) now (class_limit c cfg)"
    using inv now(2) unfolding rl_inv_def by (blast intro: sw.good_later)+
  obtain gw g_ok where g: "try_consume (global_window l) now = (gw, g_ok)" by force
  obtain c where c: "c = window_for ty" by blast
  obtain tw t_ok where t: "try_consume (get_window c l) now = (tw, t_ok)" by force
  note gc = sw.good_consume [OF base(1) now(1) order_refl g]
  note tc = sw.good_consume [OF base(2) now(1) order_refl t]
  show ?thesis
    using st base gc tc
    by (auto simp: rl_inv_def try_acquire_outcomes [OF g c t] throttle_eq class_grants_Cons c [symmetric]
        simp del: set_window.simps split: if_splits)
qed

lemma windows_kept:
  "global_window (record_response l st now d) = global_window l"
  "get_window c (record_response l st now d) = get_window c l"
  "global_window (record_rtt l r) = global_window l" "get_window c (record_rtt l r) = get_window c l"
  "global_window (reset_backoff l) = global_window l" "get_window c (reset_backoff l) = get_window c l"
  by (cases c; simp add: record_response_def record_rtt_def reset_backoff_def Let_def)+

lemma rl_inv_run:
  "rl_inv cfg l G t \<Longrightarrow> sorted (t # acquire_times evs) \<Longrightarrow> (\<forall>x \<in> set (acquire_times evs). 0 < x) \<Longrightarrow>
   fold rl_step evs (l, G) = (l', G') \<Longrightarrow> \<exists>t'. rl_inv cfg l' G' t'"
proof (induction evs arbitrary: l G t)
  case Nil
  then show ?case by auto
next
  case (Cons ev evs)
  obtain l1 G1 where st: "rl_step ev (l, G) = (l1, G1)" by force
  show ?case
  proof (cases ev)
    case (Acquire ty now)
    hence "rl_inv cfg l1 G1 now" using Cons.prems st by (intro rl_inv_acquire [OF Cons.prems(1)]) auto
    with Cons Acquire st show ?thesis by (intro Cons.IH [of l1 G1 now]) auto
  next
    case (Respond x y z)
    with Cons st show ?thesis by (intro Cons.IH [of l1 G1 t]) (auto simp: rl_inv_def windows_kept)
  next
    case (Rtt x)
    with Cons st show ?thesis by (intro Cons.IH [of l1 G1 t]) (auto simp: rl_inv_def windows_kept)
  next
    case ResetBackoff
    with Cons st show ?thesis by (intro Cons.IH [of l1 G1 t]) (auto simp: rl_inv_def windows_kept)
  qed
qed

lemma rl_inv_new: "rl_inv cfg (new_rate_limiter cfg) [] 0"
proof -
  have "sw.good (new_window n) [] 0 n" for n
    by (simp add: sw.good_def) (simp add: new_window_def)
  thus ?thesis
    by (auto simp: rl_inv_def new_rate_limiter_def class_grants_def) (metis (full_types) class_limit.simps
        get_window.simps rate_limiter.select_convs(3-5) window_class.exhaust)
qed

subsection \<open>Exchange unavailable\<close>

fun no_recovery :: "rl_event \<Rightarrow> bool" where
  "no_recovery (Respond http_status now draw) = (\<not> (200 \<le> http_status \<and> http_status < 300))"
| "no_recovery ResetBackoff = False"
| "no_recovery _ = True"

lemma try_acquire_unavailable:
  assumes "exchange_unavailable l"
  shows "exchange_unavailable (fst (try_acquire l ty now))"
    "window_for ty = OrderWindow \<Longrightarrow> \<not> snd (try_acquire l ty now)"
  using assms
  by (cases ty; simp add: try_acquire_def throttle_eq Let_def split_def)+

lemma unavailable_step:
  assumes "no_recovery ev" "exchange_unavailable l" "rl_step ev (l, G) = (l', G')"
  shows "exchange_unavailable l' \<and> class_grants OrderWindow G' = class_grants OrderWindow G"
proof (cases ev)
  case (Acquire ty now)
  with assms try_acquire_unavailable [OF assms(2), of ty now] show ?thesis
    by (auto simp: Let_def split_def class_grants_Cons split: if_splits)
qed (use assms in \<open>auto simp: record_response_def record_rtt_def Let_def\<close>)

lemma unavailable_run:
  "list_all no_recovery evs \<Longrightarrow> exchange_unavailable l \<Longrightarrow> fold rl_step evs (l, G) = (l', G') \<Longrightarrow>
   class_grants OrderWindow G' = class_grants OrderWindow G"
proof (induction evs arbitrary: l G)
  case Nil
  then show ?case by simp
next
  case (Cons ev evs)
  obtain l1 G1 where st: "rl_step ev (l, G) = (l1, G1)" by force
  from Cons.prems unavailable_step [OF _ _ st]
  have "exchange_unavailable l1" "class_grants OrderWindow G1 = class_grants OrderWindow G" by simp_all
  with Cons st show ?case by simp
qed

subsection \<open>Properties\<close>

text \<open>C11: Whatever mixture of requests, responses and resets arrives, with request times that do not
  go backwards, at every granted request the number of requests granted in the nine seconds up to it
  is within the limit of its class, and the number over all classes within the global limit.\<close>

theorem limiter_nine_second_limit:
  assumes "sorted (acquire_times evs)" and "\<forall>x \<in> set (acquire_times evs). 0 < x"
    and "fold rl_step evs (new_rate_limiter cfg, []) = (l, G)"
  shows "within_limit (global_tokens_per_10s cfg) (map snd G) \<and>
    within_limit (class_limit c cfg) (class_grants c G)"
proof -
  have "sorted (0 # acquire_times evs)" using assms(1,2) by auto
  then obtain t where "rl_inv cfg l G t" using rl_inv_run [OF rl_inv_new _ assms(2,3)] by blast
  thus ?thesis by (auto simp: rl_inv_def sw.good_def)
qed

definition sample_limits :: rate_limit_config where
  "sample_limits = default_rate_limit_config\<lparr> order_tokens_per_10s := 2 \<rparr>"

theorem limiter_nine_second_limit_witness:
  "within_limit 2 (class_grants OrderWindow (snd (fold rl_step
     [Acquire PLACE_ORDER 1000000, Acquire PLACE_ORDER 2000000, Acquire PLACE_ORDER 3000000]
     (new_rate_limiter sample_limits, []))))"
proof -
  obtain l G where r: "fold rl_step
     [Acquire PLACE_ORDER 1000000, Acquire PLACE_ORDER 2000000, Acquire PLACE_ORDER 3000000]
     (new_rate_limiter sample_limits, []) = (l, G)" by force
  from limiter_nine_second_limit [OF _ _ r, of OrderWindow] r show ?thesis
    by (simp add: sample_limits_def)
qed

text \<open>The ten-second limit that the window is named after does not hold: with an order limit of 2,
  requests at 1.000 s and 1.999 s are followed by two more at 11.000 s, three orders within 9.001 s.\<close>

theorem ten_second_window_exceeded:
  "map snd (snd (fold rl_step
     [Acquire PLACE_ORDER 1000000000, Acquire PLACE_ORDER 1999000000,
      Acquire PLACE_ORDER 11000000000, Acquire PLACE_ORDER 11000000000]
     (new_rate_limiter sample_limits, []))) = [11000, 11000, 1999, 1000]"
  by code_simp

text \<open>After a 503 response, as long as no successful response and no reset arrives, no order
  placement is granted, whatever else happens.\<close>

theorem no_orders_while_unavailable:
  assumes "list_all no_recovery evs"
    and "fold rl_step evs (record_response l0 503 now draw, G) = (l, G')"
  shows "class_grants OrderWindow G' = class_grants OrderWindow G"
  using unavailable_run [OF assms(1) _ assms(2)] by (simp add: record_response_def)

theorem no_orders_while_unavailable_witness:
  "class_grants OrderWindow (snd (fold rl_step [Rtt 5, Acquire PLACE_ORDER 9000000000, Respond 429 5 0]
     (record_response (new_rate_limiter sample_limits) 503 1 0, []))) = []"
proof -
  obtain l G where r: "fold rl_step [Rtt 5, Acquire PLACE_ORDER 9000000000, Respond 429 5 0]
     (record_response (new_rate_limiter sample_limits) 503 1 0, []) = (l, G)" by force
  from no_orders_while_unavailable [OF _ r] r show ?thesis by (simp add: class_grants_def)
qed

end
