(* ===== verification/Book_Feed.thy ===== *)
theory Book_Feed
  imports Sched_Events "HOL-Library.AList"
begin

section \<open>Market state and the shadow books of the strategy thread\<close>

text \<open>
  src/src/state/market_state_store.cpp (the websocket thread), src/src/events/book_delta.h and
  src/src/scheduler/strategy_book_store.cpp (the strategy thread).  The first keeps the order books
  and sends every accepted change as a sequence of deltas of at most 64 changes; the second applies
  the deltas to its own copies.  \<open>ms_apply\<close> returns the new state, the notifications and the deltas
  in the order in which they are pushed; whether a bounded queue takes them does not change the
  state of the store.  The main lemma is a simulation: with every delta delivered, the shadow books
  have the levels, best prices and tick size of the originals.  A snapshot that the original rejects
  clears it but sends nothing, and the simulation stops there.
\<close>

datatype book_delta_kind = INCREMENTAL | SNAPSHOT_BEGIN | SNAPSHOT_CHUNK | SNAPSHOT_END

definition kMaxDeltaChanges :: nat where "kMaxDeltaChanges = 64"

record book_delta =
  bd_asset_id :: asset_id
  bd_kind :: book_delta_kind
  bd_changes :: "price_change list"
  bd_tick_size :: int

definition new_delta :: "asset_id \<Rightarrow> book_delta_kind \<Rightarrow> book_delta" where
  "new_delta a k = \<lparr> bd_asset_id = a, bd_kind = k, bd_changes = [], bd_tick_size = 0 \<rparr>"

datatype market_event_payload =
    EvSnapshot book_snapshot
  | EvPriceChange "asset_price_change list" timestamp
  | EvBestBidAsk asset_id price price
  | EvTickSize asset_id int
  | EvLastTrade asset_id price qty
  | EvNewMarket
  | EvResolved asset_id asset_id "asset_id list"

record market_event =
  me_payload :: market_event_payload
  me_recv_ts :: timestamp
  me_seq :: nat

record asset_state =
  as_book :: order_book
  as_tick_size :: int
  as_cached_bbo :: bbo
  as_last_trade_price :: price
  as_last_trade_size :: qty
  as_snapshot_count :: int
  as_update_count :: int

definition new_asset_state :: asset_state where
  "new_asset_state =
     \<lparr> as_book = new_order_book, as_tick_size = 100, as_cached_bbo = empty_bbo,
       as_last_trade_price = kInvalidPrice, as_last_trade_size = 0, as_snapshot_count = 0,
       as_update_count = 0 \<rparr>"

record ui_book_update =
  ub_asset_id :: asset_id
  ub_bbo :: bbo
  ub_bids :: "(price \<times> qty) list"
  ub_asks :: "(price \<times> qty) list"
  ub_timestamp :: timestamp

record market_store =
  ms_states :: "(asset_id \<times> asset_state) list"
  ms_down_tokens :: "asset_id set"
  ms_strict_assets :: bool
  ms_delta_queue :: bool
  ms_ui_queue :: bool
  ms_last_ui_push_ts :: timestamp
  ms_ui_push_interval_ns :: int

definition new_market_store :: market_store where
  "new_market_store =
     \<lparr> ms_states = [], ms_down_tokens = {}, ms_strict_assets = False, ms_delta_queue = False,
       ms_ui_queue = False, ms_last_ui_push_ts = 0, ms_ui_push_interval_ns = 50000000 \<rparr>"

type_synonym feed_out = "market_notification list \<times> book_delta list"

subsection \<open>The store of the websocket thread\<close>

definition seed_asset :: "market_store \<Rightarrow> asset_id \<Rightarrow> market_store" where
  "seed_asset s a = (case map_of (ms_states s) a of
     Some _ \<Rightarrow> s | None \<Rightarrow> s\<lparr> ms_states := AList.update a new_asset_state (ms_states s) \<rparr>)"

definition set_strict_assets :: "market_store \<Rightarrow> bool \<Rightarrow> market_store" where
  "set_strict_assets s b = s\<lparr> ms_strict_assets := b \<rparr>"

definition register_down_token :: "market_store \<Rightarrow> asset_id \<Rightarrow> market_store" where
  "register_down_token s a = s\<lparr> ms_down_tokens := insert a (ms_down_tokens s) \<rparr>"

definition is_down_token :: "market_store \<Rightarrow> asset_id \<Rightarrow> bool" where
  "is_down_token s a \<longleftrightarrow> a \<in> ms_down_tokens s"

definition set_ui_book_queue :: "market_store \<Rightarrow> bool \<Rightarrow> int \<Rightarrow> market_store" where
  "set_ui_book_queue s q rate_hz =
     (let s1 = s\<lparr> ms_ui_queue := q \<rparr>
      in if rate_hz > 0 then s1\<lparr> ms_ui_push_interval_ns := 1000000000 sdiv rate_hz \<rparr> else s1)"

definition set_book_delta_queue :: "market_store \<Rightarrow> bool \<Rightarrow> market_store" where
  "set_book_delta_queue s q = s\<lparr> ms_delta_queue := q \<rparr>"

text \<open>\<open>get_state_mut\<close>: the state of the asset, created unless the store is strict.\<close>

definition get_state_mut :: "market_store \<Rightarrow> asset_id \<Rightarrow> asset_state option" where
  "get_state_mut s a =
     (case map_of (ms_states s) a of
        Some st \<Rightarrow> Some st
      | None \<Rightarrow> if ms_strict_assets s then None else Some new_asset_state)"

definition put_state :: "market_store \<Rightarrow> asset_id \<Rightarrow> asset_state \<Rightarrow> market_store" where
  "put_state s a st = s\<lparr> ms_states := AList.update a st (ms_states s) \<rparr>"

definition emit_notification ::
  "notification_kind \<Rightarrow> asset_id \<Rightarrow> market_event \<Rightarrow> bbo \<Rightarrow> int \<Rightarrow> timestamp \<Rightarrow> market_notification" where
  "emit_notification k a ev q tick ets =
     \<lparr> mn_kind = k, mn_asset_id = a, mn_recv_ts = me_recv_ts ev, mn_seq = me_seq ev, mn_bbo = q,
       mn_exchange_ts = ets, mn_tick_size = tick, mn_resolved_winning_asset_id = [] \<rparr>"

definition level_change :: "side \<Rightarrow> price_level \<Rightarrow> price_change" where
  "level_change sd l = \<lparr> pc_price = lvl_price l, pc_side = sd, pc_size = lvl_size l \<rparr>"

text \<open>\<open>pack_levels\<close>: append levels to the current delta, flushing it when it is full.\<close>

fun pack_changes :: "price_change list \<Rightarrow> book_delta \<Rightarrow> book_delta list \<Rightarrow> book_delta \<times> book_delta list" where
  "pack_changes [] d out = (d, out)"
| "pack_changes (ch # chs) d out =
     (if length (bd_changes d) \<ge> kMaxDeltaChanges
      then pack_changes chs ((new_delta (bd_asset_id d) SNAPSHOT_CHUNK)\<lparr> bd_changes := [ch] \<rparr>) (out @ [d])
      else pack_changes chs (d\<lparr> bd_changes := bd_changes d @ [ch] \<rparr>) out)"

definition snapshot_deltas :: "book_snapshot \<Rightarrow> book_delta list" where
  "snapshot_deltas snap =
     (let (d1, out1) = pack_changes (map (level_change BID) (snap_bids snap))
                         (new_delta (snap_asset_id snap) SNAPSHOT_BEGIN) [];
          (d, out) = pack_changes (map (level_change ASK) (snap_asks snap)) d1 out1
      in if bd_kind d = SNAPSHOT_BEGIN then out @ [d, new_delta (snap_asset_id snap) SNAPSHOT_END]
         else out @ [d\<lparr> bd_kind := SNAPSHOT_END \<rparr>])"

fun incremental_deltas :: "price_change list \<Rightarrow> book_delta \<Rightarrow> book_delta list" where
  "incremental_deltas [] d = (if length (bd_changes d) > 0 then [d] else [])"
| "incremental_deltas (ch # chs) d =
     (if length (bd_changes d) \<ge> kMaxDeltaChanges
      then d # incremental_deltas chs (d\<lparr> bd_changes := [ch] \<rparr>)
      else incremental_deltas chs (d\<lparr> bd_changes := bd_changes d @ [ch] \<rparr>))"

definition apply_snapshot_event ::
  "market_store \<Rightarrow> market_event \<Rightarrow> book_snapshot \<Rightarrow> market_store \<times> feed_out" where
  "apply_snapshot_event s ev snap =
     (let a = snap_asset_id snap
      in if is_down_token s a then (s, [], [])
         else
           (case get_state_mut s a of
              None \<Rightarrow> (s, [], [])
            | Some st \<Rightarrow>
                let (b, err) = apply_snapshot (as_book st) snap
                in if err = OK then
                     (put_state s a (st\<lparr> as_book := b, as_cached_bbo := book_bbo b,
                                        as_snapshot_count := as_snapshot_count st + 1 \<rparr>),
                      [emit_notification N_BOOK_SNAPSHOT a ev (book_bbo b) 0 (snap_exchange_ts snap)],
                      if ms_delta_queue s then snapshot_deltas snap else [])
                   else (put_state s a (st\<lparr> as_book := b \<rparr>), [], [])))"

definition apply_asset_change ::
  "market_event \<Rightarrow> timestamp \<Rightarrow> asset_price_change \<Rightarrow> market_store \<Rightarrow> market_store \<times> feed_out" where
  "apply_asset_change ev ets ac s =
     (let a = apc_asset_id ac
      in if is_down_token s a then (s, [], [])
         else
           (case get_state_mut s a of
              None \<Rightarrow> (s, [], [])
            | Some st \<Rightarrow>
                let (b, err) = apply_price_change (as_book st) ac
                in if err = OK then
                     (put_state s a (st\<lparr> as_book := b, as_cached_bbo := book_bbo b,
                                        as_update_count := as_update_count st + 1 \<rparr>),
                      [emit_notification N_PRICE_CHANGE a ev (book_bbo b) 0 ets],
                      if ms_delta_queue s
                      then incremental_deltas (apc_changes ac) (new_delta a INCREMENTAL) else [])
                   else (put_state s a (st\<lparr> as_book := b \<rparr>), [], [])))"

fun apply_asset_changes ::
  "market_event \<Rightarrow> timestamp \<Rightarrow> asset_price_change list \<Rightarrow> market_store \<Rightarrow> market_store \<times> feed_out" where
  "apply_asset_changes ev ets [] s = (s, [], [])"
| "apply_asset_changes ev ets (ac # acs) s =
     (let (s1, n1, d1) = apply_asset_change ev ets ac s;
          (s2, n2, d2) = apply_asset_changes ev ets acs s1
      in (s2, n1 @ n2, d1 @ d2))"

definition apply_tick_size ::
  "market_store \<Rightarrow> market_event \<Rightarrow> asset_id \<Rightarrow> int \<Rightarrow> market_store \<times> feed_out" where
  "apply_tick_size s ev a new_tick_size =
     (if is_down_token s a then (s, [], [])
      else if new_tick_size \<le> 0 then (s, [], [])
      else
        (case get_state_mut s a of
           None \<Rightarrow> (s, [], [])
         | Some st \<Rightarrow>
             let st' = st\<lparr> as_tick_size := new_tick_size, as_book := set_tick_size (as_book st) new_tick_size \<rparr>
             in (put_state s a st',
                 [emit_notification N_TICK_SIZE_CHANGE a ev (book_bbo (as_book st')) new_tick_size 0],
                 if ms_delta_queue s then [(new_delta a INCREMENTAL)\<lparr> bd_tick_size := new_tick_size \<rparr>] else [])))"

definition apply_last_trade ::
  "market_store \<Rightarrow> market_event \<Rightarrow> asset_id \<Rightarrow> price \<Rightarrow> qty \<Rightarrow> market_store \<times> feed_out" where
  "apply_last_trade s ev a p sz =
     (case get_state_mut s a of
        None \<Rightarrow> (s, [], [])
      | Some st \<Rightarrow>
          let st' = st\<lparr> as_last_trade_price := p, as_last_trade_size := sz \<rparr>
          in (put_state s a st', [emit_notification N_LAST_TRADE a ev (book_bbo (as_book st')) 0 0], []))"

definition mark_stale :: "asset_id \<Rightarrow> market_store \<Rightarrow> market_store" where
  "mark_stale a s =
     (case get_state_mut s a of
        None \<Rightarrow> s
      | Some st \<Rightarrow> put_state s a (st\<lparr> as_book := set_status (as_book st) STALE \<rparr>))"

definition touch_state :: "asset_id \<Rightarrow> market_store \<Rightarrow> market_store" where
  "touch_state a s = (case get_state_mut s a of None \<Rightarrow> s | Some st \<Rightarrow> put_state s a st)"

definition visit_payload :: "market_store \<Rightarrow> market_event \<Rightarrow> market_store \<times> feed_out" where
  "visit_payload s ev =
     (case me_payload ev of
        EvSnapshot snap \<Rightarrow> apply_snapshot_event s ev snap
      | EvPriceChange acs ets \<Rightarrow> apply_asset_changes ev ets acs s
      | EvBestBidAsk a bb ba \<Rightarrow> (if is_down_token s a then s else touch_state a s, [], [])
      | EvTickSize a t \<Rightarrow> apply_tick_size s ev a t
      | EvLastTrade a p sz \<Rightarrow> apply_last_trade s ev a p sz
      | EvNewMarket \<Rightarrow> (s, [], [])
      | EvResolved m win assets \<Rightarrow>
          (fold mark_stale assets s,
           [(emit_notification N_MARKET_RESOLVED m ev empty_bbo 0 0)\<lparr> mn_resolved_winning_asset_id := win \<rparr>], []))"

definition kMaxUiBookDepth :: int where "kMaxUiBookDepth = 10"

definition ui_update_of :: "timestamp \<Rightarrow> asset_id \<times> asset_state \<Rightarrow> ui_book_update" where
  "ui_update_of now e =
     (case e of (a, st) \<Rightarrow>
        \<lparr> ub_asset_id = a, ub_bbo = book_bbo (as_book st),
          ub_bids = for_each_bid_n (as_book st) kMaxUiBookDepth,
          ub_asks = for_each_ask_n (as_book st) kMaxUiBookDepth, ub_timestamp = now \<rparr>)"

definition maybe_push_ui_books :: "market_store \<Rightarrow> timestamp \<Rightarrow> market_store \<times> ui_book_update list" where
  "maybe_push_ui_books s now =
     (if \<not> ms_ui_queue s then (s, [])
      else if now - ms_last_ui_push_ts s < ms_ui_push_interval_ns s then (s, [])
      else (s\<lparr> ms_last_ui_push_ts := now \<rparr>,
            map (ui_update_of now) (filter (\<lambda>e. \<not> is_down_token s (fst e)) (ms_states s))))"

definition ms_apply ::
  "market_store \<Rightarrow> market_event \<Rightarrow> timestamp \<Rightarrow> market_store \<times> feed_out \<times> ui_book_update list" where
  "ms_apply s ev now =
     (let (s1, out) = visit_payload s ev; (s2, ui) = maybe_push_ui_books s1 now in (s2, out, ui))"

subsection \<open>The shadow books of the strategy thread\<close>

record book_store =
  bs_books :: "asset_id \<rightharpoonup> order_book"
  bs_pending_snapshots :: "asset_id set"

definition new_book_store :: book_store where
  "new_book_store = \<lparr> bs_books = Map.empty, bs_pending_snapshots = {} \<rparr>"

definition bs_seed :: "book_store \<Rightarrow> asset_id \<Rightarrow> book_store" where
  "bs_seed t a = (if bs_books t a = None then t\<lparr> bs_books := (bs_books t)(a \<mapsto> new_order_book) \<rparr> else t)"

definition single_change :: "asset_id \<Rightarrow> price_change \<Rightarrow> asset_price_change" where
  "single_change a ch =
     \<lparr> apc_asset_id = a, apc_best_bid = kInvalidPrice, apc_best_ask = kInvalidPrice, apc_changes = [ch] \<rparr>"

definition apply_single :: "asset_id \<Rightarrow> price_change \<Rightarrow> order_book \<Rightarrow> order_book" where
  "apply_single a ch b = fst (apply_price_change b (single_change a ch))"

definition apply_delta :: "book_store \<Rightarrow> book_delta \<Rightarrow> book_store" where
  "apply_delta t d =
     (let a = bd_asset_id d
      in case bs_books t a of
           None \<Rightarrow> t
         | Some b \<Rightarrow>
             (case bd_kind d of
                SNAPSHOT_BEGIN \<Rightarrow>
                  t\<lparr> bs_books := (bs_books t)(a \<mapsto> fold (apply_single a) (bd_changes d) (clear b)),
                     bs_pending_snapshots := insert a (bs_pending_snapshots t) \<rparr>
              | SNAPSHOT_CHUNK \<Rightarrow>
                  t\<lparr> bs_books := (bs_books t)(a \<mapsto> fold (apply_single a) (bd_changes d) b) \<rparr>
              | SNAPSHOT_END \<Rightarrow>
                  t\<lparr> bs_books := (bs_books t)(a \<mapsto> fold (apply_single a) (bd_changes d) b),
                     bs_pending_snapshots := bs_pending_snapshots t - {a} \<rparr>
              | INCREMENTAL \<Rightarrow>
                  let b1 = (if bd_tick_size d > 0 then set_tick_size b (bd_tick_size d) else b)
                  in t\<lparr> bs_books := (bs_books t)(a \<mapsto> fold (apply_single a) (bd_changes d) b1) \<rparr>))"

definition bs_book :: "book_store \<Rightarrow> asset_id \<Rightarrow> order_book option" where
  "bs_book t a = bs_books t a"

definition bs_bbo :: "book_store \<Rightarrow> asset_id \<Rightarrow> bbo option" where
  "bs_bbo t a = map_option book_bbo (bs_books t a)"

definition is_book_valid :: "book_store \<Rightarrow> asset_id \<Rightarrow> bool" where
  "is_book_valid t a \<longleftrightarrow> bs_books t a \<noteq> None \<and> a \<notin> bs_pending_snapshots t"

subsection \<open>One shadow book and its pending mark\<close>

text \<open>The part of the shadow store that concerns one asset, and the effect of a delta on it.\<close>

definition shadow_view :: "book_store \<Rightarrow> asset_id \<Rightarrow> (order_book \<times> bool) option" where
  "shadow_view t a = map_option (\<lambda>b. (b, a \<in> bs_pending_snapshots t)) (bs_books t a)"

fun delta_step :: "book_delta \<Rightarrow> order_book \<times> bool \<Rightarrow> order_book \<times> bool" where
  "delta_step d (b, p) =
     (let run = fold (apply_single (bd_asset_id d)) (bd_changes d)
      in case bd_kind d of
           SNAPSHOT_BEGIN \<Rightarrow> (run (clear b), True)
         | SNAPSHOT_CHUNK \<Rightarrow> (run b, p)
         | SNAPSHOT_END \<Rightarrow> (run b, False)
         | INCREMENTAL \<Rightarrow>
             (run (if bd_tick_size d > 0 then set_tick_size b (bd_tick_size d) else b), p))"

lemma shadow_view_apply_delta:
  "shadow_view (apply_delta t d) a =
     (if bd_asset_id d = a then map_option (delta_step d) (shadow_view t a) else shadow_view t a)"
  by (auto simp: shadow_view_def apply_delta_def Let_def split: option.splits book_delta_kind.splits)

lemma shadow_view_deltas:
  assumes "\<forall>d \<in> set ds. bd_asset_id d = a'"
  shows "shadow_view (foldl apply_delta t ds) a =
    (if a = a' then map_option (fold delta_step ds) (shadow_view t a) else shadow_view t a)"
  using assms
  by (induction ds arbitrary: t) (auto simp: shadow_view_apply_delta option.map_comp comp_def option.map_id)

lemma is_book_valid_view: "is_book_valid t a \<longleftrightarrow> (\<exists>b. shadow_view t a = Some (b, False))"
  by (auto simp: is_book_valid_def shadow_view_def)

subsection \<open>Changes applied one at a time\<close>

definition same_book :: "order_book \<Rightarrow> order_book \<Rightarrow> bool" where
  "same_book b c \<longleftrightarrow>
     bids b = bids c \<and> asks b = asks c \<and> tick_size b = tick_size c \<and> book_inv b \<and> book_inv c"

lemma same_book_bbo:
  assumes "same_book b c" shows "book_bbo b = book_bbo c"
proof -
  have "book_bbo (recompute_bbo b) = book_bbo (recompute_bbo c)"
    using assms by (simp add: same_book_def recompute_bbo_def split: option.splits)
  thus ?thesis using assms by (simp add: same_book_def book_inv_def bbo_current_def)
qed

lemma same_book_refl: "book_inv b \<Longrightarrow> same_book b b"
  by (simp add: same_book_def)

lemma fold_set_level_cong:
  "bids b = bids c \<Longrightarrow> bids (fold set_level chs b) = bids (fold set_level chs c)"
  "asks b = asks c \<Longrightarrow> asks (fold set_level chs b) = asks (fold set_level chs c)"
  by (auto simp: fun_eq_iff fold_set_level_at split: option.splits)

lemma fold_set_level_tick [simp]: "tick_size (fold set_level chs b) = tick_size b"
  by (induction chs arbitrary: b) simp_all

lemma apply_single_eq:
  "book_inv c \<Longrightarrow> check_level (pc_price ch) (pc_size ch) = OK \<Longrightarrow>
   apply_single a ch c = refresh_status_from_bbo (recompute_bbo (set_level ch c))"
  by (simp add: apply_single_def apply_price_change_ok book_inv_def single_change_def)

lemma fold_apply_single:
  assumes "book_inv c" "validate_changes chs = OK"
  shows "book_inv (fold (apply_single a) chs c) \<and>
    bids (fold (apply_single a) chs c) = bids (fold set_level chs c) \<and>
    asks (fold (apply_single a) chs c) = asks (fold set_level chs c) \<and>
    tick_size (fold (apply_single a) chs c) = tick_size c"
  using assms
proof (induction chs arbitrary: c)
  case Nil
  then show ?case by simp
next
  case (Cons ch chs)
  let ?c = "refresh_status_from_bbo (recompute_bbo (set_level ch c))"
  have ok: "check_level (pc_price ch) (pc_size ch) = OK" "validate_changes chs = OK"
    using Cons.prems(2) by (auto split: if_splits)
  have one: "apply_single a ch c = ?c" using Cons.prems(1) ok(1) by (rule apply_single_eq)
  have "book_inv ?c"
    using book_inv_price_change [OF Cons.prems(1), of "single_change a ch"] one
    by (simp add: apply_single_def)
  from Cons.IH [OF this ok(2)] show ?case
    using fold_set_level_cong [of ?c "set_level ch c" chs] by (simp add: one)
qed

subsection \<open>The deltas of a price change\<close>

lemma incremental_deltas_ids:
  "\<forall>e \<in> set (incremental_deltas chs d).
     bd_asset_id e = bd_asset_id d \<and> bd_kind e = bd_kind d \<and> bd_tick_size e = bd_tick_size d"
  by (induction chs d rule: incremental_deltas.induct) auto

lemma incremental_deltas_concat:
  "concat (map bd_changes (incremental_deltas chs d)) = bd_changes d @ chs"
  by (induction chs d rule: incremental_deltas.induct) auto

lemma delta_step_incremental:
  assumes "bd_asset_id d = a" "bd_kind d = INCREMENTAL" "bd_tick_size d = 0"
  shows "delta_step d (b, p) = (fold (apply_single a) (bd_changes d) b, p)"
  unfolding delta_step.simps Let_def assms by simp

lemma delta_step_chunk:
  assumes "bd_asset_id d = a" "bd_kind d = SNAPSHOT_CHUNK"
  shows "delta_step d (b, p) = (fold (apply_single a) (bd_changes d) b, p)"
  unfolding delta_step.simps Let_def assms by simp

declare delta_step.simps [simp del]

lemma fold_delta_step:
  assumes "\<forall>d \<in> set ds. \<forall>b. delta_step d (b, p) = (fold (apply_single a) (bd_changes d) b, p)"
  shows "fold delta_step ds (b, p) = (fold (apply_single a) (concat (map bd_changes ds)) b, p)"
  using assms by (induction ds arbitrary: b) simp_all

lemma incremental_deltas_effect:
  "fold delta_step (incremental_deltas chs (new_delta a INCREMENTAL)) (b, p) =
     (fold (apply_single a) chs b, p)"
proof -
  let ?d = "new_delta a INCREMENTAL"
  have d: "bd_asset_id ?d = a" "bd_kind ?d = INCREMENTAL" "bd_tick_size ?d = 0" "bd_changes ?d = []"
    by (simp_all add: new_delta_def)
  have "\<forall>e \<in> set (incremental_deltas chs ?d). \<forall>b.
      delta_step e (b, p) = (fold (apply_single a) (bd_changes e) b, p)"
    using incremental_deltas_ids [of chs ?d, unfolded d] by (blast intro: delta_step_incremental)
  from fold_delta_step [OF this] show ?thesis
    using incremental_deltas_concat [of chs ?d] d(4) by simp
qed

subsection \<open>The deltas of a snapshot\<close>

text \<open>What the flushed deltas and the current one look like while a snapshot is being packed.\<close>

definition packing :: "asset_id \<Rightarrow> book_delta \<Rightarrow> book_delta list \<Rightarrow> bool" where
  "packing a d out \<longleftrightarrow>
     (\<forall>e \<in> set (out @ [d]). bd_asset_id e = a \<and> length (bd_changes e) \<le> kMaxDeltaChanges) \<and>
     (case out of
        [] \<Rightarrow> bd_kind d = SNAPSHOT_BEGIN
      | d0 # ds \<Rightarrow> bd_kind d0 = SNAPSHOT_BEGIN \<and> (\<forall>e \<in> set (ds @ [d]). bd_kind e = SNAPSHOT_CHUNK))"

lemma packing_pack_changes:
  "packing a d out \<Longrightarrow> case pack_changes chs d out of (d', out') \<Rightarrow>
     packing a d' out' \<and>
     concat (map bd_changes (out' @ [d'])) = concat (map bd_changes (out @ [d])) @ chs"
proof (induction chs d out rule: pack_changes.induct)
  case (1 d out)
  then show ?case by simp
next
  case (2 ch chs d out)
  show ?case
  proof (cases "length (bd_changes d) \<ge> kMaxDeltaChanges")
    case True
    have "packing a ((new_delta (bd_asset_id d) SNAPSHOT_CHUNK)\<lparr> bd_changes := [ch] \<rparr>) (out @ [d])"
      using 2(3) by (auto simp: packing_def new_delta_def kMaxDeltaChanges_def split: list.splits)
    with 2(1) [OF True] True show ?thesis by (simp add: case_prod_beta)
  next
    case False
    have "packing a (d\<lparr> bd_changes := bd_changes d @ [ch] \<rparr>) out"
      using 2(3) False by (auto simp: packing_def split: list.splits)
    with 2(2) [OF False] False show ?thesis by (simp add: case_prod_beta)
  qed
qed

lemma snapshot_deltas_shape:
  "\<exists>d0 ds d1. snapshot_deltas snap = d0 # ds @ [d1] \<and>
     bd_kind d0 = SNAPSHOT_BEGIN \<and> (\<forall>e \<in> set ds. bd_kind e = SNAPSHOT_CHUNK) \<and>
     bd_kind d1 = SNAPSHOT_END \<and>
     (\<forall>e \<in> set (snapshot_deltas snap).
        bd_asset_id e = snap_asset_id snap \<and> length (bd_changes e) \<le> kMaxDeltaChanges) \<and>
     concat (map bd_changes (snapshot_deltas snap)) =
       map (level_change BID) (snap_bids snap) @ map (level_change ASK) (snap_asks snap)"
proof -
  let ?a = "snap_asset_id snap"
  let ?bs = "map (level_change BID) (snap_bids snap)"
  let ?as = "map (level_change ASK) (snap_asks snap)"
  have p0: "packing ?a (new_delta ?a SNAPSHOT_BEGIN) []" by (simp add: packing_def new_delta_def)
  obtain d1 o1 where e1: "pack_changes ?bs (new_delta ?a SNAPSHOT_BEGIN) [] = (d1, o1)" by force
  have p1: "packing ?a d1 o1" "concat (map bd_changes (o1 @ [d1])) = ?bs"
    using packing_pack_changes [OF p0, of ?bs] unfolding e1 by (simp_all add: new_delta_def)
  obtain d out where e2: "pack_changes ?as d1 o1 = (d, out)" by force
  have p2: "packing ?a d out" "concat (map bd_changes (out @ [d])) = ?bs @ ?as"
    using packing_pack_changes [OF p1(1), of ?as] unfolding e2 p1(2) by simp_all
  have sd: "snapshot_deltas snap =
    (if bd_kind d = SNAPSHOT_BEGIN then out @ [d, new_delta ?a SNAPSHOT_END]
     else out @ [d\<lparr> bd_kind := SNAPSHOT_END \<rparr>])"
    by (simp add: snapshot_deltas_def e1 e2)
  show ?thesis
  proof (cases out)
    case Nil
    have eq: "snapshot_deltas snap = d # [] @ [new_delta ?a SNAPSHOT_END]" "bd_kind d = SNAPSHOT_BEGIN"
      using p2(1) Nil by (simp_all add: sd packing_def)
    show ?thesis
      by (rule exI [of _ d], rule exI [of _ "[]"], rule exI [of _ "new_delta ?a SNAPSHOT_END"])
        (use eq p2 Nil in \<open>simp add: packing_def new_delta_def\<close>)
  next
    case (Cons d0 ds)
    have k: "bd_kind d0 = SNAPSHOT_BEGIN" and
      kd: "bd_kind d = SNAPSHOT_CHUNK" "\<forall>e \<in> set ds. bd_kind e = SNAPSHOT_CHUNK"
      using p2(1) Cons by (simp_all add: packing_def)
    have eq: "snapshot_deltas snap = d0 # ds @ [d\<lparr> bd_kind := SNAPSHOT_END \<rparr>]"
      using Cons kd by (simp add: sd)
    show ?thesis
      by (rule exI [of _ d0], rule exI [of _ ds], rule exI [of _ "d\<lparr> bd_kind := SNAPSHOT_END \<rparr>"])
        (use eq p2 Cons k kd in \<open>simp add: packing_def\<close>)
  qed
qed

definition snapshot_changes :: "book_snapshot \<Rightarrow> price_change list" where
  "snapshot_changes snap =
     map (level_change BID) (snap_bids snap) @ map (level_change ASK) (snap_asks snap)"

lemma snapshot_deltas_ids: "\<forall>e \<in> set (snapshot_deltas snap). bd_asset_id e = snap_asset_id snap"
  using snapshot_deltas_shape [of snap] by blast

lemma snapshot_prefix_effect:
  assumes "bd_kind d0 = SNAPSHOT_BEGIN" "\<forall>e \<in> set ds. bd_kind e = SNAPSHOT_CHUNK"
    "\<forall>e \<in> set (d0 # ds). bd_asset_id e = a"
  shows "fold delta_step (d0 # ds) (b, p) =
    (fold (apply_single a) (concat (map bd_changes (d0 # ds))) (clear b), True)"
proof -
  have "delta_step d0 (b, p) = (fold (apply_single a) (bd_changes d0) (clear b), True)"
    using assms(1,3) by (simp add: delta_step.simps)
  moreover have "\<forall>e \<in> set ds. \<forall>b. delta_step e (b, True) = (fold (apply_single a) (bd_changes e) b, True)"
    using assms(2,3) delta_step_chunk by simp
  ultimately show ?thesis by (simp add: fold_delta_step)
qed

lemma snapshot_deltas_effect:
  "fold delta_step (snapshot_deltas snap) (b, p) =
     (fold (apply_single (snap_asset_id snap)) (snapshot_changes snap) (clear b), False)"
proof -
  let ?a = "snap_asset_id snap"
  obtain d0 ds d1 where sd: "snapshot_deltas snap = d0 # ds @ [d1]"
    and k: "bd_kind d0 = SNAPSHOT_BEGIN" "\<forall>e \<in> set ds. bd_kind e = SNAPSHOT_CHUNK"
      "bd_kind d1 = SNAPSHOT_END"
    and cc: "concat (map bd_changes (snapshot_deltas snap)) = snapshot_changes snap"
    using snapshot_deltas_shape [of snap] unfolding snapshot_changes_def by blast
  have ids: "\<forall>e \<in> set (d0 # ds). bd_asset_id e = ?a" "bd_asset_id d1 = ?a"
    using snapshot_deltas_ids [of snap] unfolding sd by auto
  have "delta_step d1 (x, True) = (fold (apply_single ?a) (bd_changes d1) x, False)" for x
    using k(3) ids(2) by (simp add: delta_step.simps)
  thus ?thesis
    using snapshot_prefix_effect [OF k(1,2) ids(1), of b p]
    by (simp add: sd cc [unfolded sd, symmetric])
qed

lemma load_levels_fold:
  "load_levels xs (bids b) = Inr l \<Longrightarrow> bids (fold set_level (map (level_change BID) xs) b) = l"
  "load_levels xs (asks b) = Inr l \<Longrightarrow> asks (fold set_level (map (level_change ASK) xs) b) = l"
  by (induction xs arbitrary: b) (auto simp: set_level_def level_change_def split: if_splits)

lemma load_levels_validate:
  "load_levels xs l = Inr l' \<Longrightarrow> validate_changes (map (level_change sd) xs) = OK"
  by (induction xs arbitrary: l) (auto simp: level_change_def split: if_splits)

lemma fold_set_level_other:
  "asks (fold set_level (map (level_change BID) xs) b) = asks b"
  "bids (fold set_level (map (level_change ASK) xs) b) = bids b"
  by (induction xs arbitrary: b) (simp_all add: set_level_def level_change_def)

lemma validate_changes_append:
  "validate_changes (xs @ ys) = OK \<longleftrightarrow> validate_changes xs = OK \<and> validate_changes ys = OK"
  by (auto simp: validate_changes_OK)

lemma snapshot_changes_same:
  assumes ok: "snd (apply_snapshot b snap) = OK" and tick: "tick_size b = tick_size c"
  shows "same_book (fst (apply_snapshot b snap))
    (fold (apply_single a) (snapshot_changes snap) (clear c))"
proof -
  have cl: "bids (clear x) = (\<lambda>_. 0)" "asks (clear x) = (\<lambda>_. 0)" "tick_size (clear x) = tick_size x" for x
    by (simp_all add: clear_def)
  obtain bs sk where l: "load_levels (snap_bids snap) (\<lambda>_. 0) = Inr bs"
      "load_levels (snap_asks snap) (\<lambda>_. 0) = Inr sk"
    using ok by (auto simp: apply_snapshot_def Let_def cl dest: load_levels_Inl split: sum.splits)
  have b: "bids (fst (apply_snapshot b snap)) = bs" "asks (fst (apply_snapshot b snap)) = sk"
      "tick_size (fst (apply_snapshot b snap)) = tick_size b"
    by (simp_all add: apply_snapshot_def Let_def cl l)
  let ?f = "fold set_level (snapshot_changes snap) (clear c)"
  have f: "bids ?f = bs" "asks ?f = sk"
    using load_levels_fold(1) [of "snap_bids snap" "clear c" bs]
      load_levels_fold(2) [of "snap_asks snap" "fold set_level (map (level_change BID) (snap_bids snap)) (clear c)" sk] l
    by (simp_all add: snapshot_changes_def fold_set_level_other cl)
  have "validate_changes (snapshot_changes snap) = OK"
    using l by (simp add: snapshot_changes_def validate_changes_append load_levels_validate)
  from fold_apply_single [OF book_inv_clear this, of a c] show ?thesis
    using b f tick cl(3) book_inv_snapshot [of b snap] by (simp add: same_book_def)
qed

lemma price_change_same:
  assumes "same_book b c" "validate_changes (apc_changes ac) = OK"
  shows "same_book (fst (apply_price_change b ac)) (fold (apply_single a) (apc_changes ac) c)"
  using assms fold_apply_single [of c "apc_changes ac" a] book_inv_price_change [of b ac]
    fold_set_level_cong [of b c "apc_changes ac"]
  by (simp add: same_book_def apply_price_change_ok book_inv_def)

subsection \<open>Simulation\<close>

definition feed_book :: "market_store \<Rightarrow> asset_id \<Rightarrow> order_book" where
  "feed_book s a = (case map_of (ms_states s) a of None \<Rightarrow> new_order_book | Some st \<Rightarrow> as_book st)"

definition shadow_sim :: "market_store \<Rightarrow> book_store \<Rightarrow> bool" where
  "shadow_sim s t \<longleftrightarrow>
     (\<forall>a c p. a \<notin> ms_down_tokens s \<and> shadow_view t a = Some (c, p) \<longrightarrow>
        \<not> p \<and> same_book (feed_book s a) c)"

definition sim_result :: "market_store \<Rightarrow> book_store \<Rightarrow> market_store \<times> feed_out \<Rightarrow> bool" where
  "sim_result s t r \<longleftrightarrow>
     (case r of (s', ns, ds) \<Rightarrow>
        shadow_sim s' (foldl apply_delta t ds) \<and>
        ms_down_tokens s' = ms_down_tokens s \<and> ms_delta_queue s' = ms_delta_queue s)"

lemma get_state_mut_book: "get_state_mut s a = Some st \<Longrightarrow> as_book st = feed_book s a"
  by (auto simp: get_state_mut_def feed_book_def new_asset_state_def split: option.splits if_splits)

lemma feed_book_put:
  "feed_book (put_state s a st) a' = (if a' = a then as_book st else feed_book s a')"
  by (simp add: feed_book_def put_state_def update_conv')

lemma put_state_down [simp]:
  "ms_down_tokens (put_state s a st) = ms_down_tokens s"
  "ms_delta_queue (put_state s a st) = ms_delta_queue s"
  by (simp_all add: put_state_def)

lemma sim_put_state:
  assumes "shadow_sim s t" "\<forall>e \<in> set ds. bd_asset_id e = a"
    and "\<And>c. same_book (feed_book s a) c \<Longrightarrow>
      \<exists>c'. fold delta_step ds (c, False) = (c', False) \<and> same_book (as_book st) c'"
  shows "shadow_sim (put_state s a st) (foldl apply_delta t ds)"
  unfolding shadow_sim_def
proof (intro allI impI, elim conjE)
  fix a' c p
  assume a': "a' \<notin> ms_down_tokens (put_state s a st)"
    and v: "shadow_view (foldl apply_delta t ds) a' = Some (c, p)"
  show "\<not> p \<and> same_book (feed_book (put_state s a st) a') c"
  proof (cases "a' = a")
    case True
    then obtain c0 p0 where "shadow_view t a = Some (c0, p0)" "fold delta_step ds (c0, p0) = (c, p)"
      using v shadow_view_deltas [OF assms(2), of t a'] by (cases "shadow_view t a") auto
    moreover from this have "\<not> p0" "same_book (feed_book s a) c0"
      using assms(1) a' True by (auto simp: shadow_sim_def)
    ultimately show ?thesis using assms(3) [of c0] True by (auto simp: feed_book_put)
  next
    case False
    with v have "shadow_view t a' = Some (c, p)" using shadow_view_deltas [OF assms(2), of t a'] by simp
    with assms(1) a' False show ?thesis by (auto simp: shadow_sim_def feed_book_put)
  qed
qed

lemma sim_put_same:
  assumes "shadow_sim s t" "same_book (feed_book s a) (as_book st) \<or> as_book st = feed_book s a"
  shows "shadow_sim (put_state s a st) t"
proof -
  have "\<And>c. same_book (feed_book s a) c \<Longrightarrow> same_book (as_book st) c"
    using assms(2) by (auto simp: same_book_def)
  with sim_put_state [OF assms(1), of "[]" a st] show ?thesis by simp
qed

lemma sim_snapshot_event:
  assumes "shadow_sim s t" "ms_delta_queue s" "snd (apply_snapshot new_order_book snap) = OK"
  shows "sim_result s t (apply_snapshot_event s ev snap)"
proof -
  let ?a = "snap_asset_id snap"
  have ok: "snd (apply_snapshot b snap) = OK" for b
    using assms(3)
    by (auto simp: apply_snapshot_def Let_def clear_def new_order_book_def split: sum.splits)
  have "\<exists>c'. fold delta_step (snapshot_deltas snap) (c, False) = (c', False) \<and>
      same_book (fst (apply_snapshot (feed_book s ?a) snap)) c'"
    if "same_book (feed_book s ?a) c" for c
    using snapshot_changes_same [OF ok [of "feed_book s ?a"], of c ?a] that snapshot_deltas_effect [of snap c False]
    by (simp add: same_book_def)
  hence "as_book st = fst (apply_snapshot (feed_book s ?a) snap) \<Longrightarrow>
      shadow_sim (put_state s ?a st) (foldl apply_delta t (snapshot_deltas snap))" for st
    by (intro sim_put_state [OF assms(1) snapshot_deltas_ids]) simp
  with ok assms(1,2) show ?thesis
    by (auto simp: sim_result_def apply_snapshot_event_def Let_def case_prod_beta
        dest: get_state_mut_book split: option.splits)
qed

lemma sim_asset_change:
  assumes "shadow_sim s t" "ms_delta_queue s"
  shows "sim_result s t (apply_asset_change ev ets ac s)"
proof -
  let ?a = "apc_asset_id ac" and ?chs = "apc_changes ac"
  let ?ds = "incremental_deltas ?chs (new_delta ?a INCREMENTAL)"
  have ids: "\<forall>e \<in> set ?ds. bd_asset_id e = ?a"
    using incremental_deltas_ids [of ?chs "new_delta ?a INCREMENTAL"] by (simp add: new_delta_def)
  have acc: "shadow_sim (put_state s ?a st) (foldl apply_delta t ?ds)"
    if "as_book st = fst (apply_price_change (feed_book s ?a) ac)" "validate_changes ?chs = OK" for st
    using price_change_same [OF _ that(2)] that(1) incremental_deltas_effect
    by (intro sim_put_state [OF assms(1) ids]) simp
  have snd: "snd (apply_price_change b ac) = validate_changes ?chs" for b
    by (simp add: apply_price_change_def case_prod_beta Let_def)
  have rej: "shadow_sim (put_state s ?a st) t"
    if "as_book st = fst (apply_price_change (feed_book s ?a) ac)" "validate_changes ?chs \<noteq> OK" for st
    using sim_put_same [OF assms(1), of ?a st] that by (simp add: apply_price_change_err)
  show ?thesis
    using acc rej assms
    by (auto simp: sim_result_def apply_asset_change_def Let_def case_prod_beta snd
        dest: get_state_mut_book split: option.splits)
qed

lemma sim_asset_changes:
  "shadow_sim s t \<Longrightarrow> ms_delta_queue s \<Longrightarrow> sim_result s t (apply_asset_changes ev ets acs s)"
proof (induction acs arbitrary: s t)
  case Nil
  then show ?case by (simp add: sim_result_def)
next
  case (Cons ac acs)
  obtain s1 n1 d1 where r1: "apply_asset_change ev ets ac s = (s1, n1, d1)" by (cases "apply_asset_change ev ets ac s") auto
  have s1: "shadow_sim s1 (foldl apply_delta t d1)" "ms_down_tokens s1 = ms_down_tokens s"
      "ms_delta_queue s1 = ms_delta_queue s"
    using sim_asset_change [OF Cons.prems, of ev ets ac] r1 by (simp_all add: sim_result_def)
  from Cons.IH [OF s1(1)] Cons.prems(2) s1 r1 show ?case
    by (auto simp: sim_result_def case_prod_beta Let_def)
qed

lemma sim_tick_size:
  assumes "shadow_sim s t" "ms_delta_queue s"
  shows "sim_result s t (apply_tick_size s ev a ts)"
proof -
  let ?d = "(new_delta a INCREMENTAL)\<lparr> bd_tick_size := ts \<rparr>"
  have step: "ts > 0 \<Longrightarrow> delta_step ?d (c, False) = (set_tick_size c ts, False)" for c
    by (simp add: delta_step.simps new_delta_def)
  have put: "shadow_sim (put_state s a st) (foldl apply_delta t [?d])"
    if "as_book st = set_tick_size (feed_book s a) ts" "ts > 0" for st
  proof (rule sim_put_state [OF assms(1)])
    show "\<forall>e \<in> set [?d]. bd_asset_id e = a" by (simp add: new_delta_def)
    show "\<exists>c'. fold delta_step [?d] (c, False) = (c', False) \<and> same_book (as_book st) c'"
      if "same_book (feed_book s a) c" for c
      using that step [OF \<open>ts > 0\<close>] \<open>as_book st = _\<close>
      by (simp add: same_book_def) (simp add: set_tick_size_def)
  qed
  show ?thesis
    using put assms
    by (auto simp: sim_result_def apply_tick_size_def Let_def dest: get_state_mut_book split: option.splits)
qed

lemma sim_last_trade:
  "shadow_sim s t \<Longrightarrow> sim_result s t (apply_last_trade s ev a p sz)"
  by (auto simp: sim_result_def apply_last_trade_def dest: get_state_mut_book
      intro!: sim_put_same split: option.splits)

lemma sim_touch_state:
  "shadow_sim s t \<Longrightarrow> sim_result s t (touch_state a s, ns, [])"
  by (auto simp: sim_result_def touch_state_def dest: get_state_mut_book intro!: sim_put_same split: option.splits)

lemma same_book_set_status: "same_book (set_status b st) c \<longleftrightarrow> same_book b c"
  by (simp add: same_book_def) (simp add: set_status_def)

lemma sim_mark_stale: "shadow_sim s t \<Longrightarrow> sim_result s t (mark_stale a s, ns, [])"
  using sim_put_state [of s t "[]" a]
  by (auto simp: sim_result_def mark_stale_def same_book_set_status dest: get_state_mut_book split: option.splits)

lemma sim_mark_stales: "shadow_sim s t \<Longrightarrow> sim_result s t (fold mark_stale as s, ns, [])"
proof (induction "as" arbitrary: s)
  case Nil
  then show ?case by (simp add: sim_result_def)
next
  case (Cons a as)
  have "sim_result s t (mark_stale a s, ns, [])" using Cons.prems by (rule sim_mark_stale)
  with Cons.IH [of "mark_stale a s"] show ?case by (simp add: sim_result_def)
qed

definition snapshot_well_formed :: "market_event \<Rightarrow> bool" where
  "snapshot_well_formed ev =
     (case me_payload ev of
        EvSnapshot snap \<Rightarrow>
          list_all (\<lambda>l. check_level (lvl_price l) (lvl_size l) = OK) (snap_bids snap @ snap_asks snap)
      | _ \<Rightarrow> True)"

lemma load_levels_total:
  "list_all (\<lambda>x. check_level (lvl_price x) (lvl_size x) = OK) xs \<Longrightarrow> \<exists>l'. load_levels xs l = Inr l'"
  by (induction xs arbitrary: l) simp_all

lemma apply_snapshot_total:
  assumes "list_all (\<lambda>l. check_level (lvl_price l) (lvl_size l) = OK) (snap_bids snap @ snap_asks snap)"
  shows "snd (apply_snapshot b snap) = OK"
proof -
  obtain l1 l2 where "load_levels (snap_bids snap) (bids (clear b)) = Inr l1"
      "load_levels (snap_asks snap) (asks (clear b)) = Inr l2"
    using assms load_levels_total [of "snap_bids snap"] load_levels_total [of "snap_asks snap"]
    by (metis list_all_append)
  thus ?thesis by (simp add: apply_snapshot_def)
qed

lemma sim_visit:
  assumes "shadow_sim s t" "ms_delta_queue s" "snapshot_well_formed ev"
  shows "sim_result s t (visit_payload s ev)"
proof (cases "me_payload ev")
  case (EvSnapshot snap)
  hence "snd (apply_snapshot new_order_book snap) = OK"
    using assms(3) by (intro apply_snapshot_total) (simp add: snapshot_well_formed_def)
  with assms EvSnapshot show ?thesis by (simp add: visit_payload_def sim_snapshot_event)
next
  case EvNewMarket
  with assms show ?thesis by (simp add: visit_payload_def sim_result_def)
next
  case (EvBestBidAsk a bb ba)
  with assms show ?thesis using sim_touch_state by (simp add: visit_payload_def sim_result_def)
qed (use assms in \<open>simp_all add: visit_payload_def sim_asset_changes sim_tick_size sim_last_trade sim_mark_stales\<close>)

text \<open>A run of the websocket thread over a list of events with the clock readings, and the deltas
  it pushes.\<close>

fun feed_run :: "market_store \<Rightarrow> (market_event \<times> timestamp) list \<Rightarrow> market_store \<times> book_delta list" where
  "feed_run s [] = (s, [])"
| "feed_run s ((ev, now) # evs) =
     (let (s1, (_, ds1), _) = ms_apply s ev now; (s2, ds2) = feed_run s1 evs in (s2, ds1 @ ds2))"

lemma ui_push_keeps:
  "shadow_sim (fst (maybe_push_ui_books s now)) t \<longleftrightarrow> shadow_sim s t"
  "ms_down_tokens (fst (maybe_push_ui_books s now)) = ms_down_tokens s"
  "ms_delta_queue (fst (maybe_push_ui_books s now)) = ms_delta_queue s"
  by (simp_all add: maybe_push_ui_books_def shadow_sim_def feed_book_def)

lemma sim_feed_run:
  assumes "shadow_sim s t" "ms_delta_queue s" "\<forall>(ev, now) \<in> set evs. snapshot_well_formed ev"
  shows "case feed_run s evs of (s', ds) \<Rightarrow>
    shadow_sim s' (foldl apply_delta t ds) \<and> ms_down_tokens s' = ms_down_tokens s"
  using assms
proof (induction evs arbitrary: s t)
  case Nil
  then show ?case by simp
next
  case (Cons e evs)
  obtain ev now where e: "e = (ev, now)" by force
  obtain s0 ns ds where v: "visit_payload s ev = (s0, ns, ds)" by (cases "visit_payload s ev") auto
  obtain s1 ui where u: "maybe_push_ui_books s0 now = (s1, ui)" by force
  have r: "shadow_sim s0 (foldl apply_delta t ds)" "ms_down_tokens s0 = ms_down_tokens s" "ms_delta_queue s0"
    using sim_visit [of s t ev] Cons.prems v e by (simp_all add: sim_result_def)
  have a: "ms_apply s ev now = (s1, (ns, ds), ui)" by (simp add: ms_apply_def v u)
  have k: "shadow_sim s1 (foldl apply_delta t ds)" "ms_down_tokens s1 = ms_down_tokens s" "ms_delta_queue s1"
    using r ui_push_keeps [of s0 now] u by simp_all
  show ?case using Cons.IH [OF k(1,3)] Cons.prems(3) k(2)
    by (simp add: a e case_prod_beta)
qed

subsection \<open>Properties\<close>

definition seeded_books :: "asset_id list \<Rightarrow> book_store" where
  "seeded_books assets = foldl bs_seed new_book_store assets"

lemma bs_seed_all:
  "bs_pending_snapshots (foldl bs_seed t assets) = bs_pending_snapshots t \<and>
   bs_books (foldl bs_seed t assets) a =
     (if a \<in> set assets \<and> bs_books t a = None then Some new_order_book else bs_books t a)"
  by (induction assets arbitrary: t) (auto simp: bs_seed_def)

lemma shadow_view_seeded:
  "shadow_view (seeded_books assets) a =
     (if a \<in> set assets then Some (new_order_book, False) else None)"
  by (simp add: seeded_books_def shadow_view_def bs_seed_all new_book_store_def)

definition feed_store :: "bool \<Rightarrow> asset_id list \<Rightarrow> asset_id list \<Rightarrow> market_store" where
  "feed_store strict assets downs =
     set_book_delta_queue
       (set_strict_assets
          (foldl register_down_token (foldl seed_asset new_market_store assets) downs) strict) True"

lemma seed_assets:
  "(\<forall>a. feed_book s a = new_order_book) \<Longrightarrow>
   (\<forall>a. feed_book (foldl seed_asset s assets) a = new_order_book) \<and>
   ms_down_tokens (foldl seed_asset s assets) = ms_down_tokens s"
proof (induction assets arbitrary: s)
  case Nil
  then show ?case by simp
next
  case (Cons b assets)
  have "\<forall>a. feed_book (seed_asset s b) a = new_order_book" "ms_down_tokens (seed_asset s b) = ms_down_tokens s"
    using Cons.prems
    by (auto simp: seed_asset_def feed_book_def update_conv' new_asset_state_def split: option.splits)
  with Cons.IH [of "seed_asset s b"] show ?case by simp
qed

lemma register_downs:
  "ms_down_tokens (foldl register_down_token s ds) = ms_down_tokens s \<union> set ds"
  "feed_book (foldl register_down_token s ds) a = feed_book s a"
  by (induction ds arbitrary: s) (auto simp: register_down_token_def feed_book_def)

lemma feed_store_init:
  "ms_down_tokens (feed_store strict assets downs) = set downs"
  "ms_delta_queue (feed_store strict assets downs)"
  "feed_book (feed_store strict assets downs) a = new_order_book"
proof -
  have n: "\<forall>a. feed_book new_market_store a = new_order_book" "ms_down_tokens new_market_store = {}"
    by (simp_all add: feed_book_def new_market_store_def)
  have fb: "feed_book (s\<lparr> ms_delta_queue := q \<rparr>) = feed_book s" "feed_book (s\<lparr> ms_strict_assets := q \<rparr>) = feed_book s"
    for s q by (simp_all add: fun_eq_iff feed_book_def)
  show "ms_down_tokens (feed_store strict assets downs) = set downs"
    "ms_delta_queue (feed_store strict assets downs)"
    "feed_book (feed_store strict assets downs) a = new_order_book"
    using seed_assets [OF n(1), of assets] n(2)
    by (simp_all add: feed_store_def set_book_delta_queue_def set_strict_assets_def register_downs fb)
qed

text \<open>C6: Take a market state store with its delta queue set, and shadow books seeded with some
  assets; run any sequence of market events whose snapshots have only valid levels, and apply all
  the deltas it pushes in order.  Then the shadow book of every seeded asset that is not a DOWN token
  is valid and has the bid levels, the ask levels, the tick size and the best prices of the book of
  the websocket thread.\<close>

theorem shadow_books_track_feed:
  assumes "\<forall>(ev, now) \<in> set evs. snapshot_well_formed ev"
    and "a \<in> set assets" "a \<notin> set downs"
  shows "case feed_run (feed_store strict fed downs) evs of (s, ds) \<Rightarrow>
    let t = foldl apply_delta (seeded_books assets) ds; b = feed_book s a
    in is_book_valid t a \<and> bs_bbo t a = Some (book_bbo b) \<and>
       (\<exists>c. bs_book t a = Some c \<and> bids c = bids b \<and> asks c = asks b \<and> tick_size c = tick_size b)"
proof -
  let ?s = "feed_store strict fed downs" and ?t = "seeded_books assets"
  obtain s ds where r: "feed_run ?s evs = (s, ds)" by force
  have "shadow_sim ?s ?t"
    by (auto simp: shadow_sim_def feed_store_init shadow_view_seeded same_book_refl split: if_splits)
  from sim_feed_run [OF this feed_store_init(2) assms(1)] r
  have sim: "shadow_sim s (foldl apply_delta ?t ds)" and d: "ms_down_tokens s = set downs"
    by (simp_all add: feed_store_init)
  have "bs_books (foldl apply_delta t ds) a \<noteq> None" if "bs_books t a \<noteq> None" for t
    using that
    by (induction ds arbitrary: t)
      (auto simp: apply_delta_def Let_def split: option.splits book_delta_kind.splits)
  moreover have "bs_books ?t a \<noteq> None" using shadow_view_seeded [of assets a] assms(2) by (auto simp: shadow_view_def)
  ultimately obtain c where c: "bs_books (foldl apply_delta ?t ds) a = Some c" by blast
  with sim d assms(3) have "a \<notin> bs_pending_snapshots (foldl apply_delta ?t ds)" "same_book (feed_book s a) c"
    by (auto simp: shadow_sim_def shadow_view_def)
  with c r same_book_bbo [of "feed_book s a" c] show ?thesis
    by (simp add: is_book_valid_def bs_bbo_def bs_book_def Let_def same_book_def)
qed

theorem shadow_books_track_feed_witness:
  "let ev = \<lparr> me_payload = EvSnapshot \<lparr> snap_asset_id = ''up'', snap_market_id = ''m'',
              snap_bids = [\<lparr> lvl_price = 4800, lvl_size = 5000000 \<rparr>],
              snap_asks = [\<lparr> lvl_price = 5200, lvl_size = 7000000 \<rparr>], snap_exchange_ts = 3 \<rparr>,
              me_recv_ts = 1, me_seq = 1 \<rparr>
   in case feed_run (feed_store True [''up''] [''down'']) [(ev, 10)] of (s, ds) \<Rightarrow>
    let t = foldl apply_delta (seeded_books [''up'']) ds; b = feed_book s ''up''
    in is_book_valid t ''up'' \<and> bs_bbo t ''up'' = Some (book_bbo b) \<and>
       (\<exists>c. bs_book t ''up'' = Some c \<and> bids c = bids b \<and> asks c = asks b \<and> tick_size c = tick_size b)"
  unfolding Let_def [of "_ :: market_event"]
  by (rule shadow_books_track_feed)
    (simp_all add: snapshot_well_formed_def check_level_def price_consts)

text \<open>The deltas of a snapshot never carry more than 64 changes, together carry all its levels
  in order, and a shadow book is invalid after every proper non-empty prefix of them and valid
  again after the last.\<close>

theorem snapshot_transfer_marks_book_invalid:
  assumes "bs_books t (snap_asset_id snap) \<noteq> None"
  shows "(\<forall>d \<in> set (snapshot_deltas snap). length (bd_changes d) \<le> kMaxDeltaChanges) \<and>
    concat (map bd_changes (snapshot_deltas snap)) = snapshot_changes snap \<and>
    is_book_valid (foldl apply_delta t (snapshot_deltas snap)) (snap_asset_id snap) \<and>
    (\<forall>n. 0 < n \<and> n < length (snapshot_deltas snap) \<longrightarrow>
       \<not> is_book_valid (foldl apply_delta t (take n (snapshot_deltas snap))) (snap_asset_id snap))"
proof -
  let ?a = "snap_asset_id snap" and ?sd = "snapshot_deltas snap"
  obtain b p where v: "shadow_view t ?a = Some (b, p)" using assms by (auto simp: shadow_view_def)
  obtain d0 ds d1 where sd: "?sd = d0 # ds @ [d1]"
    and k: "bd_kind d0 = SNAPSHOT_BEGIN" "\<forall>e \<in> set ds. bd_kind e = SNAPSHOT_CHUNK"
    and len: "\<forall>d \<in> set ?sd. length (bd_changes d) \<le> kMaxDeltaChanges"
    and cc: "concat (map bd_changes ?sd) = snapshot_changes snap"
    using snapshot_deltas_shape [of snap] unfolding snapshot_changes_def by blast
  have valid: "is_book_valid (foldl apply_delta t ?sd) ?a"
    using shadow_view_deltas [OF snapshot_deltas_ids, of t snap ?a] v
    by (simp add: is_book_valid_view snapshot_deltas_effect)
  have pre: "\<not> is_book_valid (foldl apply_delta t (take n ?sd)) ?a" if "0 < n" "n < length ?sd" for n
  proof -
    obtain m where m: "n = Suc m" "m \<le> length ds" using \<open>0 < n\<close> \<open>n < _\<close> sd by (cases n) auto
    hence tk: "take n ?sd = d0 # take m ds" by (simp add: sd)
    have ids: "\<forall>e \<in> set (d0 # take m ds). bd_asset_id e = ?a"
      using snapshot_deltas_ids [of snap] unfolding sd by (auto dest: in_set_takeD)
    have "\<forall>e \<in> set (take m ds). bd_kind e = SNAPSHOT_CHUNK" using k(2) by (auto dest: in_set_takeD)
    from snapshot_prefix_effect [OF k(1) this ids, of b p]
    have "shadow_view (foldl apply_delta t (take n ?sd)) ?a \<noteq> Some (x, False)" for x
      using shadow_view_deltas [OF ids, of t ?a] v unfolding tk by simp
    thus ?thesis by (simp add: is_book_valid_view)
  qed
  from len cc valid pre show ?thesis by blast
qed

theorem snapshot_transfer_marks_book_invalid_witness:
  "let snap = \<lparr> snap_asset_id = ''up'', snap_market_id = ''m'',
         snap_bids = replicate 70 \<lparr> lvl_price = 4800, lvl_size = 5 \<rparr>, snap_asks = [], snap_exchange_ts = 3 \<rparr>
   in length (snapshot_deltas snap) = 2 \<and>
      \<not> is_book_valid (foldl apply_delta (seeded_books [''up'']) (take 1 (snapshot_deltas snap))) ''up''"
proof -
  let ?snap = "\<lparr> snap_asset_id = ''up'', snap_market_id = ''m'',
         snap_bids = replicate 70 \<lparr> lvl_price = 4800, lvl_size = 5 \<rparr>, snap_asks = [], snap_exchange_ts = 3 \<rparr>"
  have "length (snapshot_deltas ?snap) = 2" by code_simp
  moreover have "bs_books (seeded_books [''up'']) (snap_asset_id ?snap) \<noteq> None" using shadow_view_seeded [of "[''up'']" "''up''"] by (auto simp: shadow_view_def)
  ultimately show ?thesis using snapshot_transfer_marks_book_invalid [of "seeded_books [''up'']" ?snap] by (simp add: Let_def)
qed

text \<open>A snapshot with an invalid level, for a known asset that is not a DOWN token, empties the
  book of the websocket thread but pushes no delta and no notification, so the shadow books keep the
  previous levels and stay valid.\<close>

theorem rejected_snapshot_is_silent:
  assumes "snap_asset_id snap \<notin> ms_down_tokens s" "get_state_mut s (snap_asset_id snap) = Some st"
    and "snd (apply_snapshot (as_book st) snap) \<noteq> OK"
  shows "case apply_snapshot_event s ev snap of (s', ns, ds) \<Rightarrow>
    ns = [] \<and> ds = [] \<and> feed_book s' (snap_asset_id snap) = clear (as_book st)"
proof -
  have cc: "clear (clear b) = clear b" "clear ((clear b)\<lparr> bids := l \<rparr>) = clear b" for b l
    by (simp_all add: clear_def)
  have "fst (apply_snapshot (as_book st) snap) = clear (as_book st)"
    using assms(3) by (simp add: apply_snapshot_def Let_def cc split: sum.splits)
  with assms show ?thesis
    by (simp add: apply_snapshot_event_def is_down_token_def Let_def case_prod_beta feed_book_put)
qed

theorem rejected_snapshot_is_silent_witness:
  "let snap = \<lparr> snap_asset_id = ''up'', snap_market_id = ''m'',
         snap_bids = [\<lparr> lvl_price = 10001, lvl_size = 5 \<rparr>], snap_asks = [], snap_exchange_ts = 3 \<rparr>;
       ev = \<lparr> me_payload = EvSnapshot snap, me_recv_ts = 1, me_seq = 1 \<rparr>;
       st = new_asset_state\<lparr> as_book := new_order_book\<lparr> bids := (\<lambda>_. 0)(4800 := 5) \<rparr> \<rparr>
   in case apply_snapshot_event (put_state new_market_store ''up'' st) ev snap of (s', ns, ds) \<Rightarrow>
    ns = [] \<and> ds = [] \<and> feed_book s' ''up'' = clear (as_book st)"
proof -
  let ?snap = "\<lparr> snap_asset_id = ''up'', snap_market_id = ''m'',
    snap_bids = [\<lparr> lvl_price = 10001, lvl_size = 5 \<rparr>], snap_asks = [], snap_exchange_ts = 3 \<rparr>"
  let ?st = "new_asset_state\<lparr> as_book := new_order_book\<lparr> bids := (\<lambda>_. 0)(4800 := 5) \<rparr> \<rparr>"
  let ?s = "put_state new_market_store ''up'' ?st"
  have "snap_asset_id ?snap \<notin> ms_down_tokens ?s" "get_state_mut ?s (snap_asset_id ?snap) = Some ?st"
    "snd (apply_snapshot (as_book ?st) ?snap) \<noteq> OK"
    by (simp_all add: new_market_store_def get_state_mut_def put_state_def apply_snapshot_def
        check_level_def price_consts)
  from rejected_snapshot_is_silent [OF this] show ?thesis by (simp add: Let_def)
qed

end
