(* ===== verification/Sinks.thy ===== *)
theory Sinks
  imports Sched_Events Price
begin

section \<open>Queues, execution sinks and the stubs of the strategy thread\<close>

text \<open>
  src/src/queue/spsc_queue.h, src/src/scheduler/exec_sink.h, src/src/scheduler/execution_mode.h,
  src/src/exec/exec_queue_sink.h, src/src/scheduler/mode_filtered_sink.cpp,
  src/src/scheduler/dry_run_simulator.cpp, src/src/scheduler/exec_intent_stub_sink.cpp,
  src/src/scheduler/strategy_stub.cpp, src/src/scheduler/risk_gate_stub.cpp and
  src/src/scheduler/strategy_state_stub.cpp.

  The lock-free ring under \<open>SpscQueue\<close> is third-party code: its four operations are a record of
  functions that the definitions take as an argument, and \<open>ring_contract\<close> states what they are
  documented to do.  A sink pushes at most one intent for each call; it is given the outcome of that
  push and returns what it pushed.  The lemmas: the queue delivers exactly what it accepted, in
  order; the simulator's ring is a bounded FIFO; in DRY_RUN mode nothing but CANCEL_ALL reaches the
  exchange.
\<close>

subsection \<open>The queue wrapper\<close>

record ('q, 't) ring_ops =
  rop_try_push :: "'q \<Rightarrow> 't \<Rightarrow> 'q \<times> bool"
  rop_front :: "'q \<Rightarrow> 't option"
  rop_pop :: "'q \<Rightarrow> 'q"
  rop_size :: "'q \<Rightarrow> nat"

record 'q spsc_queue =
  sq_queue :: 'q
  sq_push_count :: int
  sq_pop_count :: int
  sq_overflow_count :: int

definition new_spsc_queue :: "'q \<Rightarrow> 'q spsc_queue" where
  "new_spsc_queue q = \<lparr> sq_queue = q, sq_push_count = 0, sq_pop_count = 0, sq_overflow_count = 0 \<rparr>"

definition spsc_try_push ::
  "('q, 't) ring_ops \<Rightarrow> 'q spsc_queue \<Rightarrow> 't \<Rightarrow> 'q spsc_queue \<times> bool" where
  "spsc_try_push ops s item =
     (let (q, pushed_ok) = rop_try_push ops (sq_queue s) item; s1 = s\<lparr> sq_queue := q \<rparr>
      in (if pushed_ok then s1\<lparr> sq_push_count := sq_push_count s1 + 1 \<rparr>
          else s1\<lparr> sq_overflow_count := sq_overflow_count s1 + 1 \<rparr>, pushed_ok))"

definition spsc_front :: "('q, 't) ring_ops \<Rightarrow> 'q spsc_queue \<Rightarrow> 't option" where
  "spsc_front ops s = rop_front ops (sq_queue s)"

definition spsc_pop :: "('q, 't) ring_ops \<Rightarrow> 'q spsc_queue \<Rightarrow> 'q spsc_queue" where
  "spsc_pop ops s = s\<lparr> sq_queue := rop_pop ops (sq_queue s), sq_pop_count := sq_pop_count s + 1 \<rparr>"

definition spsc_try_pop :: "('q, 't) ring_ops \<Rightarrow> 'q spsc_queue \<Rightarrow> 'q spsc_queue \<times> 't option" where
  "spsc_try_pop ops s =
     (case rop_front ops (sq_queue s) of
        Some v \<Rightarrow> (s\<lparr> sq_queue := rop_pop ops (sq_queue s), sq_pop_count := sq_pop_count s + 1 \<rparr>, Some v)
      | None \<Rightarrow> (s, None))"

definition spsc_size :: "('q, 't) ring_ops \<Rightarrow> 'q spsc_queue \<Rightarrow> nat" where
  "spsc_size ops s = rop_size ops (sq_queue s)"

text \<open>\<open>push_spin\<close> tries once and then once after each of at most \<open>max_spins\<close> yields.  What the
  consumer does to the queue during the yields is a list of functions on the wrapper, at most one
  for each yield.\<close>

fun spin_loop ::
  "('q, 't) ring_ops \<Rightarrow> ('q spsc_queue \<Rightarrow> 'q spsc_queue) list \<Rightarrow> 't \<Rightarrow> 'q spsc_queue \<Rightarrow>
   'q spsc_queue \<times> bool" where
  "spin_loop ops [] item s = (s\<lparr> sq_overflow_count := sq_overflow_count s + 1 \<rparr>, False)"
| "spin_loop ops (y # ys) item s =
     (let s1 = y s; (q, pushed_ok) = rop_try_push ops (sq_queue s1) item; s2 = s1\<lparr> sq_queue := q \<rparr>
      in if pushed_ok then (s2\<lparr> sq_push_count := sq_push_count s2 + 1 \<rparr>, True)
         else spin_loop ops ys item s2)"

definition push_spin ::
  "('q, 't) ring_ops \<Rightarrow> ('q spsc_queue \<Rightarrow> 'q spsc_queue) list \<Rightarrow> 't \<Rightarrow> 'q spsc_queue \<Rightarrow>
   'q spsc_queue \<times> bool" where
  "push_spin ops yields item s =
     (let (q, pushed_ok) = rop_try_push ops (sq_queue s) item; s1 = s\<lparr> sq_queue := q \<rparr>
      in if pushed_ok then (s1\<lparr> sq_push_count := sq_push_count s1 + 1 \<rparr>, True)
         else spin_loop ops yields item s1)"

subsection \<open>Sinks\<close>

datatype sink_result = SINK_ACCEPTED | SINK_OVERFLOW | NO_QUEUE | FILTERED

datatype execution_mode = DRY_RUN | LIVE_MODE

fun execution_mode_name :: "execution_mode \<Rightarrow> string" where
  "execution_mode_name DRY_RUN = ''DRY_RUN''"
| "execution_mode_name LIVE_MODE = ''LIVE''"

fun exec_intent_kind :: "intent_action \<Rightarrow> exec_intent_type" where
  "exec_intent_kind WOULD_PLACE_BID = PLACE_ORDER"
| "exec_intent_kind WOULD_PLACE_ASK = PLACE_ORDER"
| "exec_intent_kind WOULD_CANCEL_BID = CANCEL_ORDER"
| "exec_intent_kind WOULD_CANCEL_ASK = CANCEL_ORDER"
| "exec_intent_kind WOULD_CANCEL_ALL = CANCEL_ALL"

text \<open>\<open>WOULD_CANCEL_ALL\<close> leaves the side at its default, \<open>BID\<close>.\<close>

definition exec_intent_side :: "intent_action \<Rightarrow> side" where
  "exec_intent_side a = (if a = WOULD_PLACE_ASK \<or> a = WOULD_CANCEL_ASK then ASK else BID)"

definition to_exec_intent :: "execution_intent \<Rightarrow> exec_intent" where
  "to_exec_intent i =
     new_intent\<lparr> xi_asset_id := in_asset_id i, xi_intent_id := in_intent_id i,
       xi_created_ts := in_created_ts i, xi_recv_ts := in_recv_ts i, xi_price := in_price i,
       xi_size := in_qty i, xi_market_id := in_market_id i,
       xi_exchange_order_id := in_exchange_order_id i, xi_client_order_id := in_client_order_id i,
       xi_neg_risk := in_neg_risk i, xi_fee_rate_bps := in_fee_rate_bps i,
       xi_order_type := in_order_type i, xi_type := exec_intent_kind (in_action i),
       xi_side := exec_intent_side (in_action i) \<rparr>"

record exec_queue_sink =
  qs_intent_count :: int
  qs_overflow_count :: int

definition queue_sink_accept ::
  "exec_queue_sink \<Rightarrow> execution_intent \<Rightarrow> bool \<Rightarrow> exec_queue_sink \<times> sink_result \<times> exec_intent list" where
  "queue_sink_accept s i pushed =
     (if pushed
      then (s\<lparr> qs_intent_count := qs_intent_count s + 1 \<rparr>, SINK_ACCEPTED, [to_exec_intent i])
      else (s\<lparr> qs_overflow_count := qs_overflow_count s + 1 \<rparr>, SINK_OVERFLOW, []))"

record exec_intent_stub_sink =
  st_has_queue :: bool
  st_intent_count :: int
  st_feedback_count :: int
  st_overflow_count :: int
  st_next_feedback_seq :: nat

definition stub_sink_accept ::
  "exec_intent_stub_sink \<Rightarrow> execution_intent \<Rightarrow> timestamp \<Rightarrow> bool \<Rightarrow>
   exec_intent_stub_sink \<times> sink_result \<times> scheduler_event list" where
  "stub_sink_accept s i now pushed =
     (let s1 = s\<lparr> st_intent_count := st_intent_count s + 1 \<rparr>
      in if \<not> st_has_queue s then (s1, NO_QUEUE, [])
         else
           let fb = new_event\<lparr> ev_source := EXEC_INTERNAL, ev_kind := EXEC_ORDER_ACK,
                 ev_asset_id := in_asset_id i, ev_recv_ts := now, ev_seq := st_next_feedback_seq s1,
                 ev_intent_ref_id := in_intent_id i, ev_exec_accepted := True \<rparr>;
               s2 = s1\<lparr> st_next_feedback_seq := (st_next_feedback_seq s1 + 1) mod 2 ^ 32 \<rparr>
           in if pushed
              then (s2\<lparr> st_feedback_count := st_feedback_count s2 + 1 \<rparr>, SINK_ACCEPTED, [fb])
              else (s2\<lparr> st_overflow_count := st_overflow_count s2 + 1 \<rparr>, SINK_OVERFLOW, []))"

subsection \<open>Dry-run simulator\<close>

definition kMaxBuffered :: nat where "kMaxBuffered = 64"

record dry_run_simulator =
  dr_buffer :: "scheduler_event list"
  dr_head :: nat
  dr_tail :: nat
  dr_count :: nat
  dr_enabled :: bool
  dr_seq :: nat

definition new_dry_run_simulator :: dry_run_simulator where
  "new_dry_run_simulator =
     \<lparr> dr_buffer = replicate kMaxBuffered new_event, dr_head = 0, dr_tail = 0, dr_count = 0,
       dr_enabled = False, dr_seq = 0 \<rparr>"

definition dr_set_enabled :: "dry_run_simulator \<Rightarrow> bool \<Rightarrow> dry_run_simulator" where
  "dr_set_enabled d e = d\<lparr> dr_enabled := e \<rparr>"

definition is_cancel :: "intent_action \<Rightarrow> bool" where
  "is_cancel a \<longleftrightarrow> a = WOULD_CANCEL_BID \<or> a = WOULD_CANCEL_ASK"

definition simulated_feedback :: "nat \<Rightarrow> execution_intent \<Rightarrow> scheduler_event" where
  "simulated_feedback seq i =
     (let ev = new_event\<lparr> ev_source := EXEC_INTERNAL, ev_kind := EXEC_ORDER_ACK,
                 ev_exec_accepted := True, ev_client_order_id := in_client_order_id i,
                 ev_asset_id := in_asset_id i, ev_user_price := in_price i,
                 ev_user_original_size := in_qty i \<rparr>
      in if is_placement (in_action i)
         then ev\<lparr> ev_exec_feedback_kind := ORDER_ACCEPTED,
                  ev_order_id := OrderId (''sim-'' @ to_string seq) \<rparr>
         else ev\<lparr> ev_exec_feedback_kind := CANCEL_CONFIRMED, ev_order_id := in_exchange_order_id i \<rparr>)"

definition dr_on_intent :: "dry_run_simulator \<Rightarrow> execution_intent \<Rightarrow> dry_run_simulator" where
  "dr_on_intent d i =
     (if \<not> dr_enabled d then d
      else if dr_count d \<ge> kMaxBuffered then d
      else if \<not> is_placement (in_action i) \<and> \<not> is_cancel (in_action i) then d
      else
        d\<lparr> dr_seq := (if is_placement (in_action i) then (dr_seq d + 1) mod 2 ^ 32 else dr_seq d),
           dr_buffer := (dr_buffer d)[dr_tail d := simulated_feedback (dr_seq d) i],
           dr_tail := (dr_tail d + 1) mod kMaxBuffered,
           dr_count := dr_count d + 1 \<rparr>)"

definition dr_pop :: "dry_run_simulator \<Rightarrow> dry_run_simulator \<times> scheduler_event option" where
  "dr_pop d =
     (if dr_count d = 0 then (d, None)
      else (d\<lparr> dr_head := (dr_head d + 1) mod kMaxBuffered, dr_count := dr_count d - 1 \<rparr>,
            Some (dr_buffer d ! dr_head d)))"

definition dr_reset :: "dry_run_simulator \<Rightarrow> dry_run_simulator" where
  "dr_reset d = d\<lparr> dr_head := 0, dr_tail := 0, dr_count := 0 \<rparr>"

subsection \<open>Mode filter\<close>

text \<open>The wrapped sink: none, the queue to the gateway, or the stub.\<close>

datatype inner_sink = NoSink | QueueSink exec_queue_sink | StubSink exec_intent_stub_sink

text \<open>What a sink pushed: an intent for the gateway or a feedback event for the scheduler.\<close>

datatype sink_output = SentIntent exec_intent | SentFeedback scheduler_event

fun inner_accept ::
  "inner_sink \<Rightarrow> execution_intent \<Rightarrow> timestamp \<Rightarrow> bool \<Rightarrow> inner_sink \<times> sink_result \<times> sink_output list" where
  "inner_accept NoSink i now pushed = (NoSink, NO_QUEUE, [])"
| "inner_accept (QueueSink s) i now pushed =
     (case queue_sink_accept s i pushed of (s', r, out) \<Rightarrow> (QueueSink s', r, map SentIntent out))"
| "inner_accept (StubSink s) i now pushed =
     (case stub_sink_accept s i now pushed of (s', r, out) \<Rightarrow> (StubSink s', r, map SentFeedback out))"

record mode_filtered_sink =
  mf_inner :: inner_sink
  mf_mode :: execution_mode
  mf_dry_sim :: "dry_run_simulator option"
  mf_dry_run_logged :: int
  mf_mode_blocked :: int
  mf_forwarded :: int

definition new_mode_filtered_sink :: "inner_sink \<Rightarrow> execution_mode \<Rightarrow> mode_filtered_sink" where
  "new_mode_filtered_sink inner mode =
     \<lparr> mf_inner = inner, mf_mode = mode, mf_dry_sim = None, mf_dry_run_logged = 0,
       mf_mode_blocked = 0, mf_forwarded = 0 \<rparr>"

definition mf_set_mode :: "mode_filtered_sink \<Rightarrow> execution_mode \<Rightarrow> mode_filtered_sink" where
  "mf_set_mode m mode = m\<lparr> mf_mode := mode \<rparr>"

definition mf_forward ::
  "mode_filtered_sink \<Rightarrow> execution_intent \<Rightarrow> timestamp \<Rightarrow> bool \<Rightarrow>
   mode_filtered_sink \<times> sink_result \<times> sink_output list" where
  "mf_forward m i now pushed =
     (case inner_accept (mf_inner m) i now pushed of (inner, r, out) \<Rightarrow>
        (m\<lparr> mf_forwarded := mf_forwarded m + 1, mf_inner := inner \<rparr>, r, out))"

definition mf_accept ::
  "mode_filtered_sink \<Rightarrow> execution_intent \<Rightarrow> timestamp \<Rightarrow> bool \<Rightarrow>
   mode_filtered_sink \<times> sink_result \<times> sink_output list" where
  "mf_accept m i now pushed =
     (if in_action i = WOULD_CANCEL_ALL then mf_forward m i now pushed
      else
        (case mf_mode m of
           DRY_RUN \<Rightarrow>
             let m1 = m\<lparr> mf_dry_run_logged := mf_dry_run_logged m + 1 \<rparr>
             in (case mf_dry_sim m1 of
                   Some d \<Rightarrow> (m1\<lparr> mf_dry_sim := Some (dr_on_intent d i) \<rparr>, SINK_ACCEPTED, [])
                 | None \<Rightarrow> (m1, FILTERED, []))
         | LIVE_MODE \<Rightarrow> mf_forward m i now pushed))"

subsection \<open>Stubs\<close>

record strategy_stub =
  ss_emit_intents :: bool
  ss_invocation_count :: int
  ss_next_intent_id :: nat

definition strategy_stub_evaluate ::
  "strategy_stub \<Rightarrow> scheduler_event \<Rightarrow> timestamp \<Rightarrow> strategy_stub \<times> intent_batch" where
  "strategy_stub_evaluate s event ts =
     (let s1 = s\<lparr> ss_invocation_count := ss_invocation_count s + 1 \<rparr>; q = ev_bbo event
      in if \<not> ss_emit_intents s then (s1, [])
         else if ev_source event = MARKET_WS \<and> best_bid q \<noteq> kInvalidPrice \<and> best_ask q \<noteq> kInvalidPrice then
           let n = ss_next_intent_id s1;
               bid = new_execution_intent\<lparr> in_action := WOULD_PLACE_BID, in_asset_id := ev_asset_id event,
                 in_price := best_bid q, in_qty := 100, in_created_ts := ts, in_intent_id := n \<rparr>;
               ask = new_execution_intent\<lparr> in_action := WOULD_PLACE_ASK, in_asset_id := ev_asset_id event,
                 in_price := best_ask q, in_qty := 100, in_created_ts := ts,
                 in_intent_id := (n + 1) mod 2 ^ 32 \<rparr>
           in (s1\<lparr> ss_next_intent_id := (n + 2) mod 2 ^ 32 \<rparr>, batch_add (batch_add [] bid) ask)
         else (s1, []))"

record risk_gate_stub =
  rs_check_count :: int
  rs_allow_count :: int
  rs_deny_count :: int

definition risk_stub_evaluate :: "risk_gate_stub \<Rightarrow> execution_intent \<Rightarrow> risk_gate_stub \<times> risk_decision" where
  "risk_stub_evaluate g i =
     (g\<lparr> rs_check_count := rs_check_count g + 1, rs_allow_count := rs_allow_count g + 1 \<rparr>, ALLOW)"

fun kind_index :: "scheduler_event_kind \<Rightarrow> int" where
  "kind_index MARKET_BOOK_SNAPSHOT = 0"
| "kind_index MARKET_PRICE_CHANGE = 1"
| "kind_index MARKET_BBO_UPDATE = 2"
| "kind_index MARKET_TICK_SIZE_CHANGE = 3"
| "kind_index MARKET_LAST_TRADE = 4"
| "kind_index USER_ORDER_UPDATE = 5"
| "kind_index USER_TRADE_UPDATE = 6"
| "kind_index USER_BALANCE_UPDATE = 7"
| "kind_index EXEC_ORDER_ACK = 8"
| "kind_index EXEC_ORDER_REJECT = 9"
| "kind_index EXEC_FILL = 10"
| "kind_index CONTROL_SHUTDOWN = 11"
| "kind_index CONTROL_PAUSE = 12"
| "kind_index CONTROL_RESUME = 13"
| "kind_index CONTROL_CONFIG_UPDATE = 14"
| "kind_index CONTROL_CANCEL_ALL = 15"
| "kind_index CONTROL_SET_MODE = 16"
| "kind_index CONTROL_SET_SPREAD = 17"
| "kind_index CONTROL_SET_SIZE = 18"
| "kind_index CONTROL_ENABLE_STRATEGY = 19"
| "kind_index CONTROL_INVENTORY_SPLIT = 20"
| "kind_index CONTROL_INVENTORY_MERGE = 21"
| "kind_index CONTROL_INVENTORY_REDEEM = 22"
| "kind_index MARKET_NEW_MARKET = 23"
| "kind_index MARKET_RESOLVED = 24"
| "kind_index SLOT_ACTIVATED = 25"
| "kind_index SLOT_CLOSING = 26"
| "kind_index SLOT_PROMOTED = 27"
| "kind_index SLOT_DEMOTED = 28"
| "kind_index SLOT_REMOVED = 29"
| "kind_index CONTROL_START_SESSION = 30"
| "kind_index CONTROL_STOP_SESSION = 31"
| "kind_index CONTROL_LATENCY_PROBE = 32"
| "kind_index CONTROL_MARKET_SELL_ALL = 33"
| "kind_index CONTROL_MARKET_SELL_DOWN = 34"

record asset_scheduler_state =
  ast_last_seen_ts :: timestamp
  ast_event_count :: int
  ast_trigger_count :: int
  ast_last_bbo :: bbo

definition new_asset_scheduler_state :: asset_scheduler_state where
  "new_asset_scheduler_state =
     \<lparr> ast_last_seen_ts = 0, ast_event_count = 0, ast_trigger_count = 0, ast_last_bbo = empty_bbo \<rparr>"

definition kMaxTraceEntries :: nat where "kMaxTraceEntries = 1024"

record strategy_state_stub =
  sst_total_events :: int
  sst_cycle_count :: int
  sst_trigger_count :: int
  sst_source_counts :: "event_source \<Rightarrow> int"
  sst_kind_counts :: "scheduler_event_kind \<Rightarrow> int"
  sst_asset_states :: "asset_id \<rightharpoonup> asset_scheduler_state"
  sst_trace :: "(event_source \<times> scheduler_event_kind \<times> nat) list"
  sst_trace_enabled :: bool
  sst_strict_assets :: bool

definition new_strategy_state :: strategy_state_stub where
  "new_strategy_state =
     \<lparr> sst_total_events = 0, sst_cycle_count = 0, sst_trigger_count = 0, sst_source_counts = (\<lambda>_. 0),
       sst_kind_counts = (\<lambda>_. 0), sst_asset_states = Map.empty, sst_trace = [],
       sst_trace_enabled = False, sst_strict_assets = False \<rparr>"

definition touch_asset :: "scheduler_event \<Rightarrow> asset_scheduler_state \<Rightarrow> asset_scheduler_state" where
  "touch_asset ev a =
     (let a1 = a\<lparr> ast_last_seen_ts := ev_recv_ts ev, ast_event_count := ast_event_count a + 1 \<rparr>
      in if ev_source ev = MARKET_WS then a1\<lparr> ast_last_bbo := ev_bbo ev \<rparr> else a1)"

text \<open>The sources are the four of \<open>kEventSourceCount\<close>, so their bounds check always holds.\<close>

definition state_on_event :: "strategy_state_stub \<Rightarrow> scheduler_event \<Rightarrow> strategy_state_stub" where
  "state_on_event s ev =
     (let s1 = s\<lparr> sst_total_events := sst_total_events s + 1,
                  sst_source_counts := (sst_source_counts s)(ev_source ev := sst_source_counts s (ev_source ev) + 1) \<rparr>;
          s2 = (if kind_index (ev_kind ev) < kSchedulerEventKindCount
                then s1\<lparr> sst_kind_counts := (sst_kind_counts s1)(ev_kind ev := sst_kind_counts s1 (ev_kind ev) + 1) \<rparr>
                else s1);
          s3 = (if length (ev_asset_id ev) > 0 then
                  (case sst_asset_states s2 (ev_asset_id ev) of
                     Some a \<Rightarrow>
                       s2\<lparr> sst_asset_states := (sst_asset_states s2)(ev_asset_id ev \<mapsto> touch_asset ev a) \<rparr>
                   | None \<Rightarrow>
                       if sst_strict_assets s2 then s2
                       else s2\<lparr> sst_asset_states :=
                              (sst_asset_states s2)(ev_asset_id ev \<mapsto> touch_asset ev new_asset_scheduler_state) \<rparr>)
                else s2)
      in if sst_trace_enabled s3 \<and> length (sst_trace s3) < kMaxTraceEntries
         then s3\<lparr> sst_trace := sst_trace s3 @ [(ev_source ev, ev_kind ev, ev_seq ev)] \<rparr> else s3)"

definition events_by_kind :: "strategy_state_stub \<Rightarrow> scheduler_event_kind \<Rightarrow> int" where
  "events_by_kind s k = (if kind_index k \<ge> kSchedulerEventKindCount then 0 else sst_kind_counts s k)"

definition events_by_source :: "strategy_state_stub \<Rightarrow> event_source \<Rightarrow> int" where
  "events_by_source s src = sst_source_counts s src"

definition state_seed_asset :: "strategy_state_stub \<Rightarrow> asset_id \<Rightarrow> strategy_state_stub" where
  "state_seed_asset s a =
     (if sst_asset_states s a = None
      then s\<lparr> sst_asset_states := (sst_asset_states s)(a \<mapsto> new_asset_scheduler_state) \<rparr> else s)"

subsection \<open>The queue delivers what it accepted\<close>

text \<open>The documented behaviour of the ring: it holds a list of at most \<open>cap\<close> items; \<open>try_push\<close>
  appends unless it is full, \<open>front\<close> shows the oldest item, \<open>pop\<close> removes it.\<close>

definition ring_contract :: "('q, 't) ring_ops \<Rightarrow> ('q \<Rightarrow> 't list) \<Rightarrow> nat \<Rightarrow> bool" where
  "ring_contract ops elems cap \<longleftrightarrow>
     (\<forall>q x. case rop_try_push ops q x of (q', pushed_ok) \<Rightarrow>
        (pushed_ok \<longleftrightarrow> length (elems q) < cap) \<and> elems q' = (if pushed_ok then elems q @ [x] else elems q)) \<and>
     (\<forall>q. rop_front ops q = (case elems q of [] \<Rightarrow> None | x # _ \<Rightarrow> Some x)) \<and>
     (\<forall>q. elems q \<noteq> [] \<longrightarrow> elems (rop_pop ops q) = tl (elems q)) \<and>
     (\<forall>q. rop_size ops q = length (elems q))"

datatype 't queue_op = QPush 't | QPop

fun spsc_run ::
  "('q, 't) ring_ops \<Rightarrow> 'q spsc_queue \<Rightarrow> 't queue_op list \<Rightarrow> 'q spsc_queue \<times> 't list \<times> 't list" where
  "spsc_run ops s [] = (s, [], [])"
| "spsc_run ops s (QPush x # os) =
     (let (s1, pushed_ok) = spsc_try_push ops s x; (s2, acc, out) = spsc_run ops s1 os
      in (s2, (if pushed_ok then x # acc else acc), out))"
| "spsc_run ops s (QPop # os) =
     (let (s1, r) = spsc_try_pop ops s; (s2, acc, out) = spsc_run ops s1 os
      in (s2, acc, (case r of None \<Rightarrow> out | Some v \<Rightarrow> v # out)))"

fun is_push :: "'t queue_op \<Rightarrow> bool" where
  "is_push (QPush x) = True"
| "is_push QPop = False"

lemma ring_contract_push:
  assumes "ring_contract ops elems cap" "rop_try_push ops q x = (q', r)"
  shows "r \<longleftrightarrow> length (elems q) < cap" "elems q' = (if r then elems q @ [x] else elems q)"
proof -
  have "\<forall>q x. case rop_try_push ops q x of (q', r) \<Rightarrow>
      (r \<longleftrightarrow> length (elems q) < cap) \<and> elems q' = (if r then elems q @ [x] else elems q)"
    using assms(1) unfolding ring_contract_def by (rule conjunct1)
  from this [rule_format, of q x]
  show "r \<longleftrightarrow> length (elems q) < cap" "elems q' = (if r then elems q @ [x] else elems q)"
    unfolding assms(2) by simp_all
qed

lemma ring_contract_pop:
  assumes "ring_contract ops elems cap"
  shows "elems q = [] \<Longrightarrow> rop_front ops q = None"
    "elems q = x # xs \<Longrightarrow> rop_front ops q = Some x \<and> elems (rop_pop ops q) = xs"
  using assms unfolding ring_contract_def by auto

text \<open>One step: what is accepted goes in at the back, what is delivered comes out at the front.\<close>

definition queue_step ::
  "('q \<Rightarrow> 't list) \<Rightarrow> nat \<Rightarrow> 'q spsc_queue \<Rightarrow> 'q spsc_queue \<times> 't list \<times> 't list \<Rightarrow> nat \<Rightarrow> bool" where
  "queue_step elems cap s r pushes =
     (case r of (s', acc, out) \<Rightarrow>
        elems (sq_queue s) @ acc = out @ elems (sq_queue s') \<and>
        sq_push_count s' = sq_push_count s + int (length acc) \<and>
        sq_pop_count s' = sq_pop_count s + int (length out) \<and>
        sq_overflow_count s' + int (length acc) = sq_overflow_count s + int pushes \<and>
        (length (elems (sq_queue s)) \<le> cap \<longrightarrow> length (elems (sq_queue s')) \<le> cap))"

lemma queue_step_trans:
  assumes 1: "queue_step elems cap s (s1, acc1, out1) n1"
    and 2: "queue_step elems cap s1 (s2, acc2, out2) n2"
  shows "queue_step elems cap s (s2, acc1 @ acc2, out1 @ out2) (n1 + n2)"
proof -
  have "elems (sq_queue s) @ acc1 @ acc2 = (out1 @ elems (sq_queue s1)) @ acc2"
    using 1 by (simp add: queue_step_def flip: append_assoc)
  also have "\<dots> = (out1 @ out2) @ elems (sq_queue s2)" using 2 by (simp add: queue_step_def)
  finally show ?thesis using 1 2 by (auto simp: queue_step_def)
qed

lemma queue_step_push:
  assumes "ring_contract ops elems cap" "spsc_try_push ops s x = (s1, r)"
  shows "queue_step elems cap s (s1, if r then [x] else [], []) 1"
proof -
  obtain q r' where p: "rop_try_push ops (sq_queue s) x = (q, r')" by force
  note c = ring_contract_push [OF assms(1) p]
  have "r' = r" using assms(2) by (simp add: spsc_try_push_def p Let_def)
  with assms(2) c show ?thesis
    by (cases r) (auto simp: spsc_try_push_def p queue_step_def Let_def)
qed

lemma queue_step_pop:
  assumes "ring_contract ops elems cap" "spsc_try_pop ops s = (s1, r)"
  shows "queue_step elems cap s (s1, [], case r of None \<Rightarrow> [] | Some v \<Rightarrow> [v]) 0"
proof (cases "elems (sq_queue s)")
  case Nil
  with ring_contract_pop(1) [OF assms(1) Nil] assms(2) show ?thesis
    by (auto simp: spsc_try_pop_def queue_step_def)
next
  case (Cons x xs)
  note f = ring_contract_pop(2) [OF assms(1) Cons]
  have "s1 = s\<lparr> sq_queue := rop_pop ops (sq_queue s), sq_pop_count := sq_pop_count s + 1 \<rparr>" "r = Some x"
    using assms(2) f by (simp_all add: spsc_try_pop_def)
  with f Cons show ?thesis by (simp add: queue_step_def)
qed

lemma spsc_run_fifo:
  assumes "ring_contract ops elems cap"
  shows "queue_step elems cap s (spsc_run ops s os) (length (filter is_push os))"
proof (induction os arbitrary: s)
  case Nil
  then show ?case by (simp add: queue_step_def)
next
  case (Cons op os)
  show ?case
  proof (cases op)
    case (QPush x)
    obtain s1 r where s1: "spsc_try_push ops s x = (s1, r)" by force
    obtain s2 acc out where s2: "spsc_run ops s1 os = (s2, acc, out)" by (cases "spsc_run ops s1 os") auto
    show ?thesis
      using queue_step_trans [OF queue_step_push [OF assms s1] Cons.IH [of s1, unfolded s2]] QPush
      by (cases r) (simp_all add: s1 s2)
  next
    case QPop
    obtain s1 r where s1: "spsc_try_pop ops s = (s1, r)" by force
    obtain s2 acc out where s2: "spsc_run ops s1 os = (s2, acc, out)" by (cases "spsc_run ops s1 os") auto
    show ?thesis
      using queue_step_trans [OF queue_step_pop [OF assms s1] Cons.IH [of s1, unfolded s2]] QPop
      by (cases r) (simp_all add: s1 s2)
  qed
qed

subsection \<open>The simulator's ring is a bounded FIFO\<close>

definition ring_view :: "'a list \<Rightarrow> nat \<Rightarrow> nat \<Rightarrow> 'a list" where
  "ring_view buf h c = map (\<lambda>i. buf ! ((h + i) mod length buf)) [0..<c]"

lemma mod_add_inj:
  assumes "i < n" "j < n" "(h + i) mod n = (h + j) mod n"
  shows "i = (j::nat)"
proof -
  have "i mod n = j mod n" using assms(3) by (simp add: nat_mod_eq_iff)
  thus ?thesis using assms by simp
qed

lemma ring_view_push:
  assumes "c < length buf"
  shows "ring_view (buf[(h + c) mod length buf := x]) h (Suc c) = ring_view buf h c @ [x]"
proof -
  have "0 < length buf" using assms by linarith
  hence "(h + c) mod length buf < length buf" by (rule mod_less_divisor)
  moreover have "(h + i) mod length buf \<noteq> (h + c) mod length buf" if "i < c" for i
    using mod_add_inj [of i "length buf" c h] that assms by auto
  ultimately show ?thesis by (auto simp: ring_view_def) (metis nth_list_update_neq)
qed

lemma ring_view_pop:
  assumes "h < length buf"
  shows "ring_view buf h (Suc c) = buf ! h # ring_view buf ((h + 1) mod length buf) c"
  using assms
  by (simp add: ring_view_def upt_conv_Cons map_Suc_upt [symmetric] mod_simps del: upt_Suc)

definition dr_list :: "dry_run_simulator \<Rightarrow> scheduler_event list" where
  "dr_list d = ring_view (dr_buffer d) (dr_head d) (dr_count d)"

definition dr_inv :: "dry_run_simulator \<Rightarrow> bool" where
  "dr_inv d \<longleftrightarrow> length (dr_buffer d) = kMaxBuffered \<and> dr_head d < kMaxBuffered \<and>
     dr_count d \<le> kMaxBuffered \<and> dr_tail d = (dr_head d + dr_count d) mod kMaxBuffered"

text \<open>The simulator as a list of pending events.\<close>

definition sim_pending :: "bool \<Rightarrow> nat \<Rightarrow> scheduler_event list \<Rightarrow> execution_intent \<Rightarrow> scheduler_event list" where
  "sim_pending enabled seq evs i =
     (if enabled \<and> length evs < kMaxBuffered \<and> in_action i \<noteq> WOULD_CANCEL_ALL
      then evs @ [simulated_feedback seq i] else evs)"

lemma length_dr_list [simp]: "length (dr_list d) = dr_count d"
  by (simp add: dr_list_def ring_view_def)

lemma not_cancel_all: "\<not> is_placement a \<and> \<not> is_cancel a \<longleftrightarrow> a = WOULD_CANCEL_ALL"
  by (cases a) (simp_all add: is_placement_def is_cancel_def)

lemma dr_on_intent_list:
  assumes "dr_inv d"
  shows "dr_list (dr_on_intent d i) = sim_pending (dr_enabled d) (dr_seq d) (dr_list d) i"
    "dr_inv (dr_on_intent d i)"
proof -
  have "dr_count d < length (dr_buffer d) \<Longrightarrow>
      ring_view ((dr_buffer d)[dr_tail d := x]) (dr_head d) (Suc (dr_count d)) = dr_list d @ [x]" for x
    using ring_view_push [of "dr_count d" "dr_buffer d" "dr_head d" x] assms
    by (simp add: dr_inv_def dr_list_def)
  thus "dr_list (dr_on_intent d i) = sim_pending (dr_enabled d) (dr_seq d) (dr_list d) i"
    using assms unfolding dr_on_intent_def not_cancel_all
    by (auto simp: sim_pending_def dr_inv_def) (simp_all add: dr_list_def)
  show "dr_inv (dr_on_intent d i)"
    using assms by (auto simp: dr_on_intent_def dr_inv_def mod_simps)
qed

lemma dr_pop_list:
  assumes "dr_inv d"
  shows "dr_pop d = (d, None) \<and> dr_list d = [] \<or>
    (\<exists>d' e. dr_pop d = (d', Some e) \<and> dr_list d = e # dr_list d' \<and> dr_inv d' \<and>
       dr_enabled d' = dr_enabled d \<and> dr_seq d' = dr_seq d)"
proof (cases "dr_count d")
  case 0
  then show ?thesis by (simp add: dr_pop_def dr_list_def ring_view_def)
next
  case (Suc c)
  have "ring_view (dr_buffer d) (dr_head d) (Suc c) =
      dr_buffer d ! dr_head d # ring_view (dr_buffer d) ((dr_head d + 1) mod kMaxBuffered) c"
    using ring_view_pop [of "dr_head d" "dr_buffer d" c] assms by (simp add: dr_inv_def)
  moreover have "(Suc (dr_head d) mod kMaxBuffered + c) mod kMaxBuffered = (dr_head d + Suc c) mod kMaxBuffered"
    by (simp add: mod_simps)
  ultimately show ?thesis using assms Suc by (auto simp: dr_pop_def dr_list_def dr_inv_def kMaxBuffered_def)
qed

lemma dr_inv_new [simp]: "dr_inv new_dry_run_simulator" "dr_list new_dry_run_simulator = []"
  by (simp_all add: dr_inv_def new_dry_run_simulator_def dr_list_def ring_view_def kMaxBuffered_def)

datatype sim_op = SimIntent execution_intent | SimPop | SimReset | SimEnable bool

fun sim_step :: "dry_run_simulator \<Rightarrow> sim_op \<Rightarrow> dry_run_simulator \<times> scheduler_event list" where
  "sim_step d (SimIntent i) = (dr_on_intent d i, [])"
| "sim_step d SimPop = (case dr_pop d of (d', r) \<Rightarrow> (d', case r of None \<Rightarrow> [] | Some e \<Rightarrow> [e]))"
| "sim_step d SimReset = (dr_reset d, [])"
| "sim_step d (SimEnable b) = (dr_set_enabled d b, [])"

text \<open>The same operations on a plain list, a flag and a sequence number.\<close>

record sim_spec =
  sp_pending :: "scheduler_event list"
  sp_enabled :: bool
  sp_seq :: nat

fun spec_step :: "sim_spec \<Rightarrow> sim_op \<Rightarrow> sim_spec \<times> scheduler_event list" where
  "spec_step p (SimIntent i) =
     (let evs = sim_pending (sp_enabled p) (sp_seq p) (sp_pending p) i
      in (p\<lparr> sp_pending := evs,
             sp_seq := (if evs \<noteq> sp_pending p \<and> is_placement (in_action i)
                        then (sp_seq p + 1) mod 2 ^ 32 else sp_seq p) \<rparr>, []))"
| "spec_step p SimPop = (p\<lparr> sp_pending := tl (sp_pending p) \<rparr>, take 1 (sp_pending p))"
| "spec_step p SimReset = (p\<lparr> sp_pending := [] \<rparr>, [])"
| "spec_step p (SimEnable b) = (p\<lparr> sp_enabled := b \<rparr>, [])"

definition sim_abs :: "dry_run_simulator \<Rightarrow> sim_spec" where
  "sim_abs d = \<lparr> sp_pending = dr_list d, sp_enabled = dr_enabled d, sp_seq = dr_seq d \<rparr>"

lemma dr_on_intent_seq:
  "dr_enabled (dr_on_intent d i) = dr_enabled d"
  "dr_seq (dr_on_intent d i) =
     (if sim_pending (dr_enabled d) (dr_seq d) (dr_list d) i \<noteq> dr_list d \<and> is_placement (in_action i)
      then (dr_seq d + 1) mod 2 ^ 32 else dr_seq d)"
  unfolding dr_on_intent_def not_cancel_all by (auto simp: sim_pending_def is_placement_def)

lemma sim_step_refines:
  assumes "dr_inv d"
  shows "case sim_step d op of (d', out) \<Rightarrow> spec_step (sim_abs d) op = (sim_abs d', out) \<and> dr_inv d'"
proof (cases op)
  case (SimIntent i)
  with dr_on_intent_list [OF assms, of i] dr_on_intent_seq [of d i] show ?thesis
    by (simp add: sim_abs_def Let_def)
next
  case SimPop
  from dr_pop_list [OF assms] show ?thesis
  proof
    assume "dr_pop d = (d, None) \<and> dr_list d = []"
    with SimPop assms show ?thesis by (simp add: sim_abs_def)
  next
    assume "\<exists>d' e. dr_pop d = (d', Some e) \<and> dr_list d = e # dr_list d' \<and> dr_inv d' \<and>
       dr_enabled d' = dr_enabled d \<and> dr_seq d' = dr_seq d"
    with SimPop show ?thesis by (auto simp: sim_abs_def)
  qed
next
  case SimReset
  with assms show ?thesis
    by (simp add: sim_abs_def dr_reset_def dr_list_def ring_view_def dr_inv_def kMaxBuffered_def)
next
  case (SimEnable b)
  with assms show ?thesis by (simp add: sim_abs_def dr_set_enabled_def dr_list_def dr_inv_def)
qed

fun sim_run :: "dry_run_simulator \<Rightarrow> sim_op list \<Rightarrow> scheduler_event list" where
  "sim_run d [] = []"
| "sim_run d (op # ops) = (case sim_step d op of (d', out) \<Rightarrow> out @ sim_run d' ops)"

fun spec_run :: "sim_spec \<Rightarrow> sim_op list \<Rightarrow> scheduler_event list" where
  "spec_run p [] = []"
| "spec_run p (op # ops) = (case spec_step p op of (p', out) \<Rightarrow> out @ spec_run p' ops)"

lemma sim_run_refines: "dr_inv d \<Longrightarrow> sim_run d ops = spec_run (sim_abs d) ops"
proof (induction ops arbitrary: d)
  case Nil
  then show ?case by simp
next
  case (Cons op ops)
  obtain d' out where "sim_step d op = (d', out)" by force
  with sim_step_refines [OF Cons.prems, of op] Cons.IH [of d'] show ?case by simp
qed

subsection \<open>The sink interface\<close>

text \<open>What every \<open>ExecSink\<close> promises: a call sends at most one message, it sends nothing when the
  push fails, and it reports \<open>ACCEPTED\<close> whenever it has sent something.\<close>

locale exec_sink =
  fixes accept :: "'s \<Rightarrow> execution_intent \<Rightarrow> timestamp \<Rightarrow> bool \<Rightarrow> 's \<times> sink_result \<times> 'o list"
  assumes one_message: "accept s i now p = (s', r, out) \<Longrightarrow> length out \<le> 1"
    and sent_accepted: "accept s i now p = (s', r, out) \<Longrightarrow> out \<noteq> [] \<Longrightarrow> p \<and> r = SINK_ACCEPTED"
begin

fun accept_all ::
  "'s \<Rightarrow> (execution_intent \<times> timestamp \<times> bool) list \<Rightarrow> 's \<times> sink_result list \<times> 'o list" where
  "accept_all s [] = (s, [], [])"
| "accept_all s ((i, now, p) # calls) =
     (case accept s i now p of (s1, r, out) \<Rightarrow>
      case accept_all s1 calls of (s2, rs, outs) \<Rightarrow> (s2, r # rs, out @ outs))"

lemma sent_le_accepted:
  "accept_all s calls = (s', rs, outs) \<Longrightarrow> length outs \<le> length (filter (\<lambda>r. r = SINK_ACCEPTED) rs)"
proof (induction calls arbitrary: s s' rs outs)
  case Nil
  then show ?case by simp
next
  case (Cons c calls)
  obtain i now p where c: "c = (i, now, p)" by (cases c) auto
  obtain s1 r out where a: "accept s i now p = (s1, r, out)" by (cases "accept s i now p") auto
  obtain s2 rs2 outs2 where b: "accept_all s1 calls = (s2, rs2, outs2)" by (cases "accept_all s1 calls") auto
  have "rs = r # rs2" "outs = out @ outs2" using Cons.prems by (simp_all add: c a b)
  with Cons.IH [OF b] one_message [OF a] sent_accepted [OF a] show ?case by (cases out) auto
qed

end

lemma inner_accept_laws:
  assumes "inner_accept s i now p = (s', r, out)"
  shows "length out \<le> 1" "out \<noteq> [] \<Longrightarrow> p \<and> r = SINK_ACCEPTED"
  using assms
  by (cases s; auto simp: queue_sink_accept_def stub_sink_accept_def Let_def split: if_splits)+

interpretation inner: exec_sink inner_accept
  by unfold_locales (auto dest: inner_accept_laws)

lemma mf_accept_laws:
  assumes "mf_accept m i now p = (m', r, out)"
  shows "length out \<le> 1" "out \<noteq> [] \<Longrightarrow> p \<and> r = SINK_ACCEPTED"
proof -
  obtain inner r' out' where i: "inner_accept (mf_inner m) i now p = (inner, r', out')"
    by (cases "inner_accept (mf_inner m) i now p") auto
  note laws = inner_accept_laws [OF i]
  show "length out \<le> 1" "out \<noteq> [] \<Longrightarrow> p \<and> r = SINK_ACCEPTED"
    using assms laws
    by (auto simp: mf_accept_def mf_forward_def i Let_def split: if_splits execution_mode.splits option.splits)
qed

interpretation filtered: exec_sink mf_accept
  by unfold_locales (auto dest: mf_accept_laws)

text \<open>In DRY_RUN mode the filter stays in that mode and forwards \<open>CANCEL_ALL\<close> only.\<close>

fun sends_only :: "exec_intent_type \<Rightarrow> sink_output \<Rightarrow> bool" where
  "sends_only t (SentIntent x) = (xi_type x = t)"
| "sends_only t (SentFeedback ev) = True"

lemma inner_accept_type:
  "inner_accept s i now p = (s', r, out) \<Longrightarrow> list_all (sends_only (exec_intent_kind (in_action i))) out"
  by (cases s)
    (auto simp: queue_sink_accept_def to_exec_intent_def new_intent_def list_all_iff split: if_splits prod.splits)

lemma mf_forward_mode:
  "mf_forward m i now p = (m', r, out) \<Longrightarrow> mf_mode m' = mf_mode m"
  by (auto simp: mf_forward_def split: prod.splits)

lemma dry_run_accept:
  assumes "mf_accept m i now p = (m', r, out)" "mf_mode m = DRY_RUN"
  shows "mf_mode m' = DRY_RUN" "list_all (sends_only CANCEL_ALL) out"
  using assms inner_accept_type [of "mf_inner m" i now p]
  by (auto simp: mf_accept_def mf_forward_def Let_def split: if_splits option.splits prod.splits)

lemma dry_run_accept_all:
  "filtered.accept_all m calls = (m', rs, outs) \<Longrightarrow> mf_mode m = DRY_RUN \<Longrightarrow> list_all (sends_only CANCEL_ALL) outs"
proof (induction calls arbitrary: m m' rs outs)
  case Nil
  then show ?case by simp
next
  case (Cons c calls)
  obtain i now p where c: "c = (i, now, p)" by (cases c) auto
  obtain m1 r out where a: "mf_accept m i now p = (m1, r, out)" by (cases "mf_accept m i now p") auto
  obtain m2 rs2 outs2 where b: "filtered.accept_all m1 calls = (m2, rs2, outs2)"
    by (cases "filtered.accept_all m1 calls") auto
  have "outs = out @ outs2" using Cons.prems by (simp add: c a b)
  with Cons.IH [OF b] dry_run_accept [OF a Cons.prems(2)] show ?case by simp
qed

subsection \<open>Properties\<close>

text \<open>The mode filter over a sequence of intents, with the clock and the outcome of the push.\<close>

fun mf_accept_all ::
  "mode_filtered_sink \<Rightarrow> (execution_intent \<times> timestamp \<times> bool) list \<Rightarrow>
   mode_filtered_sink \<times> sink_result list \<times> sink_output list" where
  "mf_accept_all m [] = (m, [], [])"
| "mf_accept_all m ((i, now, p) # calls) =
     (case mf_accept m i now p of (m1, r, out) \<Rightarrow>
      case mf_accept_all m1 calls of (m2, rs, outs) \<Rightarrow> (m2, r # rs, out @ outs))"

lemma mf_accept_all_eq: "filtered.accept_all m calls = mf_accept_all m calls"
  by (induction m calls rule: mf_accept_all.induct) (simp_all split: prod.splits)

text \<open>In DRY_RUN mode, whatever intents the strategy produces and whatever the wrapped sink is,
  every message that reaches the execution queue is a CANCEL_ALL: no order is placed and no single
  order is cancelled.\<close>

theorem dry_run_sends_no_orders:
  assumes "mf_mode m = DRY_RUN"
  shows "case mf_accept_all m calls of (m', rs, outs) \<Rightarrow>
    \<forall>x. SentIntent x \<in> set outs \<longrightarrow> xi_type x = CANCEL_ALL"
proof -
  obtain m' rs outs where r: "mf_accept_all m calls = (m', rs, outs)"
    by (cases "mf_accept_all m calls") auto
  have "list_all (sends_only CANCEL_ALL) outs"
    using dry_run_accept_all [of m calls m' rs outs] r assms by (simp add: mf_accept_all_eq)
  thus ?thesis by (fastforce simp: r list_all_iff)
qed

theorem dry_run_sends_no_orders_witness:
  "let m = new_mode_filtered_sink (QueueSink \<lparr> qs_intent_count = 0, qs_overflow_count = 0 \<rparr>) DRY_RUN;
       calls = [(new_execution_intent, 1, True), (new_execution_intent\<lparr> in_action := WOULD_CANCEL_ALL \<rparr>, 2, True)]
   in length (snd (snd (mf_accept_all m calls))) = 1 \<and>
      (case mf_accept_all m calls of (m', rs, outs) \<Rightarrow>
         \<forall>x. SentIntent x \<in> set outs \<longrightarrow> xi_type x = CANCEL_ALL)"
proof -
  let ?m = "new_mode_filtered_sink (QueueSink \<lparr> qs_intent_count = 0, qs_overflow_count = 0 \<rparr>) DRY_RUN"
  have "mf_mode ?m = DRY_RUN" by (simp add: new_mode_filtered_sink_def)
  from dry_run_sends_no_orders [OF this] show ?thesis
    by (simp add: Let_def mf_accept_def mf_forward_def new_mode_filtered_sink_def new_execution_intent_def
        queue_sink_accept_def to_exec_intent_def new_intent_def)
qed

text \<open>A sink never sends without reporting it: over any sequence of intents the number of
  messages sent is at most the number of calls that returned ACCEPTED.\<close>

theorem sink_reports_every_message:
  "case mf_accept_all m calls of (m', rs, outs) \<Rightarrow>
     length rs = length calls \<and> length outs \<le> length (filter (\<lambda>r. r = SINK_ACCEPTED) rs)"
proof -
  obtain m' rs outs where r: "mf_accept_all m calls = (m', rs, outs)"
    by (cases "mf_accept_all m calls") auto
  have "length rs = length calls" using r
    by (induction m calls arbitrary: m' rs outs rule: mf_accept_all.induct) (auto split: prod.splits)
  thus ?thesis using filtered.sent_le_accepted [of m calls m' rs outs] r by (simp add: mf_accept_all_eq)
qed

text \<open>The ring buffer of the dry-run simulator, with its head, tail and count, produces for
  every sequence of intents, pops, resets and switches the events of a plain list of at most 64
  pending events.\<close>

theorem simulator_ring_is_fifo:
  "sim_run new_dry_run_simulator ops =
   spec_run \<lparr> sp_pending = [], sp_enabled = False, sp_seq = 0 \<rparr> ops"
  using sim_run_refines [OF dr_inv_new(1), of ops] dr_inv_new(2)
  by (simp add: sim_abs_def new_dry_run_simulator_def)

text \<open>Over a ring that behaves as documented, the queue wrapper delivers exactly the items whose
  push succeeded, in the order of the pushes, never holds more than its capacity, and its three
  counters are the numbers of accepted, delivered and refused items.\<close>

theorem spsc_delivers_accepted_in_order:
  assumes "ring_contract rops elems cap" "elems q0 = []"
  shows "case spsc_run rops (new_spsc_queue q0) ops of (s, accepted, delivered) \<Rightarrow>
    accepted = delivered @ elems (sq_queue s) \<and>
    sq_push_count s = int (length accepted) \<and> sq_pop_count s = int (length delivered) \<and>
    sq_overflow_count s + int (length accepted) = int (length (filter is_push ops)) \<and>
    length (elems (sq_queue s)) \<le> cap"
  using spsc_run_fifo [OF assms(1), of "new_spsc_queue q0" ops] assms(2)
  by (auto simp: queue_step_def new_spsc_queue_def)

definition list_ring :: "nat \<Rightarrow> ('t list, 't) ring_ops" where
  "list_ring cap =
     \<lparr> rop_try_push = (\<lambda>q x. if length q < cap then (q @ [x], True) else (q, False)),
       rop_front = (\<lambda>q. case q of [] \<Rightarrow> None | x # _ \<Rightarrow> Some x),
       rop_pop = tl, rop_size = length \<rparr>"

theorem spsc_delivers_accepted_in_order_witness:
  "case spsc_run (list_ring 1) (new_spsc_queue []) [QPush (5::nat), QPush 6, QPop, QPush 7] of
     (s, accepted, delivered) \<Rightarrow>
    accepted = [5, 7] \<and> accepted = delivered @ sq_queue s \<and>
    sq_push_count s = int (length accepted) \<and> sq_pop_count s = int (length delivered) \<and>
    sq_overflow_count s + int (length accepted) =
      int (length (filter is_push [QPush (5::nat), QPush 6, QPop, QPush 7])) \<and>
    length (sq_queue s) \<le> 1"
proof -
  have c: "ring_contract (list_ring 1) (\<lambda>q. q :: nat list) 1"
    by (simp add: ring_contract_def list_ring_def)
  show ?thesis
    using spsc_delivers_accepted_in_order [OF c, of "[]" "[QPush 5, QPush 6, QPop, QPush 7]"]
    by (simp add: list_ring_def new_spsc_queue_def spsc_try_push_def spsc_try_pop_def)
qed

end
