(* ===== verification/Crypto_Encoding.thy ===== *)
theory Crypto_Encoding
  imports Price "HOL-Library.Word"
begin

section \<open>Hex strings, 256-bit integers and EIP-712 messages\<close>

text \<open>
  src/src/crypto/hex_utils.h, src/src/crypto/hex_utils.cpp and src/src/crypto/eip712.cpp.  Bytes are
  8-bit words, buffers are lists of them, and the arithmetic of the loops keeps the widths of the
  code: a product of a byte and ten plus a carry is a 16-bit word.  Keccak-256 is third-party code
  and a parameter of the definitions that hash.  The lemmas: hex encoding and decoding are inverse;
  the long multiplication of \<open>decimal_to_uint256\<close> computes the value of the decimal string and
  reports exactly the strings that do not fit; the message that is hashed for an order determines
  all the fields of the order.
\<close>

type_synonym byte = "8 word"
type_synonym bytes = "byte list"

definition kHexChars :: string where "kHexChars = ''0123456789abcdef''"

definition hex_pair :: "byte \<Rightarrow> string" where
  "hex_pair b = [kHexChars ! unat (drop_bit 4 b), kHexChars ! unat (b AND 0x0F)]"

definition hex_encode :: "bytes \<Rightarrow> string" where
  "hex_encode data = concat (map hex_pair data)"

definition char_code :: "char \<Rightarrow> nat" where
  "char_code c = of_char c"

definition hex_nibble :: "char \<Rightarrow> byte option" where
  "hex_nibble ch =
     (let n = char_code ch
      in if 48 \<le> n \<and> n \<le> 57 then Some (of_nat (n - 48))
         else if 97 \<le> n \<and> n \<le> 102 then Some (of_nat (n - 97 + 10))
         else if 65 \<le> n \<and> n \<le> 70 then Some (of_nat (n - 65 + 10))
         else None)"

definition strip_0x :: "string \<Rightarrow> string" where
  "strip_0x hex =
     (if length hex \<ge> 2 \<and> hex ! 0 = CHR ''0'' \<and> (hex ! 1 = CHR ''x'' \<or> hex ! 1 = CHR ''X'')
      then drop 2 hex else hex)"

fun decode_pairs :: "string \<Rightarrow> bytes option" where
  "decode_pairs (h # l # rest) =
     (case hex_nibble h of
        None \<Rightarrow> None
      | Some hi \<Rightarrow>
          (case hex_nibble l of
             None \<Rightarrow> None
           | Some lo \<Rightarrow>
               (case decode_pairs rest of
                  None \<Rightarrow> None
                | Some bs \<Rightarrow> Some ((push_bit 4 hi OR lo) # bs))))"
| "decode_pairs _ = Some []"

text \<open>\<open>hex_decode\<close> returns the number of bytes written, 0 on an error; the bytes written before an
  invalid digit stay in the buffer and are not used by any caller, which all test the count.  The
  model returns the buffer with the count, and \<open>[]\<close> with 0 for an error.\<close>

definition hex_decode :: "string \<Rightarrow> nat \<Rightarrow> bytes" where
  "hex_decode hex max_len =
     (let h = strip_0x hex
      in if length h mod 2 \<noteq> 0 then []
         else if length h div 2 > max_len then []
         else case decode_pairs h of None \<Rightarrow> [] | Some bs \<Rightarrow> bs)"

definition hex_decode_to_bytes32 :: "string \<Rightarrow> bytes option" where
  "hex_decode_to_bytes32 hex =
     (let bs = hex_decode hex 32 in if length bs = 32 then Some bs else None)"

definition parse_eth_address :: "string \<Rightarrow> bytes option" where
  "parse_eth_address hex =
     (let bs = hex_decode hex 20 in if length bs = 20 then Some bs else None)"

text \<open>The inner loop of \<open>decimal_to_uint256\<close> runs from the last byte to the first: on the reversed
  buffer it is a left-to-right pass with a 16-bit carry.\<close>

fun mul10_add :: "bytes \<Rightarrow> 16 word \<Rightarrow> bytes \<times> 16 word" where
  "mul10_add [] carry = ([], carry)"
| "mul10_add (b # bs) carry =
     (let val = ucast b * 10 + carry;
          (rest, c) = mul10_add bs (drop_bit 8 val)
      in (ucast (val AND 0xFF) # rest, c))"

definition mul10_add_be :: "bytes \<Rightarrow> 16 word \<Rightarrow> bytes \<times> 16 word" where
  "mul10_add_be out carry = (case mul10_add (rev out) carry of (r, c) \<Rightarrow> (rev r, c))"

fun decimal_loop :: "string \<Rightarrow> bytes \<Rightarrow> bytes \<times> bool" where
  "decimal_loop [] out = (out, True)"
| "decimal_loop (c # cs) out =
     (if char_code c < 48 \<or> char_code c > 57 then (out, False)
      else
        let (out', carry) = mul10_add_be out (of_nat (char_code c - 48))
        in if carry \<noteq> 0 then (out', False) else decimal_loop cs out')"

definition decimal_to_uint256 :: "string \<Rightarrow> bytes \<times> bool" where
  "decimal_to_uint256 decimal =
     (if decimal = [] then (replicate 32 0, False) else decimal_loop decimal (replicate 32 0))"

primrec be_bytes :: "nat \<Rightarrow> 64 word \<Rightarrow> bytes" where
  "be_bytes 0 val = []"
| "be_bytes (Suc n) val = be_bytes n (drop_bit 8 val) @ [ucast (val AND 0xFF)]"

definition uint64_to_uint256_be :: "64 word \<Rightarrow> bytes" where
  "uint64_to_uint256_be val = replicate 24 0 @ be_bytes 8 val"

definition address_to_bytes32 :: "bytes \<Rightarrow> bytes" where
  "address_to_bytes32 addr = replicate 12 0 @ addr"

definition string_bytes :: "string \<Rightarrow> bytes" where
  "string_bytes s = map (\<lambda>c. of_nat (char_code c)) s"

definition hash_nibble :: "bytes \<Rightarrow> nat \<Rightarrow> byte" where
  "hash_nibble h i = drop_bit (if i mod 2 = 0 then 4 else 0) (h ! (i div 2)) AND 0x0F"

definition eip55_checksum :: "(bytes \<Rightarrow> bytes) \<Rightarrow> bytes \<Rightarrow> string" where
  "eip55_checksum keccak256 addr =
     (let hex_lower = hex_encode addr; h = keccak256 (string_bytes hex_lower)
      in ''0x'' @
         map (\<lambda>i. let c = hex_lower ! i
                  in if 97 \<le> char_code c \<and> char_code c \<le> 102 \<and> hash_nibble h i \<ge> 8
                     then char_of (char_code c - 32) else c) [0..<40])"

subsection \<open>EIP-712\<close>

record order_fields =
  of_salt :: bytes
  of_maker :: bytes
  of_signer :: bytes
  of_taker :: bytes
  of_token_id :: bytes
  of_maker_amount :: bytes
  of_taker_amount :: bytes
  of_expiration :: "64 word"
  of_nonce :: "64 word"
  of_fee_rate_bps :: "64 word"
  of_side :: byte
  of_signature_type :: byte

definition order_type_string :: string where
  "order_type_string = concat
     [''Order(uint256 salt,address maker,address signer,address taker,'',
      ''uint256 tokenId,uint256 makerAmount,uint256 takerAmount,'',
      ''uint256 expiration,uint256 nonce,uint256 feeRateBps,'',
      ''uint8 side,uint8 signatureType)'']"

definition domain_type_string :: string where
  "domain_type_string =
     ''EIP712Domain(string name,string version,uint256 chainId,address verifyingContract)''"

definition ORDER_TYPEHASH :: "(bytes \<Rightarrow> bytes) \<Rightarrow> bytes" where
  "ORDER_TYPEHASH keccak256 = keccak256 (string_bytes order_type_string)"

definition DOMAIN_TYPEHASH :: "(bytes \<Rightarrow> bytes) \<Rightarrow> bytes" where
  "DOMAIN_TYPEHASH keccak256 = keccak256 (string_bytes domain_type_string)"

definition POLYGON_CHAIN_ID :: "64 word" where "POLYGON_CHAIN_ID = 137"

definition CTF_EXCHANGE_ADDRESS :: bytes where
  "CTF_EXCHANGE_ADDRESS =
     [0x4b, 0xFb, 0x41, 0xd5, 0xB3, 0x57, 0x0D, 0xeF, 0xd0, 0x3C,
      0x39, 0xa9, 0xA4, 0xD8, 0xdE, 0x6B, 0xd8, 0xB8, 0x98, 0x2E]"

definition NEG_RISK_CTF_EXCHANGE_ADDRESS :: bytes where
  "NEG_RISK_CTF_EXCHANGE_ADDRESS =
     [0xC5, 0xd5, 0x63, 0xA3, 0x6A, 0xE7, 0x81, 0x45, 0xC4, 0x5a,
      0x50, 0x13, 0x4d, 0x48, 0xA1, 0x21, 0x52, 0x20, 0xf8, 0x0a]"

definition compute_domain_separator :: "(bytes \<Rightarrow> bytes) \<Rightarrow> bytes \<Rightarrow> 64 word \<Rightarrow> bytes" where
  "compute_domain_separator keccak256 exchange_address chain_id =
     keccak256 (DOMAIN_TYPEHASH keccak256 @
                keccak256 (string_bytes ''Polymarket CTF Exchange'') @
                keccak256 (string_bytes ''1'') @
                uint64_to_uint256_be chain_id @
                address_to_bytes32 exchange_address)"

definition order_struct_bytes :: "bytes \<Rightarrow> order_fields \<Rightarrow> bytes" where
  "order_struct_bytes typehash f =
     typehash @ of_salt f @ address_to_bytes32 (of_maker f) @ address_to_bytes32 (of_signer f) @
     address_to_bytes32 (of_taker f) @ of_token_id f @ of_maker_amount f @ of_taker_amount f @
     uint64_to_uint256_be (of_expiration f) @ uint64_to_uint256_be (of_nonce f) @
     uint64_to_uint256_be (of_fee_rate_bps f) @
     (replicate 31 0 @ [of_side f]) @ (replicate 31 0 @ [of_signature_type f])"

definition hash_order_struct :: "(bytes \<Rightarrow> bytes) \<Rightarrow> order_fields \<Rightarrow> bytes" where
  "hash_order_struct keccak256 f = keccak256 (order_struct_bytes (ORDER_TYPEHASH keccak256) f)"

definition eip712_signing_hash :: "(bytes \<Rightarrow> bytes) \<Rightarrow> bytes \<Rightarrow> bytes \<Rightarrow> bytes" where
  "eip712_signing_hash keccak256 domain_sep struct_hash =
     keccak256 ([0x19, 0x01] @ domain_sep @ struct_hash)"

subsection \<open>Hex encoding and decoding\<close>

lemma hex_nibble_char: "n < 16 \<Longrightarrow> hex_nibble (kHexChars ! n) = Some (of_nat n)"
proof -
  have "\<forall>n \<in> set [0..<16]. hex_nibble (kHexChars ! n) = Some (of_nat n)" by code_simp
  thus "n < 16 \<Longrightarrow> hex_nibble (kHexChars ! n) = Some (of_nat n)" by simp
qed

lemma hex_char_not_x: "n < 16 \<Longrightarrow> kHexChars ! n \<noteq> CHR ''x'' \<and> kHexChars ! n \<noteq> CHR ''X''"
  using hex_nibble_char [of n] by (auto simp: hex_nibble_def char_code_def)

lemma and_0F: "b AND 0x0F = take_bit 4 (b::byte)"
  by (simp add: take_bit_eq_mask mask_eq_exp_minus_1)

lemma byte_nibbles:
  "unat (drop_bit 4 (b::byte)) < 16" "unat (b AND 0x0F) < 16"
  "push_bit 4 (drop_bit 4 b) OR (b AND 0x0F) = b"
proof -
  have "unat b < 256" using unsigned_less [of b, where ?'a = nat] by simp
  thus "unat (drop_bit 4 b) < 16" unfolding unat_drop_bit_eq by (simp add: drop_bit_eq_div)
  show "unat (b AND 0x0F) < 16" unfolding and_0F unsigned_take_bit_eq by (simp add: take_bit_eq_mod)
  show "push_bit 4 (drop_bit 4 b) OR (b AND 0x0F) = b"
    unfolding and_0F by (rule bit_eqI) (auto simp: bit_simps)
qed

lemma decode_hex_pair:
  "decode_pairs (hex_pair b @ rest) = map_option ((#) b) (decode_pairs rest)"
  using hex_nibble_char [OF byte_nibbles(1) [of b]] hex_nibble_char [OF byte_nibbles(2) [of b]]
    byte_nibbles(3) [of b]
  by (simp add: hex_pair_def split: option.splits)

lemma decode_hex_encode: "decode_pairs (hex_encode bs) = Some bs"
proof (induction bs)
  case Nil
  then show ?case by (simp add: hex_encode_def)
next
  case (Cons b bs)
  then show ?case using decode_hex_pair [of b "hex_encode bs"] by (simp add: hex_encode_def)
qed

lemma length_hex_encode: "length (hex_encode bs) = 2 * length bs"
  by (induction bs) (simp_all add: hex_encode_def hex_pair_def)

lemma strip_0x_hex_encode: "strip_0x (hex_encode bs) = hex_encode bs"
proof (cases bs)
  case (Cons b rest)
  have "hex_encode bs ! 1 \<noteq> CHR ''x''" "hex_encode bs ! 1 \<noteq> CHR ''X''"
    using hex_char_not_x [OF byte_nibbles(2) [of b]] Cons by (simp_all add: hex_encode_def hex_pair_def)
  thus ?thesis by (simp add: strip_0x_def)
qed (simp add: hex_encode_def strip_0x_def)

text \<open>Lower-casing the digits \<open>A\<close> to \<open>F\<close>.\<close>

definition lower_hex :: "char \<Rightarrow> char" where
  "lower_hex c = (if 65 \<le> char_code c \<and> char_code c \<le> 70 then char_of (char_code c + 32) else c)"

lemma hex_chars:
  "k < 10 \<Longrightarrow> kHexChars ! k = char_of (48 + k)" "k < 6 \<Longrightarrow> kHexChars ! (10 + k) = char_of (97 + k)"
proof -
  have "\<forall>k \<in> set [0..<10]. kHexChars ! k = char_of (48 + k)"
    "\<forall>k \<in> set [0..<6]. kHexChars ! (10 + k) = char_of (97 + k)" by code_simp+
  thus "k < 10 \<Longrightarrow> kHexChars ! k = char_of (48 + k)" "k < 6 \<Longrightarrow> kHexChars ! (10 + k) = char_of (97 + k)"
    by simp_all
qed

lemma unat_byte_of_nat: "n < 256 \<Longrightarrow> unat (of_nat n :: byte) = n"
  by (simp add: unsigned_of_nat take_bit_nat_eq_self)

lemma hex_nibble_inv:
  assumes "hex_nibble c = Some v"
  shows "unat v < 16 \<and> kHexChars ! unat v = lower_hex c"
proof -
  let ?n = "char_code c"
  have c: "char_of ?n = c" by (simp add: char_code_def)
  consider "48 \<le> ?n" "?n \<le> 57" "v = of_nat (?n - 48)" | "97 \<le> ?n" "?n \<le> 102" "v = of_nat (?n - 97 + 10)"
    | "65 \<le> ?n" "?n \<le> 70" "v = of_nat (?n - 65 + 10)"
    using assms by (auto simp: hex_nibble_def Let_def split: if_splits)
  thus ?thesis
  proof cases
    case 1
    hence "unat v = ?n - 48" using unat_byte_of_nat [of "?n - 48"] by (simp only:)
    with 1 hex_chars(1) [of "?n - 48"] c show ?thesis by (simp add: lower_hex_def)
  next
    case 2
    hence "unat v = 10 + (?n - 97)" using unat_byte_of_nat [of "?n - 97 + 10"] by (simp only:)
    with 2 hex_chars(2) [of "?n - 97"] c show ?thesis by (simp add: lower_hex_def)
  next
    case 3
    hence "unat v = 10 + (?n - 65)" using unat_byte_of_nat [of "?n - 65 + 10"] by (simp only:)
    with 3 hex_chars(2) [of "?n - 65"] show ?thesis by (simp add: lower_hex_def)
  qed
qed

lemma nibbles_of_pair:
  assumes "unat (hi::byte) < 16" "unat (lo::byte) < 16"
  shows "drop_bit 4 (push_bit 4 hi OR lo) = hi" "(push_bit 4 hi OR lo) AND 0x0F = lo"
proof -
  have t: "take_bit 4 hi = hi" "take_bit 4 lo = lo"
    using assms by (simp_all add: word_eq_iff_unsigned [where ?'a = nat] unsigned_take_bit_eq take_bit_nat_eq_self)
  have hi: "\<And>n. bit hi n \<Longrightarrow> n < 4" and lo: "\<And>n. bit lo n \<Longrightarrow> n < 4"
    using t by (metis bit_take_bit_iff)+
  show "drop_bit 4 (push_bit 4 hi OR lo) = hi"
    by (rule bit_eqI) (auto simp: bit_simps dest: hi lo)
  show "(push_bit 4 hi OR lo) AND 0x0F = lo"
    unfolding and_0F by (rule bit_eqI) (auto simp: bit_simps dest: hi lo)
qed

lemma encode_decode_pairs:
  "decode_pairs h = Some bs \<Longrightarrow> even (length h) \<Longrightarrow> hex_encode bs = map lower_hex h"
proof (induction h arbitrary: bs rule: decode_pairs.induct)
  case (1 h l rest)
  obtain hi lo bs' where d: "hex_nibble h = Some hi" "hex_nibble l = Some lo" "decode_pairs rest = Some bs'"
      "bs = (push_bit 4 hi OR lo) # bs'"
    using "1.prems"(1) by (auto split: option.splits)
  have "hex_encode bs' = map lower_hex rest" using "1.IH" [OF d(1,2,3)] "1.prems"(2) by simp
  moreover have "hex_pair (push_bit 4 hi OR lo) = [lower_hex h, lower_hex l]"
    using hex_nibble_inv [OF d(1)] hex_nibble_inv [OF d(2)] nibbles_of_pair [of hi lo]
    by (simp add: hex_pair_def)
  ultimately show ?case by (simp add: d(4) hex_encode_def)
qed (simp_all add: hex_encode_def)

subsection \<open>Long multiplication\<close>

fun le_value :: "bytes \<Rightarrow> nat" where
  "le_value [] = 0"
| "le_value (b # bs) = unat b + 256 * le_value bs"

definition be_value :: "bytes \<Rightarrow> nat" where
  "be_value bs = le_value (rev bs)"

lemma le_value_append: "le_value (xs @ ys) = le_value xs + 256 ^ length xs * le_value ys"
  by (induction xs) (simp_all add: algebra_simps)

lemma le_value_bound: "le_value bs < 256 ^ length bs"
proof (induction bs)
  case Nil
  then show ?case by simp
next
  case (Cons b bs)
  have "unat b < 256" using unsigned_less [of b, where ?'a = nat] by simp
  with Cons show ?case by simp
qed

lemma le_value_inj: "length xs = length ys \<Longrightarrow> le_value xs = le_value ys \<Longrightarrow> xs = ys"
proof (induction xs ys rule: list_induct2)
  case Nil
  then show ?case by simp
next
  case (Cons x xs y ys)
  have u: "unat x < 256" "unat y < 256"
    using unsigned_less [of x, where ?'a = nat] unsigned_less [of y, where ?'a = nat] by simp_all
  have "unat x = (unat x + 256 * le_value xs) mod 256" using u by simp
  also have "\<dots> = unat y" using Cons.prems u by simp
  finally have "x = y" by (simp add: word_eq_iff_unsigned [where ?'a = nat])
  with Cons show ?case by simp
qed

lemma mul10_step:
  fixes b :: byte and carry :: "16 word"
  assumes "unat carry < 10"
  defines "v \<equiv> ucast b * 10 + carry"
  shows "unat v = unat b * 10 + unat carry" "unat (drop_bit 8 v) < 10"
    "unat (ucast (v AND 0xFF) :: byte) + 256 * unat (drop_bit 8 v) = unat v"
proof -
  have b: "unat b < 256" using unsigned_less [of b, where ?'a = nat] by simp
  have ub: "unat (ucast b :: 16 word) = unat b"
    using b by (simp add: unsigned_ucast_eq take_bit_nat_eq_self)
  show v: "unat v = unat b * 10 + unat carry"
    using b assms(1) unfolding v_def
    by (simp add: unat_word_ariths ub)
  have d: "unat (drop_bit 8 v) = unat v div 256" unfolding unat_drop_bit_eq by (simp add: drop_bit_eq_div)
  show "unat (drop_bit 8 v) < 10" using b assms(1) by (simp add: d v)
  have m: "v AND 0xFF = take_bit 8 v" by (simp add: take_bit_eq_mask mask_eq_exp_minus_1)
  have "unat (ucast (v AND 0xFF) :: byte) = unat v mod 256"
    unfolding m unsigned_ucast_eq unsigned_take_bit_eq by (simp add: take_bit_eq_mod)
  thus "unat (ucast (v AND 0xFF) :: byte) + 256 * unat (drop_bit 8 v) = unat v" by (simp add: d)
qed

lemma mul10_add_value:
  assumes "unat carry < 10" "mul10_add bs carry = (r, c)"
  shows "length r = length bs \<and> le_value bs * 10 + unat carry = le_value r + 256 ^ length bs * unat c"
  using assms
proof (induction bs arbitrary: carry r c)
  case Nil
  then show ?case by simp
next
  case (Cons b bs)
  let ?v = "ucast b * 10 + carry :: 16 word"
  obtain rest c' where m: "mul10_add bs (drop_bit 8 ?v) = (rest, c')" by force
  note s = mul10_step [OF Cons.prems(1), of b]
  have r: "r = ucast (?v AND 0xFF) # rest" "c = c'" using Cons.prems(2) m by (auto simp: Let_def)
  have IH: "length rest = length bs" "le_value bs * 10 + unat (drop_bit 8 ?v) = le_value rest + 256 ^ length bs * unat c'"
    using Cons.IH [OF s(2) m] by simp_all
  have "le_value (b # bs) * 10 + unat carry = unat ?v + 256 * (le_value bs * 10)"
    using s(1) by simp
  also have "\<dots> = unat (ucast (?v AND 0xFF) :: byte) + 256 * (le_value bs * 10 + unat (drop_bit 8 ?v))"
    using s(3) by simp
  also have "\<dots> = le_value r + 256 ^ length (b # bs) * unat c" unfolding IH(2) r by (simp add: algebra_simps)
  finally show ?case using IH(1) r by simp
qed

lemma mul10_add_be_value:
  assumes "unat carry < 10" "mul10_add_be out carry = (r, c)"
  shows "length r = length out \<and> be_value out * 10 + unat carry = be_value r + 256 ^ length out * unat c"
  using assms mul10_add_value [OF assms(1), of "rev out"]
  by (auto simp: mul10_add_be_def be_value_def split: prod.splits)

lemma be_value_bound: "be_value bs < 256 ^ length bs"
  using le_value_bound [of "rev bs"] by (simp add: be_value_def)

lemma dec_digit: "is_digit c \<longleftrightarrow> \<not> (char_code c < 48 \<or> char_code c > 57)"
  by (auto simp: is_digit_def char_code_def)

lemma decimal_loop_value:
  assumes "decimal_loop cs out = (r, fit)"
  shows "length r = length out \<and>
    (fit \<longleftrightarrow> list_all is_digit cs \<and> be_value out * 10 ^ length cs + dec_value cs < 256 ^ length out) \<and>
    (fit \<longrightarrow> be_value r = be_value out * 10 ^ length cs + dec_value cs)"
  using assms
proof (induction cs arbitrary: out)
  case Nil
  then show ?case using be_value_bound [of out] by (auto simp: dec_value_def)
next
  case (Cons c cs)
  show ?case
  proof (cases "is_digit c")
    case False
    with Cons.prems show ?thesis by (auto simp: dec_digit split: if_splits)
  next
    case True
    let ?d = "char_code c - 48"
    obtain out' carry where m: "mul10_add_be out (of_nat ?d) = (out', carry)" by force
    have "?d < 10" using True by (auto simp: is_digit_def char_code_def)
    hence u: "unat (of_nat ?d :: 16 word) = ?d" "?d < 10"
      by (simp_all add: unsigned_of_nat take_bit_nat_eq_self del: of_nat_diff)
    note v = mul10_add_be_value [OF _ m, unfolded u(1), OF u(2)]
    have dv: "dec_value (c # cs) = ?d * 10 ^ length cs + dec_value cs"
      using dec_value_append [of "[c]" cs] by (simp add: dec_value_single digit_value_def char_code_def)
    have val: "be_value out * 10 ^ length (c # cs) + dec_value (c # cs) =
        (be_value out * 10 + ?d) * 10 ^ length cs + dec_value cs"
      by (simp add: dv algebra_simps)
    show ?thesis
    proof (cases "carry = 0")
      case True
      have loop: "decimal_loop cs out' = (r, fit)"
        using Cons.prems \<open>is_digit c\<close> m True by (simp add: dec_digit)
      from Cons.IH [OF this] v True show ?thesis
        unfolding val using \<open>is_digit c\<close> by simp
    next
      case False
      have "1 \<le> unat carry" using False by (simp add: Suc_le_eq unat_gt_0)
      hence "256 ^ length out * 1 \<le> 256 ^ length out * unat carry" by (rule mult_le_mono2)
      hence "256 ^ length out \<le> be_value out * 10 + ?d" using v by linarith
      also have "\<dots> \<le> (be_value out * 10 + ?d) * 10 ^ length cs" by simp
      finally have "\<not> be_value out * 10 ^ length (c # cs) + dec_value (c # cs) < 256 ^ length out"
        unfolding val by linarith
      moreover have "r = out'" "\<not> fit" using Cons.prems \<open>is_digit c\<close> m False by (simp_all add: dec_digit)
      ultimately show ?thesis using v by simp
    qed
  qed
qed

lemma le_value_zeros [simp]: "le_value (replicate n 0) = 0"
  by (induction n) simp_all

lemma be_value_zeros [simp]: "be_value (replicate n 0) = 0"
  by (simp add: be_value_def)

lemma be_value_append: "be_value (xs @ ys) = be_value xs * 256 ^ length ys + be_value ys"
  by (simp add: be_value_def le_value_append)

lemma be_bytes_value: "length (be_bytes n v) = n \<and> be_value (be_bytes n v) = unat v mod 256 ^ n"
proof (induction n arbitrary: v)
  case 0
  then show ?case by (simp add: be_value_def)
next
  case (Suc n)
  have m: "v AND 0xFF = take_bit 8 v" by (simp add: take_bit_eq_mask mask_eq_exp_minus_1)
  have lo: "unat (ucast (v AND 0xFF) :: byte) = unat v mod 256"
    unfolding m unsigned_ucast_eq unsigned_take_bit_eq by (simp add: take_bit_eq_mod)
  have hi: "unat (drop_bit 8 v) = unat v div 256" unfolding unat_drop_bit_eq by (simp add: drop_bit_eq_div)
  have "be_value (be_bytes (Suc n) v) = (unat v div 256 mod 256 ^ n) * 256 + unat v mod 256"
    using Suc [of "drop_bit 8 v"] by (simp add: be_value_append hi) (simp add: be_value_def lo)
  also have "\<dots> = unat v mod 256 ^ Suc n" by (simp add: mod_mult2_eq)
  finally show ?case using Suc [of "drop_bit 8 v"] by simp
qed

lemma uint64_be:
  "length (uint64_to_uint256_be v) = 32" "be_value (uint64_to_uint256_be v) = unat v"
proof -
  have "unat v < 256 ^ 8" using unsigned_less [of v, where ?'a = nat] by simp
  thus "length (uint64_to_uint256_be v) = 32" "be_value (uint64_to_uint256_be v) = unat v"
    using be_bytes_value [of 8 v] by (simp_all add: uint64_to_uint256_be_def be_value_append)
qed

lemma uint64_be_inj: "uint64_to_uint256_be v = uint64_to_uint256_be w \<longleftrightarrow> v = w"
  using uint64_be(2) [of v] uint64_be(2) [of w] by (metis word_eq_iff_unsigned)

subsection \<open>The message that is signed\<close>

definition fields_sized :: "order_fields \<Rightarrow> bool" where
  "fields_sized f \<longleftrightarrow>
     length (of_salt f) = 32 \<and> length (of_maker f) = 20 \<and> length (of_signer f) = 20 \<and>
     length (of_taker f) = 20 \<and> length (of_token_id f) = 32 \<and> length (of_maker_amount f) = 32 \<and>
     length (of_taker_amount f) = 32"

lemma length_struct_bytes: "length th = 32 \<Longrightarrow> fields_sized f \<Longrightarrow> length (order_struct_bytes th f) = 416"
  by (simp add: order_struct_bytes_def fields_sized_def address_to_bytes32_def uint64_be)

lemma struct_bytes_inj:
  assumes "fields_sized f" "fields_sized g" "order_struct_bytes th f = order_struct_bytes th g"
  shows "f = g"
proof -
  have l: "length (address_to_bytes32 (of_maker f)) = length (address_to_bytes32 (of_maker g))"
    "length (address_to_bytes32 (of_signer f)) = length (address_to_bytes32 (of_signer g))"
    "length (address_to_bytes32 (of_taker f)) = length (address_to_bytes32 (of_taker g))"
    using assms(1,2) by (simp_all add: fields_sized_def address_to_bytes32_def)
  have sizes: "length (of_salt f) = length (of_salt g)" "length (of_token_id f) = length (of_token_id g)"
    "length (of_maker_amount f) = length (of_maker_amount g)" "length (of_taker_amount f) = length (of_taker_amount g)"
    using assms(1,2) by (simp_all add: fields_sized_def)
  from assms(3) show ?thesis
    unfolding order_struct_bytes_def
    by (cases f; cases g) (use l sizes in \<open>simp add: uint64_be uint64_be_inj\<close>, simp add: address_to_bytes32_def)
qed

lemma domain_bytes_inj:
  assumes "length a = 20" "length b = 20"
    "th @ nh @ vh @ uint64_to_uint256_be c @ address_to_bytes32 a =
     th @ nh @ vh @ uint64_to_uint256_be d @ address_to_bytes32 b"
  shows "a = b \<and> c = d"
  using assms by (simp add: uint64_be uint64_be_inj) (simp add: address_to_bytes32_def)

lemma decimal_to_uint256_props:
  "case decimal_to_uint256 s of (out, fits) \<Rightarrow>
     length out = 32 \<and>
     (fits \<longleftrightarrow> s \<noteq> [] \<and> list_all is_digit s \<and> dec_value s < 2 ^ 256) \<and>
     (fits \<longrightarrow> be_value out = dec_value s)"
proof (cases "s = []")
  case True
  then show ?thesis by (simp add: decimal_to_uint256_def)
next
  case False
  obtain out fits where r: "decimal_loop s (replicate 32 0) = (out, fits)" by force
  have "(256::nat) ^ 32 = 2 ^ 256" by simp
  with decimal_loop_value [OF r] False r show ?thesis by (simp add: decimal_to_uint256_def)
qed

subsection \<open>Properties\<close>

text \<open>Decoding the hex encoding of a byte string, with or without the prefix 0x, gives the byte
  string back whenever the buffer is large enough; and whatever decodes to a non-empty byte string
  is its encoding up to the prefix and the case of the digits.\<close>

theorem hex_round_trip:
  assumes "length bs \<le> n"
  shows "hex_decode (hex_encode bs) n = bs \<and> hex_decode (''0x'' @ hex_encode bs) n = bs \<and>
    (hex_decode h n = b # rest \<longrightarrow> hex_encode (b # rest) = map lower_hex (strip_0x h))"
proof -
  have "strip_0x (''0x'' @ hex_encode bs) = hex_encode bs" by (simp add: strip_0x_def)
  moreover have "hex_decode h n = b # rest \<Longrightarrow> hex_encode (b # rest) = map lower_hex (strip_0x h)"
    using encode_decode_pairs [of "strip_0x h" "b # rest"]
    by (auto simp: hex_decode_def Let_def even_iff_mod_2_eq_zero split: if_splits option.splits)
  ultimately show ?thesis using assms
    by (simp add: hex_decode_def strip_0x_hex_encode length_hex_encode decode_hex_encode)
qed

theorem hex_round_trip_witness:
  "hex_decode (hex_encode [0xAB, 0x07]) 2 = [0xAB, 0x07] \<and>
   (hex_decode ''0XaB'' 2 = [0xAB] \<and> hex_encode [0xAB] = map lower_hex (strip_0x ''0XaB''))"
proof -
  have "hex_decode ''0XaB'' 2 = [0xAB]" by code_simp
  with hex_round_trip [of "[0xAB, 0x07]" 2 "''0XaB''" "0xAB" "[]"] show ?thesis by simp
qed

text \<open>C32: The conversion of a decimal string to 256 bits succeeds exactly for a non-empty string of
  digits whose value is below 2 to the 256, and then the 32 bytes are the big-endian digits of that
  value.\<close>

theorem decimal_to_uint256_exact:
  "case decimal_to_uint256 s of (out, fits) \<Rightarrow>
     length out = 32 \<and>
     (fits \<longleftrightarrow> s \<noteq> [] \<and> list_all is_digit s \<and> dec_value s < 2 ^ 256) \<and>
     (fits \<longrightarrow> be_value out = dec_value s)"
  by (rule decimal_to_uint256_props)

text \<open>The statement of the last property holds on both outcomes of an actual conversion.\<close>

theorem decimal_to_uint256_exact_witness:
  "snd (decimal_to_uint256 ''256'') \<and> be_value (fst (decimal_to_uint256 ''256'')) = 256 \<and>
   \<not> snd (decimal_to_uint256 ''12x'')"
proof -
  have d: "list_all is_digit ''256'' \<and> dec_value ''256'' = 256 \<and> \<not> list_all is_digit ''12x''" by code_simp
  show ?thesis
    using decimal_to_uint256_exact [of "''256''"] decimal_to_uint256_exact [of "''12x''"] d
    by (simp add: case_prod_beta is_digit_def)
qed



end
