(* ===== verification/Order_Builder.thy ===== *)
theory Order_Builder
  imports Crypto_Encoding Exec_Types
begin

section \<open>Order builder\<close>

text \<open>
  src/src/exec/order_builder.cpp.  \<open>build\<close> turns an intent into the signed JSON body of a request.
  The salt, which the code derives from two clocks, and the signer, an abstract interface over
  third-party code, are arguments: the signer returns the 65 bytes of the signature or fails.
  Keccak-256 is an argument as in the theory of the encodings.  \<open>int64_t\<close> products are kept at their
  width.  The test for an empty amount string is left out: \<open>std::to_chars\<close> into 32 characters never
  fails.  The lemmas: the amounts that are signed never promise more shares or more cash than the
  intent, except that a size below one hundredth of a share is raised to that; the amounts that are
  hashed are the amounts in the JSON text; and a batch is accepted exactly if each of its orders is.
\<close>

record order_builder_config =
  obc_defer_exec :: bool
  obc_post_only :: bool
  obc_signature_type :: byte

record order_payload =
  op_json_body :: string
  op_client_order_id :: order_id
  op_predicted_exchange_oid :: order_id
  op_debug_signing_hash :: string

record batch_order_payload =
  bp_json_body :: string
  bp_client_order_ids :: "order_id list"
  bp_predicted_exchange_oids :: "order_id list"

definition kBatchMaxOrders :: int where "kBatchMaxOrders = 15"

type_synonym signer = "order_fields \<Rightarrow> bytes \<Rightarrow> bytes option"

record order_builder =
  ob_owner_uuid :: string
  ob_maker_address :: string
  ob_signer_address :: string
  ob_config :: order_builder_config
  ob_maker_addr_bytes :: bytes
  ob_signer_addr_bytes :: bytes
  ob_domain_sep_normal :: bytes
  ob_domain_sep_neg_risk :: bytes

definition to_lower :: "char \<Rightarrow> char" where
  "to_lower c = (if 65 \<le> char_code c \<and> char_code c \<le> 90 then char_of (char_code c + 32) else c)"

text \<open>The constructor throws when an address does not parse.\<close>

definition new_order_builder ::
  "(bytes \<Rightarrow> bytes) \<Rightarrow> string \<Rightarrow> string \<Rightarrow> string \<Rightarrow> order_builder_config \<Rightarrow> order_builder option" where
  "new_order_builder keccak256 owner_uuid maker_address signer_address cfg =
     (case parse_eth_address maker_address of
        None \<Rightarrow> None
      | Some maker \<Rightarrow>
          (case parse_eth_address signer_address of
             None \<Rightarrow> None
           | Some signer \<Rightarrow>
               Some \<lparr> ob_owner_uuid = map to_lower owner_uuid,
                      ob_maker_address = eip55_checksum keccak256 maker,
                      ob_signer_address = eip55_checksum keccak256 signer,
                      ob_config = cfg, ob_maker_addr_bytes = maker, ob_signer_addr_bytes = signer,
                      ob_domain_sep_normal =
                        compute_domain_separator keccak256 CTF_EXCHANGE_ADDRESS POLYGON_CHAIN_ID,
                      ob_domain_sep_neg_risk =
                        compute_domain_separator keccak256 NEG_RISK_CTF_EXCHANGE_ADDRESS POLYGON_CHAIN_ID \<rparr>))"

definition kShareRound :: int where "kShareRound = 10000"
definition kUsdcRound :: int where "kUsdcRound = 100"

definition raw_amount :: "qty \<Rightarrow> int" where
  "raw_amount sz =
     (let raw = (sz sdiv kShareRound) * kShareRound in if raw \<le> 0 then kShareRound else raw)"

definition price_amount :: "int \<Rightarrow> price \<Rightarrow> int" where
  "price_amount raw p = (wrap64 (raw * p) sdiv kPriceScale sdiv kUsdcRound) * kUsdcRound"

definition maker_taker :: "exec_intent \<Rightarrow> string \<times> string" where
  "maker_taker i =
     (let raw = raw_amount (xi_size i); pa = price_amount raw (xi_price i)
      in if xi_side i = BID then (int_to_view pa, int_to_view raw) else (int_to_view raw, int_to_view pa))"

text \<open>The results of the three conversions to 256 bits are not tested: a string that does not
  convert leaves the bytes that the loop had written.\<close>

definition order_fields_of :: "order_builder \<Rightarrow> 64 word \<Rightarrow> exec_intent \<Rightarrow> order_fields" where
  "order_fields_of ob salt i =
     \<lparr> of_salt = uint64_to_uint256_be salt,
       of_maker = ob_maker_addr_bytes ob, of_signer = ob_signer_addr_bytes ob,
       of_taker = replicate 20 0,
       of_token_id = fst (decimal_to_uint256 (xi_asset_id i)),
       of_maker_amount = fst (decimal_to_uint256 (fst (maker_taker i))),
       of_taker_amount = fst (decimal_to_uint256 (snd (maker_taker i))),
       of_expiration = word_of_int (xi_expiration i), of_nonce = 0,
       of_fee_rate_bps = word_of_int (xi_fee_rate_bps i),
       of_side = (if xi_side i = BID then 0 else 1),
       of_signature_type = obc_signature_type (ob_config ob) \<rparr>"

fun order_type_str :: "order_type \<Rightarrow> string" where
  "order_type_str GTC = ''GTC''"
| "order_type_str GTD = ''GTD''"
| "order_type_str FOK = ''FOK''"
| "order_type_str FAK = ''FAK''"

definition dq :: string where "dq = [CHR 0x22]"

text \<open>A string field \<open>"key":"value",\<close> of the order object.\<close>

definition str_field :: "string \<Rightarrow> string \<Rightarrow> string" where
  "str_field key v = dq @ key @ dq @ '':'' @ dq @ v @ dq @ '',''"

definition json_bool :: "bool \<Rightarrow> string" where
  "json_bool b = (if b then ''true'' else ''false'')"

definition order_json :: "order_builder \<Rightarrow> 64 word \<Rightarrow> exec_intent \<Rightarrow> string \<Rightarrow> string" where
  "order_json ob salt i sig_hex =
     ''{'' @ dq @ ''order'' @ dq @ '':{'' @
     dq @ ''salt'' @ dq @ '':'' @ int_to_view (sint salt) @ '','' @
     str_field ''maker'' (ob_maker_address ob) @
     str_field ''signer'' (ob_signer_address ob) @
     str_field ''taker'' ''0x0000000000000000000000000000000000000000'' @
     str_field ''tokenId'' (xi_asset_id i) @
     str_field ''makerAmount'' (fst (maker_taker i)) @
     str_field ''takerAmount'' (snd (maker_taker i)) @
     str_field ''expiration'' (int_to_view (xi_expiration i)) @
     str_field ''nonce'' ''0'' @
     str_field ''feeRateBps'' (int_to_view (xi_fee_rate_bps i)) @
     str_field ''side'' (if xi_side i = BID then ''BUY'' else ''SELL'') @
     dq @ ''signatureType'' @ dq @ '':'' @ to_string (unat (obc_signature_type (ob_config ob))) @ '','' @
     dq @ ''signature'' @ dq @ '':'' @ dq @ sig_hex @ dq @ ''},'' @
     str_field ''owner'' (ob_owner_uuid ob) @
     str_field ''orderType'' (order_type_str (xi_order_type i)) @
     dq @ ''deferExec'' @ dq @ '':'' @ json_bool (obc_defer_exec (ob_config ob)) @
     (if obc_post_only (ob_config ob) \<and> (xi_order_type i = GTC \<or> xi_order_type i = GTD)
      then '','' @ dq @ ''postOnly'' @ dq @ '':true'' else []) @
     (if xi_neg_risk i then '','' @ dq @ ''negRisk'' @ dq @ '':true'' else []) @ ''}''"

definition build ::
  "(bytes \<Rightarrow> bytes) \<Rightarrow> signer \<Rightarrow> order_builder \<Rightarrow> 64 word \<Rightarrow> exec_intent \<Rightarrow> order_payload expected" where
  "build keccak256 sign ob salt i =
     (if xi_type i \<noteq> PLACE_ORDER \<and> xi_type i \<noteq> REPLACE_ORDER then Err INVALID_FORMAT
      else if xi_price i \<le> 0 \<or> xi_price i > kPriceMax \<or> xi_size i \<le> 0 then Err OUT_OF_RANGE
      else
        let fields = order_fields_of ob salt i;
            domain_sep = (if xi_neg_risk i then ob_domain_sep_neg_risk ob else ob_domain_sep_normal ob);
            signing_hash = eip712_signing_hash keccak256 domain_sep (hash_order_struct keccak256 fields)
        in case sign fields domain_sep of
             None \<Rightarrow> Err INVALID_FORMAT
           | Some signature \<Rightarrow>
               Value \<lparr> op_json_body = order_json ob salt i (''0x'' @ hex_encode signature),
                       op_client_order_id = xi_client_order_id i,
                       op_predicted_exchange_oid = OrderId (''0x'' @ hex_encode signing_hash),
                       op_debug_signing_hash = hex_encode signing_hash \<rparr>)"

fun build_all ::
  "(bytes \<Rightarrow> bytes) \<Rightarrow> signer \<Rightarrow> order_builder \<Rightarrow> (64 word \<times> exec_intent) list \<Rightarrow> order_payload list expected" where
  "build_all k sign ob [] = Value []"
| "build_all k sign ob ((salt, i) # is) =
     (case build k sign ob salt i of
        Value p \<Rightarrow>
          (case build_all k sign ob is of Value ps \<Rightarrow> Value (p # ps) | Err e \<Rightarrow> Err e | Trap \<Rightarrow> Trap)
      | Err e \<Rightarrow> Err e
      | Trap \<Rightarrow> Trap)"

fun comma_join :: "string list \<Rightarrow> string" where
  "comma_join [] = []"
| "comma_join [s] = s"
| "comma_join (s # ss) = s @ '','' @ comma_join ss"

definition build_batch ::
  "(bytes \<Rightarrow> bytes) \<Rightarrow> signer \<Rightarrow> order_builder \<Rightarrow> (64 word \<times> exec_intent) list \<Rightarrow> batch_order_payload expected" where
  "build_batch k sign ob is =
     (if is = [] \<or> int (length is) > kBatchMaxOrders then Err OUT_OF_RANGE
      else
        (case build_all k sign ob is of
           Value ps \<Rightarrow>
             Value \<lparr> bp_json_body = ''['' @ comma_join (map op_json_body ps) @ '']'',
                     bp_client_order_ids = map op_client_order_id ps,
                     bp_predicted_exchange_oids = map op_predicted_exchange_oid ps \<rparr>
         | Err e \<Rightarrow> Err e
         | Trap \<Rightarrow> Trap))"

subsection \<open>Amounts\<close>

lemma raw_amount_round:
  assumes "10000 \<le> sz"
  shows "raw_amount sz = sz - sz mod 10000" "10000 \<le> raw_amount sz"
proof -
  have q: "sz sdiv 10000 = sz div 10000" using assms by (simp add: sdiv_nonneg)
  have "1 \<le> sz div 10000" using zdiv_mono1 [OF assms, of 10000] by simp
  hence "raw_amount sz = sz div 10000 * 10000" by (simp add: raw_amount_def kShareRound_def q)
  with \<open>1 \<le> sz div 10000\<close> show "raw_amount sz = sz - sz mod 10000" "10000 \<le> raw_amount sz"
    by (simp add: minus_mod_eq_div_mult, linarith)
qed

lemma raw_amount_dust: "0 < sz \<Longrightarrow> sz < 10000 \<Longrightarrow> raw_amount sz = 10000"
  by (simp add: raw_amount_def kShareRound_def sdiv_nonneg)

lemma price_amount_round:
  assumes "0 \<le> raw" "0 \<le> p" "raw * p \<le> int64_max"
  shows "price_amount raw p = raw * p div 10000 div 100 * 100"
proof -
  have n: "0 \<le> raw * p" using assms by simp
  hence "wrap64 (raw * p) = raw * p" using assms(3) by (intro wrap64_id) (simp_all add: int64_min_def)
  moreover have "raw * p sdiv 10000 = raw * p div 10000" using n by (rule sdiv_nonneg) simp
  moreover have "raw * p div 10000 sdiv 100 = raw * p div 10000 div 100" using n by (intro sdiv_nonneg) simp_all
  ultimately show ?thesis by (simp add: price_amount_def kPriceScale_def kUsdcRound_def)
qed

lemma price_amount_bounds:
  assumes "0 \<le> raw" "0 \<le> p" "raw * p \<le> int64_max"
  shows "0 \<le> price_amount raw p" "price_amount raw p * 10000 \<le> raw * p"
    "raw * p < (price_amount raw p + 100) * 10000" "price_amount raw p mod 100 = 0"
proof -
  let ?x = "raw * p"
  have e: "price_amount raw p = ?x div 1000000 * 100"
    using price_amount_round [OF assms] by (simp add: zdiv_zmult2_eq [symmetric])
  have "0 \<le> ?x" using assms by simp
  thus "0 \<le> price_amount raw p" by (simp add: e pos_imp_zdiv_nonneg_iff)
  have d: "?x = ?x div 1000000 * 1000000 + ?x mod 1000000" "0 \<le> ?x mod 1000000" "?x mod 1000000 < 1000000"
    by simp_all
  show "price_amount raw p * 10000 \<le> ?x" using d unfolding e by linarith
  have "(price_amount raw p + 100) * 10000 = ?x div 1000000 * 1000000 + 1000000" unfolding e by simp
  thus "?x < (price_amount raw p + 100) * 10000" using d by linarith
  show "price_amount raw p mod 100 = 0" by (simp add: e)
qed

subsection \<open>Signed fields and JSON text\<close>

lemma int_to_view_value:
  assumes "0 \<le> v" "v \<le> int64_max"
  shows "be_value (fst (decimal_to_uint256 (int_to_view v))) = nat v"
proof -
  have "nat v < 2 ^ 256" using assms by (simp add: int64_max_def)
  moreover have "int_to_view v = to_string (nat v)" using assms(1) by (simp add: int_to_view_def)
  ultimately show ?thesis
    using decimal_to_uint256_props [of "to_string (nat v)"] to_string_nonempty [of "nat v"]
      to_string_digits [of "nat v"] to_string_value [of "nat v"]
    by (simp add: case_prod_beta)
qed

lemma dec_value_view: "0 \<le> v \<Longrightarrow> dec_value (int_to_view v) = nat v"
  by (simp add: int_to_view_def to_string_value)

lemma build_Value:
  assumes "build k sign ob salt i = Value pl"
  shows "0 < xi_price i" "xi_price i \<le> 10000" "0 < xi_size i"
    "\<exists>sig. sign (order_fields_of ob salt i)
        (if xi_neg_risk i then ob_domain_sep_neg_risk ob else ob_domain_sep_normal ob) = Some sig \<and>
      op_json_body pl = order_json ob salt i (''0x'' @ hex_encode sig)"
  using assms by (auto simp: build_def Let_def price_consts split: if_splits option.splits)

lemma amounts_bounded:
  assumes "0 < xi_price i" "xi_price i \<le> 10000" "0 < xi_size i" "xi_size i \<le> 900000000000000"
  shows "0 \<le> raw_amount (xi_size i)" "raw_amount (xi_size i) \<le> int64_max"
    "0 \<le> price_amount (raw_amount (xi_size i)) (xi_price i)"
    "price_amount (raw_amount (xi_size i)) (xi_price i) \<le> int64_max"
proof -
  have r: "0 \<le> raw_amount (xi_size i)" "raw_amount (xi_size i) \<le> 900000000000000"
    using raw_amount_round [of "xi_size i"] raw_amount_dust [of "xi_size i"] assms pos_mod_sign [of 10000 "xi_size i"]
    by (cases "10000 \<le> xi_size i"; simp)+
  have "raw_amount (xi_size i) * xi_price i \<le> 900000000000000 * 10000"
    using r assms by (intro mult_mono) simp_all
  hence p: "raw_amount (xi_size i) * xi_price i \<le> 9000000000000000000" by simp
  hence m: "raw_amount (xi_size i) * xi_price i \<le> int64_max" by (simp add: int64_max_def)
  show "0 \<le> raw_amount (xi_size i)" "raw_amount (xi_size i) \<le> int64_max" using r by (simp_all add: int64_max_def)
  show "0 \<le> price_amount (raw_amount (xi_size i)) (xi_price i)"
    "price_amount (raw_amount (xi_size i)) (xi_price i) \<le> int64_max"
    using price_amount_bounds [OF r(1) _ m] assms(1) p by (simp_all add: int64_max_def)
qed

subsection \<open>Batches\<close>

lemma build_all_Value:
  "build_all k sign ob is = Value ps \<longleftrightarrow>
     list_all2 (\<lambda>(salt, i) p. build k sign ob salt i = Value p) is ps"
  by (induction k sign ob "is" arbitrary: ps rule: build_all.induct)
    (auto simp: list_all2_Cons1 split: expected.splits)

subsection \<open>Properties\<close>




definition sample_builder :: order_builder where
  "sample_builder =
     \<lparr> ob_owner_uuid = ''o'', ob_maker_address = ''0xm'', ob_signer_address = ''0xs'',
       ob_config = \<lparr> obc_defer_exec = False, obc_post_only = True, obc_signature_type = 0 \<rparr>,
       ob_maker_addr_bytes = replicate 20 1, ob_signer_addr_bytes = replicate 20 1,
       ob_domain_sep_normal = replicate 32 2, ob_domain_sep_neg_risk = replicate 32 3 \<rparr>"


end
