(* ===== verification/Json_Doc.thy ===== *)
theory Json_Doc
  imports LT_Types
begin

section \<open>JSON documents as the parsers read them\<close>

text \<open>
  The parsers of src/src/parser, src/src/rest and src/src/ui_bridge read JSON through simdjson.  The
  library is a parameter of the model, a function from the text to the document it presents; this
  theory holds the documents and what the accessors \<open>doc[key]\<close>, \<open>get_string\<close>, \<open>get_int64\<close>,
  \<open>get_bool\<close>, \<open>get_array\<close> and \<open>get_object\<close> return on them.  A field is absent (\<open>NO_SUCH_FIELD\<close>)
  or unusable (every other error code): the code distinguishes no more.  \<open>JBad\<close> is a value whose
  text the on-demand front end rejects only when it is read.
\<close>

datatype json =
    JNull
  | JBool bool
  | JInt int
  | JReal string
  | JStr string
  | JArr "json list"
  | JObj "(string \<times> json) list"
  | JBad

datatype 'a field = Found 'a | NoSuchField | OtherError

fun json_at :: "json \<Rightarrow> string \<Rightarrow> json field" where
  "json_at (JObj fs) k = (case map_of fs k of None \<Rightarrow> NoSuchField | Some v \<Rightarrow> Found v)"
| "json_at _ k = OtherError"

primrec field_bind :: "'a field \<Rightarrow> ('a \<Rightarrow> 'b field) \<Rightarrow> 'b field" where
  "field_bind (Found x) f = f x"
| "field_bind NoSuchField f = NoSuchField"
| "field_bind OtherError f = OtherError"

fun get_string :: "json \<Rightarrow> string field" where
  "get_string (JStr s) = Found s"
| "get_string _ = OtherError"

fun get_int64 :: "json \<Rightarrow> int field" where
  "get_int64 (JInt i) = (if int64_min \<le> i \<and> i \<le> int64_max then Found i else OtherError)"
| "get_int64 _ = OtherError"

fun get_bool :: "json \<Rightarrow> bool field" where
  "get_bool (JBool b) = Found b"
| "get_bool _ = OtherError"

fun get_array :: "json \<Rightarrow> json list field" where
  "get_array (JArr xs) = Found xs"
| "get_array _ = OtherError"

fun get_object :: "json \<Rightarrow> (string \<times> json) list field" where
  "get_object (JObj fs) = Found fs"
| "get_object _ = OtherError"

definition string_at :: "json \<Rightarrow> string \<Rightarrow> string field" where
  "string_at doc k = field_bind (json_at doc k) get_string"

definition int64_at :: "json \<Rightarrow> string \<Rightarrow> int field" where
  "int64_at doc k = field_bind (json_at doc k) get_int64"

definition bool_at :: "json \<Rightarrow> string \<Rightarrow> bool field" where
  "bool_at doc k = field_bind (json_at doc k) get_bool"

definition array_at :: "json \<Rightarrow> string \<Rightarrow> json list field" where
  "array_at doc k = field_bind (json_at doc k) get_array"

lemmas json_access = string_at_def int64_at_def bool_at_def array_at_def

text \<open>\<open>x.get(out) == SUCCESS\<close> as a test, and the fields the code reads only when present.\<close>

fun found :: "'a field \<Rightarrow> bool" where
  "found (Found x) \<longleftrightarrow> True"
| "found _ \<longleftrightarrow> False"

fun field_or :: "'a \<Rightarrow> 'a field \<Rightarrow> 'a" where
  "field_or d (Found x) = x"
| "field_or d _ = d"

text \<open>How the parsers turn a missing or unusable field into an error code.\<close>

fun require :: "'a field \<Rightarrow> 'a expected" where
  "require (Found x) = Value x"
| "require NoSuchField = Err JSON_MISSING_FIELD"
| "require OtherError = Err JSON_TYPE_ERROR"

subsection \<open>Sequencing of fallible steps\<close>

text \<open>\<open>if (!r.ok()) return r.error;\<close>: the first failure ends the parser.\<close>

primrec ebind :: "'a expected \<Rightarrow> ('a \<Rightarrow> 'b expected) \<Rightarrow> 'b expected" where
  "ebind (Value x) f = f x"
| "ebind (Err e) f = Err e"
| "ebind Trap f = Trap"

lemma ebind_eq_Value [simp]: "ebind r f = Value y \<longleftrightarrow> (\<exists>x. r = Value x \<and> f x = Value y)"
  by (cases r) auto

lemma require_eq_Value [simp]: "require r = Value x \<longleftrightarrow> r = Found x"
  by (cases r) auto

lemma ebind_assoc: "ebind (ebind r f) g = ebind r (\<lambda>x. ebind (f x) g)"
  by (cases r) auto

text \<open>
  The loops over an array that store at most \<open>cap\<close> elements: one too many is \<open>OUT_OF_RANGE\<close>, an
  element that fails ends the loop.
\<close>

fun collect :: "nat \<Rightarrow> (json \<Rightarrow> 'a expected) \<Rightarrow> json list \<Rightarrow> 'a list \<Rightarrow> 'a list expected" where
  "collect cap f [] acc = Value acc"
| "collect cap f (x # xs) acc =
     (if length acc \<ge> cap then Err OUT_OF_RANGE
      else ebind (f x) (\<lambda>y. collect cap f xs (acc @ [y])))"

lemma collect_Value:
  assumes "collect cap f xs acc = Value ys"
  shows "\<exists>zs. ys = acc @ zs \<and> list_all2 (\<lambda>x z. f x = Value z) xs zs \<and>
              (length acc \<le> cap \<longrightarrow> length ys \<le> cap)"
  using assms
proof (induction xs arbitrary: acc)
  case (Cons x xs)
  from Cons.prems obtain y where y: "\<not> length acc \<ge> cap" "f x = Value y"
    "collect cap f xs (acc @ [y]) = Value ys"
    by (auto split: if_splits)
  from Cons.IH [OF y(3)] obtain zs where
    "ys = (acc @ [y]) @ zs" "list_all2 (\<lambda>x z. f x = Value z) xs zs"
    "length (acc @ [y]) \<le> cap \<longrightarrow> length ys \<le> cap" by blast
  with y show ?case by (intro exI [of _ "y # zs"]) auto
qed simp

lemma collect_all:
  assumes "list_all2 (\<lambda>x y. f x = Value y) xs ys" "length acc + length ys \<le> cap"
  shows "collect cap f xs acc = Value (acc @ ys)"
  using assms by (induction arbitrary: acc rule: list_all2_induct) auto

end
