(* ===== verification/Feed_Parsers.thy ===== *)
theory Feed_Parsers
  imports Json_Doc Price Book_Feed
begin

section \<open>Parsers of the two websocket feeds\<close>

text \<open>
  src/src/parser/market_message_parser.cpp and src/src/parser/user_message_parser.cpp with the event
  structs of src/src/events/market_events.h and src/src/events/user_events.h.  The argument
  \<open>iterate\<close> stands for \<open>simdjson::ondemand::parser::iterate\<close>.  Arrays with a count are lists,
  character buffers are the text they hold.  The lemmas show that whatever a parser accepts respects
  the capacities of the structs and the price ladder, so the order book of \<open>Book_Feed\<close> can reject it
  for a negative size only, and that a book written with the program's own formatter is read back to
  the same levels.
\<close>

subsection \<open>Shared helpers\<close>

definition get_required_string :: "json \<Rightarrow> string \<Rightarrow> string expected" where
  "get_required_string obj key = require (string_at obj key)"

text \<open>\<open>std::from_chars\<close> without the test for the end of the range: the longest numeral prefix.\<close>

definition from_chars_prefix :: "string \<Rightarrow> int option" where
  "from_chars_prefix s =
     (let neg = (s \<noteq> [] \<and> hd s = CHR ''-'');
          digits = takeWhile is_digit (if neg then tl s else s)
      in from_chars ((if neg then ''-'' else []) @ digits))"

definition from_chars_u16 :: "string \<Rightarrow> int option" where
  "from_chars_u16 s =
     (case from_chars_digits (takeWhile is_digit s) of
        None \<Rightarrow> None
      | Some v \<Rightarrow> if v \<le> 65535 then Some (int v) else None)"

definition market_timestamp :: "json \<Rightarrow> timestamp \<Rightarrow> timestamp" where
  "market_timestamp obj out =
     (case string_at obj ''timestamp'' of
        Found ts_str \<Rightarrow> (case from_chars_prefix ts_str of Some ts_val \<Rightarrow> ts_val | None \<Rightarrow> out)
      | _ \<Rightarrow> out)"

definition parse_required_price_field :: "json \<Rightarrow> string \<Rightarrow> price expected" where
  "parse_required_price_field obj key = ebind (get_required_string obj key) parse_price"

definition parse_required_qty_field :: "json \<Rightarrow> string \<Rightarrow> qty expected" where
  "parse_required_qty_field obj key = ebind (get_required_string obj key) parse_qty"

definition parse_required_side_field :: "json \<Rightarrow> string \<Rightarrow> side expected" where
  "parse_required_side_field obj key = ebind (get_required_string obj key) parse_side"

text \<open>A price that is parsed only when its field is a string.\<close>

definition parse_optional_price :: "json \<Rightarrow> string \<Rightarrow> price \<Rightarrow> price expected" where
  "parse_optional_price obj key dflt =
     (case string_at obj key of Found sv \<Rightarrow> parse_price sv | _ \<Rightarrow> Value dflt)"

subsection \<open>Market events\<close>

record parsed_snapshot = book_snapshot +
  ps_hash :: string

record best_bid_ask_event =
  bba_asset_id :: asset_id
  bba_best_bid :: price
  bba_best_ask :: price
  bba_spread :: price
  bba_exchange_ts :: timestamp

record tick_size_event =
  tse_asset_id :: asset_id
  tse_old_tick_size :: int
  tse_new_tick_size :: int
  tse_exchange_ts :: timestamp

record last_trade_event =
  lte_asset_id :: asset_id
  lte_market_id :: asset_id
  lte_price :: price
  lte_size :: qty
  lte_side :: side
  lte_fee_rate_bps :: int
  lte_exchange_ts :: timestamp

record new_market_event =
  nme_market_id :: asset_id
  nme_assets :: "asset_id list"
  nme_outcomes :: "string list"
  nme_exchange_ts :: timestamp

record market_resolved_event =
  mre_market_id :: asset_id
  mre_winning_asset_id :: asset_id
  mre_winning_outcome :: string
  mre_assets :: "asset_id list"
  mre_exchange_ts :: timestamp

datatype market_payload =
    MBook parsed_snapshot
  | MPriceChange "asset_price_change list" timestamp
  | MBestBidAsk best_bid_ask_event
  | MTickSize tick_size_event
  | MLastTrade last_trade_event
  | MNewMarket new_market_event
  | MResolved market_resolved_event

record market_message =
  mm_payload :: market_payload
  mm_recv_ts :: timestamp
  mm_seq :: nat

definition kMaxSnapshotLevels :: nat where "kMaxSnapshotLevels = 1024"
definition kMaxAssetChanges :: nat where "kMaxAssetChanges = 32"
definition kMaxChanges :: nat where "kMaxChanges = 512"

subsection \<open>Market message parser\<close>

definition parse_level :: "json \<Rightarrow> price_level expected" where
  "parse_level elem =
     (case get_object elem of
        Found fs \<Rightarrow>
          ebind (parse_required_price_field elem ''price'') (\<lambda>price.
          ebind (parse_required_qty_field elem ''size'') (\<lambda>size.
          Value \<lparr> lvl_price = price, lvl_size = size \<rparr>))
      | _ \<Rightarrow> Err JSON_TYPE_ERROR)"

definition parse_levels :: "json \<Rightarrow> string \<Rightarrow> price_level list expected" where
  "parse_levels doc key =
     ebind (require (array_at doc key)) (\<lambda>arr. collect kMaxSnapshotLevels parse_level arr [])"

definition parse_book :: "json \<Rightarrow> market_payload expected" where
  "parse_book doc =
     ebind (get_required_string doc ''asset_id'') (\<lambda>aid.
     ebind (parse_levels doc ''bids'') (\<lambda>bids.
     ebind (parse_levels doc ''asks'') (\<lambda>asks.
     Value (MBook
       \<lparr> snap_asset_id = AssetId aid,
         snap_market_id = AssetId (field_or [] (string_at doc ''market'')),
         snap_bids = bids, snap_asks = asks, snap_exchange_ts = market_timestamp doc 0,
         ps_hash = take 79 (field_or [] (string_at doc ''hash'')) \<rparr>))))"

definition parse_change :: "json \<Rightarrow> price_change expected" where
  "parse_change elem =
     (case get_object elem of
        Found fs \<Rightarrow>
          ebind (parse_required_price_field elem ''price'') (\<lambda>price.
          ebind (parse_required_side_field elem ''side'') (\<lambda>side.
          ebind (parse_required_qty_field elem ''size'') (\<lambda>size.
          Value \<lparr> pc_price = price, pc_side = side, pc_size = size \<rparr>)))
      | _ \<Rightarrow> Err JSON_TYPE_ERROR)"

text \<open>The flat form carries one change in the element itself, the nested form a list of them.\<close>

definition parse_changes :: "json \<Rightarrow> price_change list expected" where
  "parse_changes obj =
     (case string_at obj ''price'' of
        Found probe_sv \<Rightarrow>
          ebind (parse_price probe_sv) (\<lambda>price.
          ebind (parse_required_side_field obj ''side'') (\<lambda>side.
          ebind (parse_required_qty_field obj ''size'') (\<lambda>size.
          Value [\<lparr> pc_price = price, pc_side = side, pc_size = size \<rparr>])))
      | _ \<Rightarrow>
          (case array_at obj ''changes'' of
             Found arr \<Rightarrow> collect kMaxChanges parse_change arr []
           | NoSuchField \<Rightarrow> Value []
           | OtherError \<Rightarrow> Err JSON_TYPE_ERROR))"

definition parse_asset_change :: "json \<Rightarrow> asset_price_change expected" where
  "parse_asset_change elem =
     (case get_object elem of
        Found fs \<Rightarrow>
          ebind (get_required_string elem ''asset_id'') (\<lambda>aid.
          ebind (parse_optional_price elem ''best_bid'' kInvalidPrice) (\<lambda>best_bid.
          ebind (parse_optional_price elem ''best_ask'' kInvalidPrice) (\<lambda>best_ask.
          ebind (parse_changes elem) (\<lambda>changes.
          Value \<lparr> apc_asset_id = AssetId aid, apc_best_bid = best_bid, apc_best_ask = best_ask,
                  apc_changes = changes \<rparr>))))
      | _ \<Rightarrow> Err JSON_TYPE_ERROR)"

definition parse_price_change :: "json \<Rightarrow> market_payload expected" where
  "parse_price_change doc =
     ebind (require (array_at doc ''price_changes'')) (\<lambda>pc_arr.
     ebind (collect kMaxAssetChanges parse_asset_change pc_arr []) (\<lambda>asset_changes.
     if asset_changes = [] then Err JSON_MISSING_FIELD
     else Value (MPriceChange asset_changes (market_timestamp doc 0))))"

definition parse_best_bid_ask :: "json \<Rightarrow> market_payload expected" where
  "parse_best_bid_ask doc =
     ebind (get_required_string doc ''asset_id'') (\<lambda>aid.
     ebind (parse_required_price_field doc ''best_bid'') (\<lambda>best_bid.
     ebind (parse_required_price_field doc ''best_ask'') (\<lambda>best_ask.
     ebind (parse_optional_price doc ''spread'' 0) (\<lambda>spread.
     Value (MBestBidAsk
       \<lparr> bba_asset_id = AssetId aid, bba_best_bid = best_bid, bba_best_ask = best_ask,
         bba_spread = spread, bba_exchange_ts = market_timestamp doc 0 \<rparr>)))))"

definition parse_tick_size_change :: "json \<Rightarrow> market_payload expected" where
  "parse_tick_size_change doc =
     ebind (get_required_string doc ''asset_id'') (\<lambda>aid.
     ebind (parse_optional_price doc ''old_tick_size'' 0) (\<lambda>old_tick.
     ebind (parse_required_price_field doc ''new_tick_size'') (\<lambda>new_tick.
     if new_tick \<le> 0 then Err OUT_OF_RANGE
     else Value (MTickSize
       \<lparr> tse_asset_id = AssetId aid, tse_old_tick_size = old_tick, tse_new_tick_size = new_tick,
         tse_exchange_ts = market_timestamp doc 0 \<rparr>))))"

definition parse_last_trade_price :: "json \<Rightarrow> market_payload expected" where
  "parse_last_trade_price doc =
     ebind (get_required_string doc ''asset_id'') (\<lambda>aid.
     ebind (parse_required_price_field doc ''price'') (\<lambda>price.
     ebind (parse_required_qty_field doc ''size'') (\<lambda>size.
     ebind (parse_required_side_field doc ''side'') (\<lambda>side.
     Value (MLastTrade
       \<lparr> lte_asset_id = AssetId aid,
         lte_market_id = AssetId (field_or [] (string_at doc ''market'')),
         lte_price = price, lte_size = size, lte_side = side,
         lte_fee_rate_bps =
           (case string_at doc ''fee_rate_bps'' of
              Found fee_sv \<Rightarrow> (case from_chars_u16 fee_sv of Some v \<Rightarrow> v | None \<Rightarrow> 0)
            | _ \<Rightarrow> 0),
         lte_exchange_ts = market_timestamp doc 0 \<rparr>)))))"

text \<open>The first two strings of an array; elements of another type are passed over.\<close>

definition first_two_strings :: "json field \<Rightarrow> string list" where
  "first_two_strings arr =
     take 2 (List.map_filter (\<lambda>x. case get_string x of Found s \<Rightarrow> Some s | _ \<Rightarrow> None)
       (field_or [] (field_bind arr get_array)))"

definition parse_new_market :: "json \<Rightarrow> market_payload expected" where
  "parse_new_market doc =
     ebind (get_required_string doc ''market'') (\<lambda>market.
     Value (MNewMarket
       \<lparr> nme_market_id = AssetId market,
         nme_assets = map AssetId (first_two_strings (json_at doc ''assets_ids'')),
         nme_outcomes = map (take 31) (first_two_strings (json_at doc ''outcomes'')),
         nme_exchange_ts = market_timestamp doc 0 \<rparr>))"

definition parse_market_resolved :: "json \<Rightarrow> market_payload expected" where
  "parse_market_resolved doc =
     ebind (get_required_string doc ''market'') (\<lambda>market.
     Value (MResolved
       \<lparr> mre_market_id = AssetId market,
         mre_winning_asset_id = AssetId (field_or [] (string_at doc ''winning_asset_id'')),
         mre_winning_outcome = take 31 (field_or [] (string_at doc ''winning_outcome'')),
         mre_assets = map AssetId (first_two_strings (json_at doc ''assets_ids'')),
         mre_exchange_ts = market_timestamp doc 0 \<rparr>))"

text \<open>Messages of the watcher feed may omit the event type; it is inferred from the fields.\<close>

definition infer_payload :: "json \<Rightarrow> error_code \<Rightarrow> market_payload expected" where
  "infer_payload doc et_err =
     (if found (array_at doc ''price_changes'') then parse_price_change doc
      else if found (array_at doc ''bids'') \<and> found (array_at doc ''asks'') then parse_book doc
      else if found (string_at doc ''best_bid'') \<and> found (string_at doc ''best_ask'')
        then parse_best_bid_ask doc
      else if found (string_at doc ''price'') \<and> found (string_at doc ''size'') \<and>
        found (string_at doc ''side'') then parse_last_trade_price doc
      else Err et_err)"

definition parse_payload :: "json \<Rightarrow> market_payload expected" where
  "parse_payload doc =
     (case get_required_string doc ''event_type'' of
        Err et_err \<Rightarrow> infer_payload doc et_err
      | Trap \<Rightarrow> Trap
      | Value event_type \<Rightarrow>
          if event_type = ''book'' then parse_book doc
          else if event_type = ''price_change'' then parse_price_change doc
          else if event_type = ''best_bid_ask'' then parse_best_bid_ask doc
          else if event_type = ''tick_size_change'' then parse_tick_size_change doc
          else if event_type = ''last_trade_price'' then parse_last_trade_price doc
          else if event_type = ''new_market'' then parse_new_market doc
          else if event_type = ''market_resolved'' then parse_market_resolved doc
          else Err UNKNOWN_EVENT_TYPE)"

definition parse_market_message ::
  "(string \<Rightarrow> json option) \<Rightarrow> string \<Rightarrow> timestamp \<Rightarrow> nat \<Rightarrow> market_message expected" where
  "parse_market_message iterate payload recv_ts seq =
     (if payload = [] then Err EMPTY_INPUT
      else if payload = ''PONG'' then Err PONG_MESSAGE
      else case iterate payload of
             None \<Rightarrow> Err JSON_PARSE_ERROR
           | Some doc \<Rightarrow>
               ebind (parse_payload doc) (\<lambda>p.
               Value \<lparr> mm_payload = p, mm_recv_ts = recv_ts, mm_seq = seq \<rparr>))"

text \<open>What the state store of \<open>Book_Feed\<close> reads of a message.\<close>

fun store_payload :: "market_payload \<Rightarrow> market_event_payload" where
  "store_payload (MBook snap) = EvSnapshot (book_snapshot.truncate snap)"
| "store_payload (MPriceChange acs ts) = EvPriceChange acs ts"
| "store_payload (MBestBidAsk e) = EvBestBidAsk (bba_asset_id e) (bba_best_bid e) (bba_best_ask e)"
| "store_payload (MTickSize e) = EvTickSize (tse_asset_id e) (tse_new_tick_size e)"
| "store_payload (MLastTrade e) = EvLastTrade (lte_asset_id e) (lte_price e) (lte_size e)"
| "store_payload (MNewMarket e) = EvNewMarket"
| "store_payload (MResolved e) = EvResolved (mre_market_id e) (mre_winning_asset_id e) (mre_assets e)"

definition store_event :: "market_message \<Rightarrow> market_event" where
  "store_event m = \<lparr> me_payload = store_payload (mm_payload m), me_recv_ts = mm_recv_ts m,
                     me_seq = mm_seq m \<rparr>"

subsection \<open>User message parser\<close>

datatype user_payload = UOrder user_order_update | UTrade user_trade_update

text \<open>
  The envelope; its payload starts as a default order update, of which nothing is read, so it is
  \<open>None\<close> until a parser fills it.
\<close>

record user_message =
  um_payload :: "user_payload option"
  um_recv_ts :: timestamp
  um_seq :: nat
  um_server_error_msg :: string
  um_truncated_fields :: nat

definition new_user_message :: user_message where
  "new_user_message =
     \<lparr> um_payload = None, um_recv_ts = 0, um_seq = 0, um_server_error_msg = [],
       um_truncated_fields = 0 \<rparr>"

definition kMaxMakerOrders :: nat where "kMaxMakerOrders = 64"

definition user_timestamp :: "json \<Rightarrow> string \<Rightarrow> timestamp \<Rightarrow> timestamp" where
  "user_timestamp obj key out =
     (case string_at obj key of
        Found ts_str \<Rightarrow> (case from_chars_prefix ts_str of Some ts_val \<Rightarrow> ts_val | None \<Rightarrow> out)
      | _ \<Rightarrow> field_or out (int64_at obj key))"

definition parse_trade_status :: "string \<Rightarrow> trade_status expected" where
  "parse_trade_status sv =
     (if sv = ''MATCHED'' then Value T_MATCHED
      else if sv = ''MINED'' then Value T_MINED
      else if sv = ''CONFIRMED'' then Value T_CONFIRMED
      else if sv = ''RETRYING'' then Value T_RETRYING
      else if sv = ''FAILED'' then Value T_FAILED
      else Err USER_UNKNOWN_STATUS)"

definition parse_order_event_type :: "string \<Rightarrow> order_event_type expected" where
  "parse_order_event_type sv =
     (if sv = ''PLACEMENT'' then Value PLACEMENT
      else if sv = ''UPDATE'' then Value UPDATE
      else if sv = ''CANCELLATION'' then Value CANCELLATION
      else Err USER_UNKNOWN_EVENT_TYPE)"

definition note_truncation :: "nat \<Rightarrow> string \<Rightarrow> user_message \<Rightarrow> user_message" where
  "note_truncation cap sv out =
     (if length sv \<ge> cap then out\<lparr> um_truncated_fields := um_truncated_fields out + 1 \<rparr> else out)"

definition order_fields_after_ids :: "json \<Rightarrow> string \<Rightarrow> string \<Rightarrow> user_order_update expected" where
  "order_fields_after_ids doc id_sv aid_sv =
     ebind (ebind (get_required_string doc ''type'') parse_order_event_type) (\<lambda>event_type.
     ebind (parse_required_side_field doc ''side'') (\<lambda>side.
     ebind (parse_required_price_field doc ''price'') (\<lambda>price.
     ebind (parse_required_qty_field doc ''original_size'') (\<lambda>original_size.
     ebind (parse_required_qty_field doc ''size_matched'') (\<lambda>size_matched.
     Value \<lparr> uo_order_id = OrderId id_sv,
             uo_client_order_id = OrderId (field_or [] (string_at doc ''client_order_id'')),
             uo_asset_id = AssetId aid_sv,
             uo_market_id = AssetId (field_or [] (string_at doc ''market'')),
             uo_event_type = event_type, uo_side = side, uo_price = price,
             uo_original_size = original_size, uo_size_matched = size_matched,
             uo_exchange_ts = user_timestamp doc ''timestamp'' 0,
             uo_size_matched_exceeds_original =
               (size_matched > original_size \<and> original_size > 0) \<rparr>)))))"

text \<open>
  Both message kinds open with an identifier and an asset identifier, whose truncation is counted in
  the envelope even when a later field fails.
\<close>

definition with_ids ::
  "nat \<Rightarrow> (json \<Rightarrow> string \<Rightarrow> string \<Rightarrow> user_message \<Rightarrow> user_message \<times> error_code option) \<Rightarrow> json \<Rightarrow>
   user_message \<Rightarrow> user_message \<times> error_code option" where
  "with_ids id_cap rest doc out =
     (case get_required_string doc ''id'' of
        Value id_sv \<Rightarrow>
          (let out = note_truncation id_cap id_sv out
           in case get_required_string doc ''asset_id'' of
                Value aid_sv \<Rightarrow> rest doc id_sv aid_sv (note_truncation kMaxAssetIdLen aid_sv out)
              | Err e \<Rightarrow> (out, Some e)
              | Trap \<Rightarrow> (out, None))
      | Err e \<Rightarrow> (out, Some e)
      | Trap \<Rightarrow> (out, None))"

text \<open>The result is the envelope with the error code returned, or \<open>None\<close> when a division traps.\<close>

definition finish_payload ::
  "user_message \<Rightarrow> user_payload expected \<Rightarrow> user_message \<times> error_code option" where
  "finish_payload out r =
     (case r of
        Value p \<Rightarrow> (out\<lparr> um_payload := Some p \<rparr>, Some OK)
      | Err e \<Rightarrow> (out, Some e)
      | Trap \<Rightarrow> (out, None))"

definition parse_order :: "json \<Rightarrow> user_message \<Rightarrow> user_message \<times> error_code option" where
  "parse_order =
     with_ids kMaxOrderIdLen (\<lambda>doc id_sv aid_sv out.
       finish_payload out (ebind (order_fields_after_ids doc id_sv aid_sv) (\<lambda>u. Value (UOrder u))))"

text \<open>
  The maker orders: an entry without its two fields, or whose amount does not parse, is passed over;
  the first element after 64 entries ends the loop and counts as a truncation.
\<close>

datatype maker_result = MakerTrap | MakerDone "maker_order_entry list" bool

fun parse_makers :: "json list \<Rightarrow> maker_order_entry list \<Rightarrow> maker_result" where
  "parse_makers [] acc = MakerDone acc False"
| "parse_makers (elem # rest) acc =
     (if length acc \<ge> kMaxMakerOrders then MakerDone acc True
      else case string_at elem ''order_id'' of
             Found mo_id \<Rightarrow>
               (case string_at elem ''matched_amount'' of
                  Found mo_amt \<Rightarrow>
                    (case parse_qty mo_amt of
                       Value q \<Rightarrow>
                         parse_makers rest
                           (acc @ [\<lparr> mo_order_id = OrderId mo_id, mo_matched_amount = q \<rparr>])
                     | Err e \<Rightarrow> parse_makers rest acc
                     | Trap \<Rightarrow> MakerTrap)
                | _ \<Rightarrow> parse_makers rest acc)
           | _ \<Rightarrow> parse_makers rest acc)"

definition trade_match_ts :: "json \<Rightarrow> timestamp" where
  "trade_match_ts doc =
     (let match_ts = user_timestamp doc ''matchtime'' 0
      in if match_ts = 0 then user_timestamp doc ''timestamp'' match_ts else match_ts)"

definition trade_fields_after_ids :: "json \<Rightarrow> string \<Rightarrow> string \<Rightarrow> user_trade_update expected" where
  "trade_fields_after_ids doc id_sv aid_sv =
     ebind (ebind (get_required_string doc ''status'') parse_trade_status) (\<lambda>status.
     ebind (parse_required_side_field doc ''side'') (\<lambda>side.
     ebind (parse_required_price_field doc ''price'') (\<lambda>price.
     ebind (parse_required_qty_field doc ''size'') (\<lambda>size.
     ebind (get_required_string doc ''taker_order_id'') (\<lambda>taker_sv.
     Value \<lparr> ut_trade_id = TradeId id_sv, ut_taker_order_id = OrderId taker_sv,
             ut_asset_id = AssetId aid_sv,
             ut_market_id = AssetId (field_or [] (string_at doc ''market'')),
             ut_status = status, ut_side = side, ut_fill_price = price, ut_fill_size = size,
             ut_match_ts = trade_match_ts doc,
             ut_last_update_ts = user_timestamp doc ''last_update'' 0,
             ut_maker_entries = [] \<rparr>)))))"

definition parse_trade :: "json \<Rightarrow> user_message \<Rightarrow> user_message \<times> error_code option" where
  "parse_trade =
     with_ids kMaxTradeIdLen (\<lambda>doc id_sv aid_sv out.
       case trade_fields_after_ids doc id_sv aid_sv of
         Err e \<Rightarrow> (out, Some e)
       | Trap \<Rightarrow> (out, None)
       | Value upd \<Rightarrow>
           (case array_at doc ''maker_orders'' of
              Found maker_arr \<Rightarrow>
                (case parse_makers maker_arr [] of
                   MakerTrap \<Rightarrow> (out, None)
                 | MakerDone entries truncated \<Rightarrow>
                     finish_payload
                       (if truncated then out\<lparr> um_truncated_fields := um_truncated_fields out + 1 \<rparr>
                        else out)
                       (Value (UTrade (upd\<lparr> ut_maker_entries := entries \<rparr>))))
            | _ \<Rightarrow> finish_payload out (Value (UTrade upd))))"

definition set_server_error :: "string \<Rightarrow> user_message \<Rightarrow> user_message" where
  "set_server_error msg out = out\<lparr> um_server_error_msg := take 239 msg \<rparr>"

definition parse_user_message ::
  "(string \<Rightarrow> json option) \<Rightarrow> string \<Rightarrow> timestamp \<Rightarrow> nat \<Rightarrow> user_message \<Rightarrow>
   user_message \<times> error_code option" where
  "parse_user_message iterate payload recv_ts seq out0 =
     (if payload = [] then (out0, Some EMPTY_INPUT)
      else if payload = ''PONG'' then (out0, Some PONG_MESSAGE)
      else case iterate payload of
             None \<Rightarrow> (out0, Some JSON_PARSE_ERROR)
           | Some doc \<Rightarrow>
               (let out = out0\<lparr> um_recv_ts := recv_ts, um_seq := seq \<rparr>
                in case get_required_string doc ''event_type'' of
                     Value event_type \<Rightarrow>
                       if event_type = ''order'' then parse_order doc out
                       else if event_type = ''trade'' then parse_trade doc out
                       else (set_server_error event_type out, Some UNKNOWN_EVENT_TYPE)
                   | Trap \<Rightarrow> (out, None)
                   | Err et_err \<Rightarrow>
                       (case get_required_string doc ''error'' of
                          Value error_msg \<Rightarrow>
                            (set_server_error error_msg out, Some USER_WS_SERVER_ERROR)
                        | _ \<Rightarrow> (out, Some et_err))))"

subsection \<open>What an accepted market message satisfies\<close>

definition price_in_ladder :: "price \<Rightarrow> bool" where
  "price_in_ladder p \<longleftrightarrow> kPriceMin \<le> p \<and> p \<le> kPriceMax"

definition asset_id_fits :: "asset_id \<Rightarrow> bool" where
  "asset_id_fits a \<longleftrightarrow> length a < kMaxAssetIdLen"

definition snapshot_fits :: "parsed_snapshot \<Rightarrow> bool" where
  "snapshot_fits snap \<longleftrightarrow>
     asset_id_fits (snap_asset_id snap) \<and> asset_id_fits (snap_market_id snap) \<and>
     length (snap_bids snap) \<le> kMaxSnapshotLevels \<and> length (snap_asks snap) \<le> kMaxSnapshotLevels \<and>
     list_all (\<lambda>l. price_in_ladder (lvl_price l)) (snap_bids snap @ snap_asks snap) \<and>
     length (ps_hash snap) \<le> 79"

definition change_fits :: "asset_price_change \<Rightarrow> bool" where
  "change_fits ac \<longleftrightarrow>
     asset_id_fits (apc_asset_id ac) \<and> length (apc_changes ac) \<le> kMaxChanges \<and>
     list_all (\<lambda>c. price_in_ladder (pc_price c)) (apc_changes ac)"

fun market_payload_fits :: "market_payload \<Rightarrow> bool" where
  "market_payload_fits (MBook snap) \<longleftrightarrow> snapshot_fits snap"
| "market_payload_fits (MPriceChange acs ts) \<longleftrightarrow>
     acs \<noteq> [] \<and> length acs \<le> kMaxAssetChanges \<and> list_all change_fits acs"
| "market_payload_fits (MBestBidAsk e) \<longleftrightarrow>
     asset_id_fits (bba_asset_id e) \<and> price_in_ladder (bba_best_bid e) \<and>
     price_in_ladder (bba_best_ask e) \<and> price_in_ladder (bba_spread e)"
| "market_payload_fits (MTickSize e) \<longleftrightarrow>
     asset_id_fits (tse_asset_id e) \<and> 0 < tse_new_tick_size e \<and> price_in_ladder (tse_new_tick_size e)"
| "market_payload_fits (MLastTrade e) \<longleftrightarrow>
     asset_id_fits (lte_asset_id e) \<and> asset_id_fits (lte_market_id e) \<and> price_in_ladder (lte_price e) \<and>
     0 \<le> lte_fee_rate_bps e \<and> lte_fee_rate_bps e < 2 ^ 16"
| "market_payload_fits (MNewMarket e) \<longleftrightarrow>
     asset_id_fits (nme_market_id e) \<and> length (nme_assets e) \<le> 2 \<and> length (nme_outcomes e) \<le> 2 \<and>
     list_all asset_id_fits (nme_assets e) \<and> list_all (\<lambda>s. length s < 32) (nme_outcomes e)"
| "market_payload_fits (MResolved e) \<longleftrightarrow>
     asset_id_fits (mre_market_id e) \<and> asset_id_fits (mre_winning_asset_id e) \<and>
     length (mre_assets e) \<le> 2 \<and> list_all asset_id_fits (mre_assets e) \<and>
     length (mre_winning_outcome e) < 32"

lemma AssetId_fits [simp, intro!]: "asset_id_fits (AssetId sv)"
  by (simp add: asset_id_fits_def AssetId_def kMaxAssetIdLen_def)

lemma parse_price_in_ladder [intro]: "parse_price sv = Value p \<Longrightarrow> price_in_ladder p"
  using parse_price_bounds by (simp add: price_in_ladder_def)

lemma price_field_in_ladder [intro]:
  "parse_required_price_field obj key = Value p \<Longrightarrow> price_in_ladder p"
  by (auto simp: parse_required_price_field_def)

lemma optional_price_in_ladder:
  "parse_optional_price obj key d = Value p \<Longrightarrow> price_in_ladder d \<Longrightarrow> price_in_ladder p"
  by (auto simp: parse_optional_price_def split: field.splits)

lemma parse_level_in_ladder: "parse_level x = Value l \<Longrightarrow> price_in_ladder (lvl_price l)"
  by (auto simp: parse_level_def split: field.splits)

lemma parse_change_in_ladder: "parse_change x = Value c \<Longrightarrow> price_in_ladder (pc_price c)"
  by (auto simp: parse_change_def split: field.splits)

lemma collect_list_all:
  assumes "collect cap f xs [] = Value ys" "\<And>x y. f x = Value y \<Longrightarrow> P y"
  shows "length ys \<le> cap \<and> list_all P ys"
proof -
  from collect_Value [OF assms(1)] have "list_all2 (\<lambda>x z. f x = Value z) xs ys" "length ys \<le> cap"
    by auto
  moreover from this(1) have "list_all P ys"
    by (induction rule: list_all2_induct) (auto intro: assms(2))
  ultimately show ?thesis by simp
qed

lemma parse_levels_fit:
  assumes "parse_levels doc key = Value ls"
  shows "length ls \<le> kMaxSnapshotLevels \<and> list_all (\<lambda>l. price_in_ladder (lvl_price l)) ls"
  using assms by (auto simp: parse_levels_def dest: collect_list_all [OF _ parse_level_in_ladder])

lemma parse_changes_fit:
  assumes "parse_changes obj = Value cs"
  shows "length cs \<le> kMaxChanges \<and> list_all (\<lambda>c. price_in_ladder (pc_price c)) cs"
  using assms
  by (auto simp: parse_changes_def kMaxChanges_def split: field.splits
           dest: collect_list_all [OF _ parse_change_in_ladder])

lemma parse_asset_change_fits: "parse_asset_change x = Value ac \<Longrightarrow> change_fits ac"
  by (auto simp: parse_asset_change_def change_fits_def split: field.splits dest: parse_changes_fit)

lemma parse_book_fits: "parse_book doc = Value p \<Longrightarrow> market_payload_fits p"
  by (auto simp: parse_book_def snapshot_fits_def dest: parse_levels_fit)

lemma parse_price_change_fits: "parse_price_change doc = Value p \<Longrightarrow> market_payload_fits p"
  by (auto simp: parse_price_change_def split: if_splits
           dest: collect_list_all [OF _ parse_asset_change_fits])

lemma parse_best_bid_ask_fits: "parse_best_bid_ask doc = Value p \<Longrightarrow> market_payload_fits p"
  by (auto simp: parse_best_bid_ask_def price_in_ladder_def price_consts
           dest!: price_field_in_ladder optional_price_in_ladder)

lemma parse_tick_size_change_fits: "parse_tick_size_change doc = Value p \<Longrightarrow> market_payload_fits p"
  by (auto simp: parse_tick_size_change_def split: if_splits)

lemma from_chars_u16_bounds: "from_chars_u16 s = Some v \<Longrightarrow> 0 \<le> v \<and> v < 65536"
  by (auto simp: from_chars_u16_def split: option.splits if_splits)

lemma parse_last_trade_price_fits: "parse_last_trade_price doc = Value p \<Longrightarrow> market_payload_fits p"
  by (auto simp: parse_last_trade_price_def split: field.splits option.splits
           dest: from_chars_u16_bounds)

lemma first_two_strings_length [simp]: "length (first_two_strings arr) \<le> 2"
  by (simp add: first_two_strings_def)

lemma parse_new_market_fits: "parse_new_market doc = Value p \<Longrightarrow> market_payload_fits p"
  by (auto simp: parse_new_market_def list_all_iff)

lemma parse_market_resolved_fits: "parse_market_resolved doc = Value p \<Longrightarrow> market_payload_fits p"
  by (auto simp: parse_market_resolved_def list_all_iff)

lemmas payload_fits =
  parse_book_fits parse_price_change_fits parse_best_bid_ask_fits parse_tick_size_change_fits
  parse_last_trade_price_fits parse_new_market_fits parse_market_resolved_fits

lemma parse_payload_fits: "parse_payload doc = Value p \<Longrightarrow> market_payload_fits p"
  unfolding parse_payload_def infer_payload_def
  by (auto split: expected.splits if_splits intro: payload_fits)

lemma parse_market_message_Value:
  assumes "parse_market_message iterate payload recv_ts seq = Value m"
  obtains doc p where "iterate payload = Some doc" "parse_payload doc = Value p"
    "m = \<lparr> mm_payload = p, mm_recv_ts = recv_ts, mm_seq = seq \<rparr>"
  using assms by (auto simp: parse_market_message_def split: if_splits option.splits)

subsection \<open>Accepted prices and the order book\<close>

lemma check_level_in_ladder:
  "price_in_ladder p \<Longrightarrow> check_level p s = (if s < 0 then BOOK_NEGATIVE_QTY else OK)"
  by (auto simp: check_level_def price_in_ladder_def)

lemma load_levels_in_ladder:
  "list_all (\<lambda>l. price_in_ladder (lvl_price l)) ls \<Longrightarrow>
   load_levels ls ld = Inl e \<Longrightarrow> e = BOOK_NEGATIVE_QTY \<and> (\<exists>l\<in>set ls. lvl_size l < 0)"
  by (induction ls ld rule: load_levels.induct)
    (auto simp: check_level_in_ladder split: if_splits)

lemma validate_changes_in_ladder:
  "list_all (\<lambda>c. price_in_ladder (pc_price c)) cs \<Longrightarrow>
   validate_changes cs = (if \<exists>c\<in>set cs. pc_size c < 0 then BOOK_NEGATIVE_QTY else OK)"
  by (induction cs) (auto simp: check_level_in_ladder)

text \<open>The texts of the levels the program writes are read back.\<close>

definition level_doc :: "price_level \<Rightarrow> json" where
  "level_doc l =
     JObj [(''price'', JStr (format_price (lvl_price l))), (''size'', JStr (format_qty (lvl_size l)))]"

definition book_doc :: "book_snapshot \<Rightarrow> json" where
  "book_doc snap =
     JObj [(''event_type'', JStr ''book''), (''asset_id'', JStr (snap_asset_id snap)),
           (''market'', JStr (snap_market_id snap)),
           (''bids'', JArr (map level_doc (snap_bids snap))),
           (''asks'', JArr (map level_doc (snap_asks snap)))]"

definition level_ok :: "price_level \<Rightarrow> bool" where
  "level_ok l \<longleftrightarrow> price_in_ladder (lvl_price l) \<and> 0 \<le> lvl_size l \<and> lvl_size l \<le> int64_max"

definition publishable :: "book_snapshot \<Rightarrow> bool" where
  "publishable snap \<longleftrightarrow>
     asset_id_fits (snap_asset_id snap) \<and> asset_id_fits (snap_market_id snap) \<and>
     length (snap_bids snap) \<le> kMaxSnapshotLevels \<and> length (snap_asks snap) \<le> kMaxSnapshotLevels \<and>
     list_all level_ok (snap_bids snap @ snap_asks snap) \<and> snap_exchange_ts snap = 0"

lemma parse_level_doc: "level_ok l \<Longrightarrow> parse_level (level_doc l) = Value l"
  by (simp add: parse_level_def level_doc_def level_ok_def price_in_ladder_def
      parse_required_price_field_def parse_required_qty_field_def get_required_string_def json_access
      parse_format_price parse_format_qty)

lemma parse_level_docs:
  assumes "list_all level_ok ls" "length ls \<le> kMaxSnapshotLevels"
  shows "collect kMaxSnapshotLevels parse_level (map level_doc ls) [] = Value ls"
proof -
  have "list_all2 (\<lambda>x y. parse_level x = Value y) (map level_doc ls) ls"
    using assms(1) by (induction ls) (auto simp: parse_level_doc)
  with assms(2) show ?thesis by (simp add: collect_all)
qed

lemma AssetId_fitting: "asset_id_fits a \<Longrightarrow> AssetId a = a"
  by (simp add: asset_id_fits_def AssetId_def)

lemma parse_book_doc:
  assumes "publishable snap"
  shows "parse_payload (book_doc snap) = Value (MBook (book_snapshot.extend snap \<lparr> ps_hash = [] \<rparr>))"
  using assms
  by (simp add: parse_payload_def book_doc_def get_required_string_def json_access parse_book_def
      parse_levels_def parse_level_docs publishable_def AssetId_fitting market_timestamp_def
      book_snapshot.defs)

lemma load_published_levels: "list_all level_ok ls \<Longrightarrow> \<exists>ld'. load_levels ls ld = Inr ld'"
  by (induction ls ld rule: load_levels.induct) (auto simp: level_ok_def check_level_in_ladder)

lemma apply_publishable: "publishable snap \<Longrightarrow> snd (apply_snapshot b snap) = OK"
  by (auto simp: publishable_def apply_snapshot_def Let_def split: sum.splits
      dest: load_published_levels [of _ "bids (clear b)"] load_published_levels [of _ "asks (clear b)"])

subsection \<open>Properties of the market parser\<close>

text \<open>C24: Every market message the parser accepts fits the structs and the price ladder: at most
  1024 levels a side, 32 assets of 512 changes, identifiers shorter than their buffers, prices
  between 0 and 10000, a positive tick size, a 16-bit fee rate; its receive time and sequence number
  are the caller's.\<close>

theorem accepted_market_message_fits:
  assumes "parse_market_message iterate payload recv_ts seq = Value m"
  shows "market_payload_fits (mm_payload m) \<and> mm_recv_ts m = recv_ts \<and> mm_seq m = seq"
  using assms by (elim parse_market_message_Value) (auto intro: parse_payload_fits)

text \<open>An iterate function that presents one document for every text.\<close>

definition sample_snapshot :: book_snapshot where
  "sample_snapshot =
     \<lparr> snap_asset_id = ''A'', snap_market_id = ''M'',
       snap_bids = [\<lparr> lvl_price = 4900, lvl_size = 2500000 \<rparr>],
       snap_asks = [\<lparr> lvl_price = 5100, lvl_size = 1000000 \<rparr>], snap_exchange_ts = 0 \<rparr>"

lemma sample_publishable: "publishable sample_snapshot"
  by (simp add: publishable_def sample_snapshot_def asset_id_fits_def kMaxAssetIdLen_def
      kMaxSnapshotLevels_def level_ok_def price_in_ladder_def price_consts int64_max_def)

lemma parse_sample:
  "parse_market_message (\<lambda>_. Some (book_doc sample_snapshot)) ''x'' 7 3 =
     Value \<lparr> mm_payload = MBook (book_snapshot.extend sample_snapshot \<lparr> ps_hash = [] \<rparr>),
             mm_recv_ts = 7, mm_seq = 3 \<rparr>"
  by (simp add: parse_market_message_def parse_book_doc sample_publishable)

theorem accepted_market_message_fits_witness:
  "market_payload_fits (MBook (book_snapshot.extend sample_snapshot \<lparr> ps_hash = [] \<rparr>))"
  using accepted_market_message_fits [OF parse_sample] by simp

text \<open>The order book can refuse an accepted snapshot or price change for a negative size only:
  its price check never fires on parsed input.\<close>

theorem parsed_input_refused_for_size_only:
  assumes "parse_market_message iterate payload recv_ts seq = Value m"
  shows "case mm_payload m of
           MBook snap \<Rightarrow>
             snd (apply_snapshot b (book_snapshot.truncate snap)) \<in> {OK, BOOK_NEGATIVE_QTY}
         | MPriceChange acs ts \<Rightarrow>
             list_all (\<lambda>ac. snd (apply_price_change b ac) =
               (if \<exists>c\<in>set (apc_changes ac). pc_size c < 0 then BOOK_NEGATIVE_QTY else OK)) acs
         | _ \<Rightarrow> True"
proof -
  have fits: "market_payload_fits (mm_payload m)"
    using assms by (elim parse_market_message_Value) (auto intro: parse_payload_fits)
  show ?thesis
  proof (cases "mm_payload m")
    case (MBook snap)
    with fits show ?thesis
      by (auto simp: snapshot_fits_def apply_snapshot_def Let_def book_snapshot.defs
          dest: load_levels_in_ladder split: sum.splits)
  next
    case (MPriceChange acs ts)
    have "snd (apply_price_change b ac) =
        (if \<exists>c\<in>set (apc_changes ac). pc_size c < 0 then BOOK_NEGATIVE_QTY else OK)"
      if "change_fits ac" for ac
      using that
      by (simp add: change_fits_def apply_price_change_def validate_changes_in_ladder case_prod_beta)
    with MPriceChange fits show ?thesis by (simp add: list_all_iff)
  qed simp_all
qed

theorem parsed_input_refused_for_size_only_witness:
  "snd (apply_snapshot new_order_book sample_snapshot) \<in> {OK, BOOK_NEGATIVE_QTY}"
  using parsed_input_refused_for_size_only [OF parse_sample, of new_order_book]
  by (simp add: book_snapshot.defs sample_snapshot_def)

text \<open>C23: A book message whose levels are written by the program's own price and quantity formatter
  is read back to exactly these levels, and the order book takes it.\<close>

theorem book_message_round_trip:
  assumes "publishable snap" and "iterate payload = Some (book_doc snap)"
    and "payload \<notin> {[], ''PONG''}"
  shows "parse_market_message iterate payload recv_ts seq =
           Value \<lparr> mm_payload = MBook (book_snapshot.extend snap \<lparr> ps_hash = [] \<rparr>),
                   mm_recv_ts = recv_ts, mm_seq = seq \<rparr> \<and>
         snd (apply_snapshot b snap) = OK"
  using assms by (simp add: parse_market_message_def parse_book_doc apply_publishable)

theorem book_message_round_trip_witness:
  "snd (apply_snapshot new_order_book sample_snapshot) = OK"
  using book_message_round_trip [OF sample_publishable, of "\<lambda>_. Some (book_doc sample_snapshot)" "''x''"]
  by simp

subsection \<open>Properties of the user parser\<close>

definition order_id_fits :: "order_id \<Rightarrow> bool" where
  "order_id_fits x \<longleftrightarrow> length x < kMaxOrderIdLen"

fun user_payload_fits :: "user_payload \<Rightarrow> bool" where
  "user_payload_fits (UOrder u) \<longleftrightarrow>
     order_id_fits (uo_order_id u) \<and> order_id_fits (uo_client_order_id u) \<and>
     asset_id_fits (uo_asset_id u) \<and> asset_id_fits (uo_market_id u) \<and> price_in_ladder (uo_price u) \<and>
     (uo_size_matched_exceeds_original u \<longleftrightarrow>
        0 < uo_original_size u \<and> uo_original_size u < uo_size_matched u)"
| "user_payload_fits (UTrade t) \<longleftrightarrow>
     length (ut_trade_id t) < kMaxTradeIdLen \<and> order_id_fits (ut_taker_order_id t) \<and>
     asset_id_fits (ut_asset_id t) \<and> asset_id_fits (ut_market_id t) \<and>
     price_in_ladder (ut_fill_price t) \<and> ut_status t \<noteq> T_UNKNOWN \<and>
     length (ut_maker_entries t) \<le> kMaxMakerOrders \<and>
     list_all (\<lambda>e. order_id_fits (mo_order_id e)) (ut_maker_entries t)"

definition user_result_ok ::
  "user_message \<Rightarrow> nat \<Rightarrow> user_message \<times> error_code option \<Rightarrow> bool" where
  "user_result_ok out n r \<longleftrightarrow>
     um_truncated_fields (fst r) \<le> um_truncated_fields out + n \<and>
     um_recv_ts (fst r) = um_recv_ts out \<and> um_seq (fst r) = um_seq out \<and>
     (if snd r = Some OK then \<exists>p. um_payload (fst r) = Some p \<and> user_payload_fits p
      else um_payload (fst r) = um_payload out)"

lemma OrderId_fits [simp, intro!]: "order_id_fits (OrderId sv)"
  by (simp add: order_id_fits_def OrderId_def kMaxOrderIdLen_def)

lemma TradeId_fits [simp]: "length (TradeId sv) < kMaxTradeIdLen"
  by (simp add: TradeId_def kMaxTradeIdLen_def)

lemma parse_makers_fit:
  assumes "parse_makers xs acc = MakerDone es t" "length acc \<le> kMaxMakerOrders"
    "list_all (\<lambda>e. order_id_fits (mo_order_id e)) acc"
  shows "length es \<le> kMaxMakerOrders \<and> list_all (\<lambda>e. order_id_fits (mo_order_id e)) es"
  using assms
  by (induction xs acc rule: parse_makers.induct)
    (auto split: if_splits field.splits expected.splits)

lemma order_fields_fit:
  "order_fields_after_ids doc i a = Value u \<Longrightarrow> user_payload_fits (UOrder u)"
  by (auto simp: order_fields_after_ids_def)

lemma trade_status_known: "parse_trade_status sv = Value st \<Longrightarrow> st \<noteq> T_UNKNOWN"
  by (auto simp: parse_trade_status_def split: if_splits)

lemma trade_fields_fit:
  assumes "trade_fields_after_ids doc i a = Value u" "length es \<le> kMaxMakerOrders"
    "list_all (\<lambda>e. order_id_fits (mo_order_id e)) es"
  shows "user_payload_fits (UTrade (u\<lparr> ut_maker_entries := es \<rparr>))"
  using assms by (auto simp: trade_fields_after_ids_def dest: trade_status_known)

lemma note_truncation_simps [simp]:
  "um_payload (note_truncation n sv out) = um_payload out"
  "um_recv_ts (note_truncation n sv out) = um_recv_ts out"
  "um_seq (note_truncation n sv out) = um_seq out"
  "um_truncated_fields (note_truncation n sv out) \<le> Suc (um_truncated_fields out)"
  by (simp_all add: note_truncation_def)

lemma get_required_string_not_OK: "get_required_string doc k \<noteq> Err OK"
  by (cases "string_at doc k") (simp_all add: get_required_string_def)

lemma with_ids_ok:
  assumes "\<And>doc i a out. user_result_ok out n (rest doc i a out)"
  shows "user_result_ok out (n + 2) (with_ids cap rest doc out)"
proof -
  have step: "um_truncated_fields (note_truncation k1 s1 (note_truncation k2 s2 out))
      \<le> um_truncated_fields out + 2" for k1 s1 k2 s2
    using note_truncation_simps(4) [of k1 s1 "note_truncation k2 s2 out"]
      note_truncation_simps(4) [of k2 s2 out] by linarith
  have rest: "user_result_ok out (n + 2)
      (rest doc i a (note_truncation k1 s1 (note_truncation k2 s2 out)))" for i a k1 s1 k2 s2
    using assms [of "note_truncation k1 s1 (note_truncation k2 s2 out)" doc i a] step [of k1 s1 k2 s2]
    by (auto simp: user_result_ok_def)
  have "um_truncated_fields (note_truncation k s out) \<le> Suc (Suc (um_truncated_fields out + n))" for k s
    using note_truncation_simps(4) [of k s out] by linarith
  then show ?thesis
    using rest get_required_string_not_OK
    by (auto simp: with_ids_def Let_def user_result_ok_def split: expected.splits)
qed

text \<open>No step returns \<open>OK\<close> as its error.\<close>

lemma ebind_not_OK: "r \<noteq> Err OK \<Longrightarrow> (\<And>x. f x \<noteq> Err OK) \<Longrightarrow> ebind r f \<noteq> Err OK"
  by (cases r) auto

lemma scale_price_not_OK: "scale_price n i f d \<noteq> Err OK"
  unfolding scale_price_def Let_def by (simp split: if_split)

lemma parse_price_not_OK: "parse_price sv \<noteq> Err OK"
  unfolding parse_price_def Let_def
  by (simp add: scale_price_not_OK split: if_split option.split prod.split)

lemma scale_frac_qty_not_OK: "scale_frac_qty f d \<noteq> Err OK"
  unfolding scale_frac_qty_def Let_def by (simp split: if_split)

lemma parse_frac_qty_not_OK: "parse_frac_qty sv \<noteq> Err OK"
  unfolding parse_frac_qty_def Let_def
  by (simp add: scale_frac_qty_not_OK split: if_split option.split)

lemma parse_qty_not_OK: "parse_qty sv \<noteq> Err OK"
  using parse_frac_qty_not_OK
  by (auto simp: parse_qty_def Let_def split: option.splits prod.splits expected.splits)

lemma parse_side_not_OK: "parse_side sv \<noteq> Err OK"
  by (simp add: parse_side_def)

lemma required_not_OK: "(\<And>x. f x \<noteq> Err OK) \<Longrightarrow> ebind (get_required_string obj key) f \<noteq> Err OK"
  by (rule ebind_not_OK [OF get_required_string_not_OK])

lemma event_type_not_OK: "parse_order_event_type sv \<noteq> Err OK"
  by (simp add: parse_order_event_type_def)

lemma trade_status_not_OK: "parse_trade_status sv \<noteq> Err OK"
  by (simp add: parse_trade_status_def)

lemma price_field_not_OK: "parse_required_price_field obj key \<noteq> Err OK"
  unfolding parse_required_price_field_def by (rule required_not_OK [OF parse_price_not_OK])

lemma qty_field_not_OK: "parse_required_qty_field obj key \<noteq> Err OK"
  unfolding parse_required_qty_field_def by (rule required_not_OK [OF parse_qty_not_OK])

lemma side_field_not_OK: "parse_required_side_field obj key \<noteq> Err OK"
  unfolding parse_required_side_field_def by (rule required_not_OK [OF parse_side_not_OK])

lemmas field_steps_not_OK =
  price_field_not_OK qty_field_not_OK side_field_not_OK
  required_not_OK [OF event_type_not_OK] required_not_OK [OF trade_status_not_OK]

lemma order_fields_not_OK: "order_fields_after_ids doc i a \<noteq> Err OK"
  unfolding order_fields_after_ids_def by (intro ebind_not_OK field_steps_not_OK) simp

lemma trade_fields_not_OK: "trade_fields_after_ids doc i a \<noteq> Err OK"
  unfolding trade_fields_after_ids_def
  by (intro ebind_not_OK field_steps_not_OK get_required_string_not_OK) simp

lemma parse_order_ok: "user_result_ok out 3 (parse_order doc out)"
proof -
  have "user_result_ok out 1
      (finish_payload out (ebind (order_fields_after_ids doc i a) (\<lambda>u. Value (UOrder u))))"
    for doc i a out
    using order_fields_fit [of doc i a] order_fields_not_OK [of doc i a]
    by (cases "order_fields_after_ids doc i a")
      (auto simp: finish_payload_def user_result_ok_def simp del: user_payload_fits.simps)
  then show ?thesis
    using with_ids_ok [where n = 1] by (simp add: parse_order_def numeral_3_eq_3 numeral_2_eq_2)
qed

lemma parse_trade_ok: "user_result_ok out 3 (parse_trade doc out)"
proof -
  let ?rest = "\<lambda>doc id_sv aid_sv out.
       case trade_fields_after_ids doc id_sv aid_sv of
         Err e \<Rightarrow> (out, Some e)
       | Trap \<Rightarrow> (out, None)
       | Value upd \<Rightarrow>
           (case array_at doc ''maker_orders'' of
              Found maker_arr \<Rightarrow>
                (case parse_makers maker_arr [] of
                   MakerTrap \<Rightarrow> (out, None)
                 | MakerDone entries truncated \<Rightarrow>
                     finish_payload
                       (if truncated then out\<lparr> um_truncated_fields := um_truncated_fields out + 1 \<rparr>
                        else out)
                       (Value (UTrade (upd\<lparr> ut_maker_entries := entries \<rparr>))))
            | _ \<Rightarrow> finish_payload out (Value (UTrade upd)))"
  have "user_result_ok out 1 (?rest doc i a out)" for doc i a out
  proof (cases "trade_fields_after_ids doc i a")
    case (Value u)
    have plain: "user_payload_fits (UTrade u)"
    proof -
      have "u\<lparr> ut_maker_entries := [] \<rparr> = u" using Value by (auto simp: trade_fields_after_ids_def)
      with trade_fields_fit [OF Value, of "[]"] show ?thesis by simp
    qed
    show ?thesis
    proof (cases "array_at doc ''maker_orders''")
      case (Found arr)
      show ?thesis
      proof (cases "parse_makers arr []")
        case MakerTrap
        with Value Found show ?thesis by (simp add: user_result_ok_def)
      next
        case (MakerDone es t)
        then have "user_payload_fits (UTrade (u\<lparr> ut_maker_entries := es \<rparr>))"
          using parse_makers_fit [OF MakerDone] trade_fields_fit [OF Value, of es] by simp
        with Value Found MakerDone show ?thesis
          by (simp add: user_result_ok_def finish_payload_def del: user_payload_fits.simps)
      qed
    qed (use Value plain in
      \<open>simp_all add: user_result_ok_def finish_payload_def del: user_payload_fits.simps\<close>)
  qed (use trade_fields_not_OK [of doc i a] in \<open>simp_all add: user_result_ok_def\<close>)
  then show ?thesis
    using with_ids_ok [where n = 1 and rest = ?rest]
    by (simp add: parse_trade_def numeral_3_eq_3 numeral_2_eq_2)
qed

lemma set_server_error_ok:
  "e \<noteq> OK \<Longrightarrow> user_result_ok out n (set_server_error msg out, Some e)"
  by (simp add: user_result_ok_def set_server_error_def)

lemma parse_user_document:
  assumes "payload \<noteq> []" "payload \<noteq> ''PONG''" "iterate payload = Some doc"
  shows "user_result_ok (out\<lparr> um_recv_ts := recv_ts, um_seq := seq \<rparr>) 3
           (parse_user_message iterate payload recv_ts seq out)"
proof (cases "get_required_string doc ''event_type''")
  case (Value et)
  with assms show ?thesis
    by (simp add: parse_user_message_def Let_def parse_order_ok parse_trade_ok set_server_error_ok)
next
  case (Err e)
  then have "e \<noteq> OK" using get_required_string_not_OK [of doc "''event_type''"] by auto
  with Err assms show ?thesis
    by (cases "get_required_string doc ''error''")
      (simp_all add: parse_user_message_def Let_def set_server_error_def user_result_ok_def)
next
  case Trap
  with assms show ?thesis by (simp add: parse_user_message_def Let_def user_result_ok_def)
qed

text \<open>When the user parser reports success, the envelope holds an order or trade update that
  fits its struct (identifiers, price ladder, at most 64 maker entries, a known trade status, the
  overmatch flag exact) with the caller's receive time; on every error it leaves the payload as it
  was.  At most three truncations are counted.\<close>

theorem user_message_fits:
  assumes "parse_user_message iterate payload recv_ts seq out = (out', Some e)"
  shows "(e = OK \<longrightarrow> (\<exists>p. um_payload out' = Some p \<and> user_payload_fits p) \<and>
                    um_recv_ts out' = recv_ts \<and> um_seq out' = seq) \<and>
         (e \<noteq> OK \<longrightarrow> um_payload out' = um_payload out) \<and>
         um_truncated_fields out' \<le> um_truncated_fields out + 3"
proof -
  let ?out = "out\<lparr> um_recv_ts := recv_ts, um_seq := seq \<rparr>"
  have sub: ?thesis if "user_result_ok ?out 3 (parse_user_message iterate payload recv_ts seq out)"
    using that assms by (auto simp: user_result_ok_def split: if_splits)
  show ?thesis
  proof (cases "payload = [] \<or> payload = ''PONG'' \<or> iterate payload = None")
    case True
    with assms show ?thesis by (auto simp: parse_user_message_def split: if_splits)
  next
    case False
    then obtain doc where "payload \<noteq> []" "payload \<noteq> ''PONG''" "iterate payload = Some doc" by auto
    with parse_user_document [of payload iterate doc] show ?thesis by (intro sub) simp
  qed
qed

definition sample_order_doc :: json where
  "sample_order_doc =
     JObj [(''event_type'', JStr ''order''), (''id'', JStr ''o1''), (''asset_id'', JStr ''A''),
           (''type'', JStr ''PLACEMENT''), (''side'', JStr ''BUY''), (''price'', JStr ''1''),
           (''original_size'', JStr ''5''), (''size_matched'', JStr ''7'')]"

definition sample_order :: user_order_update where
  "sample_order =
     \<lparr> uo_order_id = ''o1'', uo_client_order_id = [], uo_asset_id = ''A'', uo_market_id = [],
       uo_event_type = PLACEMENT, uo_side = BID, uo_price = 10000, uo_original_size = 5000000,
       uo_size_matched = 7000000, uo_exchange_ts = 0, uo_size_matched_exceeds_original = True \<rparr>"

lemma sample_numbers:
  "parse_price ''1'' = Value 10000" "parse_qty ''5'' = Value 5000000" "parse_qty ''7'' = Value 7000000"
proof -
  have d: "list_all is_digit ''1''" "list_all is_digit ''5''" "list_all is_digit ''7''"
    by (simp_all add: is_digit_def)
  have v: "dec_value ''1'' = 1" "dec_value ''5'' = 5" "dec_value ''7'' = 7"
    by (simp_all add: dec_value_def digit_value_def)
  show "parse_price ''1'' = Value 10000"
    using parse_price_integer [OF d(1)] v by (simp add: price_consts)
  show "parse_qty ''5'' = Value 5000000" "parse_qty ''7'' = Value 7000000"
    using parse_qty_integer [OF d(2)] parse_qty_integer [OF d(3)] v by (simp_all add: int64_max_def)
qed

lemma sample_fields:
  "string_at sample_order_doc ''event_type'' = Found ''order''"
  "string_at sample_order_doc ''id'' = Found ''o1''"
  "string_at sample_order_doc ''asset_id'' = Found ''A''"
  "string_at sample_order_doc ''type'' = Found ''PLACEMENT''"
  "string_at sample_order_doc ''side'' = Found ''BUY''"
  "string_at sample_order_doc ''price'' = Found ''1''"
  "string_at sample_order_doc ''original_size'' = Found ''5''"
  "string_at sample_order_doc ''size_matched'' = Found ''7''"
  "string_at sample_order_doc ''client_order_id'' = NoSuchField"
  "string_at sample_order_doc ''market'' = NoSuchField"
  "string_at sample_order_doc ''timestamp'' = NoSuchField"
  "int64_at sample_order_doc ''timestamp'' = NoSuchField"
  by (simp_all add: sample_order_doc_def json_access)

lemma sample_order_fields: "order_fields_after_ids sample_order_doc ''o1'' ''A'' = Value sample_order"
  by (simp add: order_fields_after_ids_def parse_order_event_type_def parse_required_side_field_def
      parse_required_price_field_def parse_required_qty_field_def parse_side_def get_required_string_def
      sample_numbers sample_fields sample_order_def user_timestamp_def OrderId_def AssetId_def
      kMaxOrderIdLen_def kMaxAssetIdLen_def)

lemma parse_sample_order:
  "parse_user_message (\<lambda>_. Some sample_order_doc) ''x'' 7 3 new_user_message =
     (new_user_message\<lparr> um_recv_ts := 7, um_seq := 3, um_payload := Some (UOrder sample_order) \<rparr>, Some OK)"
  by (simp add: parse_user_message_def get_required_string_def parse_order_def with_ids_def
      note_truncation_def kMaxOrderIdLen_def kMaxAssetIdLen_def Let_def finish_payload_def
      sample_fields sample_order_fields)

theorem user_message_fits_witness: "user_payload_fits (UOrder sample_order)"
  using user_message_fits [OF parse_sample_order] by (simp del: user_payload_fits.simps)

end
