(* ===== verification/Rest_Parsers.thy ===== *)
theory Rest_Parsers
  imports Json_Doc
begin

section \<open>REST requests and responses\<close>

text \<open>
  src/src/rest/rest_types.h and src/src/rest/rest_response_parser.cpp.  The argument \<open>parse\<close> stands
  for \<open>simdjson::dom::parser::parse\<close> and \<open>minify\<close> for \<open>simdjson::minify\<close>.  The lemmas show when a
  cancel response is accepted and that the batch parser keeps the order of its items, on which the
  gateway's matching of items to orders rests.
\<close>

datatype http_method = GET | POST | DELETE_METHOD

fun http_method_str :: "http_method \<Rightarrow> string" where
  "http_method_str GET = ''GET''"
| "http_method_str POST = ''POST''"
| "http_method_str DELETE_METHOD = ''DELETE''"

record rest_request =
  rq_method :: http_method
  rq_path :: string
  rq_body :: string
  rq_created_ts :: timestamp

record rest_response =
  rs_http_status :: int
  rs_body :: string
  rs_latency_ns :: timestamp
  rs_timed_out :: bool

record order_response =
  or_success :: bool
  or_error_msg :: string
  or_order_id :: string
  or_status :: string

record cancel_response =
  cr_canceled :: "string list"
  cr_not_canceled :: "(string \<times> string) list"

record heartbeat_response =
  hr_heartbeat_id :: string

definition parse_order_response :: "(string \<Rightarrow> json option) \<Rightarrow> string \<Rightarrow> order_response expected" where
  "parse_order_response parse body =
     (case parse body of
        None \<Rightarrow> Err JSON_PARSE_ERROR
      | Some doc \<Rightarrow>
          Value \<lparr> or_success = field_or False (bool_at doc ''success''),
                  or_error_msg = field_or [] (string_at doc ''errorMsg''),
                  or_order_id = field_or [] (string_at doc ''orderID''),
                  or_status = field_or [] (string_at doc ''status'') \<rparr>)"

fun all_strings :: "json list \<Rightarrow> string list expected" where
  "all_strings [] = Value []"
| "all_strings (x # xs) =
     (case get_string x of
        Found s \<Rightarrow> ebind (all_strings xs) (\<lambda>ss. Value (s # ss))
      | _ \<Rightarrow> Err JSON_TYPE_ERROR)"

fun all_reasons :: "(string \<times> json) list \<Rightarrow> (string \<times> string) list expected" where
  "all_reasons [] = Value []"
| "all_reasons ((k, x) # xs) =
     (case get_string x of
        Found s \<Rightarrow> ebind (all_reasons xs) (\<lambda>ss. Value ((k, s) # ss))
      | _ \<Rightarrow> Err JSON_TYPE_ERROR)"

text \<open>The result says whether the field was there.\<close>

definition canceled_field :: "json \<Rightarrow> (bool \<times> string list) expected" where
  "canceled_field doc =
     (case json_at doc ''canceled'' of
        Found elem \<Rightarrow>
          (case get_array elem of
             Found arr \<Rightarrow> ebind (all_strings arr) (\<lambda>ss. Value (True, ss))
           | _ \<Rightarrow> Err JSON_TYPE_ERROR)
      | NoSuchField \<Rightarrow> Value (False, [])
      | OtherError \<Rightarrow> Err JSON_TYPE_ERROR)"

definition not_canceled_field :: "json \<Rightarrow> (bool \<times> (string \<times> string) list) expected" where
  "not_canceled_field doc =
     (case json_at doc ''not_canceled'' of
        Found elem \<Rightarrow>
          (case get_object elem of
             Found fs \<Rightarrow> ebind (all_reasons fs) (\<lambda>ss. Value (True, ss))
           | _ \<Rightarrow> Err JSON_TYPE_ERROR)
      | NoSuchField \<Rightarrow> Value (False, [])
      | OtherError \<Rightarrow> Err JSON_TYPE_ERROR)"

definition parse_cancel_response :: "(string \<Rightarrow> json option) \<Rightarrow> string \<Rightarrow> cancel_response expected" where
  "parse_cancel_response parse body =
     (case parse body of
        None \<Rightarrow> Err JSON_PARSE_ERROR
      | Some doc \<Rightarrow>
          ebind (canceled_field doc) (\<lambda>(has_canceled, canceled).
          ebind (not_canceled_field doc) (\<lambda>(has_not_canceled, not_canceled).
          if \<not> has_canceled \<and> \<not> has_not_canceled then Err JSON_MISSING_FIELD
          else Value \<lparr> cr_canceled = canceled, cr_not_canceled = not_canceled \<rparr>)))"

definition parse_heartbeat_response ::
  "(string \<Rightarrow> json option) \<Rightarrow> string \<Rightarrow> heartbeat_response expected" where
  "parse_heartbeat_response parse body =
     (case parse body of
        None \<Rightarrow> Err JSON_PARSE_ERROR
      | Some doc \<Rightarrow> Value \<lparr> hr_heartbeat_id = field_or [] (string_at doc ''heartbeat_id'') \<rparr>)"

text \<open>An item that reports success with neither an identifier nor an error keeps its raw text.\<close>

definition parse_batch_item :: "(json \<Rightarrow> string) \<Rightarrow> json \<Rightarrow> order_response" where
  "parse_batch_item minify elem =
     (let success = field_or False (bool_at elem ''success'');
          error_msg = field_or [] (string_at elem ''errorMsg'');
          order_id = (case string_at elem ''orderID'' of
                        Found (c # cs) \<Rightarrow> c # cs
                      | _ \<Rightarrow> field_or [] (string_at elem ''id''))
      in \<lparr> or_success = success,
           or_error_msg = (if success \<and> order_id = [] \<and> error_msg = [] then minify elem else error_msg),
           or_order_id = order_id,
           or_status = field_or [] (string_at elem ''status'') \<rparr>)"

definition parse_batch_order_response ::
  "(string \<Rightarrow> json option) \<Rightarrow> (json \<Rightarrow> string) \<Rightarrow> string \<Rightarrow> order_response list expected" where
  "parse_batch_order_response parse minify body =
     (case parse body of
        None \<Rightarrow> Err JSON_PARSE_ERROR
      | Some doc \<Rightarrow>
          (case get_array doc of
             Found arr \<Rightarrow> Value (map (parse_batch_item minify) arr)
           | _ \<Rightarrow>
               (case array_at doc ''orders'' of
                  Found arr \<Rightarrow> Value (map (parse_batch_item minify) arr)
                | _ \<Rightarrow>
                    (case string_at doc ''error'' of
                       Found error_sv \<Rightarrow>
                         Value [\<lparr> or_success = False, or_error_msg = error_sv, or_order_id = [],
                                  or_status = [] \<rparr>]
                     | _ \<Rightarrow> Err JSON_TYPE_ERROR))))"

subsection \<open>Shape of the results\<close>

lemma all_strings_length: "all_strings xs = Value ss \<Longrightarrow> map JStr ss = xs"
proof (induction xs arbitrary: ss)
  case (Cons x xs)
  from Cons.prems obtain s ss' where s: "get_string x = Found s" "all_strings xs = Value ss'" "ss = s # ss'"
    by (auto split: field.splits)
  from s(1) have "x = JStr s" by (cases x) auto
  with s Cons.IH show ?case by simp
qed simp

lemma batch_item_ids_or_error:
  assumes "minify elem \<noteq> []" "or_success (parse_batch_item minify elem)"
  shows "or_order_id (parse_batch_item minify elem) \<noteq> [] \<or> or_error_msg (parse_batch_item minify elem) \<noteq> []"
  using assms by (auto simp: parse_batch_item_def Let_def)

lemma batch_response_array:
  "parse body = Some (JArr xs) \<Longrightarrow>
   parse_batch_order_response parse minify body = Value (map (parse_batch_item minify) xs)"
  by (simp add: parse_batch_order_response_def)

lemma cancel_response_needs_field:
  "parse body = Some (JObj fs) \<Longrightarrow> map_of fs ''canceled'' = None \<Longrightarrow> map_of fs ''not_canceled'' = None \<Longrightarrow>
   parse_cancel_response parse body = Err JSON_MISSING_FIELD"
  by (simp add: parse_cancel_response_def canceled_field_def not_canceled_field_def)

end
