(* ===== verification/Watcher.thy ===== *)
theory Watcher
  imports Json_Doc Order_Book Sched_Events "HOL-Library.Multiset"
begin

section \<open>The UI's commands and the BTC ladder watcher\<close>

text \<open>
  src/src/ui_bridge/ui_command_parser.cpp, watcher_types.h, btc_series_registry.cpp,
  series_rolling_fsm.cpp, watch_manager.cpp and watcher_book_store.cpp: what the user interface may
  ask for, and the watcher that follows the current market of each BTC series, rolls to the next one
  when it closes, and merges the books of its two tokens into one ladder.  An array indexed by
  timeframe is a function of the timeframe.  The lemmas show that a command's quantity never
  overflows, that the state machine is active exactly while somebody watches, that a stale series
  recovers and a closed market leads back to a connection, and that the merged ladder has at every
  price the sum of the two books.
\<close>

subsection \<open>UI commands\<close>

definition parse_mode_string :: "string \<Rightarrow> nat" where
  "parse_mode_string mode_str =
     (if mode_str = ''DRY_RUN'' then 0 else if mode_str = ''LIVE'' then 1 else 255)"

definition shares_to_qty :: "int \<Rightarrow> qty option" where
  "shares_to_qty shares =
     (if shares < 0 then None
      else if shares > int64_max div kQtyScale then None
      else Some (qty_from_int shares))"

text \<open>\<open>None\<close> is a result with \<open>valid = false\<close>.\<close>

definition start_session_cmd :: "json \<Rightarrow> scheduler_event option" where
  "start_session_cmd doc =
     (case int64_at doc ''end_time'' of
        Found end_time \<Rightarrow> Some (make_start_session end_time)
      | NoSuchField \<Rightarrow> Some (make_start_session 0)
      | OtherError \<Rightarrow> None)"

definition split_merge_cmd :: "bool \<Rightarrow> json \<Rightarrow> scheduler_event option" where
  "split_merge_cmd split doc =
     (case string_at doc ''condition_id'' of
        Found condition_sv \<Rightarrow>
          (case int64_at doc ''shares'' of
             Found shares \<Rightarrow>
               (case shares_to_qty shares of
                  None \<Rightarrow> None
                | Some qty \<Rightarrow>
                    if qty \<le> 0 then None
                    else Some ((if split then make_inventory_split else make_inventory_merge)
                                 (AssetId condition_sv) qty))
           | _ \<Rightarrow> None)
      | _ \<Rightarrow> None)"

definition redeem_cmd :: "json \<Rightarrow> scheduler_event option" where
  "redeem_cmd doc =
     (case string_at doc ''condition_id'' of
        Found condition_sv \<Rightarrow>
          (case string_at doc ''token_id'' of
             OtherError \<Rightarrow> None
           | token \<Rightarrow>
               (let token_id = (case token of Found t \<Rightarrow> AssetId t | _ \<Rightarrow> [])
                in case int64_at doc ''shares'' of
                     Found shares \<Rightarrow>
                       (case shares_to_qty shares of
                          None \<Rightarrow> None
                        | Some qty \<Rightarrow> Some (make_inventory_redeem (AssetId condition_sv) token_id qty))
                   | NoSuchField \<Rightarrow> Some (make_inventory_redeem (AssetId condition_sv) token_id 0)
                   | OtherError \<Rightarrow> None))
      | _ \<Rightarrow> None)"

definition set_mode_cmd :: "json \<Rightarrow> scheduler_event option" where
  "set_mode_cmd doc =
     (case string_at doc ''mode'' of
        Found mode_str \<Rightarrow>
          (let mode = parse_mode_string mode_str
           in if mode = 255 then None else Some (make_set_mode mode))
      | _ \<Rightarrow> None)"

definition parse_ui_command :: "(string \<Rightarrow> json option) \<Rightarrow> string \<Rightarrow> scheduler_event option" where
  "parse_ui_command iterate text =
     (if text = [] then None
      else case iterate text of
             None \<Rightarrow> None
           | Some doc \<Rightarrow>
               (case string_at doc ''cmd'' of
                  Found cmd \<Rightarrow>
                    if cmd = ''enable_strategy'' then Some (make_enable_strategy True)
                    else if cmd = ''disable_strategy'' then Some (make_enable_strategy False)
                    else if cmd = ''cancel_all'' then Some make_cancel_all
                    else if cmd = ''set_mode'' then set_mode_cmd doc
                    else if cmd = ''start_session'' then start_session_cmd doc
                    else if cmd = ''stop_session'' then Some make_stop_session
                    else if cmd = ''inventory_split'' then split_merge_cmd True doc
                    else if cmd = ''inventory_merge'' then split_merge_cmd False doc
                    else if cmd = ''inventory_redeem'' then redeem_cmd doc
                    else if cmd = ''latency_probe'' then Some make_latency_probe
                    else if cmd = ''market_sell_all'' then Some make_market_sell_all
                    else if cmd = ''market_sell_down'' then Some make_market_sell_down
                    else None
                | _ \<Rightarrow> None))"

datatype btc_timeframe = BTC_5M | BTC_15M

definition all_timeframes :: "btc_timeframe list" where
  "all_timeframes = [BTC_5M, BTC_15M]"

fun timeframe_name :: "btc_timeframe \<Rightarrow> string" where
  "timeframe_name BTC_5M = ''BTC_5m''"
| "timeframe_name BTC_15M = ''BTC_15m''"

datatype watch_command = SUBSCRIBE btc_timeframe | UNSUBSCRIBE btc_timeframe | REQUEST_LIST

definition parse_timeframe :: "string \<Rightarrow> btc_timeframe option" where
  "parse_timeframe key =
     (if key = ''BTC_5m'' then Some BTC_5M else if key = ''BTC_15m'' then Some BTC_15M else None)"

definition series_cmd :: "(btc_timeframe \<Rightarrow> watch_command) \<Rightarrow> json \<Rightarrow> watch_command option" where
  "series_cmd mk doc =
     (case string_at doc ''series_key'' of
        Found key \<Rightarrow> map_option mk (parse_timeframe key)
      | _ \<Rightarrow> None)"

definition parse_watch_command :: "(string \<Rightarrow> json option) \<Rightarrow> string \<Rightarrow> watch_command option" where
  "parse_watch_command iterate text =
     (if text = [] then None
      else case iterate text of
             None \<Rightarrow> None
           | Some doc \<Rightarrow>
               (case string_at doc ''cmd'' of
                  Found cmd \<Rightarrow>
                    if cmd = ''watch_subscribe'' then series_cmd SUBSCRIBE doc
                    else if cmd = ''watch_unsubscribe'' then series_cmd UNSUBSCRIBE doc
                    else if cmd = ''request_series_list'' then Some REQUEST_LIST
                    else None
                | _ \<Rightarrow> None))"

definition is_watch_command :: "(string \<Rightarrow> json option) \<Rightarrow> string \<Rightarrow> bool" where
  "is_watch_command iterate text =
     (if text = [] then False
      else case iterate text of
             None \<Rightarrow> False
           | Some doc \<Rightarrow>
               (case string_at doc ''cmd'' of
                  Found cmd \<Rightarrow>
                    cmd = ''watch_subscribe'' \<or> cmd = ''watch_unsubscribe'' \<or>
                    cmd = ''request_series_list''
                | _ \<Rightarrow> False))"

subsection \<open>Series registry\<close>

text \<open>The identifiers of a market are C strings: they end before the first terminator.\<close>

record series_market_info =
  si_condition_id :: string
  si_token_id_up :: string
  si_token_id_down :: string
  si_is_closed :: bool

definition new_market_info :: series_market_info where
  "new_market_info =
     \<lparr> si_condition_id = [], si_token_id_up = [], si_token_id_down = [], si_is_closed = False \<rparr>"

definition c_str :: "string \<Rightarrow> string" where
  "c_str sv = takeWhile (\<lambda>c. of_char c \<noteq> (0::nat)) (take 127 sv)"

definition set_condition_id :: "string \<Rightarrow> series_market_info \<Rightarrow> series_market_info" where
  "set_condition_id sv i = i\<lparr> si_condition_id := c_str sv \<rparr>"

definition set_token_id_up :: "string \<Rightarrow> series_market_info \<Rightarrow> series_market_info" where
  "set_token_id_up sv i = i\<lparr> si_token_id_up := c_str sv \<rparr>"

definition set_token_id_down :: "string \<Rightarrow> series_market_info \<Rightarrow> series_market_info" where
  "set_token_id_down sv i = i\<lparr> si_token_id_down := c_str sv \<rparr>"

record series_entry =
  se_current :: series_market_info
  se_next_market :: series_market_info
  se_has_current :: bool
  se_has_next_market :: bool

type_synonym series_registry = "btc_timeframe \<Rightarrow> series_entry"

definition new_series_entry :: series_entry where
  "new_series_entry =
     \<lparr> se_current = new_market_info, se_next_market = new_market_info, se_has_current = False,
       se_has_next_market = False \<rparr>"

definition update_from_discovery ::
  "series_registry \<Rightarrow> btc_timeframe \<Rightarrow> series_market_info \<Rightarrow> series_market_info option \<Rightarrow>
   series_registry" where
  "update_from_discovery r tf cur nxt =
     r(tf := \<lparr> se_current = cur,
               se_next_market = (case nxt of Some n \<Rightarrow> n | None \<Rightarrow> new_market_info),
               se_has_current = True, se_has_next_market = (nxt \<noteq> None) \<rparr>)"

definition reg_current :: "series_registry \<Rightarrow> btc_timeframe \<Rightarrow> series_market_info option" where
  "reg_current r tf = (if se_has_current (r tf) then Some (se_current (r tf)) else None)"

definition reg_next :: "series_registry \<Rightarrow> btc_timeframe \<Rightarrow> series_market_info option" where
  "reg_next r tf = (if se_has_next_market (r tf) then Some (se_next_market (r tf)) else None)"

definition has_next :: "series_registry \<Rightarrow> btc_timeframe \<Rightarrow> bool" where
  "has_next r tf = se_has_next_market (r tf)"

definition has_current :: "series_registry \<Rightarrow> btc_timeframe \<Rightarrow> bool" where
  "has_current r tf = se_has_current (r tf)"

definition promote_next :: "series_registry \<Rightarrow> btc_timeframe \<Rightarrow> series_registry" where
  "promote_next r tf =
     (if \<not> se_has_next_market (r tf) then r
      else r(tf := \<lparr> se_current = se_next_market (r tf), se_next_market = new_market_info,
                     se_has_current = True, se_has_next_market = False \<rparr>))"

definition mark_closed :: "series_registry \<Rightarrow> btc_timeframe \<Rightarrow> series_registry" where
  "mark_closed r tf =
     (if se_has_current (r tf)
      then r(tf := (r tf)\<lparr> se_current := (se_current (r tf))\<lparr> si_is_closed := True \<rparr> \<rparr>)
      else r)"

definition reg_clear :: "series_registry \<Rightarrow> btc_timeframe \<Rightarrow> series_registry" where
  "reg_clear r tf = r(tf := new_series_entry)"

subsection \<open>Rolling state machine\<close>

datatype watcher_state = DISCONNECTED | CONNECTING | CONNECTED | W_STALE | ROLL_PENDING | ROLLING

definition on_subscribe :: "watcher_state \<Rightarrow> watcher_state \<times> bool" where
  "on_subscribe s = (if s \<noteq> DISCONNECTED then (s, False) else (CONNECTING, True))"

definition on_unsubscribe :: "watcher_state \<Rightarrow> watcher_state \<times> bool" where
  "on_unsubscribe s = (if s = DISCONNECTED then (s, False) else (DISCONNECTED, True))"

definition on_ws_connected :: "watcher_state \<Rightarrow> watcher_state \<times> bool" where
  "on_ws_connected s = (if s \<noteq> CONNECTING then (s, False) else (CONNECTED, True))"

definition on_ws_stale :: "watcher_state \<Rightarrow> watcher_state \<times> bool" where
  "on_ws_stale s = (if s \<noteq> CONNECTED then (s, False) else (W_STALE, True))"

definition on_ws_recovered :: "watcher_state \<Rightarrow> watcher_state \<times> bool" where
  "on_ws_recovered s = (if s \<noteq> W_STALE then (s, False) else (CONNECTED, True))"

definition on_market_closed :: "bool \<Rightarrow> watcher_state \<Rightarrow> watcher_state \<times> bool" where
  "on_market_closed next_exists s =
     (if s \<noteq> CONNECTED \<and> s \<noteq> W_STALE then (s, False)
      else (if next_exists then ROLLING else ROLL_PENDING, True))"

definition on_next_discovered :: "watcher_state \<Rightarrow> watcher_state \<times> bool" where
  "on_next_discovered s = (if s \<noteq> ROLL_PENDING then (s, False) else (ROLLING, True))"

definition on_switch_complete :: "watcher_state \<Rightarrow> watcher_state \<times> bool" where
  "on_switch_complete s = (if s \<noteq> ROLLING then (s, False) else (CONNECTING, True))"

lemmas fsm_defs =
  on_subscribe_def on_unsubscribe_def on_ws_connected_def on_ws_stale_def on_ws_recovered_def
  on_market_closed_def on_next_discovered_def on_switch_complete_def

definition fsm_is_active :: "watcher_state \<Rightarrow> bool" where
  "fsm_is_active s \<longleftrightarrow> s \<noteq> DISCONNECTED"

subsection \<open>Watch manager\<close>

record watch_entry =
  we_fsm :: watcher_state
  we_watchers_count :: int
  we_last_book_update_ns :: timestamp

type_synonym watch_manager = "btc_timeframe \<Rightarrow> watch_entry"

definition new_watch_manager :: watch_manager where
  "new_watch_manager tf =
     \<lparr> we_fsm = DISCONNECTED, we_watchers_count = 0, we_last_book_update_ns = 0 \<rparr>"

definition wm_subscribe :: "watch_manager \<Rightarrow> btc_timeframe \<Rightarrow> watch_manager \<times> bool" where
  "wm_subscribe m tf =
     (let e = (m tf)\<lparr> we_watchers_count := we_watchers_count (m tf) + 1 \<rparr>
      in if we_watchers_count e = 1
         then (m(tf := e\<lparr> we_fsm := fst (on_subscribe (we_fsm e)), we_last_book_update_ns := 0 \<rparr>), True)
         else (m(tf := e), False))"

definition wm_unsubscribe :: "watch_manager \<Rightarrow> btc_timeframe \<Rightarrow> watch_manager \<times> bool" where
  "wm_unsubscribe m tf =
     (if we_watchers_count (m tf) \<le> 0 then (m, False)
      else
        let e = (m tf)\<lparr> we_watchers_count := we_watchers_count (m tf) - 1 \<rparr>
        in if we_watchers_count e = 0
           then (m(tf := e\<lparr> we_fsm := fst (on_unsubscribe (we_fsm e)), we_last_book_update_ns := 0 \<rparr>), True)
           else (m(tf := e), False))"

definition is_subscribed :: "watch_manager \<Rightarrow> btc_timeframe \<Rightarrow> bool" where
  "is_subscribed m tf \<longleftrightarrow> we_watchers_count (m tf) > 0"

definition tick_entry :: "timestamp \<Rightarrow> timestamp \<Rightarrow> watch_entry \<Rightarrow> watch_entry" where
  "tick_entry now stale_threshold_ns e =
     (if we_watchers_count e \<le> 0 then e
      else if we_fsm e = CONNECTED \<and> we_last_book_update_ns e > 0 then
        (if now - we_last_book_update_ns e > stale_threshold_ns
         then e\<lparr> we_fsm := fst (on_ws_stale (we_fsm e)) \<rparr> else e)
      else if we_fsm e = W_STALE \<and> we_last_book_update_ns e > 0 then
        (if now - we_last_book_update_ns e \<le> stale_threshold_ns
         then e\<lparr> we_fsm := fst (on_ws_recovered (we_fsm e)) \<rparr> else e)
      else e)"

definition wm_tick :: "watch_manager \<Rightarrow> timestamp \<Rightarrow> timestamp \<Rightarrow> watch_manager" where
  "wm_tick m now stale_threshold_ns = (\<lambda>tf. tick_entry now stale_threshold_ns (m tf))"

definition on_book_data_received :: "watch_manager \<Rightarrow> btc_timeframe \<Rightarrow> timestamp \<Rightarrow> watch_manager" where
  "on_book_data_received m tf now = m(tf := (m tf)\<lparr> we_last_book_update_ns := now \<rparr>)"

definition wm_fsm_event ::
  "(watcher_state \<Rightarrow> watcher_state \<times> bool) \<Rightarrow> watch_manager \<Rightarrow> btc_timeframe \<Rightarrow> watch_manager" where
  "wm_fsm_event f m tf = m(tf := (m tf)\<lparr> we_fsm := fst (f (we_fsm (m tf))) \<rparr>)"

definition market_tokens :: "series_market_info \<Rightarrow> string list" where
  "market_tokens info =
     (if si_condition_id info = [] then []
      else (if si_token_id_up info \<noteq> [] then [si_token_id_up info] else []) @
           (if si_token_id_down info \<noteq> [] then [si_token_id_down info] else []))"

definition active_asset_ids :: "watch_manager \<Rightarrow> series_registry \<Rightarrow> string list" where
  "active_asset_ids m r =
     concat (map (\<lambda>tf. if we_watchers_count (m tf) \<le> 0 then []
                       else case reg_current r tf of None \<Rightarrow> [] | Some info \<Rightarrow> market_tokens info)
               all_timeframes)"

definition subscribed_timeframes :: "watch_manager \<Rightarrow> btc_timeframe list" where
  "subscribed_timeframes m = filter (\<lambda>tf. we_watchers_count (m tf) > 0) all_timeframes"

definition active_count :: "watch_manager \<Rightarrow> nat" where
  "active_count m = length (filter (\<lambda>tf. we_watchers_count (m tf) > 0) all_timeframes)"

subsection \<open>Watcher books\<close>

text \<open>
  A \<open>WatcherBookLevel\<close> has the fields of a \<open>PriceLevel\<close>.  \<open>std::sort\<close> leaves the order of levels
  with one price open; the model keeps their order, and what is proved assumes distinct prices.
  \<open>std::lower_bound\<close> finds, in a sorted side, the end of the prefix of better prices.
\<close>

type_synonym watcher_level = price_level

record token_book =
  tb_bids :: "watcher_level list"
  tb_asks :: "watcher_level list"

type_synonym watcher_books = "string \<rightharpoonup> token_book"

definition empty_token_book :: token_book where
  "empty_token_book = \<lparr> tb_bids = [], tb_asks = [] \<rparr>"

definition sort_descending :: "watcher_level list \<Rightarrow> watcher_level list" where
  "sort_descending ls = sort_key (\<lambda>l. - lvl_price l) ls"

definition sort_ascending :: "watcher_level list \<Rightarrow> watcher_level list" where
  "sort_ascending ls = sort_key lvl_price ls"

definition apply_book_snapshot ::
  "watcher_books \<Rightarrow> string \<Rightarrow> watcher_level list \<Rightarrow> watcher_level list \<Rightarrow> watcher_books" where
  "apply_book_snapshot w token bs sks =
     w(token \<mapsto> \<lparr> tb_bids = sort_descending bs, tb_asks = sort_ascending sks \<rparr>)"

definition change_side :: "price \<Rightarrow> qty \<Rightarrow> bool \<Rightarrow> watcher_level list \<Rightarrow> watcher_level list" where
  "change_side price new_size is_bid lvls =
     (case find_index (\<lambda>l. lvl_price l = price) lvls of
        Some i \<Rightarrow>
          if new_size = 0 then take i lvls @ drop (Suc i) lvls
          else lvls[i := (lvls ! i)\<lparr> lvl_size := new_size \<rparr>]
      | None \<Rightarrow>
          if new_size = 0 then lvls
          else let better = (\<lambda>l. if is_bid then lvl_price l > price else lvl_price l < price)
               in takeWhile better lvls @ [\<lparr> lvl_price = price, lvl_size = new_size \<rparr>] @
                  dropWhile better lvls)"

definition watcher_price_change ::
  "watcher_books \<Rightarrow> string \<Rightarrow> price \<Rightarrow> qty \<Rightarrow> bool \<Rightarrow> watcher_books" where
  "watcher_price_change w token price new_size is_bid =
     (let book = (case w token of Some b \<Rightarrow> b | None \<Rightarrow> empty_token_book)
      in w(token \<mapsto>
           (if is_bid then book\<lparr> tb_bids := change_side price new_size True (tb_bids book) \<rparr>
            else book\<lparr> tb_asks := change_side price new_size False (tb_asks book) \<rparr>)))"

definition clear_book :: "watcher_books \<Rightarrow> string \<Rightarrow> watcher_books" where
  "clear_book w token = w(token := None)"

definition has_book :: "watcher_books \<Rightarrow> string \<Rightarrow> bool" where
  "has_book w token \<longleftrightarrow> w token \<noteq> None"

definition complement_levels :: "watcher_level list \<Rightarrow> watcher_level list" where
  "complement_levels ls =
     map (\<lambda>l. \<lparr> lvl_price = kPriceMax - lvl_price l, lvl_size = lvl_size l \<rparr>)
       (filter (\<lambda>l. kPriceMin \<le> kPriceMax - lvl_price l \<and> kPriceMax - lvl_price l \<le> kPriceMax) ls)"

definition merge_level :: "watcher_level list \<Rightarrow> watcher_level \<Rightarrow> watcher_level list" where
  "merge_level dest s =
     (case find_index (\<lambda>d. lvl_price d = lvl_price s) dest of
        Some i \<Rightarrow> dest[i := (dest ! i)\<lparr> lvl_size := wrap64 (lvl_size (dest ! i) + lvl_size s) \<rparr>]
      | None \<Rightarrow> dest @ [s])"

definition merge_levels :: "watcher_level list \<Rightarrow> watcher_level list \<Rightarrow> watcher_level list" where
  "merge_levels dest src = foldl merge_level dest src"

definition merge_side ::
  "watcher_level list option \<Rightarrow> watcher_level list option \<Rightarrow> watcher_level list" where
  "merge_side own other =
     (let levels = (case own of Some ls \<Rightarrow> ls | None \<Rightarrow> [])
      in case other of Some ls \<Rightarrow> merge_levels levels (complement_levels ls) | None \<Rightarrow> levels)"

definition truncate_depth :: "int \<Rightarrow> watcher_level list \<Rightarrow> watcher_level list" where
  "truncate_depth max_depth ls =
     (if max_depth > 0 \<and> int (length ls) > max_depth then take (nat max_depth) ls else ls)"

definition build_merged_ladder ::
  "watcher_books \<Rightarrow> string \<Rightarrow> string \<Rightarrow> int \<Rightarrow> watcher_level list \<times> watcher_level list" where
  "build_merged_ladder w up down max_depth =
     (truncate_depth max_depth
        (sort_descending
          (merge_side (map_option tb_bids (w up)) (map_option tb_asks (w down)))),
      truncate_depth max_depth
        (sort_ascending
          (merge_side (map_option tb_asks (w up)) (map_option tb_bids (w down)))))"

subsection \<open>Levels as a map from prices to sizes\<close>

definition level_map :: "watcher_level list \<Rightarrow> price \<rightharpoonup> qty" where
  "level_map ls = map_of (map (\<lambda>l. (lvl_price l, lvl_size l)) ls)"

definition direction :: "bool \<Rightarrow> watcher_level \<Rightarrow> int" where
  "direction is_bid l = (if is_bid then - lvl_price l else lvl_price l)"

definition strictly_sorted :: "bool \<Rightarrow> watcher_level list \<Rightarrow> bool" where
  "strictly_sorted is_bid ls = sorted_wrt (\<lambda>a b. direction is_bid a < direction is_bid b) ls"

definition distinct_prices :: "watcher_level list \<Rightarrow> bool" where
  "distinct_prices ls = distinct (map lvl_price ls)"

fun add_sizes :: "qty option \<Rightarrow> qty option \<Rightarrow> qty option" where
  "add_sizes None y = y"
| "add_sizes x None = x"
| "add_sizes (Some a) (Some b) = Some (wrap64 (a + b))"

lemma add_sizes_None [simp]: "add_sizes x None = x"
  by (cases x) auto

lemma level_map_Nil [simp]: "level_map [] = Map.empty"
  by (simp add: level_map_def)

lemma level_map_Cons [simp]: "level_map (l # ls) = (level_map ls)(lvl_price l \<mapsto> lvl_size l)"
  by (simp add: level_map_def)

lemma level_map_None: "level_map ls p = None \<longleftrightarrow> p \<notin> lvl_price ` set ls"
  by (induction ls) auto

lemma merge_level_Nil [simp]: "merge_level [] s = [s]"
  by (simp add: merge_level_def)

lemma merge_level_Cons:
  "merge_level (d # ds) s =
     (if lvl_price d = lvl_price s then d\<lparr> lvl_size := wrap64 (lvl_size d + lvl_size s) \<rparr> # ds
      else d # merge_level ds s)"
  by (simp add: merge_level_def split: option.splits)

lemma merge_level_prices:
  "lvl_price ` set (merge_level dest s) = insert (lvl_price s) (lvl_price ` set dest)"
  by (induction dest) (auto simp: merge_level_Cons)

lemma merge_level_distinct: "distinct_prices dest \<Longrightarrow> distinct_prices (merge_level dest s)"
proof (induction dest)
  case (Cons d ds)
  have "lvl_price d \<notin> lvl_price ` set (merge_level ds s)" if "lvl_price d \<noteq> lvl_price s"
    using Cons.prems that by (auto simp: merge_level_prices distinct_prices_def)
  with Cons show ?case by (auto simp: merge_level_Cons distinct_prices_def)
qed (simp add: distinct_prices_def)

lemma merge_level_map:
  "level_map (merge_level dest s) =
     (level_map dest)(lvl_price s := add_sizes (level_map dest (lvl_price s)) (Some (lvl_size s)))"
  by (induction dest) (auto simp: merge_level_Cons fun_eq_iff)

lemma merge_levels_distinct: "distinct_prices dest \<Longrightarrow> distinct_prices (merge_levels dest src)"
  unfolding merge_levels_def
  by (induction src arbitrary: dest) (auto intro: merge_level_distinct)

lemma merge_levels_map:
  "distinct_prices src \<Longrightarrow>
   level_map (merge_levels dest src) p = add_sizes (level_map dest p) (level_map src p)"
  unfolding merge_levels_def
proof (induction src arbitrary: dest)
  case (Cons s src)
  then have "level_map src (lvl_price s) = None"
    by (auto simp: level_map_None distinct_prices_def)
  with Cons show ?case by (auto simp: merge_level_map distinct_prices_def)
qed simp

lemma complement_levels_distinct: "distinct_prices ls \<Longrightarrow> distinct_prices (complement_levels ls)"
  by (auto simp: distinct_prices_def complement_levels_def distinct_map comp_def inj_on_def)

lemma complement_levels_map:
  "level_map (complement_levels ls) p =
     (if kPriceMin \<le> p \<and> p \<le> kPriceMax then level_map ls (kPriceMax - p) else None)"
  by (induction ls) (auto simp: complement_levels_def)

lemma merge_side_distinct:
  assumes "\<And>ls. own = Some ls \<Longrightarrow> distinct_prices ls" "\<And>ls. other = Some ls \<Longrightarrow> distinct_prices ls"
  shows "distinct_prices (merge_side own other)"
  using assms
  by (auto simp: merge_side_def Let_def distinct_prices_def [of "[]"] split: option.splits
      intro: merge_levels_distinct)

definition side_map :: "watcher_level list option \<Rightarrow> price \<rightharpoonup> qty" where
  "side_map own = (case own of Some ls \<Rightarrow> level_map ls | None \<Rightarrow> Map.empty)"

lemma merge_side_map:
  assumes "\<And>ls. other = Some ls \<Longrightarrow> distinct_prices ls"
  shows "level_map (merge_side own other) p =
    add_sizes (side_map own p)
      (if kPriceMin \<le> p \<and> p \<le> kPriceMax then side_map other (kPriceMax - p) else None)"
  using assms
  by (auto simp: merge_side_def side_map_def merge_levels_map complement_levels_distinct
      complement_levels_map split: option.splits)

subsection \<open>Sorting\<close>

lemma sort_sides: "sort_descending = sort_key (direction True)" "sort_ascending = sort_key (direction False)"
  by (simp_all add: fun_eq_iff sort_descending_def sort_ascending_def direction_def [abs_def])

lemma direction_eq: "direction b x = direction b y \<longleftrightarrow> lvl_price x = lvl_price y"
  by (simp add: direction_def)

lemma distinct_direction: "distinct (map (direction b) ls) \<longleftrightarrow> distinct_prices ls"
  unfolding distinct_prices_def distinct_map by (simp add: inj_on_def direction_eq)

lemma sort_side_strict:
  assumes "distinct_prices ls"
  shows "strictly_sorted b (sort_key (direction b) ls)"
proof -
  let ?xs = "map (direction b) (sort_key (direction b) ls)"
  have "mset ?xs = mset (map (direction b) ls)" by (simp only: mset_map mset_sort)
  then have "distinct ?xs" using assms by (metis distinct_direction mset_eq_imp_distinct_iff)
  moreover have "sorted ?xs" by simp
  ultimately have "sorted_wrt (<) ?xs" by (simp add: strict_sorted_iff)
  then show ?thesis by (simp add: strictly_sorted_def sorted_wrt_map)
qed

lemma strictly_sorted_distinct: "strictly_sorted b ls \<Longrightarrow> distinct_prices ls"
  unfolding strictly_sorted_def
  by (induction ls) (auto simp: distinct_prices_def direction_def split: if_splits)

lemma sort_key_distinct_prices: "distinct_prices ls \<Longrightarrow> distinct_prices (sort_key (direction b) ls)"
  by (rule strictly_sorted_distinct [OF sort_side_strict])

lemma level_map_sort:
  assumes "distinct_prices ls"
  shows "level_map (sort_key (direction b) ls) = level_map ls"
proof -
  have fst: "map fst (map (\<lambda>l. (lvl_price l, lvl_size l)) xs) = map lvl_price xs"
    for xs :: "watcher_level list" by simp
  show ?thesis
    unfolding level_map_def
    by (subst map_of_inject_set)
      (use assms sort_key_distinct_prices [OF assms, of b] in
        \<open>simp_all only: fst distinct_prices_def set_map set_sort\<close>)
qed

subsection \<open>The books stay sorted with one level a price\<close>

lemma change_side_sorted:
  assumes "strictly_sorted b ls"
  shows "strictly_sorted b (change_side p q b ls)"
proof (cases "find_index (\<lambda>l. lvl_price l = p) ls")
  case None
  let ?better = "\<lambda>l. if b then lvl_price l > p else lvl_price l < p"
  have fresh: "\<forall>l\<in>set ls. lvl_price l \<noteq> p" using None by (simp add: find_index_None)
  have "strictly_sorted b
      (takeWhile ?better ls @ [\<lparr> lvl_price = p, lvl_size = q \<rparr>] @ dropWhile ?better ls)"
    using assms fresh unfolding strictly_sorted_def
  proof (induction ls)
    case (Cons l ls)
    show ?case
    proof (cases "?better l")
      case True
      have "set (takeWhile ?better ls) \<subseteq> set ls" "set (dropWhile ?better ls) \<subseteq> set ls"
        by (auto dest: set_takeWhileD set_dropWhileD)
      with True Cons show ?thesis by (auto simp: direction_def)
    next
      case False
      with Cons.prems have "direction b \<lparr> lvl_price = p, lvl_size = q \<rparr> < direction b l"
        by (auto simp: direction_def)
      with False Cons.prems show ?thesis by auto
    qed
  qed simp
  with None assms show ?thesis unfolding change_side_def Let_def by simp
next
  case (Some i)
  then have i: "i < length ls" "lvl_price (ls ! i) = p" by (auto dest: find_index_SomeD)
  have del: "strictly_sorted b (take i ls @ drop (Suc i) ls)"
    using assms i(1) unfolding strictly_sorted_def
    by (subst (asm) id_take_nth_drop [OF i(1)]) (auto simp: sorted_wrt_append)
  have "map (direction b) (ls[i := (ls ! i)\<lparr> lvl_size := q \<rparr>]) = map (direction b) ls"
    using i by (simp add: map_update direction_def list_update_same_conv)
  then have "strictly_sorted b (ls[i := (ls ! i)\<lparr> lvl_size := q \<rparr>])"
    using assms unfolding strictly_sorted_def by (metis sorted_wrt_map)
  with del Some show ?thesis by (simp add: change_side_def)
qed

definition book_sorted :: "token_book \<Rightarrow> bool" where
  "book_sorted b \<longleftrightarrow> strictly_sorted True (tb_bids b) \<and> strictly_sorted False (tb_asks b)"

definition books_sorted :: "watcher_books \<Rightarrow> bool" where
  "books_sorted w \<longleftrightarrow> (\<forall>t b. w t = Some b \<longrightarrow> book_sorted b)"

datatype watcher_op =
    WSnapshot string "watcher_level list" "watcher_level list"
  | WChange string price qty bool
  | WClear string

fun run_watcher_op :: "watcher_books \<Rightarrow> watcher_op \<Rightarrow> watcher_books" where
  "run_watcher_op w (WSnapshot t bs sks) = apply_book_snapshot w t bs sks"
| "run_watcher_op w (WChange t p q is_bid) = watcher_price_change w t p q is_bid"
| "run_watcher_op w (WClear t) = clear_book w t"

fun watcher_op_ok :: "watcher_op \<Rightarrow> bool" where
  "watcher_op_ok (WSnapshot t bs sks) \<longleftrightarrow> distinct_prices bs \<and> distinct_prices sks"
| "watcher_op_ok _ \<longleftrightarrow> True"

lemma run_watcher_op_sorted:
  assumes "books_sorted w" "watcher_op_ok op"
  shows "books_sorted (run_watcher_op w op)"
proof (cases op)
  case (WSnapshot t bs sks)
  with assms show ?thesis
    by (auto simp: books_sorted_def book_sorted_def apply_book_snapshot_def sort_sides sort_side_strict)
next
  case (WChange t p q is_bid)
  have "book_sorted empty_token_book"
    by (simp add: book_sorted_def empty_token_book_def strictly_sorted_def)
  with WChange assms show ?thesis
    by (auto simp: books_sorted_def book_sorted_def watcher_price_change_def Let_def change_side_sorted
        split: option.splits if_splits)
next
  case (WClear t)
  with assms show ?thesis by (auto simp: books_sorted_def clear_book_def)
qed

lemma run_watcher_ops_sorted:
  "books_sorted w \<Longrightarrow> list_all watcher_op_ok ops \<Longrightarrow> books_sorted (foldl run_watcher_op w ops)"
  by (induction ops arbitrary: w) (auto intro: run_watcher_op_sorted)

lemma books_sorted_empty: "books_sorted Map.empty"
  by (simp add: books_sorted_def)

lemma books_sorted_distinct:
  assumes "books_sorted w"
  shows "map_option tb_bids (w t) = Some ls \<Longrightarrow> distinct_prices ls"
    and "map_option tb_asks (w t) = Some ls \<Longrightarrow> distinct_prices ls"
  using assms by (auto simp: books_sorted_def book_sorted_def intro: strictly_sorted_distinct)

lemma merged_side_correct:
  assumes "\<And>ls. own = Some ls \<Longrightarrow> distinct_prices ls" "\<And>ls. other = Some ls \<Longrightarrow> distinct_prices ls"
  shows "strictly_sorted b (sort_key (direction b) (merge_side own other))"
    and "level_map (sort_key (direction b) (merge_side own other)) p =
       add_sizes (side_map own p)
         (if kPriceMin \<le> p \<and> p \<le> kPriceMax then side_map other (kPriceMax - p) else None)"
proof -
  have d: "distinct_prices (merge_side own other)" using assms(1,2) by (rule merge_side_distinct)
  then show "strictly_sorted b (sort_key (direction b) (merge_side own other))"
    by (rule sort_side_strict)
  show "level_map (sort_key (direction b) (merge_side own other)) p =
       add_sizes (side_map own p)
         (if kPriceMin \<le> p \<and> p \<le> kPriceMax then side_map other (kPriceMax - p) else None)"
    using merge_side_map [OF assms(2), of other own p] level_map_sort [OF d, of b] by simp
qed

subsection \<open>The state machine and its watchers\<close>

text \<open>What the bridge does to the machine of a series, besides counting watchers.\<close>

datatype fsm_input =
    WsConnected | MarketClosed bool | NextDiscovered | SwitchComplete | WsStale | WsRecovered
  | Subscribe | Unsubscribe

fun fsm_step :: "fsm_input \<Rightarrow> watcher_state \<Rightarrow> watcher_state" where
  "fsm_step WsConnected s = fst (on_ws_connected s)"
| "fsm_step (MarketClosed nx) s = fst (on_market_closed nx s)"
| "fsm_step NextDiscovered s = fst (on_next_discovered s)"
| "fsm_step SwitchComplete s = fst (on_switch_complete s)"
| "fsm_step WsStale s = fst (on_ws_stale s)"
| "fsm_step WsRecovered s = fst (on_ws_recovered s)"
| "fsm_step Subscribe s = fst (on_subscribe s)"
| "fsm_step Unsubscribe s = fst (on_unsubscribe s)"

primrec fsm_run :: "watcher_state \<Rightarrow> (nat \<Rightarrow> fsm_input) \<Rightarrow> nat \<Rightarrow> watcher_state" where
  "fsm_run s ins 0 = s"
| "fsm_run s ins (Suc n) = fsm_step (ins n) (fsm_run s ins n)"

definition waits_for :: "watcher_state \<Rightarrow> fsm_input \<Rightarrow> bool" where
  "waits_for s i \<longleftrightarrow> (\<forall>j. j \<noteq> Unsubscribe \<longrightarrow> j \<noteq> i \<longrightarrow> fsm_step j s = s)"

lemma waits:
  "waits_for CONNECTING WsConnected" "waits_for ROLLING SwitchComplete"
  "waits_for ROLL_PENDING NextDiscovered"
proof -
  have "fsm_step j CONNECTING = CONNECTING" if "j \<noteq> Unsubscribe" "j \<noteq> WsConnected" for j
    using that by (cases j) (simp_all add: fsm_defs)
  then show "waits_for CONNECTING WsConnected" by (simp add: waits_for_def)
  have "fsm_step j ROLLING = ROLLING" if "j \<noteq> Unsubscribe" "j \<noteq> SwitchComplete" for j
    using that by (cases j) (simp_all add: fsm_defs)
  then show "waits_for ROLLING SwitchComplete" by (simp add: waits_for_def)
  have "fsm_step j ROLL_PENDING = ROLL_PENDING" if "j \<noteq> Unsubscribe" "j \<noteq> NextDiscovered" for j
    using that by (cases j) (simp_all add: fsm_defs)
  then show "waits_for ROLL_PENDING NextDiscovered" by (simp add: waits_for_def)
qed

lemma eventually_leaves:
  assumes w: "waits_for t i" and state: "fsm_run s ins n = t" and ins: "\<And>k. ins k \<noteq> Unsubscribe"
    and occurs: "\<exists>k\<ge>n. ins k = i"
  shows "\<exists>m>n. fsm_run s ins m = fsm_step i t"
proof -
  define k where "k = (LEAST k. k \<ge> n \<and> ins k = i)"
  have k: "k \<ge> n" "ins k = i" using LeastI_ex [of "\<lambda>k. k \<ge> n \<and> ins k = i"] occurs by (auto simp: k_def)
  have before: "ins j \<noteq> i" if "n \<le> j" "j < k" for j
    using not_less_Least [of j "\<lambda>k. k \<ge> n \<and> ins k = i"] that by (auto simp: k_def)
  have "fsm_run s ins (n + d) = t" if "n + d \<le> k" for d
    using that
  proof (induction d)
    case (Suc d)
    then have "fsm_run s ins (n + d) = t" "ins (n + d) \<noteq> i" using before by auto
    with w ins [of "n + d"] show ?case by (simp add: waits_for_def)
  qed (simp add: state)
  from this [of "k - n"] k have "fsm_run s ins (Suc k) = fsm_step i t" by simp
  with k show ?thesis by (intro exI [of _ "Suc k"]) simp
qed

definition entry_inv :: "watch_entry \<Rightarrow> bool" where
  "entry_inv e \<longleftrightarrow>
     we_watchers_count e \<ge> 0 \<and> (we_watchers_count e > 0 \<longleftrightarrow> fsm_is_active (we_fsm e))"

definition wm_inv :: "watch_manager \<Rightarrow> bool" where
  "wm_inv m \<longleftrightarrow> (\<forall>tf. entry_inv (m tf))"

datatype wm_op =
    OpSubscribe btc_timeframe
  | OpUnsubscribe btc_timeframe
  | OpTick timestamp timestamp
  | OpData btc_timeframe timestamp
  | OpFsm fsm_input btc_timeframe

fun run_wm_op :: "watch_manager \<Rightarrow> wm_op \<Rightarrow> watch_manager" where
  "run_wm_op m (OpSubscribe tf) = fst (wm_subscribe m tf)"
| "run_wm_op m (OpUnsubscribe tf) = fst (wm_unsubscribe m tf)"
| "run_wm_op m (OpTick now thr) = wm_tick m now thr"
| "run_wm_op m (OpData tf now) = on_book_data_received m tf now"
| "run_wm_op m (OpFsm i tf) = m(tf := (m tf)\<lparr> we_fsm := fsm_step i (we_fsm (m tf)) \<rparr>)"

fun wm_op_ok :: "wm_op \<Rightarrow> bool" where
  "wm_op_ok (OpFsm i tf) \<longleftrightarrow> i \<noteq> Subscribe \<and> i \<noteq> Unsubscribe"
| "wm_op_ok _ \<longleftrightarrow> True"

lemma fsm_step_active:
  "i \<noteq> Subscribe \<Longrightarrow> i \<noteq> Unsubscribe \<Longrightarrow> fsm_is_active (fsm_step i s) \<longleftrightarrow> fsm_is_active s"
  by (cases i) (auto simp: fsm_is_active_def fsm_defs)

lemma tick_entry_inv:
  "we_watchers_count (tick_entry now thr e) = we_watchers_count e"
  "fsm_is_active (we_fsm (tick_entry now thr e)) \<longleftrightarrow> fsm_is_active (we_fsm e)"
  by (auto simp: tick_entry_def fsm_is_active_def fsm_defs)

lemma wm_inv_update: "wm_inv m \<Longrightarrow> entry_inv e \<Longrightarrow> wm_inv (m(tf := e))"
  by (simp add: wm_inv_def)

lemma wm_subscribe_inv:
  assumes "wm_inv m"
  shows "wm_inv (fst (wm_subscribe m tf))"
proof -
  have "entry_inv (m tf)" using assms by (simp add: wm_inv_def)
  then show ?thesis
    unfolding wm_subscribe_def Let_def
    by (cases "we_watchers_count (m tf) = 0")
      (auto intro!: wm_inv_update assms simp: entry_inv_def fsm_is_active_def on_subscribe_def)
qed

lemma wm_unsubscribe_inv:
  assumes "wm_inv m"
  shows "wm_inv (fst (wm_unsubscribe m tf))"
proof -
  have "entry_inv (m tf)" using assms by (simp add: wm_inv_def)
  then show ?thesis
    unfolding wm_unsubscribe_def Let_def
    by (cases "we_watchers_count (m tf) = 1")
      (auto intro!: wm_inv_update assms simp: entry_inv_def fsm_is_active_def on_unsubscribe_def)
qed

lemma run_wm_op_inv:
  assumes "wm_inv m" "wm_op_ok op"
  shows "wm_inv (run_wm_op m op)"
proof (cases op)
  case (OpTick now thr)
  with assms show ?thesis by (simp add: wm_inv_def entry_inv_def wm_tick_def tick_entry_inv)
next
  case (OpData tf now)
  with assms show ?thesis
    by (simp add: on_book_data_received_def wm_inv_def entry_inv_def)
next
  case (OpFsm i tf)
  with assms show ?thesis by (simp add: wm_inv_def entry_inv_def fsm_step_active)
qed (use assms in \<open>simp_all add: wm_subscribe_inv wm_unsubscribe_inv\<close>)

lemma run_wm_ops_inv:
  "wm_inv m \<Longrightarrow> list_all wm_op_ok ops \<Longrightarrow> wm_inv (foldl run_wm_op m ops)"
  by (induction ops arbitrary: m) (auto intro: run_wm_op_inv)

lemma new_watch_manager_inv: "wm_inv new_watch_manager"
  by (simp add: wm_inv_def entry_inv_def new_watch_manager_def fsm_is_active_def)

subsection \<open>Properties\<close>

definition side_of :: "(token_book \<Rightarrow> watcher_level list) \<Rightarrow> watcher_books \<Rightarrow> string \<Rightarrow> price \<rightharpoonup> qty" where
  "side_of f w t = side_map (map_option f (w t))"

text \<open>After any sequence of snapshots with one level a price, price changes and clears, the
  merged ladder of a series has its buys in strictly falling and its sells in strictly rising price
  order, and at every price exactly the sum of the Up token's level and the Down token's opposite
  level at the complementary price; a positive depth keeps the best levels of each side.\<close>

theorem merged_ladder_adds_books:
  assumes "list_all watcher_op_ok ops"
  defines "w \<equiv> foldl run_watcher_op Map.empty ops"
  shows "case build_merged_ladder w up down 0 of (buys, sells) \<Rightarrow>
      strictly_sorted True buys \<and> strictly_sorted False sells \<and>
      (\<forall>p. level_map buys p = add_sizes (side_of tb_bids w up p)
             (if kPriceMin \<le> p \<and> p \<le> kPriceMax then side_of tb_asks w down (kPriceMax - p) else None)) \<and>
      (\<forall>p. level_map sells p = add_sizes (side_of tb_asks w up p)
             (if kPriceMin \<le> p \<and> p \<le> kPriceMax then side_of tb_bids w down (kPriceMax - p) else None)) \<and>
      (\<forall>d > 0. build_merged_ladder w up down d = (take (nat d) buys, take (nat d) sells))"
proof -
  have w: "books_sorted w"
    unfolding w_def using books_sorted_empty assms(1) by (rule run_watcher_ops_sorted)
  have trunc: "truncate_depth d ls = take (nat d) ls" if "0 < d" for d and ls :: "watcher_level list"
    using that by (auto simp: truncate_depth_def)
  have none: "truncate_depth 0 ls = ls" for ls by (simp add: truncate_depth_def)
  let ?bu = "map_option tb_bids (w up)" and ?au = "map_option tb_asks (w up)"
    and ?bd = "map_option tb_bids (w down)" and ?ad = "map_option tb_asks (w down)"
  have d: "?bu = Some ls \<Longrightarrow> distinct_prices ls" "?au = Some ls \<Longrightarrow> distinct_prices ls"
      "?bd = Some ls \<Longrightarrow> distinct_prices ls" "?ad = Some ls \<Longrightarrow> distinct_prices ls" for ls
    by (fact books_sorted_distinct(1) [OF w] books_sorted_distinct(2) [OF w])+
  have buys: "strictly_sorted True (sort_key (direction True) (merge_side ?bu ?ad))"
    "\<forall>p. level_map (sort_key (direction True) (merge_side ?bu ?ad)) p = add_sizes (side_map ?bu p)
       (if kPriceMin \<le> p \<and> p \<le> kPriceMax then side_map ?ad (kPriceMax - p) else None)"
    by (rule merged_side_correct(1); fact d) (rule allI, rule merged_side_correct(2); fact d)
  have sells: "strictly_sorted False (sort_key (direction False) (merge_side ?au ?bd))"
    "\<forall>p. level_map (sort_key (direction False) (merge_side ?au ?bd)) p = add_sizes (side_map ?au p)
       (if kPriceMin \<le> p \<and> p \<le> kPriceMax then side_map ?bd (kPriceMax - p) else None)"
    by (rule merged_side_correct(1); fact d) (rule allI, rule merged_side_correct(2); fact d)
  have depth: "\<forall>d>0. build_merged_ladder w up down d =
      (take (nat d) (sort_key (direction True) (merge_side ?bu ?ad)),
       take (nat d) (sort_key (direction False) (merge_side ?au ?bd)))"
    unfolding build_merged_ladder_def sort_sides by (simp add: trunc)
  have all: "build_merged_ladder w up down 0 =
      (sort_key (direction True) (merge_side ?bu ?ad), sort_key (direction False) (merge_side ?au ?bd))"
    unfolding build_merged_ladder_def sort_sides by (simp add: none)
  show ?thesis
    unfolding all side_of_def prod.case by (intro conjI buys sells depth)
qed

theorem merged_ladder_adds_books_witness:
  "level_map (fst (build_merged_ladder
     (foldl run_watcher_op Map.empty
       [WSnapshot ''U'' [\<lparr> lvl_price = 4900, lvl_size = 5 \<rparr>] [], WChange ''D'' 5100 7 False]) ''U'' ''D'' 0))
     4900 = Some 12"
  using merged_ladder_adds_books [of "[WSnapshot ''U'' [\<lparr> lvl_price = 4900, lvl_size = 5 \<rparr>] [],
      WChange ''D'' 5100 7 False]" "''U''" "''D''"]
  by (simp add: distinct_prices_def side_of_def side_map_def apply_book_snapshot_def
      watcher_price_change_def empty_token_book_def change_side_def sort_descending_def price_consts
      wrap64_id int64_min_def int64_max_def case_prod_beta)

text \<open>A series has an active state machine exactly while somebody watches it, whatever the order
  of subscriptions, cancellations, ticks, book data and feed events; the count is never negative.\<close>

theorem watched_iff_active:
  assumes "list_all wm_op_ok ops"
  shows "we_watchers_count (foldl run_wm_op new_watch_manager ops tf) \<ge> 0 \<and>
         (is_subscribed (foldl run_wm_op new_watch_manager ops) tf \<longleftrightarrow>
          fsm_is_active (we_fsm (foldl run_wm_op new_watch_manager ops tf)))"
  using run_wm_ops_inv [OF new_watch_manager_inv assms] by (simp add: wm_inv_def entry_inv_def is_subscribed_def)

theorem watched_iff_active_witness:
  "is_subscribed (foldl run_wm_op new_watch_manager [OpSubscribe BTC_5M, OpFsm WsConnected BTC_5M]) BTC_5M"
  using watched_iff_active [of "[OpSubscribe BTC_5M, OpFsm WsConnected BTC_5M]" BTC_5M]
  by (simp add: wm_subscribe_def new_watch_manager_def fsm_is_active_def fsm_defs)

text \<open>As long as nobody unsubscribes, and connections, discoveries of the next market and
  switches keep happening, an active series is connected again and again: closures of its market and
  stale feeds never stop it for good.\<close>

theorem active_series_reconnects:
  assumes "s \<noteq> DISCONNECTED" and "\<And>k. ins k \<noteq> Unsubscribe"
    and "\<And>n i. i \<in> {WsConnected, SwitchComplete, NextDiscovered} \<Longrightarrow> \<exists>k\<ge>n. ins k = i"
  shows "\<exists>m\<ge>n. fsm_run s ins m \<in> {CONNECTED, W_STALE}"
proof -
  let ?reached = "\<lambda>n. \<exists>m\<ge>n. fsm_run s ins m \<in> {CONNECTED, W_STALE}"
  have later: "?reached n" if "m > n" "?reached m" for m n
  proof -
    from that(2) obtain k where "k \<ge> m" "fsm_run s ins k \<in> {CONNECTED, W_STALE}" by blast
    with that(1) show ?thesis by (intro exI [of _ k]) simp
  qed
  have connecting: "?reached n" if "fsm_run s ins n = CONNECTING" for n
  proof -
    have "\<exists>m>n. fsm_run s ins m = CONNECTED"
      using eventually_leaves [OF waits(1) that assms(2) assms(3)] by (simp add: fsm_defs)
    then obtain m where "m > n" "fsm_run s ins m = CONNECTED" by blast
    then show ?thesis by (intro exI [of _ m]) simp
  qed
  have rolling: "?reached n" if "fsm_run s ins n = ROLLING" for n
  proof -
    have "\<exists>m>n. fsm_run s ins m = CONNECTING"
      using eventually_leaves [OF waits(2) that assms(2) assms(3)] by (simp add: fsm_defs)
    then obtain m where "m > n" "fsm_run s ins m = CONNECTING" by blast
    with connecting show ?thesis by (intro later [of n m]) simp_all
  qed
  have pending: "?reached n" if "fsm_run s ins n = ROLL_PENDING" for n
  proof -
    have "\<exists>m>n. fsm_run s ins m = ROLLING"
      using eventually_leaves [OF waits(3) that assms(2) assms(3)] by (simp add: fsm_defs)
    then obtain m where "m > n" "fsm_run s ins m = ROLLING" by blast
    with rolling show ?thesis by (intro later [of n m]) simp_all
  qed
  have "fsm_run s ins n \<noteq> DISCONNECTED"
  proof (induction n)
    case (Suc n)
    have "fsm_step i t \<noteq> DISCONNECTED" if "i \<noteq> Unsubscribe" "t \<noteq> DISCONNECTED" for i t
      using that by (cases i) (auto simp: fsm_defs)
    with Suc assms(2) show ?case by simp
  qed (simp add: assms(1))
  then consider "fsm_run s ins n \<in> {CONNECTED, W_STALE}" | "fsm_run s ins n = CONNECTING"
    | "fsm_run s ins n = ROLLING" | "fsm_run s ins n = ROLL_PENDING"
    by (cases "fsm_run s ins n") simp_all
  then show ?thesis by cases (blast, rule connecting, simp, rule rolling, simp, rule pending, simp)
qed

text \<open>A feed that cycles through the three events.\<close>

definition sample_feed :: "nat \<Rightarrow> fsm_input" where
  "sample_feed k = (if k mod 3 = 0 then WsConnected else if k mod 3 = 1 then SwitchComplete else NextDiscovered)"

lemma sample_feed_fair:
  "i \<in> {WsConnected, SwitchComplete, NextDiscovered} \<Longrightarrow> \<exists>k\<ge>n. sample_feed k = i"
proof -
  have "sample_feed (3 * n) = WsConnected" "sample_feed (3 * n + 1) = SwitchComplete"
    "sample_feed (3 * n + 2) = NextDiscovered"
  proof -
    have "(3 * n) mod 3 = 0" "(3 * n + 1) mod 3 = 1" "(3 * n + 2) mod 3 = 2" by presburger+
    then show "sample_feed (3 * n) = WsConnected" "sample_feed (3 * n + 1) = SwitchComplete"
      "sample_feed (3 * n + 2) = NextDiscovered" by (simp_all only: sample_feed_def) simp_all
  qed
  moreover have "3 * n \<ge> n" "3 * n + 1 \<ge> n" "3 * n + 2 \<ge> n" by simp_all
  moreover assume "i \<in> {WsConnected, SwitchComplete, NextDiscovered}"
  ultimately show ?thesis by blast
qed

theorem active_series_reconnects_witness:
  "\<exists>m\<ge>0. fsm_run ROLL_PENDING sample_feed m \<in> {CONNECTED, W_STALE}"
  using active_series_reconnects [of ROLL_PENDING sample_feed 0] sample_feed_fair
  by (simp add: sample_feed_def)

lemmas ui_events =
  make_enable_strategy_def make_cancel_all_def make_set_mode_def make_start_session_def
  make_stop_session_def make_inventory_split_def make_inventory_merge_def make_inventory_redeem_def
  make_latency_probe_def make_market_sell_all_def make_market_sell_down_def control_event_def

lemma other_commands:
  "start_session_cmd doc = Some ev \<Longrightarrow> ev_kind ev = CONTROL_START_SESSION"
  "set_mode_cmd doc = Some ev \<Longrightarrow> ev_kind ev = CONTROL_SET_MODE"
  by (auto simp: start_session_cmd_def set_mode_cmd_def Let_def ui_events split: field.splits if_splits)

lemma parse_ui_command_cases:
  assumes "parse_ui_command iterate text = Some ev"
  obtains (transfer) b doc where "split_merge_cmd b doc = Some ev"
  | (redeem) doc where "redeem_cmd doc = Some ev"
  | (other) "ev_kind ev \<notin> {CONTROL_INVENTORY_SPLIT, CONTROL_INVENTORY_MERGE, CONTROL_INVENTORY_REDEEM}"
proof -
  obtain doc cmd where doc: "iterate text = Some doc" "string_at doc ''cmd'' = Found cmd" "text \<noteq> []"
    using assms by (auto simp: parse_ui_command_def split: if_splits option.splits field.splits)
  show thesis
    using assms that other_commands [of doc ev] unfolding parse_ui_command_def doc option.case field.case
    by (simp add: doc split: if_splits) (auto simp: ui_events)
qed

text \<open>A quantity that a split, merge or redeem command carries is a whole number of shares whose
  fixed-point value fits 64 bits; a split or merge is never empty.\<close>

theorem ui_command_quantity:
  assumes "parse_ui_command iterate text = Some ev"
    and "ev_kind ev \<in> {CONTROL_INVENTORY_SPLIT, CONTROL_INVENTORY_MERGE, CONTROL_INVENTORY_REDEEM}"
  shows "0 \<le> ev_control_qty_param ev \<and> ev_control_qty_param ev \<le> int64_max \<and>
         ev_control_qty_param ev mod kQtyScale = 0 \<and>
         (ev_kind ev \<noteq> CONTROL_INVENTORY_REDEEM \<longrightarrow> 0 < ev_control_qty_param ev)"
proof -
  have bounds: "0 \<le> q \<and> q \<le> int64_max \<and> q mod kQtyScale = 0" if "shares_to_qty n = Some q" for n q
  proof -
    have "int64_max div kQtyScale = 9223372036854" by (simp add: int64_max_def kQtyScale_def)
    with that have "0 \<le> n" "n \<le> 9223372036854" "q = n * 1000000"
      by (auto simp: shares_to_qty_def qty_from_int_def kQtyScale_def split: if_splits)
    then show ?thesis by (simp add: kQtyScale_def int64_max_def)
  qed
  from assms(1) show ?thesis
  proof (cases rule: parse_ui_command_cases)
    case (transfer b doc)
    then show ?thesis
      using bounds
      by (auto simp: split_merge_cmd_def ui_events Let_def split: option.splits field.splits if_splits)
  next
    case (redeem doc)
    then obtain q t c where "ev = make_inventory_redeem c t q" "q = 0 \<or> (\<exists>n. shares_to_qty n = Some q)"
      by (auto simp: redeem_cmd_def Let_def split: option.splits field.splits)
    with bounds show ?thesis by (auto simp: ui_events int64_max_def)
  next
    case other
    with assms(2) show ?thesis by simp
  qed
qed

theorem ui_command_quantity_witness:
  "ev_control_qty_param (make_inventory_split ''C'' 25000000) mod kQtyScale = 0"
proof -
  have "parse_ui_command (\<lambda>_. Some (JObj [(''cmd'', JStr ''inventory_split''), (''condition_id'', JStr ''C''),
      (''shares'', JInt 25)])) ''x'' = Some (make_inventory_split ''C'' 25000000)"
    by (simp add: parse_ui_command_def json_access split_merge_cmd_def shares_to_qty_def int64_min_def
        int64_max_def kQtyScale_def qty_from_int_def AssetId_def kMaxAssetIdLen_def)
  from ui_command_quantity [OF this] show ?thesis by (simp add: ui_events)
qed

end
