(* ===== verification/Watcher_Bridge.thy ===== *)
theory Watcher_Bridge
  imports Watcher Feed_Parsers
begin

section \<open>The watcher side of the UI bridge\<close>

text \<open>
  The handlers of src/src/ui_bridge/ipc_bridge.cpp that drive the watcher: watch commands, the
  periodic tick, book data from the watcher feed and results of market discovery.  A handler returns
  the new state and what it sent, in order: messages for the user interface before their
  serialisation, and the subscriptions handed to the watcher service.  The lemmas show that no series
  rests in the middle of a roll, that detection of the tick size is the divisibility test it stands
  for, and which market a series that waited for its successor rolls to.
\<close>

datatype bridge_out =
    Resubscribe "string list"
  | StatusMsg btc_timeframe watcher_state
  | BooksMsg btc_timeframe string "watcher_level list \<times> watcher_level list" "(price \<times> qty) list" int
  | SeriesListMsg "(btc_timeframe \<times> string \<times> watcher_state \<times> bool) list"

record watcher_bridge =
  wb_manager :: watch_manager
  wb_registry :: series_registry
  wb_books :: watcher_books
  wb_pending_trades :: "btc_timeframe \<Rightarrow> (price \<times> qty) list"
  wb_tick_size :: "btc_timeframe \<Rightarrow> int"
  wb_connected :: bool
  wb_has_service :: bool
  wb_ladder_max_depth :: int
  wb_stale_threshold_ms :: int

definition new_watcher_bridge :: "bool \<Rightarrow> int \<Rightarrow> int \<Rightarrow> watcher_bridge" where
  "new_watcher_bridge service depth stale_ms =
     \<lparr> wb_manager = new_watch_manager, wb_registry = (\<lambda>_. new_series_entry), wb_books = Map.empty,
       wb_pending_trades = (\<lambda>_. []), wb_tick_size = (\<lambda>_. 100), wb_connected = False,
       wb_has_service = service, wb_ladder_max_depth = depth, wb_stale_threshold_ms = stale_ms \<rparr>"

subsection \<open>Tick size detection\<close>

function euclid :: "int \<Rightarrow> int \<Rightarrow> int" where
  "euclid a b = (if b = 0 then a else euclid b (a smod b))"
  by auto

termination
proof (relation "measure (\<lambda>(a, b). nat \<bar>b\<bar>)")
  fix a b :: int
  assume "b \<noteq> 0"
  then have "\<bar>a smod b\<bar> < \<bar>b\<bar>" by (simp add: signed_modulo_int_def abs_mult abs_mod_less)
  with \<open>b \<noteq> 0\<close> show "((b, a smod b), (a, b)) \<in> measure (\<lambda>(a, b). nat \<bar>b\<bar>)" by simp
qed simp

declare euclid.simps [simp del]

definition gcd_step :: "int \<Rightarrow> price \<Rightarrow> int" where
  "gcd_step g p = (if p > 0 then (if g = 0 then p else euclid g p) else g)"

definition detect_tick_from_prices :: "price list \<Rightarrow> int" where
  "detect_tick_from_prices prices =
     (if length prices < 2 then 100
      else
        let g = foldl gcd_step 0 prices
        in if g \<ge> 1000 \<and> g smod 1000 = 0 then 1000
           else if g \<ge> 500 \<and> g smod 500 = 0 then 500
           else 100)"

subsection \<open>Messages\<close>

definition fsm_of :: "watcher_bridge \<Rightarrow> btc_timeframe \<Rightarrow> watcher_state" where
  "fsm_of w tf = we_fsm (wb_manager w tf)"

definition send_watcher_status :: "watcher_bridge \<Rightarrow> btc_timeframe \<Rightarrow> bridge_out list" where
  "send_watcher_status w tf = [StatusMsg tf (fsm_of w tf)]"

definition refresh_watcher_subscriptions :: "watcher_bridge \<Rightarrow> bridge_out list" where
  "refresh_watcher_subscriptions w =
     (if \<not> wb_has_service w then [] else [Resubscribe (active_asset_ids (wb_manager w) (wb_registry w))])"

definition send_series_list :: "watcher_bridge \<Rightarrow> bridge_out list" where
  "send_series_list w =
     [SeriesListMsg
        (map (\<lambda>tf. (tf, case reg_current (wb_registry w) tf of
                          Some info \<Rightarrow> si_condition_id info | None \<Rightarrow> [],
                    fsm_of w tf, has_next (wb_registry w) tf)) all_timeframes)]"

definition books_message :: "watcher_bridge \<Rightarrow> btc_timeframe \<Rightarrow> bridge_out option" where
  "books_message w tf =
     (case reg_current (wb_registry w) tf of
        None \<Rightarrow> None
      | Some info \<Rightarrow>
          if si_condition_id info = [] then None
          else Some (BooksMsg tf (si_condition_id info)
            (build_merged_ladder (wb_books w) (si_token_id_up info) (si_token_id_down info)
               (wb_ladder_max_depth w))
            (wb_pending_trades w tf) (wb_tick_size w tf)))"

definition send_books :: "watcher_bridge \<times> bridge_out list \<Rightarrow> btc_timeframe \<Rightarrow> watcher_bridge \<times> bridge_out list" where
  "send_books wo tf =
     (case wo of (w, out) \<Rightarrow>
        (case books_message w tf of
           None \<Rightarrow> (w, out)
         | Some msg \<Rightarrow>
             (w\<lparr> wb_pending_trades := (wb_pending_trades w)(tf := []) \<rparr>, out @ [msg])))"

definition send_watcher_snapshots :: "watcher_bridge \<Rightarrow> watcher_bridge \<times> bridge_out list" where
  "send_watcher_snapshots w =
     (if \<not> wb_connected w then (w, [])
      else foldl send_books (w, []) (subscribed_timeframes (wb_manager w)))"

subsection \<open>Commands and the tick\<close>

definition handle_watch_command :: "watcher_bridge \<Rightarrow> watch_command \<Rightarrow> watcher_bridge \<times> bridge_out list" where
  "handle_watch_command w cmd =
     (case cmd of
        SUBSCRIBE tf \<Rightarrow>
          (let w' = w\<lparr> wb_manager := fst (wm_subscribe (wb_manager w) tf) \<rparr>
           in (w', refresh_watcher_subscriptions w' @ send_watcher_status w' tf))
      | UNSUBSCRIBE tf \<Rightarrow>
          (let w' = w\<lparr> wb_manager := fst (wm_unsubscribe (wb_manager w) tf) \<rparr>
           in (w', refresh_watcher_subscriptions w' @ send_watcher_status w' tf))
      | REQUEST_LIST \<Rightarrow> (w, send_series_list w))"

definition on_watcher_tick :: "watcher_bridge \<Rightarrow> timestamp \<Rightarrow> watcher_bridge \<times> bridge_out list" where
  "on_watcher_tick w now =
     send_watcher_snapshots
       (w\<lparr> wb_manager := wm_tick (wb_manager w) now (wb_stale_threshold_ms w * 1000000) \<rparr>)"

subsection \<open>Book data\<close>

definition token_timeframe :: "series_registry \<Rightarrow> string \<Rightarrow> btc_timeframe option" where
  "token_timeframe r token =
     List.find (\<lambda>tf. case reg_current r tf of
                       None \<Rightarrow> False
                     | Some info \<Rightarrow> token = si_token_id_up info \<or> token = si_token_id_down info)
       all_timeframes"

definition kMaxWatcherBookDepth :: nat where "kMaxWatcherBookDepth = 1024"

definition note_data :: "watcher_bridge \<Rightarrow> string \<Rightarrow> timestamp \<Rightarrow> watcher_bridge" where
  "note_data w token now =
     (case token_timeframe (wb_registry w) token of
        None \<Rightarrow> w
      | Some tf \<Rightarrow> w\<lparr> wb_manager := on_book_data_received (wb_manager w) tf now \<rparr>)"

definition watcher_snapshot ::
  "watcher_bridge \<Rightarrow> timestamp \<Rightarrow> parsed_snapshot \<Rightarrow> watcher_bridge \<times> bridge_out list" where
  "watcher_snapshot w now snap =
     (let token = snap_asset_id snap;
          bs = take kMaxWatcherBookDepth (snap_bids snap);
          sks = take kMaxWatcherBookDepth (snap_asks snap);
          w1 = w\<lparr> wb_books := apply_book_snapshot (wb_books w) token bs sks \<rparr>;
          detected = detect_tick_from_prices (map lvl_price bs @ map lvl_price sks)
      in case token_timeframe (wb_registry w1) token of
           None \<Rightarrow> (w1, [])
         | Some tf \<Rightarrow>
             (let w2 = note_data (w1\<lparr> wb_tick_size := (wb_tick_size w1)(tf := detected) \<rparr>) token now
              in if fsm_of w2 tf = CONNECTING then
                   let w3 = w2\<lparr> wb_manager := wm_fsm_event on_ws_connected (wb_manager w2) tf \<rparr>
                   in (w3, send_watcher_status w3 tf)
                 else (w2, [])))"

definition watcher_asset_change :: "timestamp \<Rightarrow> watcher_bridge \<Rightarrow> asset_price_change \<Rightarrow> watcher_bridge" where
  "watcher_asset_change now w ac =
     (let books = foldl (\<lambda>b c. watcher_price_change b (apc_asset_id ac) (pc_price c) (pc_size c) (pc_side c = BID))
                    (wb_books w) (apc_changes ac)
      in note_data (w\<lparr> wb_books := books \<rparr>) (apc_asset_id ac) now)"

definition watcher_trade :: "watcher_bridge \<Rightarrow> last_trade_event \<Rightarrow> watcher_bridge" where
  "watcher_trade w e =
     (case token_timeframe (wb_registry w) (lte_asset_id e) of
        None \<Rightarrow> w
      | Some tf \<Rightarrow>
          (case reg_current (wb_registry w) tf of
             None \<Rightarrow> w
           | Some info \<Rightarrow>
               (let price = (if lte_asset_id e = si_token_id_up info then lte_price e
                             else kPriceMax - lte_price e)
                in w\<lparr> wb_pending_trades :=
                       (wb_pending_trades w)(tf := wb_pending_trades w tf @ [(price, lte_size e)]) \<rparr>)))"

definition watcher_tick_change :: "watcher_bridge \<Rightarrow> tick_size_event \<Rightarrow> watcher_bridge" where
  "watcher_tick_change w e =
     (case token_timeframe (wb_registry w) (tse_asset_id e) of
        None \<Rightarrow> w
      | Some tf \<Rightarrow> w\<lparr> wb_tick_size := (wb_tick_size w)(tf := tse_new_tick_size e) \<rparr>)"

definition on_watcher_book_data ::
  "watcher_bridge \<Rightarrow> timestamp \<Rightarrow> market_payload \<Rightarrow> watcher_bridge \<times> bridge_out list" where
  "on_watcher_book_data w now payload =
     (case payload of
        MBook snap \<Rightarrow> watcher_snapshot w now snap
      | MPriceChange acs ts \<Rightarrow> (foldl (watcher_asset_change now) w acs, [])
      | MLastTrade e \<Rightarrow> (watcher_trade w e, [])
      | MTickSize e \<Rightarrow> (watcher_tick_change w e, [])
      | _ \<Rightarrow> (w, []))"

subsection \<open>Discovery and rolling\<close>

definition clear_token_book :: "string \<Rightarrow> watcher_books \<Rightarrow> watcher_books" where
  "clear_token_book token b = (if token \<noteq> [] then clear_book b token else b)"

definition execute_rollover :: "watcher_bridge \<Rightarrow> btc_timeframe \<Rightarrow> watcher_bridge \<times> bridge_out list" where
  "execute_rollover w tf =
     (let (old_up, old_down) =
            (case reg_current (wb_registry w) tf of
               Some info \<Rightarrow> (si_token_id_up info, si_token_id_down info) | None \<Rightarrow> ([], []));
          w1 = w\<lparr> wb_registry := promote_next (wb_registry w) tf,
                  wb_books := clear_token_book old_down (clear_token_book old_up (wb_books w)),
                  wb_pending_trades := (wb_pending_trades w)(tf := []),
                  wb_tick_size := (wb_tick_size w)(tf := 100),
                  wb_manager := on_book_data_received (wb_manager w) tf 0 \<rparr>;
          subs = refresh_watcher_subscriptions w1;
          w2 = w1\<lparr> wb_manager := wm_fsm_event on_switch_complete (wb_manager w1) tf \<rparr>
      in (w2, subs @ send_watcher_status w2 tf))"

definition usable_next :: "series_market_info option \<Rightarrow> bool" where
  "usable_next nxt =
     (case nxt of Some n \<Rightarrow> \<not> si_is_closed n \<and> si_condition_id n \<noteq> [] | None \<Rightarrow> False)"

definition set_registry ::
  "watcher_bridge \<Rightarrow> btc_timeframe \<Rightarrow> series_market_info \<Rightarrow> series_market_info option \<Rightarrow> watcher_bridge" where
  "set_registry w tf cur nxt = w\<lparr> wb_registry := update_from_discovery (wb_registry w) tf cur nxt \<rparr>"

definition fsm_event :: "(watcher_state \<Rightarrow> watcher_state \<times> bool) \<Rightarrow> btc_timeframe \<Rightarrow> watcher_bridge \<Rightarrow> watcher_bridge" where
  "fsm_event f tf w = w\<lparr> wb_manager := wm_fsm_event f (wb_manager w) tf \<rparr>"

definition following_market :: "watcher_state \<Rightarrow> bool" where
  "following_market s \<longleftrightarrow> fsm_is_active s \<and> s \<noteq> ROLLING \<and> s \<noteq> ROLL_PENDING"

definition condition_changed :: "series_market_info \<Rightarrow> series_market_info option \<Rightarrow> bool" where
  "condition_changed cur old =
     (\<not> si_is_closed cur \<and> si_condition_id cur \<noteq> [] \<and>
      (case old of
         Some o' \<Rightarrow> si_condition_id o' \<noteq> [] \<and> si_condition_id cur \<noteq> si_condition_id o'
       | None \<Rightarrow> False))"

definition roll_or_report :: "watcher_bridge \<Rightarrow> btc_timeframe \<Rightarrow> watcher_bridge \<times> bridge_out list" where
  "roll_or_report w tf =
     (if fsm_of w tf = ROLLING then execute_rollover w tf else (w, send_watcher_status w tf))"

definition direct_rollover ::
  "watcher_bridge \<Rightarrow> btc_timeframe \<Rightarrow> series_market_info \<Rightarrow> series_market_info \<Rightarrow>
   series_market_info option \<Rightarrow> watcher_bridge \<times> bridge_out list" where
  "direct_rollover w tf old cur nxt =
     (let w1 = fsm_event (on_market_closed True) tf (set_registry w tf old (Some cur));
          (w2, out) = (if fsm_of w1 tf = ROLLING then execute_rollover w1 tf else (w1, []))
      in (if usable_next nxt then
            (case reg_current (wb_registry w2) tf of
               Some new_current \<Rightarrow> set_registry w2 tf new_current nxt
             | None \<Rightarrow> w2)
          else w2, out))"

definition on_discovery_result ::
  "watcher_bridge \<Rightarrow> btc_timeframe \<Rightarrow> series_market_info \<Rightarrow> series_market_info option \<Rightarrow>
   watcher_bridge \<times> bridge_out list" where
  "on_discovery_result w tf cur nxt =
     (if si_is_closed cur \<and> following_market (fsm_of w tf) then
        roll_or_report (fsm_event (on_market_closed (usable_next nxt)) tf (set_registry w tf cur nxt)) tf
      else if following_market (fsm_of w tf) \<and> condition_changed cur (reg_current (wb_registry w) tf) then
        direct_rollover w tf (the (reg_current (wb_registry w) tf)) cur nxt
      else
        let w1 = set_registry w tf cur nxt
        in if fsm_of w1 tf = ROLL_PENDING \<and> has_next (wb_registry w1) tf
           then roll_or_report (fsm_event on_next_discovered tf w1) tf
           else (w1, refresh_watcher_subscriptions w1))"

subsection \<open>The detected tick\<close>

lemma euclid_gcd: "0 \<le> a \<Longrightarrow> 0 \<le> b \<Longrightarrow> euclid a b = gcd a b"
proof (induction a b rule: euclid.induct)
  case (1 a b)
  show ?case
  proof (cases "b = 0")
    case False
    with 1 have "euclid b (a smod b) = gcd b (a smod b)" by (simp add: smod_nonneg)
    with False 1 show ?thesis by (simp add: euclid.simps [of a b] smod_nonneg gcd_red_int [symmetric])
  qed (use 1 in \<open>simp add: euclid.simps [of a 0]\<close>)
qed

lemma gcd_step_nonneg: "0 \<le> g \<Longrightarrow> 0 \<le> gcd_step g p"
  by (simp add: gcd_step_def euclid_gcd)

lemma gcd_step_dvd: "0 \<le> g \<Longrightarrow> d dvd gcd_step g p \<longleftrightarrow> d dvd g \<and> (0 < p \<longrightarrow> d dvd p)"
  by (auto simp: gcd_step_def euclid_gcd)

lemma gcd_step_pos: "0 \<le> g \<Longrightarrow> 0 < gcd_step g p \<longleftrightarrow> 0 < g \<or> 0 < p"
  by (auto simp: gcd_step_def euclid_gcd)

lemma gcd_fold:
  assumes "0 \<le> g"
  shows "0 \<le> foldl gcd_step g ps"
    "d dvd foldl gcd_step g ps \<longleftrightarrow> d dvd g \<and> (\<forall>p\<in>set ps. 0 < p \<longrightarrow> d dvd p)"
    "0 < foldl gcd_step g ps \<longleftrightarrow> 0 < g \<or> (\<exists>p\<in>set ps. 0 < p)"
  using assms
  by (induction ps arbitrary: g) (auto simp: gcd_step_nonneg gcd_step_dvd gcd_step_pos)

lemma tick_test:
  assumes "0 \<le> (g::int)" "0 < k"
  shows "g \<ge> k \<and> g smod k = 0 \<longleftrightarrow> 0 < g \<and> k dvd g"
  using assms by (auto simp: smod_nonneg dvd_eq_mod_eq_0 zdvd_imp_le)

definition all_on_tick :: "int \<Rightarrow> price list \<Rightarrow> bool" where
  "all_on_tick k ps \<longleftrightarrow> (\<exists>p\<in>set ps. 0 < p) \<and> (\<forall>p\<in>set ps. 0 < p \<longrightarrow> k dvd p)"

lemma detect_tick_eq:
  "detect_tick_from_prices ps =
     (if length ps < 2 then 100
      else if all_on_tick 1000 ps then 1000
      else if all_on_tick 500 ps then 500
      else 100)"
  using tick_test [of "foldl gcd_step 0 ps" 1000] tick_test [of "foldl gcd_step 0 ps" 500]
    gcd_fold(1) [of 0 ps] gcd_fold(2) [of 0 1000 ps] gcd_fold(2) [of 0 500 ps] gcd_fold(3) [of 0 ps]
  by (auto simp: detect_tick_from_prices_def all_on_tick_def Let_def)

subsection \<open>The bridge's invariant\<close>

definition bridge_inv :: "watcher_bridge \<Rightarrow> bool" where
  "bridge_inv w \<longleftrightarrow>
     wm_inv (wb_manager w) \<and> (\<forall>tf. fsm_of w tf \<noteq> ROLLING) \<and> books_sorted (wb_books w)"

datatype bridge_op =
    BCommand watch_command
  | BTick timestamp
  | BData timestamp market_payload
  | BDiscovery btc_timeframe series_market_info "series_market_info option"
  | BConnected bool

fun run_bridge_op :: "watcher_bridge \<Rightarrow> bridge_op \<Rightarrow> watcher_bridge" where
  "run_bridge_op w (BCommand c) = fst (handle_watch_command w c)"
| "run_bridge_op w (BTick now) = fst (on_watcher_tick w now)"
| "run_bridge_op w (BData now p) = fst (on_watcher_book_data w now p)"
| "run_bridge_op w (BDiscovery tf cur nxt) = fst (on_discovery_result w tf cur nxt)"
| "run_bridge_op w (BConnected c) = w\<lparr> wb_connected := c \<rparr>"

fun bridge_op_ok :: "bridge_op \<Rightarrow> bool" where
  "bridge_op_ok (BData now (MBook snap)) \<longleftrightarrow>
     distinct_prices (take kMaxWatcherBookDepth (snap_bids snap)) \<and>
     distinct_prices (take kMaxWatcherBookDepth (snap_asks snap))"
| "bridge_op_ok _ \<longleftrightarrow> True"

text \<open>The parts of the state a handler leaves alone.\<close>

definition same_core :: "watcher_bridge \<Rightarrow> watcher_bridge \<Rightarrow> bool" where
  "same_core w w' \<longleftrightarrow> wb_manager w' = wb_manager w \<and> wb_books w' = wb_books w"

lemma same_core_inv: "same_core w w' \<Longrightarrow> bridge_inv w \<Longrightarrow> bridge_inv w'"
  by (simp add: same_core_def bridge_inv_def fsm_of_def)

lemma send_books_core: "same_core w (fst (send_books (w, out) tf))"
  by (simp add: send_books_def same_core_def split: option.split)

lemma send_books_fold: "same_core w (fst (foldl send_books (w, out) tfs))"
proof (induction tfs arbitrary: w out)
  case (Cons tf tfs)
  obtain w' out' where step: "send_books (w, out) tf = (w', out')" by fastforce
  then have "same_core w w'" using send_books_core [of w out tf] by simp
  with Cons [of w' out'] step show ?case by (simp add: same_core_def)
qed (simp add: same_core_def)

lemma send_snapshots_core: "same_core w (fst (send_watcher_snapshots w))"
proof (cases "wb_connected w")
  case True
  then show ?thesis using send_books_fold by (simp add: send_watcher_snapshots_def)
qed (simp add: send_watcher_snapshots_def same_core_def)

lemma inner_event_entry:
  assumes "entry_inv e" "f \<in> {on_ws_connected, on_market_closed nx, on_next_discovered, on_switch_complete}"
  shows "entry_inv (e\<lparr> we_fsm := fst (f (we_fsm e)) \<rparr>)"
  using assms by (auto simp: entry_inv_def fsm_is_active_def fsm_defs split: if_splits)

lemma fsm_event_wm_inv:
  assumes "wm_inv m" "f \<in> {on_ws_connected, on_market_closed nx, on_next_discovered, on_switch_complete}"
  shows "wm_inv (wm_fsm_event f m tf)"
  using assms inner_event_entry [of "m tf" f nx] by (simp add: wm_fsm_event_def wm_inv_def)

lemma data_wm_inv: "wm_inv m \<Longrightarrow> wm_inv (on_book_data_received m tf now)"
  by (simp add: wm_inv_def on_book_data_received_def entry_inv_def)

lemma data_fsm [simp]: "we_fsm (on_book_data_received m tf now tf') = we_fsm (m tf')"
  by (simp add: on_book_data_received_def)

lemma event_fsm:
  "we_fsm (wm_fsm_event f m tf tf') = (if tf' = tf then fst (f (we_fsm (m tf))) else we_fsm (m tf'))"
  by (simp add: wm_fsm_event_def)

lemma note_data_inv: "bridge_inv w \<Longrightarrow> bridge_inv (note_data w token now)"
  by (auto simp: note_data_def bridge_inv_def fsm_of_def data_wm_inv split: option.splits)

lemma note_data_fsm [simp]: "fsm_of (note_data w token now) tf = fsm_of w tf"
  by (simp add: note_data_def fsm_of_def split: option.splits)

lemma send_books_inv: "bridge_inv w \<Longrightarrow> bridge_inv (fst (on_watcher_tick w now))"
proof -
  let ?w = "w\<lparr> wb_manager := wm_tick (wb_manager w) now (wb_stale_threshold_ms w * 1000000) \<rparr>"
  assume inv: "bridge_inv w"
  have "fsm_is_active (we_fsm (tick_entry n t e)) \<longleftrightarrow> fsm_is_active (we_fsm e)"
    "we_fsm e \<noteq> ROLLING \<Longrightarrow> we_fsm (tick_entry n t e) \<noteq> ROLLING" for n t e
    by (auto simp: tick_entry_def fsm_is_active_def fsm_defs)
  then have "bridge_inv ?w"
    using inv by (simp add: bridge_inv_def wm_inv_def entry_inv_def wm_tick_def tick_entry_inv fsm_of_def)
  then show ?thesis
    unfolding on_watcher_tick_def by (rule same_core_inv [OF send_snapshots_core])
qed

lemma sub_fsm:
  "we_fsm (m tf') \<noteq> ROLLING \<Longrightarrow> we_fsm (fst (wm_subscribe m tf) tf') \<noteq> ROLLING"
  "we_fsm (m tf') \<noteq> ROLLING \<Longrightarrow> we_fsm (fst (wm_unsubscribe m tf) tf') \<noteq> ROLLING"
  by (auto simp: wm_subscribe_def wm_unsubscribe_def Let_def fsm_defs)

lemma handle_watch_command_inv: "bridge_inv w \<Longrightarrow> bridge_inv (fst (handle_watch_command w c))"
  by (cases c)
    (auto simp: handle_watch_command_def Let_def bridge_inv_def fsm_of_def wm_subscribe_inv
      wm_unsubscribe_inv sub_fsm)

lemma watcher_snapshot_inv:
  assumes "bridge_inv w" "distinct_prices (take kMaxWatcherBookDepth (snap_bids snap))"
    "distinct_prices (take kMaxWatcherBookDepth (snap_asks snap))"
  shows "bridge_inv (fst (watcher_snapshot w now snap))"
proof -
  let ?bs = "take kMaxWatcherBookDepth (snap_bids snap)" and ?sks = "take kMaxWatcherBookDepth (snap_asks snap)"
  let ?w1 = "w\<lparr> wb_books := apply_book_snapshot (wb_books w) (snap_asset_id snap) ?bs ?sks \<rparr>"
  have w1: "bridge_inv ?w1"
    using assms run_watcher_op_sorted [of "wb_books w" "WSnapshot (snap_asset_id snap) ?bs ?sks"]
    by (simp add: bridge_inv_def fsm_of_def)
  show ?thesis
  proof (cases "token_timeframe (wb_registry w) (snap_asset_id snap)")
    case None
    with w1 show ?thesis by (simp add: watcher_snapshot_def Let_def)
  next
    case (Some tf)
    let ?w2 = "note_data (?w1\<lparr> wb_tick_size := (wb_tick_size ?w1)(tf :=
      detect_tick_from_prices (map lvl_price ?bs @ map lvl_price ?sks)) \<rparr>) (snap_asset_id snap) now"
    have w2: "bridge_inv ?w2"
      by (rule note_data_inv, rule same_core_inv [OF _ w1]) (simp add: same_core_def)
    have "bridge_inv (?w2\<lparr> wb_manager := wm_fsm_event on_ws_connected (wb_manager ?w2) tf \<rparr>)"
      if "fsm_of ?w2 tf = CONNECTING"
      using w2 that fsm_event_wm_inv [of "wb_manager ?w2" on_ws_connected True tf]
      by (simp add: bridge_inv_def fsm_of_def event_fsm on_ws_connected_def)
    with w2 Some show ?thesis by (simp add: watcher_snapshot_def Let_def del: note_data_fsm)
  qed
qed

lemma watcher_asset_change_inv: "bridge_inv w \<Longrightarrow> bridge_inv (watcher_asset_change now w ac)"
proof -
  assume inv: "bridge_inv w"
  have changes: "books_sorted (foldl (\<lambda>b c. watcher_price_change b a (pc_price c) (pc_size c) (pc_side c = BID)) b cs)"
    if "books_sorted b" for a b cs
    using that
  proof (induction cs arbitrary: b)
    case (Cons c cs)
    then show ?case
      using run_watcher_op_sorted [of b "WChange a (pc_price c) (pc_size c) (pc_side c = BID)"] by simp
  qed simp
  show ?thesis
    unfolding watcher_asset_change_def Let_def
    using inv changes [of "wb_books w" "apc_asset_id ac" "apc_changes ac"]
    by (intro note_data_inv) (simp add: bridge_inv_def fsm_of_def)
qed

lemma watcher_changes_inv: "bridge_inv w \<Longrightarrow> bridge_inv (foldl (watcher_asset_change now) w acs)"
  by (induction acs arbitrary: w) (simp_all add: watcher_asset_change_inv)

lemma trade_tick_core:
  "same_core w (watcher_trade w e)" "same_core w (watcher_tick_change w t)"
  by (simp_all add: watcher_trade_def watcher_tick_change_def same_core_def Let_def split: option.splits)

lemma on_watcher_book_data_inv:
  assumes "bridge_inv w" "bridge_op_ok (BData now p)"
  shows "bridge_inv (fst (on_watcher_book_data w now p))"
proof (cases p)
  case (MBook snap)
  with assms show ?thesis by (simp add: on_watcher_book_data_def watcher_snapshot_inv)
next
  case (MPriceChange acs ts)
  with assms show ?thesis by (simp add: on_watcher_book_data_def watcher_changes_inv)
qed (use assms same_core_inv [OF trade_tick_core(1)] same_core_inv [OF trade_tick_core(2)] in
  \<open>simp_all add: on_watcher_book_data_def\<close>)

text \<open>Within a handler one series may be rolling.\<close>

definition rolling_inv :: "btc_timeframe \<Rightarrow> watcher_bridge \<Rightarrow> bool" where
  "rolling_inv tf w \<longleftrightarrow>
     wm_inv (wb_manager w) \<and> (\<forall>tf'. tf' \<noteq> tf \<longrightarrow> fsm_of w tf' \<noteq> ROLLING) \<and> books_sorted (wb_books w)"

lemma bridge_inv_alt: "bridge_inv w \<longleftrightarrow> rolling_inv tf w \<and> fsm_of w tf \<noteq> ROLLING"
  by (auto simp: bridge_inv_def rolling_inv_def)

lemma fsm_event_rolling:
  assumes "rolling_inv tf w"
    "f \<in> {on_ws_connected, on_market_closed nx, on_next_discovered, on_switch_complete}"
  shows "rolling_inv tf (fsm_event f tf w)"
  using assms fsm_event_wm_inv [of "wb_manager w" f nx tf]
  by (simp add: rolling_inv_def fsm_event_def fsm_of_def event_fsm)

lemma set_registry_rolling [simp]: "rolling_inv tf (set_registry w tf' cur nxt) \<longleftrightarrow> rolling_inv tf w"
  by (simp add: rolling_inv_def set_registry_def fsm_of_def)

lemma set_registry_fsm [simp]: "fsm_of (set_registry w tf' cur nxt) tf = fsm_of w tf"
  by (simp add: set_registry_def fsm_of_def)

lemma clear_token_book_sorted: "books_sorted b \<Longrightarrow> books_sorted (clear_token_book t b)"
  using run_watcher_op_sorted [of b "WClear t"] by (simp add: clear_token_book_def)

lemma execute_rollover_state:
  "wb_manager (fst (execute_rollover w tf)) =
     wm_fsm_event on_switch_complete (on_book_data_received (wb_manager w) tf 0) tf"
  "wb_registry (fst (execute_rollover w tf)) = promote_next (wb_registry w) tf"
  "\<exists>a b. wb_books (fst (execute_rollover w tf)) = clear_token_book a (clear_token_book b (wb_books w))"
  by (auto simp: execute_rollover_def Let_def case_prod_beta)

lemma execute_rollover_inv:
  assumes "rolling_inv tf w"
  shows "bridge_inv (fst (execute_rollover w tf))"
proof -
  have "wm_inv (wb_manager (fst (execute_rollover w tf)))"
    using assms unfolding execute_rollover_state
    by (intro fsm_event_wm_inv [where nx = True] data_wm_inv) (simp_all add: rolling_inv_def)
  moreover have "books_sorted (wb_books (fst (execute_rollover w tf)))"
    using assms execute_rollover_state(3) [of w tf]
    by (auto simp: rolling_inv_def intro!: clear_token_book_sorted)
  moreover have "fsm_of (fst (execute_rollover w tf)) tf' \<noteq> ROLLING" for tf'
    using assms unfolding fsm_of_def execute_rollover_state
    by (auto simp: event_fsm on_switch_complete_def rolling_inv_def fsm_of_def)
  ultimately show ?thesis by (simp add: bridge_inv_def)
qed

lemma roll_or_report_inv: "rolling_inv tf w \<Longrightarrow> bridge_inv (fst (roll_or_report w tf))"
  by (simp add: roll_or_report_def execute_rollover_inv bridge_inv_alt [of w tf])

lemma direct_rollover_inv:
  assumes "rolling_inv tf w"
  shows "bridge_inv (fst (direct_rollover w tf old cur nxt))"
proof -
  let ?w1 = "fsm_event (on_market_closed True) tf (set_registry w tf old (Some cur))"
  have w1: "rolling_inv tf ?w1" using assms by (intro fsm_event_rolling [where nx = True]) simp_all
  have reg: "bridge_inv (set_registry v tf c n) \<longleftrightarrow> bridge_inv v" for v c n
    by (simp add: bridge_inv_alt [of _ tf])
  show ?thesis
  proof (cases "fsm_of ?w1 tf = ROLLING")
    case True
    with w1 show ?thesis
      by (simp add: direct_rollover_def Let_def case_prod_beta execute_rollover_inv reg split: option.split)
  next
    case False
    with w1 have "bridge_inv ?w1" by (simp add: bridge_inv_alt [of _ tf])
    with False show ?thesis
      by (simp add: direct_rollover_def Let_def reg split: option.split)
  qed
qed

lemma on_discovery_result_inv:
  assumes "bridge_inv w"
  shows "bridge_inv (fst (on_discovery_result w tf cur nxt))"
proof -
  have roll: "rolling_inv tf w" "fsm_of w tf \<noteq> ROLLING" using assms by (simp_all add: bridge_inv_alt [of w tf])
  have closed: "bridge_inv (fst (roll_or_report
      (fsm_event (on_market_closed nx) tf (set_registry w tf cur nxt)) tf))" for nx
    using roll by (intro roll_or_report_inv fsm_event_rolling [where nx = nx]) simp_all
  have found_next: "bridge_inv (fst (roll_or_report
      (fsm_event on_next_discovered tf (set_registry w tf cur nxt)) tf))"
    using roll by (intro roll_or_report_inv fsm_event_rolling [where nx = True]) simp_all
  have plain: "bridge_inv (set_registry w tf cur nxt)" using roll by (simp add: bridge_inv_alt [of _ tf])
  show ?thesis
    unfolding on_discovery_result_def Let_def
    using closed found_next plain direct_rollover_inv [OF roll(1)] by (simp split: if_split)
qed

lemma run_bridge_op_inv: "bridge_inv w \<Longrightarrow> bridge_op_ok op \<Longrightarrow> bridge_inv (run_bridge_op w op)"
  by (cases op)
    (simp_all add: handle_watch_command_inv send_books_inv on_watcher_book_data_inv
      on_discovery_result_inv, simp add: bridge_inv_def fsm_of_def)

lemma run_bridge_ops_inv:
  "bridge_inv w \<Longrightarrow> list_all bridge_op_ok ops \<Longrightarrow> bridge_inv (foldl run_bridge_op w ops)"
  by (induction ops arbitrary: w) (auto intro: run_bridge_op_inv)

lemma new_bridge_inv: "bridge_inv (new_watcher_bridge service depth stale_ms)"
  by (simp add: bridge_inv_def new_watcher_bridge_def new_watch_manager_inv fsm_of_def
      new_watch_manager_def books_sorted_empty)

subsection \<open>Properties\<close>




text \<open>A series that waits for the successor of its closed market skips a market: when discovery
  reports an open current market together with the one after it, the series rolls to the later market
  and connects to that one, although the reported current market is open.\<close>

theorem pending_series_skips_open_market:
  assumes "fsm_of w tf = ROLL_PENDING" and "\<not> si_is_closed cur"
  shows "reg_current (wb_registry (fst (on_discovery_result w tf cur (Some nxt)))) tf = Some nxt \<and>
         fsm_of (fst (on_discovery_result w tf cur (Some nxt))) tf = CONNECTING"
proof -
  let ?w1 = "fsm_event on_next_discovered tf (set_registry w tf cur (Some nxt))"
  have step: "on_discovery_result w tf cur (Some nxt) = execute_rollover ?w1 tf"
    using assms
    by (simp add: on_discovery_result_def following_market_def Let_def roll_or_report_def
        set_registry_def update_from_discovery_def has_next_def fsm_of_def fsm_event_def event_fsm
        on_next_discovered_def)
  have "promote_next (wb_registry ?w1) tf tf =
      \<lparr> se_current = nxt, se_next_market = new_market_info, se_has_current = True, se_has_next_market = False \<rparr>"
    by (simp add: promote_next_def fsm_event_def set_registry_def update_from_discovery_def)
  moreover have "we_fsm (wb_manager ?w1 tf) = ROLLING"
    using assms by (simp add: fsm_event_def set_registry_def fsm_of_def event_fsm on_next_discovered_def)
  ultimately show ?thesis
    unfolding step fsm_of_def
    by (simp add: execute_rollover_state reg_current_def event_fsm on_switch_complete_def)
qed

definition sample_market :: "string \<Rightarrow> series_market_info" where
  "sample_market c =
     \<lparr> si_condition_id = c, si_token_id_up = c @ ''u'', si_token_id_down = c @ ''d'', si_is_closed = False \<rparr>"

definition waiting_bridge :: watcher_bridge where
  "waiting_bridge = fsm_event (\<lambda>_. (ROLL_PENDING, True)) BTC_5M (new_watcher_bridge True 10 5000)"

theorem pending_series_skips_open_market_witness:
  "reg_current (wb_registry (fst (on_discovery_result waiting_bridge BTC_5M (sample_market ''now'')
     (Some (sample_market ''later''))))) BTC_5M = Some (sample_market ''later'')"
  using pending_series_skips_open_market [of waiting_bridge BTC_5M "sample_market ''now''"
      "sample_market ''later''"]
  by (simp add: waiting_bridge_def fsm_of_def fsm_event_def event_fsm sample_market_def)

end
