(* ===== verification/Gateway.thy ===== *)
theory Gateway
  imports Rate_Limiter Order_Builder Rest_Parsers Token_Inventory Sched_Events "HOL-Library.AList"
begin

section \<open>Heartbeats and the execution gateway\<close>

text \<open>
  src/src/exec/heartbeat_manager.cpp and src/src/exec/execution_gateway.cpp: the thread that turns
  intents into REST requests and their responses into feedback for the strategy.  One definition per
  member function, on a record of the members.  What the gateway does not own is in an environment:
  the clock reading of the handler, the jitter draw of the rate limiter, the outcome of the n-th push
  to the feedback queue, the keys, salts and hash of the order builder, and simdjson.  Requests and
  pushed events are appended to lists in the state, a request with the callback that will receive its
  response; the transport delivers a response by running that callback.  Logging, metrics, the
  authentication headers and the timers of the event loop are left out.
\<close>

subsection \<open>Heartbeat manager\<close>

record heartbeat_config =
  hc_interval_ms :: int
  hc_max_consecutive_failures :: int
  hc_cancel_all_on_failure :: bool

record heartbeat_manager =
  hm_config :: heartbeat_config
  hm_last_sent_ts :: timestamp
  hm_last_success_ts :: timestamp
  hm_current_id :: string
  hm_consecutive_failures :: int
  hm_success_count :: int
  hm_failure_count :: int

definition new_heartbeat_manager :: "heartbeat_config \<Rightarrow> heartbeat_manager" where
  "new_heartbeat_manager cfg =
     \<lparr> hm_config = cfg, hm_last_sent_ts = 0, hm_last_success_ts = 0, hm_current_id = [],
       hm_consecutive_failures = 0, hm_success_count = 0, hm_failure_count = 0 \<rparr>"

definition is_due :: "heartbeat_manager \<Rightarrow> timestamp \<Rightarrow> bool" where
  "is_due h now =
     (if hc_interval_ms (hm_config h) \<le> 0 then False
      else if hm_last_sent_ts h = 0 then True
      else (now - hm_last_sent_ts h) sdiv 1000000 \<ge> hc_interval_ms (hm_config h))"

definition hb_on_success :: "heartbeat_manager \<Rightarrow> string \<Rightarrow> timestamp \<Rightarrow> heartbeat_manager" where
  "hb_on_success h hid now =
     h\<lparr> hm_current_id := hid, hm_last_sent_ts := now, hm_last_success_ts := now,
        hm_consecutive_failures := 0, hm_success_count := hm_success_count h + 1 \<rparr>"

definition hb_on_failure :: "heartbeat_manager \<Rightarrow> timestamp \<Rightarrow> heartbeat_manager" where
  "hb_on_failure h now =
     h\<lparr> hm_last_sent_ts := now, hm_consecutive_failures := hm_consecutive_failures h + 1,
        hm_failure_count := hm_failure_count h + 1 \<rparr>"

definition hb_is_failed :: "heartbeat_manager \<Rightarrow> bool" where
  "hb_is_failed h \<longleftrightarrow> hm_consecutive_failures h \<ge> hc_max_consecutive_failures (hm_config h)"

definition should_cancel_all :: "heartbeat_manager \<Rightarrow> bool" where
  "should_cancel_all h \<longleftrightarrow> hc_cancel_all_on_failure (hm_config h) \<and>
     hm_consecutive_failures h \<ge> hc_max_consecutive_failures (hm_config h)"

subsection \<open>State of the gateway\<close>

datatype channel = OrderClient nat | CancelClient nat

datatype callback =
    CbOrder nat order_id
  | CbBatch "(nat \<times> order_id) list"
  | CbCancel nat order_id order_id
  | CbHeartbeat
  | CbNone

record sent_request =
  sr_channel :: channel
  sr_request :: rest_request
  sr_callback :: callback

record correlation_entry =
  ce_client_order_id :: order_id
  ce_type :: exec_intent_type
  ce_sent_ts :: timestamp

record gateway_config =
  gc_batch_orders_enabled :: bool
  gc_batch_max_size :: int
  gc_cancel_connection_redundancy :: int
  gc_order_connection_pool_size :: int

record gateway =
  gw_config :: gateway_config
  gw_has_fatal_flag :: bool
  gw_fatal :: bool
  gw_inventory :: "token_inventory option"
  gw_intents :: "exec_intent list"
  gw_limiter :: rate_limiter
  gw_heartbeat :: heartbeat_manager
  gw_order_pool_next :: nat
  gw_cancel_next :: nat
  gw_cancel_responded :: "nat set"
  gw_heartbeat_in_flight :: bool
  gw_cancel_all_latched :: bool
  gw_was_degraded :: bool
  gw_overflow_count :: int
  gw_overflow_escalated :: bool
  gw_overflow_fatal :: bool
  gw_inflight_sell_qty :: "asset_id \<Rightarrow> qty"
  gw_inflight_sells :: "nat \<rightharpoonup> asset_id \<times> qty"
  gw_correlation :: "(nat \<times> correlation_entry) list"
  gw_batch_buf :: "exec_intent list"
  gw_push_count :: nat
  gw_feedback :: "scheduler_event list"
  gw_requests :: "sent_request list"

record gateway_env =
  ge_now :: timestamp
  ge_jitter :: int
  ge_push :: "nat \<Rightarrow> bool"
  ge_keccak :: "bytes \<Rightarrow> bytes"
  ge_sign :: signer
  ge_builder :: order_builder
  ge_salt :: "exec_intent \<Rightarrow> 64 word"
  ge_parse :: "string \<Rightarrow> json option"
  ge_minify :: "json \<Rightarrow> string"

definition new_gateway ::
  "gateway_config \<Rightarrow> rate_limit_config \<Rightarrow> heartbeat_config \<Rightarrow> bool \<Rightarrow> token_inventory option \<Rightarrow> gateway" where
  "new_gateway cfg rl hb has_flag view =
     \<lparr> gw_config = cfg, gw_has_fatal_flag = has_flag, gw_fatal = False, gw_inventory = view,
       gw_intents = [], gw_limiter = new_rate_limiter rl, gw_heartbeat = new_heartbeat_manager hb,
       gw_order_pool_next = 0, gw_cancel_next = 0, gw_cancel_responded = {},
       gw_heartbeat_in_flight = False, gw_cancel_all_latched = False, gw_was_degraded = False,
       gw_overflow_count = 0, gw_overflow_escalated = False, gw_overflow_fatal = False,
       gw_inflight_sell_qty = (\<lambda>_. 0), gw_inflight_sells = Map.empty, gw_correlation = [],
       gw_batch_buf = [], gw_push_count = 0, gw_feedback = [], gw_requests = [] \<rparr>"

definition kMaxCorrelation :: nat where "kMaxCorrelation = 1024"
definition kFeedbackOverflowFatalThreshold :: int where "kFeedbackOverflowFatalThreshold = 1000"
definition kCriticalSpinLimit :: nat where "kCriticalSpinLimit = 1024"

definition order_clients :: "gateway \<Rightarrow> nat" where
  "order_clients g = nat (max 1 (gc_order_connection_pool_size (gw_config g)))"

definition cancel_clients :: "gateway \<Rightarrow> nat" where
  "cancel_clients g = nat (max 1 (gc_cancel_connection_redundancy (gw_config g)))"

definition raise_fatal :: "gateway \<Rightarrow> gateway" where
  "raise_fatal g = (if gw_has_fatal_flag g then g\<lparr> gw_fatal := True \<rparr> else g)"

subsection \<open>Feedback\<close>

fun exec_event_kind :: "exec_feedback_kind \<Rightarrow> scheduler_event_kind \<times> bool" where
  "exec_event_kind ORDER_ACCEPTED = (EXEC_ORDER_ACK, True)"
| "exec_event_kind ORDER_REJECTED = (EXEC_ORDER_REJECT, False)"
| "exec_event_kind RATE_LIMITED = (EXEC_ORDER_REJECT, False)"
| "exec_event_kind EXCHANGE_UNAVAILABLE = (EXEC_ORDER_REJECT, False)"
| "exec_event_kind FB_TIMEOUT = (EXEC_ORDER_ACK, False)"
| "exec_event_kind CANCEL_CONFIRMED = (EXEC_ORDER_ACK, True)"
| "exec_event_kind HEARTBEAT_OK = (EXEC_ORDER_ACK, True)"
| "exec_event_kind HEARTBEAT_FAILED = (EXEC_ORDER_ACK, True)"
| "exec_event_kind GATEWAY_DEGRADED = (EXEC_ORDER_ACK, True)"
| "exec_event_kind GATEWAY_RECOVERED = (EXEC_ORDER_ACK, True)"
| "exec_event_kind REQUEST_SENT = (EXEC_ORDER_ACK, True)"

definition from_exec_feedback :: "timestamp \<Rightarrow> exec_feedback \<Rightarrow> scheduler_event" where
  "from_exec_feedback now fb =
     new_event\<lparr> ev_source := EXEC_INTERNAL, ev_recv_ts := now,
       ev_kind := fst (exec_event_kind (fb_kind fb)), ev_exec_accepted := snd (exec_event_kind (fb_kind fb)),
       ev_intent_ref_id := fb_intent_id fb, ev_client_order_id := fb_client_order_id fb,
       ev_order_id := fb_exchange_order_id fb, ev_exec_feedback_kind := fb_kind fb,
       ev_exec_http_status := fb_http_status fb \<rparr>"

definition is_critical_feedback :: "exec_feedback_kind \<Rightarrow> bool" where
  "is_critical_feedback k \<longleftrightarrow> k = ORDER_REJECTED \<or> k = FB_TIMEOUT \<or> k = EXCHANGE_UNAVAILABLE"

definition releases_reservation :: "exec_feedback_kind \<Rightarrow> bool" where
  "releases_reservation k \<longleftrightarrow>
     k \<noteq> REQUEST_SENT \<and> k \<noteq> HEARTBEAT_OK \<and> k \<noteq> HEARTBEAT_FAILED \<and> k \<noteq> GATEWAY_DEGRADED \<and>
     k \<noteq> GATEWAY_RECOVERED"

definition release_sell :: "exec_feedback \<Rightarrow> gateway \<Rightarrow> gateway" where
  "release_sell fb g =
     (if releases_reservation (fb_kind fb) then
        (case gw_inflight_sells g (fb_intent_id fb) of
           None \<Rightarrow> g
         | Some (a, q) \<Rightarrow>
             (let cur = gw_inflight_sell_qty g a
              in g\<lparr> gw_inflight_sell_qty := (gw_inflight_sell_qty g)(a := if cur > q then cur - q else 0),
                    gw_inflight_sells := (gw_inflight_sells g)(fb_intent_id fb := None) \<rparr>))
      else g)"

text \<open>Up to so many attempts; the result says whether one succeeded and which attempt comes next.\<close>

fun push_critical :: "(nat \<Rightarrow> bool) \<Rightarrow> nat \<Rightarrow> nat \<Rightarrow> bool \<times> nat" where
  "push_critical p 0 k = (False, k)"
| "push_critical p (Suc n) k = (if p k then (True, Suc k) else push_critical p n (Suc k))"

definition feedback_overflow :: "gateway \<Rightarrow> gateway" where
  "feedback_overflow g0 =
     (let g = g0\<lparr> gw_overflow_count := gw_overflow_count g0 + 1, gw_overflow_escalated := True \<rparr>
      in if \<not> gw_overflow_fatal g \<and> gw_has_fatal_flag g \<and>
            gw_overflow_count g \<ge> kFeedbackOverflowFatalThreshold
         then g\<lparr> gw_overflow_fatal := True, gw_fatal := True \<rparr> else g)"

definition publish_feedback_raw :: "gateway_env \<Rightarrow> exec_feedback \<Rightarrow> gateway \<Rightarrow> gateway" where
  "publish_feedback_raw env fb g0 =
     (let g = release_sell fb g0;
          ev = from_exec_feedback (ge_now env) fb
      in if is_critical_feedback (fb_kind fb) then
           (case push_critical (ge_push env) kCriticalSpinLimit (gw_push_count g) of
              (True, k) \<Rightarrow> g\<lparr> gw_push_count := k, gw_feedback := gw_feedback g @ [ev] \<rparr>
            | (False, k) \<Rightarrow>
                raise_fatal (g\<lparr> gw_push_count := k, gw_overflow_count := gw_overflow_count g + 1 \<rparr>))
         else if ge_push env (gw_push_count g)
         then g\<lparr> gw_push_count := gw_push_count g + 1, gw_feedback := gw_feedback g @ [ev] \<rparr>
         else feedback_overflow (g\<lparr> gw_push_count := gw_push_count g + 1 \<rparr>))"

definition publish_feedback ::
  "gateway_env \<Rightarrow> exec_feedback_kind \<Rightarrow> exec_intent \<Rightarrow> int \<Rightarrow> timestamp \<Rightarrow> gateway \<Rightarrow> gateway" where
  "publish_feedback env kind intent http_status latency =
     publish_feedback_raw env
       (new_feedback\<lparr> fb_kind := kind, fb_intent_id := xi_intent_id intent,
          fb_client_order_id := xi_client_order_id intent, fb_http_status := http_status,
          fb_latency_ns := latency, fb_created_ts := ge_now env \<rparr>)"

definition check_degraded_transition :: "gateway_env \<Rightarrow> gateway \<Rightarrow> gateway" where
  "check_degraded_transition env g =
     (let now_degraded = (is_degraded (gw_limiter g) \<or> exchange_unavailable (gw_limiter g) \<or>
                          hb_is_failed (gw_heartbeat g))
      in if now_degraded \<and> \<not> gw_was_degraded g then
           publish_feedback_raw env (new_feedback\<lparr> fb_kind := GATEWAY_DEGRADED, fb_created_ts := ge_now env \<rparr>)
             (g\<lparr> gw_was_degraded := True \<rparr>)
         else if \<not> now_degraded \<and> gw_was_degraded g then
           publish_feedback_raw env (new_feedback\<lparr> fb_kind := GATEWAY_RECOVERED, fb_created_ts := ge_now env \<rparr>)
             (g\<lparr> gw_was_degraded := False \<rparr>)
         else g)"

definition local_reject :: "gateway_env \<Rightarrow> exec_intent \<Rightarrow> gateway \<Rightarrow> gateway" where
  "local_reject env intent =
     publish_feedback_raw env
       (set_error (new_feedback\<lparr> fb_kind := ORDER_REJECTED, fb_intent_id := xi_intent_id intent,
          fb_client_order_id := xi_client_order_id intent, fb_created_ts := ge_now env \<rparr>)
          ''insufficient local inventory for SELL'')"

subsection \<open>Placing orders\<close>

definition available_for :: "gateway \<Rightarrow> exec_intent \<Rightarrow> qty" where
  "available_for g intent = icr_available (check_inventory_for_intent intent (gw_inventory g))"

definition reserve_sell :: "exec_intent \<Rightarrow> gateway \<Rightarrow> gateway" where
  "reserve_sell intent g =
     (let a = xi_asset_id intent
      in g\<lparr> gw_inflight_sell_qty := (gw_inflight_sell_qty g)(a := gw_inflight_sell_qty g a + xi_size intent),
            gw_inflight_sells := (gw_inflight_sells g)(xi_intent_id intent \<mapsto> (a, xi_size intent)) \<rparr>)"

definition register_oid :: "order_id \<Rightarrow> gateway \<Rightarrow> gateway" where
  "register_oid oid g =
     (case gw_inventory g of
        None \<Rightarrow> g
      | Some v \<Rightarrow> g\<lparr> gw_inventory := Some (register_our_order v oid) \<rparr>)"

definition send_request :: "channel \<Rightarrow> rest_request \<Rightarrow> callback \<Rightarrow> gateway \<Rightarrow> gateway" where
  "send_request ch req cb g =
     g\<lparr> gw_requests := gw_requests g @ [\<lparr> sr_channel = ch, sr_request = req, sr_callback = cb \<rparr>] \<rparr>"

definition send_on_order_pool :: "rest_request \<Rightarrow> callback \<Rightarrow> gateway \<Rightarrow> gateway" where
  "send_on_order_pool req cb g =
     (send_request (OrderClient (gw_order_pool_next g mod order_clients g)) req cb g)
       \<lparr> gw_order_pool_next := (gw_order_pool_next g + 1) mod 2 ^ 32 \<rparr>"

definition correlate :: "gateway_env \<Rightarrow> exec_intent \<Rightarrow> gateway \<Rightarrow> gateway" where
  "correlate env intent g =
     (if length (gw_correlation g) < kMaxCorrelation
      then g\<lparr> gw_correlation := AList.update (xi_intent_id intent)
               \<lparr> ce_client_order_id = xi_client_order_id intent, ce_type = xi_type intent,
                 ce_sent_ts = ge_now env \<rparr> (gw_correlation g) \<rparr>
      else g)"

definition build_order :: "gateway_env \<Rightarrow> exec_intent \<Rightarrow> order_payload expected" where
  "build_order env intent = build (ge_keccak env) (ge_sign env) (ge_builder env) (ge_salt env intent) intent"

text \<open>The request for one order, once inventory is reserved.\<close>

definition dispatch_order :: "gateway_env \<Rightarrow> exec_intent \<Rightarrow> gateway \<Rightarrow> gateway" where
  "dispatch_order env intent g =
     (case build_order env intent of
        Value payload \<Rightarrow>
          (let req = \<lparr> rq_method = POST, rq_path = ''/order'', rq_body = op_json_body payload,
                       rq_created_ts = ge_now env \<rparr>
           in send_on_order_pool req (CbOrder (xi_intent_id intent) (xi_client_order_id intent))
                (publish_feedback env REQUEST_SENT intent 0 0
                  (correlate env intent (register_oid (op_predicted_exchange_oid payload) g))))
      | _ \<Rightarrow> publish_feedback env ORDER_REJECTED intent 0 0 g)"

definition send_place_order :: "gateway_env \<Rightarrow> exec_intent \<Rightarrow> gateway \<Rightarrow> gateway" where
  "send_place_order env intent g =
     (if xi_side intent = ASK then
        (if available_for g intent - gw_inflight_sell_qty g (xi_asset_id intent) < xi_size intent
         then local_reject env intent g
         else dispatch_order env intent (reserve_sell intent g))
      else dispatch_order env intent g)"

definition batch_available :: "gateway \<Rightarrow> exec_intent \<Rightarrow> qty" where
  "batch_available g intent =
     (let inflight = gw_inflight_sell_qty g (xi_asset_id intent)
      in if available_for g intent > inflight then available_for g intent - inflight else 0)"

fun screen_batch :: "gateway_env \<Rightarrow> exec_intent list \<Rightarrow> gateway \<Rightarrow> exec_intent list \<times> gateway" where
  "screen_batch env [] g = ([], g)"
| "screen_batch env (i # is) g =
     (if xi_side i = ASK \<and> batch_available g i < xi_size i
      then screen_batch env is (local_reject env i g)
      else case screen_batch env is g of (valid, g') \<Rightarrow> (i # valid, g'))"

definition reserve_batch :: "exec_intent list \<Rightarrow> gateway \<Rightarrow> gateway" where
  "reserve_batch valid g = foldl (\<lambda>g i. if xi_side i = ASK then reserve_sell i g else g) g valid"

definition build_order_batch :: "gateway_env \<Rightarrow> exec_intent list \<Rightarrow> batch_order_payload expected" where
  "build_order_batch env is =
     build_batch (ge_keccak env) (ge_sign env) (ge_builder env) (map (\<lambda>i. (ge_salt env i, i)) is)"

definition dispatch_batch :: "gateway_env \<Rightarrow> exec_intent list \<Rightarrow> gateway \<Rightarrow> gateway" where
  "dispatch_batch env valid g =
     (case build_order_batch env valid of
        Value payload \<Rightarrow>
          (let g1 = foldl (\<lambda>g oid. register_oid oid g) g (bp_predicted_exchange_oids payload);
               req = \<lparr> rq_method = POST, rq_path = ''/orders'', rq_body = bp_json_body payload,
                       rq_created_ts = ge_now env \<rparr>;
               entries = zip (map xi_intent_id valid) (bp_client_order_ids payload)
           in send_on_order_pool req (CbBatch entries)
                (foldl (\<lambda>g i. publish_feedback env REQUEST_SENT i 0 0 g) g1 valid))
      | _ \<Rightarrow> foldl (\<lambda>g i. publish_feedback env ORDER_REJECTED i 0 0 g) g valid)"

definition send_place_order_batch :: "gateway_env \<Rightarrow> exec_intent list \<Rightarrow> gateway \<Rightarrow> gateway" where
  "send_place_order_batch env intents g0 =
     (case screen_batch env intents g0 of
        ([], g) \<Rightarrow> g
      | ([i], g) \<Rightarrow> send_place_order env i g
      | (valid, g) \<Rightarrow> dispatch_batch env valid (reserve_batch valid g))"

definition flush_order_batch :: "gateway_env \<Rightarrow> gateway \<Rightarrow> gateway" where
  "flush_order_batch env g =
     (case gw_batch_buf g of
        [] \<Rightarrow> g
      | [i] \<Rightarrow> (send_place_order env i g)\<lparr> gw_batch_buf := [] \<rparr>
      | is \<Rightarrow> (send_place_order_batch env is g)\<lparr> gw_batch_buf := [] \<rparr>)"

subsection \<open>Cancelling\<close>

definition hex_digit :: "nat \<Rightarrow> char" where
  "hex_digit n = (if n < 10 then char_of (48 + n) else char_of (87 + n))"

definition escape_char :: "char \<Rightarrow> string" where
  "escape_char c =
     (let n = of_char c :: nat
      in if n = 34 then [CHR 0x5C, CHR 0x22]
         else if n = 92 then [CHR 0x5C, CHR 0x5C]
         else if n = 8 then [CHR 0x5C, CHR ''b'']
         else if n = 12 then [CHR 0x5C, CHR ''f'']
         else if n = 10 then [CHR 0x5C, CHR ''n'']
         else if n = 13 then [CHR 0x5C, CHR ''r'']
         else if n = 9 then [CHR 0x5C, CHR ''t'']
         else if n < 32 then [CHR 0x5C, CHR ''u''] @ ''00'' @ [hex_digit (n div 16), hex_digit (n mod 16)]
         else [c])"

definition json_escaped :: "string \<Rightarrow> string" where
  "json_escaped s = concat (map escape_char s)"

definition id_object :: "string \<Rightarrow> string \<Rightarrow> string" where
  "id_object key v = ''{'' @ dq @ key @ dq @ '':'' @ dq @ json_escaped v @ dq @ ''}''"

definition send_cancel_order :: "gateway_env \<Rightarrow> exec_intent \<Rightarrow> gateway \<Rightarrow> gateway" where
  "send_cancel_order env intent g =
     (if xi_exchange_order_id intent = [] then publish_feedback env ORDER_REJECTED intent 0 0 g
      else
        let req = \<lparr> rq_method = DELETE_METHOD, rq_path = ''/order'',
                    rq_body = id_object ''orderID'' (xi_exchange_order_id intent),
                    rq_created_ts = ge_now env \<rparr>;
            g1 = publish_feedback env REQUEST_SENT intent 0 0 g
        in (send_request (CancelClient (gw_cancel_next g1 mod cancel_clients g1)) req
              (CbCancel (xi_intent_id intent) (xi_client_order_id intent) (xi_exchange_order_id intent)) g1)
             \<lparr> gw_cancel_next := (gw_cancel_next g1 + 1) mod 2 ^ 32 \<rparr>)"

definition send_cancel_all :: "gateway_env \<Rightarrow> exec_intent \<Rightarrow> gateway \<Rightarrow> gateway" where
  "send_cancel_all env intent g =
     (let req = \<lparr> rq_method = DELETE_METHOD, rq_path = ''/cancel-all'', rq_body = [],
                  rq_created_ts = ge_now env \<rparr>
      in foldl (\<lambda>g k. send_request (CancelClient k) req (CbCancel (xi_intent_id intent) [] []) g) g
           [0..<cancel_clients g])"

subsection \<open>Heartbeats\<close>

definition send_heartbeat :: "gateway_env \<Rightarrow> gateway \<Rightarrow> gateway" where
  "send_heartbeat env g0 =
     (let g = g0\<lparr> gw_heartbeat_in_flight := True \<rparr>;
          current_id = hm_current_id (gw_heartbeat g);
          body = (if current_id = [] then ''{'' @ dq @ ''heartbeat_id'' @ dq @ '':null}''
                  else id_object ''heartbeat_id'' current_id);
          req = \<lparr> rq_method = POST, rq_path = ''/v1/heartbeats'', rq_body = body, rq_created_ts = ge_now env \<rparr>;
          keepalive = \<lparr> rq_method = GET, rq_path = ''/time'', rq_body = [], rq_created_ts = ge_now env \<rparr>;
          g1 = send_request (CancelClient 0) req CbHeartbeat g;
          g2 = foldl (\<lambda>g k. send_request (OrderClient k) keepalive CbNone g) g1 [0..<order_clients g]
      in foldl (\<lambda>g k. send_request (CancelClient k) keepalive CbNone g) g2 [1..<cancel_clients g])"

definition check_heartbeat :: "gateway_env \<Rightarrow> gateway \<Rightarrow> gateway" where
  "check_heartbeat env g =
     (if gw_heartbeat_in_flight g then g
      else if \<not> is_due (gw_heartbeat g) (ge_now env) then g
      else
        let (l, granted) = try_acquire (gw_limiter g) HEARTBEAT (ge_now env);
            g1 = g\<lparr> gw_limiter := l \<rparr>
        in if granted then send_heartbeat env g1 else g1)"

definition heartbeat_failure :: "gateway_env \<Rightarrow> int \<Rightarrow> gateway \<Rightarrow> gateway" where
  "heartbeat_failure env http_status g =
     (let g1 = g\<lparr> gw_heartbeat := hb_on_failure (gw_heartbeat g) (ge_now env) \<rparr>;
          g2 = publish_feedback_raw env (new_feedback\<lparr> fb_kind := HEARTBEAT_FAILED, fb_http_status := http_status \<rparr>) g1;
          g3 = (if should_cancel_all (gw_heartbeat g2) \<and> \<not> gw_cancel_all_latched g2
                then send_cancel_all env (new_intent\<lparr> xi_type := CANCEL_ALL, xi_created_ts := ge_now env \<rparr>)
                       (g2\<lparr> gw_cancel_all_latched := True \<rparr>)
                else g2)
      in check_degraded_transition env g3)"

subsection \<open>Responses\<close>

datatype response_class =
    RcTimeout | RcRateLimited | RcUnavailable | RcEngineRestart | RcAuthFailure | RcHttpError bool | Rc2xx

definition classify :: "rest_response \<Rightarrow> response_class" where
  "classify resp =
     (let s = rs_http_status resp
      in if rs_timed_out resp \<or> s = 0 then RcTimeout
         else if s = 429 then RcRateLimited
         else if s = 503 then RcUnavailable
         else if s = 425 then RcEngineRestart
         else if s = 401 \<or> s = 403 then RcAuthFailure
         else if s < 200 \<or> s \<ge> 300 then RcHttpError (s = 502 \<or> s = 504)
         else Rc2xx)"

text \<open>The feedback for one order or cancel of a failed request.\<close>

definition failure_feedback ::
  "string \<Rightarrow> bool \<Rightarrow> rest_response \<Rightarrow> nat \<Rightarrow> order_id \<Rightarrow> response_class \<Rightarrow> exec_feedback" where
  "failure_feedback msg with_latency resp intent_id client_oid c =
     (let fb = new_feedback\<lparr> fb_intent_id := intent_id, fb_client_order_id := client_oid,
                             fb_http_status := rs_http_status resp \<rparr>
      in case c of
           RcTimeout \<Rightarrow>
             fb\<lparr> fb_kind := FB_TIMEOUT, fb_latency_ns := (if with_latency then rs_latency_ns resp else 0) \<rparr>
         | RcRateLimited \<Rightarrow> fb\<lparr> fb_kind := RATE_LIMITED \<rparr>
         | RcUnavailable \<Rightarrow> fb\<lparr> fb_kind := EXCHANGE_UNAVAILABLE \<rparr>
         | RcEngineRestart \<Rightarrow> fb\<lparr> fb_kind := RATE_LIMITED \<rparr>
         | RcAuthFailure \<Rightarrow> set_error (fb\<lparr> fb_kind := ORDER_REJECTED \<rparr>) ''auth failure (401/403)''
         | RcHttpError ambiguous \<Rightarrow>
             set_error (fb\<lparr> fb_kind := (if ambiguous then FB_TIMEOUT else ORDER_REJECTED) \<rparr>) msg
         | Rc2xx \<Rightarrow> fb)"

definition failure_escalation :: "response_class \<Rightarrow> gateway \<Rightarrow> gateway" where
  "failure_escalation c g =
     (case c of
        RcEngineRestart \<Rightarrow> if is_matching_engine_down (gw_limiter g) then raise_fatal g else g
      | RcAuthFailure \<Rightarrow> raise_fatal g
      | _ \<Rightarrow> g)"

definition account_response :: "gateway_env \<Rightarrow> rest_response \<Rightarrow> gateway \<Rightarrow> gateway" where
  "account_response env resp g =
     check_degraded_transition env
       (g\<lparr> gw_limiter := record_rtt
            (record_response (gw_limiter g) (rs_http_status resp) (ge_now env) (ge_jitter env))
            (rs_latency_ns resp) \<rparr>)"

text \<open>What a parsed order result says about one order.\<close>

definition order_result_feedback ::
  "string \<Rightarrow> rest_response \<Rightarrow> nat \<Rightarrow> order_id \<Rightarrow> order_response \<Rightarrow> exec_feedback" where
  "order_result_feedback empty_msg resp intent_id client_oid r =
     (let fb = new_feedback\<lparr> fb_intent_id := intent_id, fb_client_order_id := client_oid,
                             fb_http_status := rs_http_status resp \<rparr>
      in if or_success r then
           (if or_order_id r = [] then set_error (fb\<lparr> fb_kind := ORDER_REJECTED \<rparr>) empty_msg
            else fb\<lparr> fb_kind := ORDER_ACCEPTED, fb_exchange_order_id := OrderId (or_order_id r),
                     fb_latency_ns := rs_latency_ns resp \<rparr>)
         else set_error (fb\<lparr> fb_kind := ORDER_REJECTED \<rparr>) (or_error_msg r))"

definition publish_order_result :: "gateway_env \<Rightarrow> exec_feedback \<Rightarrow> gateway \<Rightarrow> gateway" where
  "publish_order_result env fb g =
     publish_feedback_raw env fb
       (if fb_kind fb = ORDER_ACCEPTED then register_oid (fb_exchange_order_id fb) g else g)"

definition on_order_response ::
  "gateway_env \<Rightarrow> nat \<Rightarrow> order_id \<Rightarrow> rest_response \<Rightarrow> gateway \<Rightarrow> gateway" where
  "on_order_response env intent_id client_oid resp g0 =
     (let g1 = account_response env resp g0;
          g = g1\<lparr> gw_correlation := AList.delete intent_id (gw_correlation g1) \<rparr>;
          c = classify resp
      in if c \<noteq> Rc2xx then
           failure_escalation c
             (publish_feedback_raw env
               (failure_feedback ''place request failed (non-2xx)'' True resp intent_id client_oid c) g)
         else
           (case parse_order_response (ge_parse env) (rs_body resp) of
              Value r \<Rightarrow>
                publish_order_result env
                  (order_result_feedback ''success=true but empty orderID'' resp intent_id client_oid r) g
            | _ \<Rightarrow>
                publish_feedback_raw env
                  (new_feedback\<lparr> fb_kind := ORDER_REJECTED, fb_intent_id := intent_id,
                     fb_client_order_id := client_oid, fb_http_status := rs_http_status resp \<rparr>) g))"

definition entry_error :: "string \<Rightarrow> rest_response \<Rightarrow> nat \<times> order_id \<Rightarrow> exec_feedback" where
  "entry_error msg resp e =
     set_error (new_feedback\<lparr> fb_kind := ORDER_REJECTED, fb_intent_id := fst e,
       fb_client_order_id := snd e, fb_http_status := rs_http_status resp \<rparr>) msg"

text \<open>The feedback for each entry of a batch, in the order of the entries.\<close>

definition batch_feedback :: "gateway_env \<Rightarrow> (nat \<times> order_id) list \<Rightarrow> rest_response \<Rightarrow> exec_feedback list" where
  "batch_feedback env entries resp =
     (if classify resp \<noteq> Rc2xx then
        map (\<lambda>e. failure_feedback ''batch request failed (non-2xx)'' True resp (fst e) (snd e) (classify resp))
          entries
      else
        (case parse_batch_order_response (ge_parse env) (ge_minify env) (rs_body resp) of
           Value items \<Rightarrow>
             (let n = min (length items) (length entries)
              in map (\<lambda>(item, e). order_result_feedback ''success=true but empty orderID (batch)'' resp
                                    (fst e) (snd e) item) (zip (take n items) (take n entries)) @
                 map (entry_error ''batch response missing entry'' resp) (drop n entries))
         | _ \<Rightarrow> map (entry_error ''batch response parse failed'' resp) entries))"

definition on_batch_order_response ::
  "gateway_env \<Rightarrow> (nat \<times> order_id) list \<Rightarrow> rest_response \<Rightarrow> gateway \<Rightarrow> gateway" where
  "on_batch_order_response env entries resp g0 =
     failure_escalation (classify resp)
       (foldl (\<lambda>g fb. publish_order_result env fb g) (account_response env resp g0)
         (batch_feedback env entries resp))"

fun contains :: "string \<Rightarrow> string \<Rightarrow> bool" where
  "contains p [] = (p = [])"
| "contains p (c # cs) = (take (length p) (c # cs) = p \<or> contains p cs)"

definition printf_s :: "nat \<Rightarrow> string \<Rightarrow> string" where
  "printf_s n s = take n (takeWhile (\<lambda>c. of_char c \<noteq> (0::nat)) s)"

definition order_is_gone :: "string \<Rightarrow> bool" where
  "order_is_gone reason \<longleftrightarrow> contains ''already canceled'' reason \<or> contains ''matched orders'' reason"

text \<open>The verdict on a cancel whose request succeeded.\<close>

definition cancel_feedback ::
  "gateway_env \<Rightarrow> nat \<Rightarrow> order_id \<Rightarrow> order_id \<Rightarrow> rest_response \<Rightarrow> exec_feedback" where
  "cancel_feedback env intent_id client_oid exchange_oid resp =
     (let fb = new_feedback\<lparr> fb_intent_id := intent_id, fb_client_order_id := client_oid,
                             fb_http_status := rs_http_status resp \<rparr>
      in case parse_cancel_response (ge_parse env) (rs_body resp) of
           Value r \<Rightarrow>
             (case cr_not_canceled r of
                (k, reason) # _ \<Rightarrow>
                  set_error (fb\<lparr> fb_kind := (if order_is_gone reason then CANCEL_CONFIRMED else ORDER_REJECTED),
                                fb_exchange_order_id := exchange_oid \<rparr>)
                    (''cancel failed: '' @ printf_s 40 k @ '': '' @ printf_s 40 reason)
              | [] \<Rightarrow>
                  if exchange_oid \<noteq> [] \<and> exchange_oid \<notin> set (cr_canceled r)
                  then set_error (fb\<lparr> fb_kind := ORDER_REJECTED \<rparr>) ''cancel target not found in canceled array''
                  else fb\<lparr> fb_kind := CANCEL_CONFIRMED, fb_latency_ns := rs_latency_ns resp \<rparr>)
         | _ \<Rightarrow> set_error (fb\<lparr> fb_kind := ORDER_REJECTED \<rparr>) ''cancel response parse failed on 2xx body'')"

definition on_cancel_response ::
  "gateway_env \<Rightarrow> nat \<Rightarrow> order_id \<Rightarrow> order_id \<Rightarrow> rest_response \<Rightarrow> gateway \<Rightarrow> gateway" where
  "on_cancel_response env intent_id client_oid exchange_oid resp g0 =
     (if cancel_clients g0 > 1 \<and> intent_id \<in> gw_cancel_responded g0 then g0
      else
        let g1 = (if cancel_clients g0 > 1
                  then g0\<lparr> gw_cancel_responded := insert intent_id (gw_cancel_responded g0) \<rparr> else g0);
            g = account_response env resp g1;
            c = classify resp
        in if c \<noteq> Rc2xx then
             failure_escalation c
               (publish_feedback_raw env
                 (failure_feedback ''cancel request failed (non-2xx)'' False resp intent_id client_oid c) g)
           else publish_feedback_raw env (cancel_feedback env intent_id client_oid exchange_oid resp) g)"

definition on_heartbeat_response :: "gateway_env \<Rightarrow> rest_response \<Rightarrow> gateway \<Rightarrow> gateway" where
  "on_heartbeat_response env resp g0 =
     (let s = rs_http_status resp;
          g = g0\<lparr> gw_heartbeat_in_flight := False,
                  gw_limiter := record_response (gw_limiter g0) s (ge_now env) (ge_jitter env) \<rparr>
      in if rs_timed_out resp \<or> s = 0 then heartbeat_failure env s g
         else if s = 401 \<or> s = 403 then raise_fatal (heartbeat_failure env s g)
         else if s = 429 then check_degraded_transition env g
         else if s = 425 then
           check_degraded_transition env (if is_matching_engine_down (gw_limiter g) then raise_fatal g else g)
         else if s < 200 \<or> s \<ge> 300 then heartbeat_failure env s g
         else
           (case parse_heartbeat_response (ge_parse env) (rs_body resp) of
              Value r \<Rightarrow>
                if hr_heartbeat_id r = [] then heartbeat_failure env s g
                else
                  check_degraded_transition env
                    (publish_feedback_raw env (new_feedback\<lparr> fb_kind := HEARTBEAT_OK, fb_http_status := s \<rparr>)
                      (g\<lparr> gw_heartbeat := hb_on_success (gw_heartbeat g) (hr_heartbeat_id r) (ge_now env),
                          gw_cancel_all_latched := False \<rparr>))
            | _ \<Rightarrow> heartbeat_failure env s g))"

definition deliver :: "gateway_env \<Rightarrow> callback \<Rightarrow> rest_response \<Rightarrow> gateway \<Rightarrow> gateway" where
  "deliver env cb resp g =
     (case cb of
        CbOrder i c \<Rightarrow> on_order_response env i c resp g
      | CbBatch es \<Rightarrow> on_batch_order_response env es resp g
      | CbCancel i c e \<Rightarrow> on_cancel_response env i c e resp g
      | CbHeartbeat \<Rightarrow> on_heartbeat_response env resp g
      | CbNone \<Rightarrow> g)"

subsection \<open>The poll loop\<close>

definition is_place_intent :: "exec_intent_type \<Rightarrow> bool" where
  "is_place_intent t \<longleftrightarrow> t = PLACE_ORDER \<or> t = REPLACE_ORDER"

definition effective_batch_max :: "gateway \<Rightarrow> int" where
  "effective_batch_max g = min (gc_batch_max_size (gw_config g)) kBatchMaxOrders"

definition route_intent :: "gateway_env \<Rightarrow> exec_intent \<Rightarrow> gateway \<Rightarrow> gateway" where
  "route_intent env intent g =
     (case xi_type intent of
        PLACE_ORDER \<Rightarrow> send_place_order env intent g
      | REPLACE_ORDER \<Rightarrow> send_place_order env intent g
      | CANCEL_ORDER \<Rightarrow> send_cancel_order env intent g
      | CANCEL_ALL \<Rightarrow> send_cancel_all env intent g
      | HEARTBEAT \<Rightarrow> send_heartbeat env g)"

text \<open>The rate limit is asked before an intent goes anywhere.\<close>

definition when_granted :: "gateway_env \<Rightarrow> exec_intent \<Rightarrow> (gateway \<Rightarrow> gateway) \<Rightarrow> gateway \<Rightarrow> gateway" where
  "when_granted env intent f g =
     (let (l, granted) = try_acquire (gw_limiter g) (xi_type intent) (ge_now env);
          g1 = g\<lparr> gw_limiter := l \<rparr>
      in if granted then f g1 else publish_feedback env RATE_LIMITED intent 0 0 g1)"

definition process_intent :: "gateway_env \<Rightarrow> exec_intent \<Rightarrow> gateway \<Rightarrow> gateway" where
  "process_intent env intent = when_granted env intent (route_intent env intent)"

definition buffer_intent :: "gateway_env \<Rightarrow> exec_intent \<Rightarrow> gateway \<Rightarrow> gateway" where
  "buffer_intent env intent =
     when_granted env intent (\<lambda>g.
       let g1 = g\<lparr> gw_batch_buf := gw_batch_buf g @ [intent] \<rparr>
       in if int (length (gw_batch_buf g1)) \<ge> effective_batch_max g1 then flush_order_batch env g1 else g1)"

fun drain_intents :: "nat \<Rightarrow> gateway_env \<Rightarrow> gateway \<Rightarrow> gateway" where
  "drain_intents 0 env g = g"
| "drain_intents (Suc n) env g =
     (case gw_intents g of
        [] \<Rightarrow> g
      | i # is \<Rightarrow>
          (let g1 = g\<lparr> gw_intents := is \<rparr>
           in drain_intents n env
                (if gc_batch_orders_enabled (gw_config g1) \<and> is_place_intent (xi_type i)
                 then buffer_intent env i g1 else process_intent env i g1)))"

definition poll_intents :: "gateway_env \<Rightarrow> gateway \<Rightarrow> gateway" where
  "poll_intents env g = flush_order_batch env (drain_intents 16 env g)"

subsection \<open>What publishing leaves alone\<close>

lemma release_sell_fields [simp]:
  "gw_config (release_sell fb g) = gw_config g"
  "gw_has_fatal_flag (release_sell fb g) = gw_has_fatal_flag g"
  "gw_inventory (release_sell fb g) = gw_inventory g"
  "gw_intents (release_sell fb g) = gw_intents g"
  "gw_limiter (release_sell fb g) = gw_limiter g"
  "gw_heartbeat (release_sell fb g) = gw_heartbeat g"
  "gw_order_pool_next (release_sell fb g) = gw_order_pool_next g"
  "gw_cancel_next (release_sell fb g) = gw_cancel_next g"
  "gw_cancel_responded (release_sell fb g) = gw_cancel_responded g"
  "gw_heartbeat_in_flight (release_sell fb g) = gw_heartbeat_in_flight g"
  "gw_cancel_all_latched (release_sell fb g) = gw_cancel_all_latched g"
  "gw_was_degraded (release_sell fb g) = gw_was_degraded g"
  "gw_correlation (release_sell fb g) = gw_correlation g"
  "gw_batch_buf (release_sell fb g) = gw_batch_buf g"
  "gw_requests (release_sell fb g) = gw_requests g"
  "gw_push_count (release_sell fb g) = gw_push_count g"
  "gw_feedback (release_sell fb g) = gw_feedback g"
  "gw_fatal (release_sell fb g) = gw_fatal g"
  "gw_overflow_count (release_sell fb g) = gw_overflow_count g"
  "gw_overflow_fatal (release_sell fb g) = gw_overflow_fatal g"
  by (simp_all add: release_sell_def Let_def split: option.split prod.split)

lemma raise_fatal_fields [simp]:
  "gw_config (raise_fatal g) = gw_config g"
  "gw_has_fatal_flag (raise_fatal g) = gw_has_fatal_flag g"
  "gw_inventory (raise_fatal g) = gw_inventory g"
  "gw_intents (raise_fatal g) = gw_intents g"
  "gw_limiter (raise_fatal g) = gw_limiter g"
  "gw_heartbeat (raise_fatal g) = gw_heartbeat g"
  "gw_order_pool_next (raise_fatal g) = gw_order_pool_next g"
  "gw_cancel_next (raise_fatal g) = gw_cancel_next g"
  "gw_cancel_responded (raise_fatal g) = gw_cancel_responded g"
  "gw_heartbeat_in_flight (raise_fatal g) = gw_heartbeat_in_flight g"
  "gw_cancel_all_latched (raise_fatal g) = gw_cancel_all_latched g"
  "gw_was_degraded (raise_fatal g) = gw_was_degraded g"
  "gw_correlation (raise_fatal g) = gw_correlation g"
  "gw_batch_buf (raise_fatal g) = gw_batch_buf g"
  "gw_requests (raise_fatal g) = gw_requests g"
  "gw_push_count (raise_fatal g) = gw_push_count g"
  "gw_feedback (raise_fatal g) = gw_feedback g"
  "gw_inflight_sell_qty (raise_fatal g) = gw_inflight_sell_qty g"
  "gw_inflight_sells (raise_fatal g) = gw_inflight_sells g"
  by (simp_all add: raise_fatal_def)

lemma publish_fields [simp]:
  "gw_config (publish_feedback_raw env fb g) = gw_config g"
  "gw_has_fatal_flag (publish_feedback_raw env fb g) = gw_has_fatal_flag g"
  "gw_inventory (publish_feedback_raw env fb g) = gw_inventory g"
  "gw_intents (publish_feedback_raw env fb g) = gw_intents g"
  "gw_limiter (publish_feedback_raw env fb g) = gw_limiter g"
  "gw_heartbeat (publish_feedback_raw env fb g) = gw_heartbeat g"
  "gw_order_pool_next (publish_feedback_raw env fb g) = gw_order_pool_next g"
  "gw_cancel_next (publish_feedback_raw env fb g) = gw_cancel_next g"
  "gw_cancel_responded (publish_feedback_raw env fb g) = gw_cancel_responded g"
  "gw_heartbeat_in_flight (publish_feedback_raw env fb g) = gw_heartbeat_in_flight g"
  "gw_cancel_all_latched (publish_feedback_raw env fb g) = gw_cancel_all_latched g"
  "gw_was_degraded (publish_feedback_raw env fb g) = gw_was_degraded g"
  "gw_correlation (publish_feedback_raw env fb g) = gw_correlation g"
  "gw_batch_buf (publish_feedback_raw env fb g) = gw_batch_buf g"
  "gw_requests (publish_feedback_raw env fb g) = gw_requests g"
  "gw_inflight_sell_qty (publish_feedback_raw env fb g) = gw_inflight_sell_qty (release_sell fb g)"
  "gw_inflight_sells (publish_feedback_raw env fb g) = gw_inflight_sells (release_sell fb g)"
  by (simp_all add: publish_feedback_raw_def feedback_overflow_def Let_def split: prod.split bool.split)

lemma publish_intent_fields [simp]:
  "gw_config (publish_feedback env kind i st lat g) = gw_config g"
  "gw_has_fatal_flag (publish_feedback env kind i st lat g) = gw_has_fatal_flag g"
  "gw_inventory (publish_feedback env kind i st lat g) = gw_inventory g"
  "gw_intents (publish_feedback env kind i st lat g) = gw_intents g"
  "gw_limiter (publish_feedback env kind i st lat g) = gw_limiter g"
  "gw_heartbeat (publish_feedback env kind i st lat g) = gw_heartbeat g"
  "gw_order_pool_next (publish_feedback env kind i st lat g) = gw_order_pool_next g"
  "gw_cancel_next (publish_feedback env kind i st lat g) = gw_cancel_next g"
  "gw_cancel_responded (publish_feedback env kind i st lat g) = gw_cancel_responded g"
  "gw_heartbeat_in_flight (publish_feedback env kind i st lat g) = gw_heartbeat_in_flight g"
  "gw_cancel_all_latched (publish_feedback env kind i st lat g) = gw_cancel_all_latched g"
  "gw_was_degraded (publish_feedback env kind i st lat g) = gw_was_degraded g"
  "gw_correlation (publish_feedback env kind i st lat g) = gw_correlation g"
  "gw_batch_buf (publish_feedback env kind i st lat g) = gw_batch_buf g"
  "gw_requests (publish_feedback env kind i st lat g) = gw_requests g"
  by (simp_all add: publish_feedback_def)

lemma degraded_fields [simp]:
  "gw_config (check_degraded_transition env g) = gw_config g"
  "gw_has_fatal_flag (check_degraded_transition env g) = gw_has_fatal_flag g"
  "gw_inventory (check_degraded_transition env g) = gw_inventory g"
  "gw_intents (check_degraded_transition env g) = gw_intents g"
  "gw_limiter (check_degraded_transition env g) = gw_limiter g"
  "gw_heartbeat (check_degraded_transition env g) = gw_heartbeat g"
  "gw_order_pool_next (check_degraded_transition env g) = gw_order_pool_next g"
  "gw_cancel_next (check_degraded_transition env g) = gw_cancel_next g"
  "gw_cancel_responded (check_degraded_transition env g) = gw_cancel_responded g"
  "gw_heartbeat_in_flight (check_degraded_transition env g) = gw_heartbeat_in_flight g"
  "gw_cancel_all_latched (check_degraded_transition env g) = gw_cancel_all_latched g"
  "gw_correlation (check_degraded_transition env g) = gw_correlation g"
  "gw_batch_buf (check_degraded_transition env g) = gw_batch_buf g"
  "gw_requests (check_degraded_transition env g) = gw_requests g"
  "gw_inflight_sell_qty (check_degraded_transition env g) = gw_inflight_sell_qty g"
  "gw_inflight_sells (check_degraded_transition env g) = gw_inflight_sells g"
  by (simp_all add: check_degraded_transition_def Let_def release_sell_def releases_reservation_def)

lemma account_fields [simp]:
  "gw_config (account_response env resp g) = gw_config g"
  "gw_has_fatal_flag (account_response env resp g) = gw_has_fatal_flag g"
  "gw_inventory (account_response env resp g) = gw_inventory g"
  "gw_intents (account_response env resp g) = gw_intents g"
  "gw_heartbeat (account_response env resp g) = gw_heartbeat g"
  "gw_order_pool_next (account_response env resp g) = gw_order_pool_next g"
  "gw_cancel_next (account_response env resp g) = gw_cancel_next g"
  "gw_cancel_responded (account_response env resp g) = gw_cancel_responded g"
  "gw_heartbeat_in_flight (account_response env resp g) = gw_heartbeat_in_flight g"
  "gw_cancel_all_latched (account_response env resp g) = gw_cancel_all_latched g"
  "gw_correlation (account_response env resp g) = gw_correlation g"
  "gw_batch_buf (account_response env resp g) = gw_batch_buf g"
  "gw_requests (account_response env resp g) = gw_requests g"
  "gw_inflight_sell_qty (account_response env resp g) = gw_inflight_sell_qty g"
  "gw_inflight_sells (account_response env resp g) = gw_inflight_sells g"
  by (simp_all add: account_response_def)

lemma escalation_fields [simp]:
  "gw_config (failure_escalation c g) = gw_config g"
  "gw_has_fatal_flag (failure_escalation c g) = gw_has_fatal_flag g"
  "gw_inventory (failure_escalation c g) = gw_inventory g"
  "gw_intents (failure_escalation c g) = gw_intents g"
  "gw_limiter (failure_escalation c g) = gw_limiter g"
  "gw_heartbeat (failure_escalation c g) = gw_heartbeat g"
  "gw_order_pool_next (failure_escalation c g) = gw_order_pool_next g"
  "gw_cancel_next (failure_escalation c g) = gw_cancel_next g"
  "gw_cancel_responded (failure_escalation c g) = gw_cancel_responded g"
  "gw_heartbeat_in_flight (failure_escalation c g) = gw_heartbeat_in_flight g"
  "gw_cancel_all_latched (failure_escalation c g) = gw_cancel_all_latched g"
  "gw_was_degraded (failure_escalation c g) = gw_was_degraded g"
  "gw_correlation (failure_escalation c g) = gw_correlation g"
  "gw_batch_buf (failure_escalation c g) = gw_batch_buf g"
  "gw_requests (failure_escalation c g) = gw_requests g"
  "gw_feedback (failure_escalation c g) = gw_feedback g"
  "gw_inflight_sell_qty (failure_escalation c g) = gw_inflight_sell_qty g"
  "gw_inflight_sells (failure_escalation c g) = gw_inflight_sells g"
  by (simp_all add: failure_escalation_def split: response_class.split)

lemma small_step_ledgers [simp]:
  "gw_inflight_sell_qty (register_oid oid g) = gw_inflight_sell_qty g"
  "gw_inflight_sells (register_oid oid g) = gw_inflight_sells g"
  "gw_inflight_sell_qty (correlate env i g) = gw_inflight_sell_qty g"
  "gw_inflight_sells (correlate env i g) = gw_inflight_sells g"
  "gw_inflight_sell_qty (send_on_order_pool req cb g) = gw_inflight_sell_qty g"
  "gw_inflight_sells (send_on_order_pool req cb g) = gw_inflight_sells g"
  "gw_inflight_sell_qty (send_request ch req cb g) = gw_inflight_sell_qty g"
  "gw_inflight_sells (send_request ch req cb g) = gw_inflight_sells g"
  by (simp_all add: register_oid_def correlate_def send_on_order_pool_def send_request_def split: option.split)

subsection \<open>Reservations for sells in flight\<close>

definition reserved :: "(nat \<rightharpoonup> asset_id \<times> qty) \<Rightarrow> asset_id \<Rightarrow> qty" where
  "reserved m a = (\<Sum>i\<in>dom m. if fst (the (m i)) = a then snd (the (m i)) else 0)"

definition ledger_ok :: "gateway \<Rightarrow> bool" where
  "ledger_ok g \<longleftrightarrow>
     finite (dom (gw_inflight_sells g)) \<and> (\<forall>i e. gw_inflight_sells g i = Some e \<longrightarrow> 0 \<le> snd e) \<and>
     (\<forall>a. gw_inflight_sell_qty g a = reserved (gw_inflight_sells g) a)"

lemma reserved_add:
  assumes "finite (dom m)" "m i = None"
  shows "reserved (m(i \<mapsto> (a, q))) b = reserved m b + (if a = b then q else 0)"
proof -
  have "i \<notin> dom m" using assms(2) by auto
  moreover have "(\<Sum>j\<in>dom m. if fst (the ((m(i \<mapsto> (a, q))) j)) = b then snd (the ((m(i \<mapsto> (a, q))) j)) else 0)
      = reserved m b"
    unfolding reserved_def using calculation by (intro sum.cong) auto
  ultimately show ?thesis using assms(1) by (simp add: reserved_def)
qed

lemma reserved_remove:
  assumes "finite (dom m)" "m i = Some (a, q)"
  shows "reserved (m(i := None)) b = reserved m b - (if a = b then q else 0)"
proof -
  have "reserved ((m(i := None))(i \<mapsto> (a, q))) b = reserved (m(i := None)) b + (if a = b then q else 0)"
    using assms(1) by (intro reserved_add) simp_all
  moreover have "(m(i := None))(i \<mapsto> (a, q)) = m" using assms(2) by auto
  ultimately show ?thesis by simp
qed

lemma reserved_nonneg:
  assumes "\<And>i e. m i = Some e \<Longrightarrow> 0 \<le> snd e"
  shows "0 \<le> reserved m a"
  unfolding reserved_def using assms by (intro sum_nonneg) auto

lemma release_sell_ledger:
  assumes "ledger_ok g"
  shows "ledger_ok (release_sell fb g)"
proof (cases "gw_inflight_sells g (fb_intent_id fb)")
  case (Some e)
  obtain a q where e: "gw_inflight_sells g (fb_intent_id fb) = Some (a, q)" using Some by (cases e) auto
  let ?m = "gw_inflight_sells g" and ?m' = "(gw_inflight_sells g)(fb_intent_id fb := None)"
  have fin: "finite (dom ?m)" and pos: "\<And>i e. ?m i = Some e \<Longrightarrow> 0 \<le> snd e"
    and eq: "\<And>a. gw_inflight_sell_qty g a = reserved ?m a" using assms by (auto simp: ledger_ok_def)
  have rem: "reserved ?m' b = reserved ?m b - (if a = b then q else 0)" for b
    using reserved_remove [OF fin e] .
  have "0 \<le> reserved ?m' a" using pos by (intro reserved_nonneg) (auto split: if_splits)
  then have ge: "q \<le> reserved ?m a" using rem [of a] by simp
  have "finite (dom ?m')" using fin by simp
  moreover have "\<forall>i e. ?m' i = Some e \<longrightarrow> 0 \<le> snd e" using pos by auto
  moreover define f where "f = (gw_inflight_sell_qty g)(a := if gw_inflight_sell_qty g a > q
      then gw_inflight_sell_qty g a - q else 0)"
  moreover have "f b = reserved ?m' b" for b
    using ge by (simp add: f_def rem eq)
  ultimately have "ledger_ok (g\<lparr> gw_inflight_sell_qty := f, gw_inflight_sells := ?m' \<rparr>)"
    by (simp add: ledger_ok_def del: fun_upd_apply)
  with assms e show ?thesis by (simp add: release_sell_def Let_def f_def)
qed (use assms in \<open>simp add: release_sell_def\<close>)

lemma ledger_cong:
  "gw_inflight_sells g' = gw_inflight_sells g \<Longrightarrow> gw_inflight_sell_qty g' = gw_inflight_sell_qty g \<Longrightarrow>
   ledger_ok g' \<longleftrightarrow> ledger_ok g"
  by (simp add: ledger_ok_def)

lemma publish_ledger: "ledger_ok g \<Longrightarrow> ledger_ok (publish_feedback_raw env fb g)"
  using release_sell_ledger [of g fb] by (simp add: ledger_ok_def)

lemma publish_intent_ledger: "ledger_ok g \<Longrightarrow> ledger_ok (publish_feedback env kind i st lat g)"
  by (simp add: publish_feedback_def publish_ledger)

lemma reserve_sell_ledger:
  assumes "ledger_ok g" "gw_inflight_sells g (xi_intent_id i) = None" "0 \<le> xi_size i"
  shows "ledger_ok (reserve_sell i g)"
  using assms by (auto simp: ledger_ok_def reserve_sell_def Let_def reserved_add)

text \<open>Intents that may still be sent: their sells have distinct identifiers, none of them in flight.\<close>

definition ask_ids :: "exec_intent list \<Rightarrow> nat list" where
  "ask_ids is = map xi_intent_id (filter (\<lambda>i. xi_side i = ASK) is)"

definition inflight :: "gateway \<Rightarrow> nat set" where
  "inflight g = dom (gw_inflight_sells g)"

definition fresh :: "exec_intent list \<Rightarrow> gateway \<Rightarrow> bool" where
  "fresh is g \<longleftrightarrow>
     distinct (ask_ids is) \<and> set (ask_ids is) \<inter> inflight g = {} \<and> (\<forall>i\<in>set is. 0 \<le> xi_size i)"

text \<open>A step keeps the ledger and puts at most the given sells in flight.\<close>

definition ledger_step :: "nat set \<Rightarrow> gateway \<Rightarrow> gateway \<Rightarrow> bool" where
  "ledger_step new g g' \<longleftrightarrow> (ledger_ok g \<longrightarrow> ledger_ok g') \<and> inflight g' \<subseteq> inflight g \<union> new"

lemma ask_ids_simps [simp]:
  "ask_ids [] = []"
  "ask_ids (i # is) = (if xi_side i = ASK then xi_intent_id i # ask_ids is else ask_ids is)"
  "ask_ids (xs @ ys) = ask_ids xs @ ask_ids ys"
  by (simp_all add: ask_ids_def)

lemma ledger_step_refl [simp]: "ledger_step S g g"
  by (simp add: ledger_step_def)

lemma ledger_step_trans:
  "ledger_step S g g' \<Longrightarrow> ledger_step T g' g'' \<Longrightarrow> S \<union> T \<subseteq> U \<Longrightarrow> ledger_step U g g''"
  by (auto simp: ledger_step_def)

lemma ledger_step_mono: "ledger_step S g g' \<Longrightarrow> S \<subseteq> T \<Longrightarrow> ledger_step T g g'"
  by (auto simp: ledger_step_def)

lemma same_ledger_step:
  "gw_inflight_sells g' = gw_inflight_sells g \<Longrightarrow> gw_inflight_sell_qty g' = gw_inflight_sell_qty g \<Longrightarrow>
   ledger_step S g g'"
  by (simp add: ledger_step_def inflight_def ledger_ok_def)

lemma release_inflight: "inflight (release_sell fb g) \<subseteq> inflight g"
  by (auto simp: release_sell_def inflight_def Let_def split: if_splits option.splits)

lemma publish_step: "ledger_step {} g (publish_feedback_raw env fb g)"
  using release_inflight [of fb g] by (simp add: ledger_step_def publish_ledger inflight_def)

lemma publish_intent_step: "ledger_step {} g (publish_feedback env kind i st lat g)"
  by (simp add: publish_feedback_def publish_step)

lemma publish_all_step: "ledger_step {} g (foldl (\<lambda>g i. publish_feedback env kind i st lat g) g is)"
proof (induction "is" arbitrary: g)
  case (Cons i "is")
  show ?case
    using ledger_step_trans [OF publish_intent_step [of g env kind i st lat] Cons] by simp
qed simp

lemma request_sent_keeps [simp]:
  "gw_inflight_sell_qty (publish_feedback env REQUEST_SENT i st lat g) = gw_inflight_sell_qty g"
  "gw_inflight_sells (publish_feedback env REQUEST_SENT i st lat g) = gw_inflight_sells g"
  by (simp_all add: publish_feedback_def release_sell_def releases_reservation_def)

lemma dispatch_order_step: "ledger_step {} g (dispatch_order env i g)"
proof (cases "build_order env i")
  case (Value payload)
  let ?g = "correlate env i (register_oid (op_predicted_exchange_oid payload) g)"
  have "ledger_step {} g ?g" by (rule same_ledger_step) simp_all
  moreover have "ledger_step {} ?g (publish_feedback env REQUEST_SENT i 0 0 ?g)" by (rule publish_intent_step)
  moreover have "ledger_step {} (publish_feedback env REQUEST_SENT i 0 0 ?g) (dispatch_order env i g)"
    using Value by (intro same_ledger_step) (simp_all add: dispatch_order_def Let_def)
  ultimately show ?thesis by (meson ledger_step_trans le_sup_iff order_refl)
qed (simp_all add: dispatch_order_def publish_intent_step)

lemma reserve_step:
  assumes "xi_intent_id i \<notin> inflight g" "0 \<le> xi_size i"
  shows "ledger_step {xi_intent_id i} g (reserve_sell i g)"
  using assms reserve_sell_ledger [of g i]
  by (auto simp: ledger_step_def inflight_def reserve_sell_def Let_def)

lemma local_reject_step: "ledger_step {} g (local_reject env i g)"
  by (simp add: local_reject_def publish_step)

lemma send_place_order_step:
  assumes "fresh [i] g"
  shows "ledger_step (set (ask_ids [i])) g (send_place_order env i g)"
proof (cases "xi_side i = ASK \<and> \<not> available_for g i - gw_inflight_sell_qty g (xi_asset_id i) < xi_size i")
  case True
  have "ledger_step {xi_intent_id i} g (reserve_sell i g)"
    using assms True by (intro reserve_step) (auto simp: fresh_def)
  from ledger_step_trans [OF this dispatch_order_step] True show ?thesis by (simp add: send_place_order_def)
next
  case False
  then show ?thesis
    using ledger_step_mono [OF local_reject_step] ledger_step_mono [OF dispatch_order_step]
    by (auto simp: send_place_order_def)
qed

lemma screen_batch_step:
  assumes "screen_batch env is g = (valid, g')"
  shows "ledger_step {} g g' \<and> set (ask_ids valid) \<subseteq> set (ask_ids is) \<and>
    (distinct (ask_ids is) \<longrightarrow> distinct (ask_ids valid)) \<and> set valid \<subseteq> set is"
  using assms
proof (induction env "is" g arbitrary: valid g' rule: screen_batch.induct)
  case (2 env i "is" g)
  show ?case
  proof (cases "xi_side i = ASK \<and> batch_available g i < xi_size i")
    case True
    with 2 have "ledger_step {} (local_reject env i g) g' \<and> set (ask_ids valid) \<subseteq> set (ask_ids is) \<and>
        (distinct (ask_ids is) \<longrightarrow> distinct (ask_ids valid)) \<and> set valid \<subseteq> set is" by simp
    moreover have "ledger_step {} g (local_reject env i g)" by (rule local_reject_step)
    ultimately show ?thesis by (auto intro: ledger_step_trans)
  next
    case False
    with 2(3) obtain v where v: "screen_batch env is g = (v, g')" "valid = i # v"
      by (auto split: prod.splits)
    with 2(2) [OF False v(1)] show ?thesis by auto
  qed
qed simp

lemma reserve_batch_step: "fresh is g \<Longrightarrow> ledger_step (set (ask_ids is)) g (reserve_batch is g)"
proof (induction "is" arbitrary: g)
  case (Cons i "is")
  show ?case
  proof (cases "xi_side i = ASK")
    case True
    have r: "ledger_step {xi_intent_id i} g (reserve_sell i g)"
      using Cons.prems True by (intro reserve_step) (auto simp: fresh_def)
    have "fresh is (reserve_sell i g)"
      using Cons.prems True r by (auto simp: fresh_def ledger_step_def)
    from ledger_step_trans [OF r Cons.IH [OF this], of "set (ask_ids (i # is))"] True
    show ?thesis by (simp add: reserve_batch_def subset_insertI)
  next
    case False
    then have "fresh is g" using Cons.prems by (simp add: fresh_def)
    with Cons.IH False show ?thesis by (simp add: reserve_batch_def)
  qed
qed (simp add: reserve_batch_def)

lemma register_all_ledger [simp]:
  "gw_inflight_sells (foldl (\<lambda>g oid. register_oid oid g) g oids) = gw_inflight_sells g"
  "gw_inflight_sell_qty (foldl (\<lambda>g oid. register_oid oid g) g oids) = gw_inflight_sell_qty g"
  by (induction oids arbitrary: g) simp_all

lemma dispatch_batch_step: "ledger_step {} g (dispatch_batch env is g)"
proof (cases "build_order_batch env is")
  case (Value payload)
  let ?g = "foldl (\<lambda>g oid. register_oid oid g) g (bp_predicted_exchange_oids payload)"
  let ?h = "foldl (\<lambda>g i. publish_feedback env REQUEST_SENT i 0 0 g) ?g is"
  have "ledger_step {} g ?g" by (rule same_ledger_step) simp_all
  moreover have "ledger_step {} ?g ?h" by (rule publish_all_step)
  moreover have "ledger_step {} ?h (dispatch_batch env is g)"
    using Value by (intro same_ledger_step) (simp_all add: dispatch_batch_def Let_def)
  ultimately show ?thesis by (meson ledger_step_trans le_sup_iff order_refl)
qed (simp_all add: dispatch_batch_def publish_all_step)

lemma send_place_order_batch_step:
  assumes "fresh is g"
  shows "ledger_step (set (ask_ids is)) g (send_place_order_batch env is g)"
proof -
  obtain valid g' where v: "screen_batch env is g = (valid, g')" by fastforce
  note scr = screen_batch_step [OF v]
  have fresh: "fresh valid g'"
    using assms scr by (auto simp: fresh_def ledger_step_def)
  have sub: "set (ask_ids valid) \<subseteq> set (ask_ids is)" and s1: "ledger_step {} g g'" using scr by auto
  consider "valid = []" | i where "valid = [i]" | i j vs where "valid = i # j # vs"
    by (metis neq_Nil_conv)
  then show ?thesis
  proof cases
    case 1
    with v s1 show ?thesis by (auto simp: send_place_order_batch_def intro: ledger_step_mono)
  next
    case (2 i)
    with fresh have "ledger_step (set (ask_ids valid)) g' (send_place_order env i g')"
      using send_place_order_step [of i g'] by simp
    with 2 v sub s1 show ?thesis
      by (auto simp: send_place_order_batch_def intro: ledger_step_trans)
  next
    case (3 i j vs)
    have "ledger_step (set (ask_ids valid)) g' (dispatch_batch env valid (reserve_batch valid g'))"
      using ledger_step_trans [OF reserve_batch_step [OF fresh] dispatch_batch_step] by simp
    with 3 v sub s1 show ?thesis
      by (auto simp: send_place_order_batch_def intro: ledger_step_trans)
  qed
qed

lemma cancel_all_requests:
  "gw_inflight_sells (foldl (\<lambda>g k. send_request (f k) req cb g) g ks) = gw_inflight_sells g"
  "gw_inflight_sell_qty (foldl (\<lambda>g k. send_request (f k) req cb g) g ks) = gw_inflight_sell_qty g"
  by (induction ks arbitrary: g) simp_all

lemma send_cancel_all_ledger [simp]:
  "gw_inflight_sells (send_cancel_all env i g) = gw_inflight_sells g"
  "gw_inflight_sell_qty (send_cancel_all env i g) = gw_inflight_sell_qty g"
  by (simp_all add: send_cancel_all_def Let_def cancel_all_requests)

lemma send_heartbeat_ledger [simp]:
  "gw_inflight_sells (send_heartbeat env g) = gw_inflight_sells g"
  "gw_inflight_sell_qty (send_heartbeat env g) = gw_inflight_sell_qty g"
  by (simp_all add: send_heartbeat_def Let_def cancel_all_requests)

lemma send_cancel_order_step: "ledger_step {} g (send_cancel_order env i g)"
proof (cases "xi_exchange_order_id i = []")
  case False
  have "ledger_step {} (publish_feedback env REQUEST_SENT i 0 0 g) (send_cancel_order env i g)"
    using False by (intro same_ledger_step) (simp_all add: send_cancel_order_def Let_def)
  from ledger_step_trans [OF publish_intent_step this] show ?thesis by simp
qed (simp add: send_cancel_order_def publish_intent_step)

lemma route_intent_step: "fresh [i] g \<Longrightarrow> ledger_step (set (ask_ids [i])) g (route_intent env i g)"
  using send_place_order_step [of i g env] ledger_step_mono [OF send_cancel_order_step]
  by (cases "xi_type i") (simp_all add: route_intent_def same_ledger_step del: ask_ids_simps)

lemma limiter_fresh [simp]: "fresh is (g\<lparr> gw_limiter := l \<rparr>) \<longleftrightarrow> fresh is g"
  by (simp add: fresh_def inflight_def)

lemma when_granted_step:
  assumes "\<And>l. ledger_step S (g\<lparr> gw_limiter := l \<rparr>) (f (g\<lparr> gw_limiter := l \<rparr>))"
  shows "ledger_step S g (when_granted env i f g)"
proof -
  obtain l granted where a: "try_acquire (gw_limiter g) (xi_type i) (ge_now env) = (l, granted)" by fastforce
  have "ledger_step {} g (g\<lparr> gw_limiter := l \<rparr>)" by (rule same_ledger_step) simp_all
  moreover have "ledger_step S (g\<lparr> gw_limiter := l \<rparr>) (when_granted env i f g)"
    using a assms [of l] ledger_step_mono [OF publish_intent_step, of S] by (simp add: when_granted_def Let_def)
  ultimately show ?thesis by (auto intro: ledger_step_trans)
qed

lemma process_intent_step: "fresh [i] g \<Longrightarrow> ledger_step (set (ask_ids [i])) g (process_intent env i g)"
  unfolding process_intent_def by (intro when_granted_step route_intent_step) simp

lemma flush_step:
  assumes "fresh (gw_batch_buf g) g"
  shows "ledger_step (set (ask_ids (gw_batch_buf g))) g (flush_order_batch env g)"
proof -
  consider "gw_batch_buf g = []" | i where "gw_batch_buf g = [i]" | i j vs where "gw_batch_buf g = i # j # vs"
    by (metis neq_Nil_conv)
  then show ?thesis
  proof cases
    case 1
    then show ?thesis by (simp add: flush_order_batch_def)
  next
    case (2 i)
    then have "ledger_step (set (ask_ids [i])) g (send_place_order env i g)"
      using assms by (simp add: send_place_order_step del: ask_ids_simps)
    with 2 show ?thesis
      by (auto simp: flush_order_batch_def ledger_step_def ledger_ok_def inflight_def)
  next
    case (3 i j vs)
    then have "ledger_step (set (ask_ids (gw_batch_buf g))) g (send_place_order_batch env (gw_batch_buf g) g)"
      using assms by (simp add: send_place_order_batch_step del: ask_ids_simps)
    with 3 show ?thesis
      by (auto simp: flush_order_batch_def ledger_step_def ledger_ok_def inflight_def)
  qed
qed

lemma heartbeat_failure_step: "ledger_step {} g (heartbeat_failure env st g)"
proof -
  let ?g1 = "g\<lparr> gw_heartbeat := hb_on_failure (gw_heartbeat g) (ge_now env) \<rparr>"
  let ?fb = "new_feedback\<lparr> fb_kind := HEARTBEAT_FAILED, fb_http_status := st \<rparr>"
  have "ledger_step {} g ?g1" by (rule same_ledger_step) simp_all
  moreover have "ledger_step {} ?g1 (publish_feedback_raw env ?fb ?g1)" by (rule publish_step)
  moreover have "ledger_step {} (publish_feedback_raw env ?fb ?g1) (heartbeat_failure env st g)"
    by (rule same_ledger_step) (simp_all add: heartbeat_failure_def Let_def)
  ultimately show ?thesis by (meson ledger_step_trans le_sup_iff order_refl)
qed

lemma on_heartbeat_response_step: "ledger_step {} g (on_heartbeat_response env resp g)"
proof -
  let ?g = "g\<lparr> gw_heartbeat_in_flight := False,
      gw_limiter := record_response (gw_limiter g) (rs_http_status resp) (ge_now env) (ge_jitter env) \<rparr>"
  have start: "ledger_step {} g ?g" by (rule same_ledger_step) simp_all
  have fatal: "ledger_step {} h (raise_fatal h')" if "ledger_step {} h h'" for h h'
    using that by (simp add: ledger_step_def ledger_ok_def inflight_def)
  have degr: "ledger_step {} h (check_degraded_transition env h')" if "ledger_step {} h h'" for h h'
    using that by (simp add: ledger_step_def ledger_ok_def inflight_def)
  have success: "ledger_step {} ?g (publish_feedback_raw env fb (?g\<lparr> gw_heartbeat := hb, gw_cancel_all_latched := False \<rparr>))"
    for fb hb
    by (rule ledger_step_trans [OF same_ledger_step publish_step]) simp_all
  have "ledger_step {} ?g (on_heartbeat_response env resp g)"
    unfolding on_heartbeat_response_def Let_def
    by (auto intro!: degr fatal heartbeat_failure_step success split: expected.split)
  from ledger_step_trans [OF start this] show ?thesis by simp
qed

lemma publish_result_step: "ledger_step {} g (publish_order_result env fb g)"
proof -
  let ?g = "if fb_kind fb = ORDER_ACCEPTED then register_oid (fb_exchange_order_id fb) g else g"
  have "ledger_step {} g ?g" by (rule same_ledger_step) simp_all
  from ledger_step_trans [OF this publish_step] show ?thesis by (simp add: publish_order_result_def)
qed

lemma publish_results_step: "ledger_step {} g (foldl (\<lambda>g fb. publish_order_result env fb g) g fbs)"
proof (induction fbs arbitrary: g)
  case (Cons fb fbs)
  show ?case using ledger_step_trans [OF publish_result_step [of g env fb] Cons] by simp
qed simp

lemma account_step: "ledger_step {} g (account_response env resp g)"
  by (rule same_ledger_step) simp_all

lemma escalation_step: "ledger_step {} g g' \<Longrightarrow> ledger_step {} g (failure_escalation c g')"
  by (simp add: ledger_step_def ledger_ok_def inflight_def)

lemma on_order_response_step: "ledger_step {} g (on_order_response env i c resp g)"
proof -
  let ?g1 = "account_response env resp g"
  let ?g = "?g1\<lparr> gw_correlation := AList.delete i (gw_correlation ?g1) \<rparr>"
  have "ledger_step {} g ?g" by (rule same_ledger_step) simp_all
  moreover have "ledger_step {} ?g (on_order_response env i c resp g)"
    unfolding on_order_response_def Let_def
    by (auto intro!: escalation_step publish_step publish_result_step split: expected.split)
  ultimately show ?thesis by (auto intro: ledger_step_trans)
qed

lemma on_batch_order_response_step: "ledger_step {} g (on_batch_order_response env es resp g)"
  unfolding on_batch_order_response_def
  by (rule escalation_step, rule ledger_step_trans [OF account_step publish_results_step]) simp

lemma on_cancel_response_step: "ledger_step {} g (on_cancel_response env i c e resp g)"
proof -
  let ?g1 = "if cancel_clients g > 1
      then g\<lparr> gw_cancel_responded := insert i (gw_cancel_responded g) \<rparr> else g"
  have "ledger_step {} g (account_response env resp ?g1)" by (rule same_ledger_step) simp_all
  moreover have "ledger_step {} (account_response env resp ?g1) (on_cancel_response env i c e resp g) \<or>
      on_cancel_response env i c e resp g = g"
    unfolding on_cancel_response_def Let_def
    by (auto intro!: escalation_step publish_step)
  ultimately show ?thesis by (auto intro: ledger_step_trans)
qed

lemma deliver_step: "ledger_step {} g (deliver env cb resp g)"
  by (cases cb)
    (simp_all add: deliver_def on_order_response_step on_batch_order_response_step
      on_cancel_response_step on_heartbeat_response_step)

lemma check_heartbeat_step: "ledger_step {} g (check_heartbeat env g)"
  by (rule same_ledger_step) (simp_all add: check_heartbeat_def Let_def split: prod.split)

subsection \<open>Whole runs\<close>

text \<open>The strategy pushes intents, the timers poll and check the heartbeat, the transport delivers.\<close>

datatype gateway_event =
    GPush exec_intent
  | GPoll gateway_env
  | GHeartbeatCheck gateway_env
  | GResponse gateway_env callback rest_response

fun gateway_step :: "gateway \<Rightarrow> gateway_event \<Rightarrow> gateway" where
  "gateway_step g (GPush i) = g\<lparr> gw_intents := gw_intents g @ [i] \<rparr>"
| "gateway_step g (GPoll env) = poll_intents env g"
| "gateway_step g (GHeartbeatCheck env) = check_heartbeat env g"
| "gateway_step g (GResponse env cb resp) = deliver env cb resp g"

fun pushed :: "gateway_event list \<Rightarrow> exec_intent list" where
  "pushed [] = []"
| "pushed (GPush i # es) = i # pushed es"
| "pushed (e # es) = pushed es"

definition waiting :: "gateway \<Rightarrow> exec_intent list" where
  "waiting g = gw_batch_buf g @ gw_intents g"

lemma handler_queues [simp]:
  "gw_batch_buf (send_request ch req cb g) = gw_batch_buf g"
  "gw_intents (send_request ch req cb g) = gw_intents g"
  "gw_batch_buf (send_on_order_pool req cb g) = gw_batch_buf g"
  "gw_intents (send_on_order_pool req cb g) = gw_intents g"
  "gw_batch_buf (register_oid oid g) = gw_batch_buf g"
  "gw_intents (register_oid oid g) = gw_intents g"
  "gw_batch_buf (correlate env i g) = gw_batch_buf g"
  "gw_intents (correlate env i g) = gw_intents g"
  "gw_batch_buf (reserve_sell i g) = gw_batch_buf g"
  "gw_intents (reserve_sell i g) = gw_intents g"
  "gw_batch_buf (local_reject env i g) = gw_batch_buf g"
  "gw_intents (local_reject env i g) = gw_intents g"
  by (simp_all add: send_request_def send_on_order_pool_def register_oid_def correlate_def
      reserve_sell_def local_reject_def Let_def split: option.split)

lemma foldl_keeps: "(\<And>g x. F (f g x) = F g) \<Longrightarrow> F (foldl f g xs) = F g"
  by (induction xs arbitrary: g) simp_all

lemma publish_result_queues [simp]:
  "gw_batch_buf (publish_order_result env fb g) = gw_batch_buf g"
  "gw_intents (publish_order_result env fb g) = gw_intents g"
  by (simp_all add: publish_order_result_def)

lemma fold_queues [simp]:
  "gw_batch_buf (foldl (\<lambda>g k. send_request (f k) req cb g) g ks) = gw_batch_buf g"
  "gw_intents (foldl (\<lambda>g k. send_request (f k) req cb g) g ks) = gw_intents g"
  "gw_batch_buf (foldl (\<lambda>g oid. register_oid oid g) g oids) = gw_batch_buf g"
  "gw_intents (foldl (\<lambda>g oid. register_oid oid g) g oids) = gw_intents g"
  "gw_batch_buf (foldl (\<lambda>g i. publish_feedback env kind i st lat g) g is) = gw_batch_buf g"
  "gw_intents (foldl (\<lambda>g i. publish_feedback env kind i st lat g) g is) = gw_intents g"
  "gw_batch_buf (foldl (\<lambda>g fb. publish_order_result env fb g) g fbs) = gw_batch_buf g"
  "gw_intents (foldl (\<lambda>g fb. publish_order_result env fb g) g fbs) = gw_intents g"
  "gw_batch_buf (reserve_batch is g) = gw_batch_buf g"
  "gw_intents (reserve_batch is g) = gw_intents g"
  unfolding reserve_batch_def by (rule foldl_keeps, simp)+

lemma screen_batch_queues:
  "screen_batch env is g = (valid, g') \<Longrightarrow> gw_batch_buf g' = gw_batch_buf g \<and> gw_intents g' = gw_intents g"
  by (induction env "is" g arbitrary: valid g' rule: screen_batch.induct)
    (auto split: if_splits prod.splits)

lemma dispatch_queues [simp]:
  "gw_batch_buf (dispatch_order env i g) = gw_batch_buf g"
  "gw_intents (dispatch_order env i g) = gw_intents g"
  "gw_batch_buf (dispatch_batch env is g) = gw_batch_buf g"
  "gw_intents (dispatch_batch env is g) = gw_intents g"
  by (simp_all add: dispatch_order_def dispatch_batch_def Let_def split: expected.split)

lemma place_queues [simp]:
  "gw_batch_buf (send_place_order env i g) = gw_batch_buf g"
  "gw_intents (send_place_order env i g) = gw_intents g"
  by (simp_all add: send_place_order_def)

lemma place_batch_queues [simp]:
  "gw_batch_buf (send_place_order_batch env is g) = gw_batch_buf g"
  "gw_intents (send_place_order_batch env is g) = gw_intents g"
proof -
  obtain v g' where v: "screen_batch env is g = (v, g')" by fastforce
  with screen_batch_queues [OF v]
  show "gw_batch_buf (send_place_order_batch env is g) = gw_batch_buf g"
    "gw_intents (send_place_order_batch env is g) = gw_intents g"
    by (simp_all add: send_place_order_batch_def split: list.split)
qed

lemma flush_queues [simp]:
  "gw_batch_buf (flush_order_batch env g) = []" "gw_intents (flush_order_batch env g) = gw_intents g"
  by (simp_all add: flush_order_batch_def split: list.split)

lemma cancel_queues [simp]:
  "gw_batch_buf (send_cancel_order env i g) = gw_batch_buf g"
  "gw_intents (send_cancel_order env i g) = gw_intents g"
  "gw_batch_buf (send_cancel_all env i g) = gw_batch_buf g"
  "gw_intents (send_cancel_all env i g) = gw_intents g"
  "gw_batch_buf (send_heartbeat env g) = gw_batch_buf g"
  "gw_intents (send_heartbeat env g) = gw_intents g"
  by (simp_all add: send_cancel_order_def send_cancel_all_def send_heartbeat_def Let_def)

lemma response_queues [simp]:
  "gw_batch_buf (heartbeat_failure env st g) = gw_batch_buf g"
  "gw_intents (heartbeat_failure env st g) = gw_intents g"
  "gw_batch_buf (deliver env cb resp g) = gw_batch_buf g"
  "gw_intents (deliver env cb resp g) = gw_intents g"
  "gw_batch_buf (check_heartbeat env g) = gw_batch_buf g"
  "gw_intents (check_heartbeat env g) = gw_intents g"
proof -
  show hb: "gw_batch_buf (heartbeat_failure env st g) = gw_batch_buf g"
    "gw_intents (heartbeat_failure env st g) = gw_intents g" for st g
    by (simp_all add: heartbeat_failure_def Let_def)
  show "gw_batch_buf (deliver env cb resp g) = gw_batch_buf g"
    by (simp add: deliver_def on_order_response_def on_batch_order_response_def on_cancel_response_def
        on_heartbeat_response_def Let_def hb split: callback.split expected.split)
  show "gw_intents (deliver env cb resp g) = gw_intents g"
    by (simp add: deliver_def on_order_response_def on_batch_order_response_def on_cancel_response_def
        on_heartbeat_response_def Let_def hb split: callback.split expected.split)
  show "gw_batch_buf (check_heartbeat env g) = gw_batch_buf g"
    "gw_intents (check_heartbeat env g) = gw_intents g"
    by (simp_all add: check_heartbeat_def Let_def split: prod.split)
qed

lemma process_queues [simp]:
  "gw_batch_buf (process_intent env i g) = gw_batch_buf g"
  "gw_intents (process_intent env i g) = gw_intents g"
  by (simp_all add: process_intent_def when_granted_def route_intent_def Let_def
      split: prod.split exec_intent_type.split)

definition run_inv :: "nat set \<Rightarrow> gateway \<Rightarrow> bool" where
  "run_inv S g \<longleftrightarrow> ledger_ok g \<and> fresh (waiting g) g \<and> inflight g \<union> set (ask_ids (waiting g)) \<subseteq> S"

lemma run_inv_step:
  assumes "run_inv S g" "ledger_step T g g'" "T \<subseteq> set (ask_ids (waiting g))"
    "set (ask_ids (waiting g')) \<subseteq> set (ask_ids (waiting g)) - T"
    "distinct (ask_ids (waiting g'))" "set (waiting g') \<subseteq> set (waiting g)"
  shows "run_inv S g'"
  using assms unfolding run_inv_def fresh_def ledger_step_def by blast

lemma fresh_part: "fresh (xs @ ys) g \<Longrightarrow> fresh xs g \<and> fresh ys g"
  by (auto simp: fresh_def)

lemma flush_run_inv:
  assumes "run_inv S g"
  shows "run_inv S (flush_order_batch env g)"
proof (rule run_inv_step [OF assms])
  have "fresh (waiting g) g" using assms by (simp add: run_inv_def)
  then show "ledger_step (set (ask_ids (gw_batch_buf g))) g (flush_order_batch env g)"
    by (intro flush_step) (auto simp: waiting_def dest: fresh_part)
  show "set (ask_ids (waiting (flush_order_batch env g)))
      \<subseteq> set (ask_ids (waiting g)) - set (ask_ids (gw_batch_buf g))"
    "distinct (ask_ids (waiting (flush_order_batch env g)))"
    using \<open>fresh (waiting g) g\<close> by (auto simp: waiting_def fresh_def)
qed (auto simp: waiting_def)

lemma skip_run_inv:
  assumes "run_inv S g" "ledger_step {} g g'" "waiting g' = waiting g"
  shows "run_inv S g'"
  using assms(3) run_inv_step [OF assms(1,2)] assms(1) by (simp add: run_inv_def fresh_def)

lemma pop_run_inv:
  assumes "run_inv S g" "gw_intents g = i # is"
  shows "run_inv S (g\<lparr> gw_intents := is \<rparr>)" "fresh [i] (g\<lparr> gw_intents := is \<rparr>)"
    "set (ask_ids [i]) \<inter> set (ask_ids (waiting (g\<lparr> gw_intents := is \<rparr>))) = {}" "set (ask_ids [i]) \<subseteq> S"
  using assms
  by (auto simp: run_inv_def waiting_def fresh_def ledger_ok_def inflight_def split: if_splits)

lemma process_run_inv:
  assumes "run_inv S g" "gw_intents g = i # is"
  shows "run_inv S (process_intent env i (g\<lparr> gw_intents := is \<rparr>))"
proof (rule run_inv_step [OF assms(1)])
  note pop = pop_run_inv [OF assms]
  have "ledger_step {} g (g\<lparr> gw_intents := is \<rparr>)" by (rule same_ledger_step) simp_all
  then show "ledger_step (set (ask_ids [i])) g (process_intent env i (g\<lparr> gw_intents := is \<rparr>))"
    by (rule ledger_step_trans [OF _ process_intent_step [OF pop(2)]]) simp
  have "fresh (waiting g) g" using assms(1) by (simp add: run_inv_def)
  then show "set (ask_ids (waiting (process_intent env i (g\<lparr> gw_intents := is \<rparr>))))
      \<subseteq> set (ask_ids (waiting g)) - set (ask_ids [i])"
    "distinct (ask_ids (waiting (process_intent env i (g\<lparr> gw_intents := is \<rparr>))))"
    using assms(2) by (auto simp: waiting_def fresh_def split: if_splits)
qed (use assms(2) in \<open>auto simp: waiting_def\<close>)

lemma buffer_run_inv:
  assumes "run_inv S g" "gw_intents g = i # is"
  shows "run_inv S (buffer_intent env i (g\<lparr> gw_intents := is \<rparr>))"
proof -
  obtain l granted where a: "try_acquire (gw_limiter g) (xi_type i) (ge_now env) = (l, granted)" by fastforce
  let ?g = "g\<lparr> gw_intents := is, gw_limiter := l \<rparr>"
  have keep: "run_inv S ?g"
    using pop_run_inv(1) [OF assms] by (rule skip_run_inv) (simp_all add: same_ledger_step waiting_def)
  have buf: "run_inv S (?g\<lparr> gw_batch_buf := gw_batch_buf g @ [i] \<rparr>)"
    by (rule run_inv_step [OF assms(1), of "{}"])
      (use assms in \<open>auto simp: waiting_def same_ledger_step run_inv_def fresh_def\<close>)
  have drop: "run_inv S (publish_feedback env RATE_LIMITED i 0 0 ?g)"
    using keep publish_intent_step by (rule skip_run_inv) (simp add: waiting_def)
  show ?thesis
    using a buf drop flush_run_inv [OF buf]
    by (simp add: buffer_intent_def when_granted_def Let_def)
qed

lemma drain_run_inv: "run_inv S g \<Longrightarrow> run_inv S (drain_intents n env g)"
proof (induction n arbitrary: g)
  case (Suc n)
  show ?case
  proof (cases "gw_intents g")
    case (Cons i "is")
    with Suc process_run_inv [OF Suc.prems Cons] buffer_run_inv [OF Suc.prems Cons]
    show ?thesis by (simp add: Let_def)
  qed (use Suc in simp)
qed simp

lemma push_run_inv:
  assumes "run_inv S g" "xi_side i = ASK \<Longrightarrow> xi_intent_id i \<notin> S" "0 \<le> xi_size i"
  shows "run_inv (S \<union> set (ask_ids [i])) (g\<lparr> gw_intents := gw_intents g @ [i] \<rparr>)"
  using assms
  by (auto simp: run_inv_def waiting_def fresh_def ledger_ok_def inflight_def split: if_splits)

lemma gateway_run_inv:
  assumes "run_inv S g" "distinct (ask_ids (pushed es))" "set (ask_ids (pushed es)) \<inter> S = {}"
    "\<forall>i\<in>set (pushed es). 0 \<le> xi_size i"
  shows "run_inv (S \<union> set (ask_ids (pushed es))) (foldl gateway_step g es)"
  using assms
proof (induction es arbitrary: g S)
  case (Cons e es)
  show ?case
  proof (cases e)
    case (GPush i)
    have "run_inv (S \<union> set (ask_ids [i])) (gateway_step g e)"
      using push_run_inv [OF Cons.prems(1), of i] Cons.prems GPush by (auto split: if_splits)
    moreover have "set (ask_ids (pushed es)) \<inter> (S \<union> set (ask_ids [i])) = {}" "distinct (ask_ids (pushed es))"
      using Cons.prems GPush by (auto split: if_splits)
    ultimately have "run_inv (S \<union> set (ask_ids [i]) \<union> set (ask_ids (pushed es))) (foldl gateway_step (gateway_step g e) es)"
      using Cons.prems GPush by (intro Cons.IH) auto
    moreover have "S \<union> set (ask_ids [i]) \<union> set (ask_ids (pushed es)) = S \<union> set (ask_ids (pushed (e # es)))"
      using GPush by auto
    ultimately show ?thesis by simp
  next
    case (GPoll env)
    with Cons show ?thesis by (simp add: poll_intents_def flush_run_inv drain_run_inv)
  next
    case (GHeartbeatCheck env)
    with Cons skip_run_inv [OF Cons.prems(1) check_heartbeat_step] show ?thesis by (simp add: waiting_def)
  next
    case (GResponse env cb resp)
    with Cons skip_run_inv [OF Cons.prems(1) deliver_step] show ?thesis by (simp add: waiting_def)
  qed
qed simp

subsection \<open>What is pushed to the strategy\<close>

lemma push_critical_spec:
  "(\<exists>k'. push_critical p n k = (True, k') \<and> (\<exists>j\<ge>k. j < k + n \<and> p j)) \<or>
   (\<exists>k'. push_critical p n k = (False, k') \<and> (\<forall>j. k \<le> j \<longrightarrow> j < k + n \<longrightarrow> \<not> p j))"
proof (induction n arbitrary: k)
  case (Suc n)
  show ?case
  proof (cases "p k")
    case True
    then show ?thesis by auto
  next
    case False
    have split: "(j::nat) \<ge> k \<longleftrightarrow> j = k \<or> j \<ge> Suc k" for j by auto
    from Suc [of "Suc k"] False show ?thesis by (auto simp: split)
  qed
qed simp

lemma release_feedback [simp]: "gw_feedback (release_sell fb g) = gw_feedback g"
  by simp

lemma publish_events:
  "gw_feedback (publish_feedback_raw env fb g) \<in>
     {gw_feedback g, gw_feedback g @ [from_exec_feedback (ge_now env) fb]}"
  by (auto simp: publish_feedback_raw_def feedback_overflow_def Let_def split: prod.split bool.split)

lemma publish_delivered:
  assumes "\<And>k. ge_push env k"
  shows "gw_feedback (publish_feedback_raw env fb g) = gw_feedback g @ [from_exec_feedback (ge_now env) fb]"
proof -
  have "push_critical (ge_push env) (Suc n) k = (True, Suc k)" for n k
    using assms by simp
  moreover have "kCriticalSpinLimit = Suc 1023" by (simp add: kCriticalSpinLimit_def)
  ultimately have "push_critical (ge_push env) kCriticalSpinLimit k = (True, Suc k)" for k by metis
  then show ?thesis using assms by (simp add: publish_feedback_raw_def Let_def)
qed

definition gateway_notice :: "scheduler_event \<Rightarrow> bool" where
  "gateway_notice ev \<longleftrightarrow> ev_exec_feedback_kind ev \<in> {GATEWAY_DEGRADED, GATEWAY_RECOVERED}"

lemma event_fields [simp]:
  "ev_exec_feedback_kind (from_exec_feedback now fb) = fb_kind fb"
  "ev_intent_ref_id (from_exec_feedback now fb) = fb_intent_id fb"
  by (simp_all add: from_exec_feedback_def)

lemma degraded_events:
  "\<exists>evs. gw_feedback (check_degraded_transition env g) = gw_feedback g @ evs \<and> list_all gateway_notice evs"
  unfolding check_degraded_transition_def Let_def
  using publish_events [of env "new_feedback\<lparr> fb_kind := GATEWAY_DEGRADED, fb_created_ts := ge_now env \<rparr>"
      "g\<lparr> gw_was_degraded := True \<rparr>"]
    publish_events [of env "new_feedback\<lparr> fb_kind := GATEWAY_RECOVERED, fb_created_ts := ge_now env \<rparr>"
      "g\<lparr> gw_was_degraded := False \<rparr>"]
  by (auto simp: gateway_notice_def)

lemma account_events:
  "\<exists>evs. gw_feedback (account_response env resp g) = gw_feedback g @ evs \<and> list_all gateway_notice evs"
proof -
  let ?g = "g\<lparr> gw_limiter := record_rtt
      (record_response (gw_limiter g) (rs_http_status resp) (ge_now env) (ge_jitter env)) (rs_latency_ns resp) \<rparr>"
  have "gw_feedback ?g = gw_feedback g" by simp
  with degraded_events [of env ?g] show ?thesis by (simp only: account_response_def)
qed

text \<open>The events a handler adds, without the notices of the gateway's own condition.\<close>

definition new_events :: "gateway \<Rightarrow> gateway \<Rightarrow> scheduler_event list" where
  "new_events g g' = filter (\<lambda>ev. \<not> gateway_notice ev) (drop (length (gw_feedback g)) (gw_feedback g'))"

lemma new_events_append:
  assumes "gw_feedback g' = gw_feedback g @ evs @ rest" "list_all gateway_notice evs"
  shows "new_events g g' = filter (\<lambda>ev. \<not> gateway_notice ev) rest"
  using assms by (simp add: new_events_def list_all_iff filter_empty_conv [symmetric])

lemma publish_results_delivered:
  assumes "\<And>k. ge_push env k"
  shows "gw_feedback (foldl (\<lambda>g fb. publish_order_result env fb g) g fbs) =
    gw_feedback g @ map (from_exec_feedback (ge_now env)) fbs"
proof (induction fbs arbitrary: g)
  case (Cons fb fbs)
  have "gw_feedback (register_oid oid h) = gw_feedback h" for oid h
    by (simp add: register_oid_def split: option.split)
  then have "gw_feedback (publish_order_result env fb g) = gw_feedback g @ [from_exec_feedback (ge_now env) fb]"
    using publish_delivered [OF assms] by (simp add: publish_order_result_def)
  with Cons show ?case by simp
qed simp

lemma failure_feedback_fields [simp]:
  "fb_intent_id (failure_feedback msg lat resp i c cl) = i"
  by (simp add: failure_feedback_def set_error_def new_feedback_def Let_def split: response_class.split)

lemma failure_feedback_kind:
  "cl \<noteq> Rc2xx \<Longrightarrow> fb_kind (failure_feedback msg lat resp i c cl) \<in>
     {FB_TIMEOUT, RATE_LIMITED, EXCHANGE_UNAVAILABLE, ORDER_REJECTED}"
  by (cases cl) (simp_all add: failure_feedback_def set_error_def new_feedback_def Let_def)

lemma order_result_fields [simp]:
  "fb_intent_id (order_result_feedback msg resp i c r) = i"
  "fb_kind (order_result_feedback msg resp i c r) \<in> {ORDER_ACCEPTED, ORDER_REJECTED}"
  by (simp_all add: order_result_feedback_def set_error_def new_feedback_def Let_def)

lemma entry_error_fields [simp]:
  "fb_intent_id (entry_error msg resp e) = fst e" "fb_kind (entry_error msg resp e) = ORDER_REJECTED"
  by (simp_all add: entry_error_def set_error_def new_feedback_def)

lemma batch_feedback_ids: "map fb_intent_id (batch_feedback env es resp) = map fst es"
proof (cases "classify resp = Rc2xx")
  case True
  have zipped: "map (\<lambda>x. fst (snd x)) (zip (take n xs) (take n es)) @ map fst (drop n es) = map fst es"
    if "n = min (length xs) (length es)" for n and xs :: "order_response list"
  proof -
    have "map (\<lambda>x. fst (snd x)) (zip (take n xs) (take n es)) = map fst (take n es)"
      using that by (intro nth_equalityI) auto
    then show ?thesis by (simp flip: map_append)
  qed
  show ?thesis
    using True zipped [OF refl]
    by (cases "parse_batch_order_response (ge_parse env) (ge_minify env) (rs_body resp)")
      (simp_all add: batch_feedback_def Let_def comp_def case_prod_beta)
qed (simp add: batch_feedback_def comp_def)

lemma batch_feedback_kinds:
  "fb \<in> set (batch_feedback env es resp) \<Longrightarrow> fb_kind fb \<notin> {GATEWAY_DEGRADED, GATEWAY_RECOVERED}"
proof -
  assume fb: "fb \<in> set (batch_feedback env es resp)"
  have ok: "fb_kind (order_result_feedback m r i c x) \<noteq> GATEWAY_DEGRADED"
    "fb_kind (order_result_feedback m r i c x) \<noteq> GATEWAY_RECOVERED" for m r i c x
    using order_result_fields(2) [of m r i c x] by auto
  show ?thesis
  proof (cases "classify resp = Rc2xx")
    case True
    with fb ok show ?thesis
      by (auto simp: batch_feedback_def Let_def split: expected.splits)
  next
    case False
    with fb obtain e where "fb = failure_feedback ''batch request failed (non-2xx)'' True resp (fst e) (snd e) (classify resp)"
      by (auto simp: batch_feedback_def)
    with failure_feedback_kind [OF False, of "''batch request failed (non-2xx)''" True resp "fst e" "snd e"]
    show ?thesis by (elim insertE) simp_all
  qed
qed

subsection \<open>One emergency cancel-all per streak of failures\<close>

definition cancel_all_sent :: "gateway \<Rightarrow> nat" where
  "cancel_all_sent g = length (filter (\<lambda>r. rq_path (sr_request r) = ''/cancel-all'') (gw_requests g))"

text \<open>A heartbeat succeeds on a 2xx whose body carries a non-empty identifier.\<close>

definition heartbeat_succeeds :: "gateway_env \<Rightarrow> rest_response \<Rightarrow> bool" where
  "heartbeat_succeeds env resp \<longleftrightarrow>
     classify resp = Rc2xx \<and>
     (case parse_heartbeat_response (ge_parse env) (rs_body resp) of
        Value r \<Rightarrow> hr_heartbeat_id r \<noteq> [] | _ \<Rightarrow> False)"

lemma cancel_all_sent_cong: "gw_requests h = gw_requests g \<Longrightarrow> cancel_all_sent h = cancel_all_sent g"
  by (simp add: cancel_all_sent_def)

lemma cancel_clients_cong: "gw_config h = gw_config g \<Longrightarrow> cancel_clients h = cancel_clients g"
  by (simp add: cancel_clients_def)

lemma send_all_requests:
  "gw_requests (foldl (\<lambda>g k. send_request (f k) req cb g) g ks) =
     gw_requests g @ map (\<lambda>k. \<lparr> sr_channel = f k, sr_request = req, sr_callback = cb \<rparr>) ks"
  by (induction ks arbitrary: g) (simp_all add: send_request_def)

lemma send_cancel_all_sent: "cancel_all_sent (send_cancel_all env i g) = cancel_all_sent g + cancel_clients g"
  by (simp add: cancel_all_sent_def send_cancel_all_def send_all_requests Let_def filter_id_conv)

lemma send_all_latched [simp]:
  "gw_cancel_all_latched (foldl (\<lambda>g k. send_request (f k) req cb g) g ks) = gw_cancel_all_latched g"
  "gw_config (foldl (\<lambda>g k. send_request (f k) req cb g) g ks) = gw_config g"
  by (rule foldl_keeps, simp add: send_request_def)+

lemma heartbeat_failure_once:
  "gw_config (heartbeat_failure env st g) = gw_config g \<and>
   (if gw_cancel_all_latched (heartbeat_failure env st g) \<and> \<not> gw_cancel_all_latched g
    then cancel_all_sent (heartbeat_failure env st g) = cancel_all_sent g + cancel_clients g
    else cancel_all_sent (heartbeat_failure env st g) = cancel_all_sent g \<and>
         gw_cancel_all_latched (heartbeat_failure env st g) = gw_cancel_all_latched g)"
proof -
  let ?g1 = "g\<lparr> gw_heartbeat := hb_on_failure (gw_heartbeat g) (ge_now env) \<rparr>"
  let ?g2 = "publish_feedback_raw env (new_feedback\<lparr> fb_kind := HEARTBEAT_FAILED, fb_http_status := st \<rparr>) ?g1"
  let ?i = "new_intent\<lparr> xi_type := CANCEL_ALL, xi_created_ts := ge_now env \<rparr>"
  have sent: "cancel_all_sent (check_degraded_transition env h) = cancel_all_sent h" for h
    by (rule cancel_all_sent_cong) simp
  have base: "cancel_all_sent ?g2 = cancel_all_sent g" by (rule cancel_all_sent_cong) simp
  show ?thesis
  proof (cases "should_cancel_all (gw_heartbeat ?g2) \<and> \<not> gw_cancel_all_latched ?g2")
    case True
    have "cancel_all_sent (send_cancel_all env ?i (?g2\<lparr> gw_cancel_all_latched := True \<rparr>)) =
        cancel_all_sent g + cancel_clients g"
      unfolding send_cancel_all_sent
      using cancel_all_sent_cong [of "?g2\<lparr> gw_cancel_all_latched := True \<rparr>" g]
        cancel_clients_cong [of "?g2\<lparr> gw_cancel_all_latched := True \<rparr>" g] by simp
    moreover have "gw_cancel_all_latched (send_cancel_all env ?i (?g2\<lparr> gw_cancel_all_latched := True \<rparr>))"
      "gw_config (send_cancel_all env ?i (?g2\<lparr> gw_cancel_all_latched := True \<rparr>)) = gw_config g"
      by (simp_all add: send_cancel_all_def Let_def)
    ultimately show ?thesis using True by (simp add: heartbeat_failure_def Let_def sent)
  next
    case False
    then show ?thesis by (auto simp: heartbeat_failure_def Let_def sent base)
  qed
qed

definition latch_step :: "gateway \<Rightarrow> gateway \<Rightarrow> bool" where
  "latch_step g g' \<longleftrightarrow>
     gw_config g' = gw_config g \<and>
     (if gw_cancel_all_latched g' \<and> \<not> gw_cancel_all_latched g
      then cancel_all_sent g' = cancel_all_sent g + cancel_clients g
      else cancel_all_sent g' = cancel_all_sent g \<and> gw_cancel_all_latched g' = gw_cancel_all_latched g)"

lemma latch_step_frame:
  assumes "latch_step g g'" "gw_config h = gw_config g" "gw_cancel_all_latched h = gw_cancel_all_latched g"
    "gw_requests h = gw_requests g" "gw_config h' = gw_config g'"
    "gw_cancel_all_latched h' = gw_cancel_all_latched g'" "gw_requests h' = gw_requests g'"
  shows "latch_step h h'"
  using assms cancel_all_sent_cong [OF assms(4)] cancel_all_sent_cong [OF assms(7)]
    cancel_clients_cong [OF assms(2)] by (simp add: latch_step_def)

lemma failed_heartbeat_latch:
  assumes "\<not> heartbeat_succeeds env resp"
  shows "latch_step g (on_heartbeat_response env resp g)"
proof -
  let ?g = "g\<lparr> gw_heartbeat_in_flight := False,
      gw_limiter := record_response (gw_limiter g) (rs_http_status resp) (ge_now env) (ge_jitter env) \<rparr>"
  have fail: "latch_step ?g (heartbeat_failure env st ?g)" for st
    using heartbeat_failure_once [of env st ?g] by (simp add: latch_step_def)
  have idle: "latch_step h h" for h by (simp add: latch_step_def)
  have "latch_step ?g (on_heartbeat_response env resp g)"
  proof (cases "rs_timed_out resp \<or> rs_http_status resp = 0 \<or> rs_http_status resp < 200 \<or> rs_http_status resp \<ge> 300")
    case True
    then show ?thesis
      unfolding on_heartbeat_response_def Let_def
      by (auto intro: fail latch_step_frame [OF fail] latch_step_frame [OF idle])
  next
    case False
    with assms show ?thesis
      unfolding on_heartbeat_response_def Let_def
      by (auto simp: heartbeat_succeeds_def classify_def Let_def intro: fail split: expected.splits)
  qed
  then show ?thesis by (rule latch_step_frame) simp_all
qed

lemma latch_run:
  assumes "list_all (\<lambda>(env, resp). \<not> heartbeat_succeeds env resp) rs"
  shows "latch_step g (foldl (\<lambda>g (env, resp). on_heartbeat_response env resp g) g rs)"
  using assms
proof (induction rs arbitrary: g)
  case (Cons r rs)
  obtain env resp where r: "r = (env, resp)" by fastforce
  let ?h = "on_heartbeat_response env resp g"
  have "latch_step g ?h" using Cons.prems r by (intro failed_heartbeat_latch) simp
  moreover have "latch_step ?h (foldl (\<lambda>g (env, resp). on_heartbeat_response env resp g) ?h rs)"
    using Cons by simp
  ultimately show ?case using r by (auto simp: latch_step_def cancel_clients_def split: if_splits)
qed (simp add: latch_step_def)

subsection \<open>A concrete gateway\<close>

definition sample_env :: gateway_env where
  "sample_env =
     \<lparr> ge_now = 1000000000, ge_jitter = 0, ge_push = (\<lambda>_. True), ge_keccak = (\<lambda>_. replicate 32 0),
       ge_sign = (\<lambda>_ _. Some (replicate 65 0)), ge_builder = sample_builder, ge_salt = (\<lambda>_. 1),
       ge_parse = (\<lambda>_. Some (JObj [(''canceled'', JArr [JStr ''o1''])])), ge_minify = (\<lambda>_. []) \<rparr>"

definition sample_gateway :: gateway where
  "sample_gateway =
     new_gateway
       \<lparr> gc_batch_orders_enabled = True, gc_batch_max_size = 15, gc_cancel_connection_redundancy = 2,
         gc_order_connection_pool_size = 3 \<rparr>
       default_rate_limit_config
       \<lparr> hc_interval_ms = 5000, hc_max_consecutive_failures = 3, hc_cancel_all_on_failure = True \<rparr>
       True (Some (set_position empty_inventory ''7'' 5000000))"

definition sample_sell :: "nat \<Rightarrow> exec_intent" where
  "sample_sell n =
     new_intent\<lparr> xi_asset_id := ''7'', xi_side := ASK, xi_price := 5000, xi_size := 3000000, xi_intent_id := n \<rparr>"

lemma sample_available: "available_for sample_gateway (sample_sell n) = 5000000"
  by (simp add: available_for_def check_inventory_for_intent_def sample_gateway_def new_gateway_def
      sample_sell_def set_position_def empty_inventory_def position_for_def Let_def)

lemma sample_sell_fields [simp]:
  "xi_side (sample_sell n) = ASK" "xi_asset_id (sample_sell n) = ''7''" "xi_size (sample_sell n) = 3000000"
  "xi_intent_id (sample_sell n) = n" "xi_type (sample_sell n) = PLACE_ORDER" "xi_price (sample_sell n) = 5000"
  by (simp_all add: sample_sell_def new_intent_def)

lemma sample_build: "\<exists>p. build_order sample_env (sample_sell n) = Value p"
  by (simp add: build_order_def build_def sample_env_def Let_def price_consts)

lemma sample_batch: "\<exists>p. build_order_batch sample_env [sample_sell m, sample_sell n] = Value p"
proof -
  obtain p q where "build_order sample_env (sample_sell m) = Value p" "build_order sample_env (sample_sell n) = Value q"
    using sample_build by blast
  then show ?thesis by (simp add: build_order_batch_def build_batch_def build_order_def kBatchMaxOrders_def)
qed

lemma sample_ledgers [simp]:
  "gw_inflight_sells sample_gateway = Map.empty" "gw_inflight_sell_qty sample_gateway = (\<lambda>_. 0)"
  "gw_has_fatal_flag sample_gateway" "gw_feedback sample_gateway = []" "gw_push_count sample_gateway = 0"
  "gw_cancel_responded sample_gateway = {}" "cancel_clients sample_gateway = 2"
  by (simp_all add: sample_gateway_def new_gateway_def cancel_clients_def)

lemma sample_ledger_ok: "ledger_ok sample_gateway"
  by (simp add: ledger_ok_def reserved_def)

lemma dispatched_request:
  "build_order env i = Value p \<Longrightarrow> length (gw_requests (dispatch_order env i g)) = Suc (length (gw_requests g))"
  by (simp add: dispatch_order_def Let_def send_on_order_pool_def send_request_def correlate_def
      register_oid_def split: option.split)

definition ok_response :: rest_response where
  "ok_response = \<lparr> rs_http_status = 200, rs_body = [], rs_latency_ns = 5, rs_timed_out = False \<rparr>"

definition lost_response :: rest_response where
  "lost_response = \<lparr> rs_http_status = 0, rs_body = [], rs_latency_ns = 5, rs_timed_out = True \<rparr>"

subsection \<open>Properties\<close>



text \<open>C8: The single-order path never oversells: if a sell leads to a request, then the sells of its
  asset in flight, this one included, sum to at most the position the inventory shows.\<close>

theorem single_sell_covered:
  assumes "ledger_ok g" and "xi_side i = ASK" and "gw_inflight_sells g (xi_intent_id i) = None"
    and "0 \<le> xi_size i" and "gw_requests (send_place_order env i g) \<noteq> gw_requests g"
  shows "reserved (gw_inflight_sells (send_place_order env i g)) (xi_asset_id i) \<le> available_for g i"
proof -
  have fits: "\<not> available_for g i - gw_inflight_sell_qty g (xi_asset_id i) < xi_size i"
    using assms(2,5) by (auto simp: send_place_order_def local_reject_def)
  let ?g = "reserve_sell i g"
  have "ledger_ok ?g" using assms by (intro reserve_sell_ledger)
  have out: "send_place_order env i g = dispatch_order env i ?g"
    using assms(2) fits by (simp add: send_place_order_def)
  have "\<exists>p. build_order env i = Value p"
    using assms(5) by (cases "build_order env i") (simp_all add: out dispatch_order_def reserve_sell_def Let_def)
  then have "gw_inflight_sells (dispatch_order env i ?g) = gw_inflight_sells ?g"
    by (auto simp: dispatch_order_def Let_def publish_feedback_def release_sell_def releases_reservation_def)
  moreover have "reserved (gw_inflight_sells ?g) (xi_asset_id i) = gw_inflight_sell_qty ?g (xi_asset_id i)"
    using \<open>ledger_ok ?g\<close> by (simp add: ledger_ok_def)
  moreover have "gw_inflight_sell_qty ?g (xi_asset_id i) = gw_inflight_sell_qty g (xi_asset_id i) + xi_size i"
    by (simp add: reserve_sell_def Let_def)
  ultimately show ?thesis using fits by (simp add: out)
qed

theorem single_sell_covered_witness:
  "reserved (gw_inflight_sells (send_place_order sample_env (sample_sell 1) sample_gateway)) ''7'' \<le> 5000000"
proof -
  obtain p where p: "build_order sample_env (sample_sell 1) = Value p" using sample_build by blast
  have "length (gw_requests (send_place_order sample_env (sample_sell 1) sample_gateway)) =
      Suc (length (gw_requests sample_gateway))"
    using dispatched_request [OF p, of "reserve_sell (sample_sell 1) sample_gateway"]
    by (simp add: send_place_order_def sample_available reserve_sell_def Let_def)
  then have "gw_requests (send_place_order sample_env (sample_sell 1) sample_gateway) \<noteq> gw_requests sample_gateway"
    by force
  from single_sell_covered [OF sample_ledger_ok _ _ _ this] show ?thesis by (simp add: sample_available)
qed

text \<open>C25: When the feedback queue takes every push, the response to a batch is answered order by order:
  apart from notices about the gateway itself, the strategy receives exactly one event for each order
  of the batch, in the order of the batch, whatever the status and the body of the response.\<close>

theorem batch_response_answers_each_order:
  assumes "\<And>k. ge_push env k"
  shows "map ev_intent_ref_id (new_events g (on_batch_order_response env es resp g)) = map fst es"
proof -
  let ?fbs = "batch_feedback env es resp"
  obtain evs where evs: "gw_feedback (account_response env resp g) = gw_feedback g @ evs" "list_all gateway_notice evs"
    using account_events by blast
  have "gw_feedback (on_batch_order_response env es resp g) =
      gw_feedback g @ evs @ map (from_exec_feedback (ge_now env)) ?fbs"
    by (simp add: on_batch_order_response_def publish_results_delivered [OF assms] evs)
  from new_events_append [OF this evs(2)]
  have "new_events g (on_batch_order_response env es resp g) = map (from_exec_feedback (ge_now env)) ?fbs"
    using batch_feedback_kinds [of _ env es resp] by (auto simp: filter_id_conv gateway_notice_def)
  then show ?thesis using batch_feedback_ids [of env es resp] by (simp add: comp_def)
qed

theorem batch_response_answers_each_order_witness:
  "map ev_intent_ref_id (new_events sample_gateway
     (on_batch_order_response sample_env [(4, ''a''), (5, ''b'')] lost_response sample_gateway)) = [4, 5]"
  using batch_response_answers_each_order [of sample_env sample_gateway "[(4, ''a''), (5, ''b'')]" lost_response]
  by (simp add: sample_env_def)

text \<open>C27: A rejection, a timeout or an unavailable exchange is never lost silently: the event is pushed
  as soon as one of 1024 attempts succeeds, and if all of them fail the process-wide fatal flag is
  raised.\<close>

theorem critical_feedback_not_lost:
  assumes "is_critical_feedback (fb_kind fb)" and "gw_has_fatal_flag g"
  shows "if \<exists>k. gw_push_count g \<le> k \<and> k < gw_push_count g + 1024 \<and> ge_push env k
         then gw_feedback (publish_feedback_raw env fb g) = gw_feedback g @ [from_exec_feedback (ge_now env) fb]
         else gw_fatal (publish_feedback_raw env fb g)"
  using push_critical_spec [of "ge_push env" kCriticalSpinLimit "gw_push_count g"] assms
  by (auto simp: publish_feedback_raw_def Let_def kCriticalSpinLimit_def raise_fatal_def)

theorem critical_feedback_not_lost_witness:
  "gw_fatal (publish_feedback_raw (sample_env\<lparr> ge_push := (\<lambda>_. False) \<rparr>)
     (new_feedback\<lparr> fb_kind := ORDER_REJECTED \<rparr>) sample_gateway)"
  using critical_feedback_not_lost [of "new_feedback\<lparr> fb_kind := ORDER_REJECTED \<rparr>" sample_gateway
      "sample_env\<lparr> ge_push := (\<lambda>_. False) \<rparr>"]
  by (simp add: is_critical_feedback_def)

text \<open>C26: A cancel is reported as confirmed only on evidence: the response was a 2xx whose body parsed,
  and either nothing was left uncancelled and the target, if one was named, is among the cancelled
  orders, or the first refusal says that the order is already gone.\<close>

theorem cancel_confirmed_on_evidence:
  assumes "ev \<in> set (new_events g (on_cancel_response env i c oid resp g))"
    and "ev_exec_feedback_kind ev = CANCEL_CONFIRMED"
  shows "classify resp = Rc2xx \<and>
    (\<exists>r. parse_cancel_response (ge_parse env) (rs_body resp) = Value r \<and>
       (cr_not_canceled r = [] \<and> (oid = [] \<or> oid \<in> set (cr_canceled r)) \<or>
        (\<exists>k reason rest. cr_not_canceled r = (k, reason) # rest \<and> order_is_gone reason)))"
proof -
  let ?g1 = "if cancel_clients g > 1 then g\<lparr> gw_cancel_responded := insert i (gw_cancel_responded g) \<rparr> else g"
  let ?fail = "failure_feedback ''cancel request failed (non-2xx)'' False resp i c (classify resp)"
  let ?verdict = "cancel_feedback env i c oid resp"
  have run: "\<not> (cancel_clients g > 1 \<and> i \<in> gw_cancel_responded g)"
    using assms(1) by (auto simp: on_cancel_response_def new_events_def)
  obtain evs where evs: "gw_feedback (account_response env resp ?g1) = gw_feedback g @ evs" "list_all gateway_notice evs"
    using account_events [of env resp ?g1] by auto
  have one: "set (new_events g h) \<subseteq> {from_exec_feedback (ge_now env) fb}"
    if "gw_feedback h \<in> {gw_feedback g @ evs, (gw_feedback g @ evs) @ [from_exec_feedback (ge_now env) fb]}" for h fb
    using that new_events_append [of h g evs "[]"] new_events_append [of h g evs "[from_exec_feedback (ge_now env) fb]"]
      evs(2) by (auto split: if_splits)
  have cls: "classify resp = Rc2xx"
  proof (rule ccontr)
    assume bad: "classify resp \<noteq> Rc2xx"
    then have "on_cancel_response env i c oid resp g =
        failure_escalation (classify resp) (publish_feedback_raw env ?fail (account_response env resp ?g1))"
      using run by (auto simp: on_cancel_response_def Let_def)
    then have "ev = from_exec_feedback (ge_now env) ?fail"
      using one [of "on_cancel_response env i c oid resp g" ?fail] assms(1)
        publish_events [of env ?fail "account_response env resp ?g1"] evs(1) by auto
    with assms(2) failure_feedback_kind [OF bad, of "''cancel request failed (non-2xx)''" False resp i c]
    show False by auto
  qed
  then have "on_cancel_response env i c oid resp g = publish_feedback_raw env ?verdict (account_response env resp ?g1)"
    using run by (auto simp: on_cancel_response_def Let_def)
  then have "ev = from_exec_feedback (ge_now env) ?verdict"
    using one [of "on_cancel_response env i c oid resp g" ?verdict] assms(1)
      publish_events [of env ?verdict "account_response env resp ?g1"] evs(1) by auto
  with assms(2) have "fb_kind ?verdict = CANCEL_CONFIRMED" by simp
  then show ?thesis
    using cls
    by (auto simp: cancel_feedback_def set_error_def new_feedback_def Let_def
        split: expected.splits list.splits if_splits)
qed

theorem cancel_confirmed_on_evidence_witness:
  "classify ok_response = Rc2xx \<and> (\<exists>r. parse_cancel_response (ge_parse sample_env) [] = Value r)"
proof -
  let ?fb = "cancel_feedback sample_env 9 [] ''o1'' ok_response"
  let ?h = "account_response sample_env ok_response
      (sample_gateway\<lparr> gw_cancel_responded := {9} \<rparr>)"
  have kind: "fb_kind ?fb = CANCEL_CONFIRMED"
    by (simp add: cancel_feedback_def sample_env_def ok_response_def parse_cancel_response_def
        canceled_field_def not_canceled_field_def Let_def new_feedback_def)
  have run: "on_cancel_response sample_env 9 [] ''o1'' ok_response sample_gateway = publish_feedback_raw sample_env ?fb ?h"
    by (simp add: on_cancel_response_def Let_def classify_def ok_response_def)
  have "gw_feedback (publish_feedback_raw sample_env ?fb ?h) =
      gw_feedback ?h @ [from_exec_feedback (ge_now sample_env) ?fb]"
    by (rule publish_delivered) (simp add: sample_env_def)
  then have "from_exec_feedback (ge_now sample_env) ?fb \<in>
      set (new_events sample_gateway (on_cancel_response sample_env 9 [] ''o1'' ok_response sample_gateway))"
    by (simp add: run new_events_def gateway_notice_def kind)
  from cancel_confirmed_on_evidence [OF this] kind show ?thesis by (auto simp: ok_response_def)
qed

text \<open>With more than one cancel connection only the first response ever received for an intent
  identifier counts: every later one is dropped without feedback, rate accounting or error handling.
  The cancel-all of a failed heartbeat always carries identifier 0, so the responses to every
  emergency cancel-all after the first are ignored, failures included.\<close>

theorem later_cancel_responses_ignored:
  assumes "cancel_clients g > 1"
  shows "on_cancel_response env' i c' oid' resp' (on_cancel_response env i c oid resp g) =
         on_cancel_response env i c oid resp g"
proof -
  have "cancel_clients (on_cancel_response env i c oid resp g) = cancel_clients g"
    by (simp add: on_cancel_response_def cancel_clients_def Let_def)
  moreover have "i \<in> gw_cancel_responded (on_cancel_response env i c oid resp g)"
    using assms by (auto simp: on_cancel_response_def Let_def)
  ultimately show ?thesis using assms by (simp add: on_cancel_response_def [of env'])
qed

theorem later_cancel_responses_ignored_witness:
  "on_cancel_response sample_env 0 [] [] lost_response
     (on_cancel_response sample_env 0 [] [] ok_response sample_gateway) =
   on_cancel_response sample_env 0 [] [] ok_response sample_gateway"
  by (rule later_cancel_responses_ignored) simp

text \<open>C38: Two sells in one batch can oversell: each is compared with the position before either is
  reserved, so two sells that fit alone but not together are both sent, and the quantity in flight
  exceeds the position.\<close>

theorem batch_can_oversell:
  assumes "xi_side i = ASK" "xi_side j = ASK" "xi_asset_id j = xi_asset_id i"
    and "gw_inflight_sell_qty g (xi_asset_id i) = 0"
    and "0 < xi_size i" "xi_size i \<le> available_for g i" "0 < xi_size j" "xi_size j \<le> available_for g i"
    and "available_for g i < xi_size i + xi_size j"
    and "build_order_batch env [i, j] = Value payload"
  shows "available_for g i < gw_inflight_sell_qty (send_place_order_batch env [i, j] g) (xi_asset_id i) \<and>
    length (gw_requests (send_place_order_batch env [i, j] g)) = length (gw_requests g) + 1"
proof -
  have avail: "available_for g j = available_for g i"
    using assms(1-3) by (simp add: available_for_def check_inventory_for_intent_def Let_def split: option.split)
  have "screen_batch env [i, j] g = ([i, j], g)"
    using assms by (simp add: batch_available_def avail)
  then have sent: "send_place_order_batch env [i, j] g = dispatch_batch env [i, j] (reserve_batch [i, j] g)"
    by (simp add: send_place_order_batch_def)
  have keep_rq: "gw_requests (foldl (\<lambda>g i. publish_feedback env REQUEST_SENT i 0 0 g) h is) = gw_requests h" for h "is"
    by (rule foldl_keeps) simp
  have keep_oid: "gw_requests (foldl (\<lambda>g oid. register_oid oid g) h oids) = gw_requests h" for h oids
    by (rule foldl_keeps) (simp add: register_oid_def split: option.split)
  have "gw_inflight_sell_qty (reserve_batch [i, j] g) (xi_asset_id i) = xi_size i + xi_size j"
    using assms by (simp add: reserve_batch_def reserve_sell_def Let_def)
  moreover have "gw_requests (reserve_batch [i, j] g) = gw_requests g"
    by (simp add: reserve_batch_def reserve_sell_def Let_def)
  ultimately show ?thesis
    using assms
    by (simp add: sent dispatch_batch_def Let_def keep_rq keep_oid send_on_order_pool_def send_request_def)
qed

theorem batch_can_oversell_witness:
  "5000000 < gw_inflight_sell_qty
     (send_place_order_batch sample_env [sample_sell 1, sample_sell 2] sample_gateway) ''7''"
proof -
  obtain p where "build_order_batch sample_env [sample_sell 1, sample_sell 2] = Value p" using sample_batch by blast
  from batch_can_oversell [OF _ _ _ _ _ _ _ _ _ this, of sample_gateway] show ?thesis
    by (simp add: sample_available)
qed

text \<open>In a streak of heartbeat responses none of which succeeds, the emergency cancel-all goes out
  at most once, on each cancel connection one time, however long the streak is.\<close>

theorem one_cancel_all_per_streak:
  assumes "list_all (\<lambda>(env, resp). \<not> heartbeat_succeeds env resp) rs"
  shows "cancel_all_sent (foldl (\<lambda>g (env, resp). on_heartbeat_response env resp g) g rs)
         \<le> cancel_all_sent g + cancel_clients g"
  using latch_run [OF assms, of g] by (auto simp: latch_step_def split: if_splits)

theorem one_cancel_all_per_streak_witness:
  "cancel_all_sent (foldl (\<lambda>g (env, resp). on_heartbeat_response env resp g) sample_gateway
     (replicate 5 (sample_env, lost_response))) \<le> cancel_all_sent sample_gateway + 2"
proof -
  have "list_all (\<lambda>(env, resp). \<not> heartbeat_succeeds env resp) (replicate 5 (sample_env, lost_response))"
    by (simp add: list_all_iff heartbeat_succeeds_def classify_def lost_response_def)
  from one_cancel_all_per_streak [OF this, of sample_gateway] show ?thesis by simp
qed

end
