(* ===== verification/Discovery.thy ===== *)
theory Discovery
  imports Watcher Price
begin

section \<open>Market discovery\<close>

text \<open>
  src/src/common/discovery.cpp: the calendar arithmetic, the alignment of a trading window, the
  address of a market on the discovery service, and what is read from the service's answers.  The
  HTTPS request is a parameter: a function from host and target to the body, with the empty string
  for every failure, as \<open>sync_https_get\<close> returns it.  The JSON library is a parameter as in the
  parsers: a function from the text to the document, or no document.  The lemmas show that the day
  count advances by one from each date of the Gregorian calendar to the next, that the n-th Sunday
  is one, that a window contains the instant it is computed for, and where the two tokens of a
  market come from.  The human-readable hourly address (\<open>build_btc_1h_human_slug\<close>, with
  \<open>is_us_eastern_dst\<close>) is called by no code and is left out.
\<close>

subsection \<open>The calendar\<close>

definition days_from_civil :: "int \<Rightarrow> int \<Rightarrow> int \<Rightarrow> int" where
  "days_from_civil year0 month day =
     (let year = year0 - (if month \<le> 2 then 1 else 0);
          era = (if year \<ge> 0 then year else year - 399) sdiv 400;
          yoe = (year - era * 400) mod 2 ^ 32;
          doy = (153 * ((month + (if month > 2 then - 3 else 9)) mod 2 ^ 32) + 2) div 5 + day - 1;
          doe = yoe * 365 + yoe div 4 - yoe div 100 + doy
      in era * 146097 + doe - 719468)"

definition unix_from_utc :: "int \<Rightarrow> int \<Rightarrow> int \<Rightarrow> int \<Rightarrow> int \<Rightarrow> int \<Rightarrow> int" where
  "unix_from_utc year month day hour minute second =
     days_from_civil year month day * 86400 + hour * 3600 + minute * 60 + second"

definition day_of_week :: "int \<Rightarrow> int \<Rightarrow> int \<Rightarrow> int" where
  "day_of_week year month day =
     (let dow = (days_from_civil year month day + 4) smod 7 in if dow < 0 then dow + 7 else dow)"

definition nth_sunday_of_month :: "int \<Rightarrow> int \<Rightarrow> int \<Rightarrow> int" where
  "nth_sunday_of_month year month nth_week =
     (let dow_first = day_of_week year month 1;
          first_sunday = 1 + (7 - dow_first) smod 7
      in first_sunday + (nth_week - 1) * 7)"

subsection \<open>Windows and addresses\<close>

definition align_window_with_offset :: "int \<Rightarrow> int \<Rightarrow> int \<Rightarrow> int" where
  "align_window_with_offset unix_ts period offset_s =
     (let shifted = unix_ts - offset_s;
          aligned = (shifted sdiv period) * period + offset_s
      in if aligned > unix_ts then aligned - period else aligned)"

fun timeframe_slug :: "btc_timeframe \<Rightarrow> string" where
  "timeframe_slug BTC_5M = ''5m''"
| "timeframe_slug BTC_15M = ''15m''"

fun timeframe_period_seconds :: "btc_timeframe \<Rightarrow> int" where
  "timeframe_period_seconds BTC_5M = 300"
| "timeframe_period_seconds BTC_15M = 900"

definition build_discovery_targets :: "btc_timeframe \<Rightarrow> int \<Rightarrow> string list" where
  "build_discovery_targets tf window_start =
     [''/events?slug=btc-updown-'' @ timeframe_slug tf @ ''-'' @ int_to_view window_start]"

definition discovery_window_candidates :: "btc_timeframe \<Rightarrow> int \<Rightarrow> int list" where
  "discovery_window_candidates tf unix_ts =
     (let period = timeframe_period_seconds tf
      in if period \<le> 0 then []
         else rev (sort [align_window_with_offset unix_ts period 0]))"

fun find_substring :: "string \<Rightarrow> string \<Rightarrow> nat option" where
  "find_substring pat [] = (if pat = [] then Some 0 else None)"
| "find_substring pat (c # cs) =
     (if take (length pat) (c # cs) = pat then Some 0 else map_option Suc (find_substring pat cs))"

definition extract_host :: "string \<Rightarrow> string" where
  "extract_host url =
     (case find_substring ''://'' url of
        None \<Rightarrow> url
      | Some pos \<Rightarrow> takeWhile (\<lambda>c. c \<noteq> CHR ''/'') (drop (pos + 3) url))"

definition extract_path :: "string \<Rightarrow> string" where
  "extract_path url =
     (case find_substring ''://'' url of
        None \<Rightarrow> ''/''
      | Some pos \<Rightarrow>
          let rest = dropWhile (\<lambda>c. c \<noteq> CHR ''/'') (drop (pos + 3) url)
          in if rest = [] then ''/'' else rest)"

subsection \<open>The discovery service's answer\<close>

record discovered_market =
  dm_condition_id :: string
  dm_token_id_up :: string
  dm_token_id_down :: string
  dm_is_closed :: bool
  dm_neg_risk :: bool
  dm_fee_rate_bps :: int

definition new_discovered_market :: discovered_market where
  "new_discovered_market =
     \<lparr> dm_condition_id = [], dm_token_id_up = [], dm_token_id_down = [], dm_is_closed = False,
       dm_neg_risk = False, dm_fee_rate_bps = 0 \<rparr>"

fun strings_of :: "json list \<Rightarrow> string list" where
  "strings_of [] = []"
| "strings_of (t # ts) = (case get_string t of Found s \<Rightarrow> s # strings_of ts | _ \<Rightarrow> strings_of ts)"

fun outcome_indices :: "json list \<Rightarrow> nat \<Rightarrow> nat \<times> nat \<Rightarrow> nat \<times> nat" where
  "outcome_indices [] idx ud = ud"
| "outcome_indices (t # ts) idx ud =
     outcome_indices ts (Suc idx)
       (case get_string t of
          Found s \<Rightarrow>
            if s = ''Up'' then (idx, snd ud) else if s = ''Down'' then (fst ud, idx) else ud
        | _ \<Rightarrow> ud)"

definition token_ids_of :: "(string \<Rightarrow> json option) \<Rightarrow> json \<Rightarrow> string list" where
  "token_ids_of parse market =
     (case array_at market ''clobTokenIds'' of
        Found tokens \<Rightarrow> strings_of tokens
      | _ \<Rightarrow>
          (case string_at market ''clobTokenIds'' of
             Found tok_str \<Rightarrow>
               (case parse tok_str of
                  None \<Rightarrow> []
                | Some d \<Rightarrow> (case get_array d of Found toks \<Rightarrow> strings_of toks | _ \<Rightarrow> []))
           | _ \<Rightarrow> []))"

definition outcomes_of :: "json \<Rightarrow> nat \<times> nat" where
  "outcomes_of market =
     (case array_at market ''outcomes'' of
        Found outcomes \<Rightarrow> outcome_indices outcomes 0 (0, 1)
      | _ \<Rightarrow> (0, 1))"

definition parse_gamma_market :: "(string \<Rightarrow> json option) \<Rightarrow> json \<Rightarrow> discovered_market option" where
  "parse_gamma_market parse market =
     (case string_at market ''conditionId'' of
        Found cid \<Rightarrow>
          (let (up_idx, down_idx) = outcomes_of market;
               token_ids = token_ids_of parse market
           in if length token_ids > max up_idx down_idx
              then Some (new_discovered_market\<lparr>
                dm_condition_id := cid,
                dm_is_closed := field_or False (bool_at market ''closed''),
                dm_token_id_up := token_ids ! up_idx,
                dm_token_id_down := token_ids ! down_idx \<rparr>)
              else None)
      | _ \<Rightarrow> None)"

fun first_some :: "('a \<Rightarrow> 'b option) \<Rightarrow> 'a list \<Rightarrow> 'b option" where
  "first_some f [] = None"
| "first_some f (x # xs) = (case f x of None \<Rightarrow> first_some f xs | Some y \<Rightarrow> Some y)"

definition parse_gamma_event :: "(string \<Rightarrow> json option) \<Rightarrow> json \<Rightarrow> discovered_market option" where
  "parse_gamma_event parse event =
     (case array_at event ''markets'' of
        Found markets \<Rightarrow> first_some (parse_gamma_market parse) markets
      | _ \<Rightarrow> None)"

definition parse_gamma_response :: "(string \<Rightarrow> json option) \<Rightarrow> string \<Rightarrow> discovered_market option" where
  "parse_gamma_response parse body =
     (if body = [] \<or> body = ''[]'' then None
      else case parse body of
        None \<Rightarrow> None
      | Some doc \<Rightarrow>
          (case get_array doc of
             Found events \<Rightarrow> first_some (parse_gamma_event parse) events
           | _ \<Rightarrow> None))"

definition discover_btc_market_for_window ::
  "(string \<Rightarrow> json option) \<Rightarrow> (string \<Rightarrow> string \<Rightarrow> string) \<Rightarrow> string \<Rightarrow> btc_timeframe \<Rightarrow> int \<Rightarrow>
   discovered_market option" where
  "discover_btc_market_for_window parse get host tf window_start =
     first_some (\<lambda>target. parse_gamma_response parse (get host target))
       (build_discovery_targets tf window_start)"

definition query_neg_risk ::
  "(string \<Rightarrow> json option) \<Rightarrow> (string \<Rightarrow> string \<Rightarrow> string) \<Rightarrow> string \<Rightarrow> bool expected" where
  "query_neg_risk parse get token_id =
     (let body = get ''clob.polymarket.com'' (''/neg-risk?token_id='' @ token_id);
          fallback = (if body = ''true'' then Value True
                      else if body = ''false'' then Value False else Err INVALID_FORMAT)
      in if body = [] then Err REST_CONNECTION_FAILED
         else case parse body of
           None \<Rightarrow> fallback
         | Some doc \<Rightarrow> (case bool_at doc ''neg_risk'' of Found v \<Rightarrow> Value v | _ \<Rightarrow> fallback))"

definition query_fee_rate ::
  "(string \<Rightarrow> json option) \<Rightarrow> (string \<Rightarrow> string \<Rightarrow> string) \<Rightarrow> string \<Rightarrow> int expected" where
  "query_fee_rate parse get token_id =
     (let body = get ''clob.polymarket.com'' (''/fee-rate?token_id='' @ token_id)
      in if body = [] then Err REST_CONNECTION_FAILED
         else case parse body of
           None \<Rightarrow> Err JSON_PARSE_ERROR
         | Some doc \<Rightarrow>
             (case int64_at doc ''base_fee'' of
                Found fee \<Rightarrow> if fee < 0 \<or> fee > 10000 then Err OUT_OF_RANGE else Value fee
              | _ \<Rightarrow> Err JSON_MISSING_FIELD))"


subsection \<open>The calendar is the Gregorian one\<close>

lemma sdiv_floor_400: "(if y \<ge> 0 then y else y - 399) sdiv 400 = y div (400::int)"
proof (cases "y \<ge> 0")
  case True
  then show ?thesis by (simp add: sdiv_nonneg)
next
  case False
  have "(y - 399) sdiv 400 = - ((399 - y) sdiv 400)"
    using sdiv_uminus [of "399 - y" 400] by simp
  also have "\<dots> = - ((399 - y) div 400)"
    using False by (simp add: sdiv_nonneg)
  also have "(399 - y) div 400 = - (y div 400)"
    by (rule int_div_pos_eq [of _ _ _ "399 - y mod 400"]) (simp_all add: algebra_simps)
  also have "- (- (y div 400)) = y div 400" by simp
  finally show ?thesis using False by simp
qed

definition leap_days :: "int \<Rightarrow> int" where
  "leap_days y = y div 4 - y div 100 + y div 400"

definition is_leap :: "int \<Rightarrow> bool" where
  "is_leap y \<longleftrightarrow> 4 dvd y \<and> (100 dvd y \<longrightarrow> 400 dvd y)"

definition month_length :: "int \<Rightarrow> int \<Rightarrow> int" where
  "month_length y m =
     (if m = 2 then (if is_leap y then 29 else 28) else if m \<in> {4, 6, 9, 11} then 30 else 31)"

definition next_date :: "int \<times> int \<times> int \<Rightarrow> int \<times> int \<times> int" where
  "next_date ymd =
     (case ymd of (y, m, d) \<Rightarrow>
        if d < month_length y m then (y, m, d + 1) else if m < 12 then (y, m + 1, 1) else (y + 1, 1, 1))"

definition valid_date :: "int \<Rightarrow> int \<Rightarrow> int \<Rightarrow> bool" where
  "valid_date y m d \<longleftrightarrow> 1 \<le> m \<and> m \<le> 12 \<and> 1 \<le> d \<and> d \<le> month_length y m"

lemma era_years:
  "(y div 400) * 146097 + ((y mod 400) * 365 + (y mod 400) div 4 - (y mod 400) div 100) =
   365 * y + leap_days (y::int)"
proof -
  define e r where "e = y div 400" and "r = y mod 400"
  have y: "y = 400 * e + r" and r: "0 \<le> r" "r < 400"
    by (simp_all add: e_def r_def)
  have "y div 4 = 100 * e + r div 4" "y div 100 = 4 * e + r div 100"
    unfolding y using div_mult_self2 [of 4 r "100 * e"] div_mult_self2 [of 100 r "4 * e"]
    by (simp_all add: add.commute)
  then show ?thesis
    unfolding leap_days_def e_def [symmetric] r_def [symmetric] using y by simp
qed

lemma days_from_civil_closed:
  assumes "1 \<le> m" "m \<le> 12"
  shows "days_from_civil y m d =
    (let Y = (if m \<le> 2 then y - 1 else y)
     in 365 * Y + leap_days Y + (153 * (if m > 2 then m - 3 else m + 9) + 2) div 5 + d - 1 - 719468)"
proof -
  have m: "(m + (if m > 2 then - 3 else 9)) mod 2 ^ 32 = (if m > 2 then m - 3 else m + 9)"
    by (subst mod_pos_pos_trivial) (use assms in simp_all)
  have r: "(Y - Y div 400 * 400) mod 2 ^ 32 = Y mod 400" for Y :: int
  proof -
    have "Y - Y div 400 * 400 = Y mod 400"
      by (simp add: minus_div_mult_eq_mod)
    moreover have "0 \<le> Y mod 400" "Y mod 400 < 400" by simp_all
    ultimately show ?thesis by (simp add: mod_pos_pos_trivial)
  qed
  define Y where "Y = (if m \<le> 2 then y - 1 else y)"
  have Y: "y - (if m \<le> 2 then 1 else 0) = Y" by (simp add: Y_def)
  show ?thesis
    unfolding days_from_civil_def Let_def Y sdiv_floor_400 m r Y_def [symmetric]
    using era_years [of Y] by linarith
qed

lemma div_step:
  assumes "0 < (k::int)"
  shows "y div k = (y - 1) div k + (if k dvd y then 1 else 0)"
proof (cases "k dvd y")
  case True
  then obtain j where "y = k * j" ..
  then have "(y - 1) div k = j - 1"
    using assms by (intro int_div_pos_eq [of _ _ _ "k - 1"]) (auto simp: algebra_simps)
  with True \<open>y = k * j\<close> assms show ?thesis by simp
next
  case False
  then have "0 < y mod k"
    using assms by (metis dvd_eq_mod_eq_0 order_le_less pos_mod_sign)
  then have "(y - 1) div k = y div k"
    using assms pos_mod_bound [OF assms, of y]
    by (intro int_div_pos_eq [of _ _ _ "y mod k - 1"]) (simp add: algebra_simps, linarith+)
  with False show ?thesis by simp
qed

lemma leap_days_step: "leap_days y = leap_days (y - 1) + (if is_leap y then 1 else 0)"
proof -
  have "(100::int) dvd 400" "(4::int) dvd 100" by simp_all
  then have "400 dvd y \<longrightarrow> 100 dvd y" "100 dvd y \<longrightarrow> 4 dvd y"
    by (blast intro: dvd_trans)+
  moreover have
    "y div 4 = (y - 1) div 4 + (if 4 dvd y then 1 else 0)"
    "y div 100 = (y - 1) div 100 + (if 100 dvd y then 1 else 0)"
    "y div 400 = (y - 1) div 400 + (if 400 dvd y then 1 else 0)"
    by (rule div_step, simp)+
  ultimately show ?thesis
    unfolding leap_days_def is_leap_def
    by (cases "4 dvd y"; cases "100 dvd y"; cases "400 dvd y") (simp_all only: if_True if_False simp_thms)
qed

lemma month_cases:
  assumes "1 \<le> (m::int)" "m \<le> 12"
  obtains "m = 1" | "m = 2" | "m = 3" | "m = 4" | "m = 5" | "m = 6" | "m = 7" | "m = 8" | "m = 9"
    | "m = 10" | "m = 11" | "m = 12"
proof -
  have "[1..12::int] = [1, 2, 3, 4, 5, 6, 7, 8, 9, 10, 11, 12]" by code_simp
  moreover have "m \<in> set [1..12]" using assms by simp
  ultimately have "m \<in> set [1, 2, 3, 4, 5, 6, 7, 8, 9, 10, 11, 12]" by metis
  then show ?thesis using that by auto
qed

text \<open>The day number grows by one from every date of the Gregorian calendar to the next, and the
  first of January 1970 has the number zero.\<close>

theorem calendar_day_count:
  assumes "valid_date y m d"
  shows "(case next_date (y, m, d) of (y', m', d') \<Rightarrow> days_from_civil y' m' d') =
           days_from_civil y m d + 1 \<and> days_from_civil 1970 1 1 = 0"
proof
  have m: "1 \<le> m" "m \<le> 12" and d: "d \<le> month_length y m"
    using assms by (auto simp: valid_date_def)
  note l = leap_days_step [of y]
  show "(case next_date (y, m, d) of (y', m', d') \<Rightarrow> days_from_civil y' m' d') =
           days_from_civil y m d + 1"
    using m
  proof (cases rule: month_cases)
  qed (use d l in \<open>auto simp: next_date_def days_from_civil_closed month_length_def split: if_splits\<close>)
  show "days_from_civil 1970 1 1 = 0"
    by (simp add: days_from_civil_closed leap_days_def)
qed

theorem calendar_day_count_witness:
  "(case next_date (2024, 2, 29) of (y', m', d') \<Rightarrow> days_from_civil y' m' d') =
     days_from_civil 2024 2 29 + 1 \<and> days_from_civil 1970 1 1 = 0"
  by (rule calendar_day_count) (simp add: valid_date_def month_length_def is_leap_def)

lemma day_of_week_mod: "day_of_week y m d = (days_from_civil y m d + 4) mod 7"
proof -
  have "(if x smod 7 < 0 then x smod 7 + 7 else x smod 7) = x mod (7::int)" for x
    by (cases "x \<ge> 0") (auto simp: signed_modulo_int_def sgn_if abs_if, presburger+)
  then show ?thesis
    by (simp add: day_of_week_def Let_def)
qed

lemma days_linear:
  "1 \<le> m \<Longrightarrow> m \<le> 12 \<Longrightarrow> days_from_civil y m d = days_from_civil y m 1 + d - 1"
  by (simp add: days_from_civil_closed Let_def)

text \<open>The n-th Sunday of a month falls on a Sunday, within the n-th seven days of the month.\<close>

theorem nth_sunday_is_sunday:
  assumes "1 \<le> m" "m \<le> 12"
  shows "day_of_week y m (nth_sunday_of_month y m n) = 0 \<and>
         7 * (n - 1) + 1 \<le> nth_sunday_of_month y m n \<and> nth_sunday_of_month y m n \<le> 7 * n"
proof -
  define w where "w = day_of_week y m 1"
  have w: "0 \<le> w" "w < 7" and wm: "w = (days_from_civil y m 1 + 4) mod 7"
    by (simp_all add: w_def day_of_week_mod)
  have s: "(7 - w) smod 7 = (7 - w) mod 7"
    using w by (simp add: smod_nonneg)
  have n: "nth_sunday_of_month y m n = 1 + (7 - w) mod 7 + (n - 1) * 7"
    by (simp add: nth_sunday_of_month_def Let_def w_def [symmetric] s)
  have "day_of_week y m (nth_sunday_of_month y m n) =
        (days_from_civil y m 1 + 4 + (7 - w) mod 7 + (n - 1) * 7) mod 7"
    unfolding day_of_week_mod by (subst days_linear [OF assms]) (simp add: n algebra_simps)
  also have "\<dots> = 0"
    unfolding wm by presburger
  finally show ?thesis
    unfolding n using w by (auto simp: algebra_simps)
qed

theorem nth_sunday_is_sunday_witness:
  "day_of_week 2026 3 (nth_sunday_of_month 2026 3 2) = 0 \<and>
   7 * (2 - 1) + 1 \<le> nth_sunday_of_month 2026 3 2 \<and> nth_sunday_of_month 2026 3 2 \<le> 7 * 2"
  by (rule nth_sunday_is_sunday) simp_all

subsection \<open>Windows\<close>

text \<open>The aligned window starts at a multiple of the period from the offset and contains the
  instant, before the epoch as well as after it.\<close>

theorem aligned_window_contains:
  assumes "0 < period"
  shows "align_window_with_offset t period off \<le> t \<and> t < align_window_with_offset t period off + period \<and>
         period dvd align_window_with_offset t period off - off"
proof (cases "off \<le> t")
  case True
  let ?q = "(t - off) div period"
  have "(t - off) sdiv period = ?q"
    using True assms by (simp add: sdiv_nonneg)
  moreover have "?q * period \<le> t - off" "t - off < ?q * period + period"
    using assms by (simp_all add: minus_mod_eq_div_mult [symmetric])
  ultimately show ?thesis
    by (auto simp: align_window_with_offset_def Let_def)
next
  case False
  let ?q = "(off - t) div period"
  have "(t - off) sdiv period = - ?q"
    using sdiv_uminus [of "off - t" period] False assms by (simp add: sdiv_nonneg)
  moreover have "?q * period \<le> off - t" "off - t < ?q * period + period"
    using assms by (simp_all add: minus_mod_eq_div_mult [symmetric])
  ultimately show ?thesis
    by (auto simp: align_window_with_offset_def Let_def)
qed

theorem aligned_window_contains_witness:
  "align_window_with_offset (- 1) 300 0 \<le> - 1 \<and> - 1 < align_window_with_offset (- 1) 300 0 + 300 \<and>
   300 dvd align_window_with_offset (- 1) 300 0 - 0"
  by (rule aligned_window_contains) simp

subsection \<open>Where the tokens come from\<close>

lemma no_outcome:
  "(\<forall>x \<in> set xs. get_string x \<noteq> Found ''Up'') \<Longrightarrow> fst (outcome_indices xs k ud) = fst ud"
  "(\<forall>x \<in> set xs. get_string x \<noteq> Found ''Down'') \<Longrightarrow> snd (outcome_indices xs k ud) = snd ud"
  by (induction xs arbitrary: k ud) (auto split: field.splits)

definition only_at :: "json list \<Rightarrow> string \<Rightarrow> nat \<Rightarrow> bool" where
  "only_at xs s i \<longleftrightarrow> i < length xs \<and> (\<forall>n < length xs. get_string (xs ! n) = Found s \<longleftrightarrow> n = i)"

lemma only_at_Cons:
  "only_at (x # xs) s i \<longleftrightarrow>
     (i = 0 \<and> get_string x = Found s \<and> (\<forall>y \<in> set xs. get_string y \<noteq> Found s)) \<or>
     (\<exists>j. i = Suc j \<and> get_string x \<noteq> Found s \<and> only_at xs s j)"
  unfolding only_at_def
  by (cases i) (auto simp: all_set_conv_all_nth nth_Cons split: nat.splits)

lemma outcome_index:
  "only_at xs ''Up'' i \<Longrightarrow> fst (outcome_indices xs k ud) = k + i"
  "only_at xs ''Down'' i \<Longrightarrow> snd (outcome_indices xs k ud) = k + i"
  by (induction xs arbitrary: i k ud)
     (auto simp: only_at_Cons no_outcome only_at_def [of "[]"] split: field.splits)

text \<open>When the market lists the outcome Up once, at place i, and Down once, at place j, the Up
  token is the i-th token of the market and the Down token the j-th, whatever the other entries; a
  market with too few tokens is passed over.\<close>

theorem gamma_tokens_follow_outcomes:
  assumes "string_at market ''conditionId'' = Found cid"
    and "array_at market ''outcomes'' = Found outcomes"
    and "only_at outcomes ''Up'' i" and "only_at outcomes ''Down'' j"
  shows "parse_gamma_market parse market =
    (if max i j < length (token_ids_of parse market)
     then Some (new_discovered_market\<lparr> dm_condition_id := cid,
       dm_is_closed := field_or False (bool_at market ''closed''),
       dm_token_id_up := token_ids_of parse market ! i,
       dm_token_id_down := token_ids_of parse market ! j \<rparr>)
     else None)"
proof -
  have "outcomes_of market = (i, j)"
    using outcome_index [of outcomes _ 0 "(0, 1)"] assms by (simp add: outcomes_of_def prod_eq_iff)
  then show ?thesis
    using assms(1) by (simp add: parse_gamma_market_def Let_def)
qed

definition sample_gamma_market :: json where
  "sample_gamma_market =
     JObj [(''conditionId'', JStr ''0xc''), (''closed'', JBool False),
           (''outcomes'', JArr [JStr ''Down'', JStr ''Up'']),
           (''clobTokenIds'', JArr [JStr ''11'', JStr ''22''])]"

theorem gamma_tokens_follow_outcomes_witness:
  "parse_gamma_market (\<lambda>_. None) sample_gamma_market =
     Some (new_discovered_market\<lparr> dm_condition_id := ''0xc'', dm_is_closed := False,
       dm_token_id_up := ''22'', dm_token_id_down := ''11'' \<rparr>)"
  using gamma_tokens_follow_outcomes [of sample_gamma_market "''0xc''" "[JStr ''Down'', JStr ''Up'']" 1 0
      "\<lambda>_. None"]
  by (simp add: sample_gamma_market_def string_at_def array_at_def bool_at_def only_at_Cons
      only_at_def [of "[]"] token_ids_of_def)

text \<open>The token list is read as an array or as a string that holds an encoded array, the outcomes
  only as an array: when both are encoded strings, the first token is taken for Up whatever the
  order of the outcomes.\<close>

theorem encoded_outcomes_are_ignored:
  assumes "string_at market ''conditionId'' = Found cid"
    and "string_at market ''outcomes'' = Found encoded_outcomes"
    and "string_at market ''clobTokenIds'' = Found encoded_tokens"
    and "parse encoded_tokens = Some (JArr [JStr t0, JStr t1])"
  shows "\<exists>dm. parse_gamma_market parse market = Some dm \<and> dm_token_id_up dm = t0 \<and>
           dm_token_id_down dm = t1"
proof -
  have no_array: "array_at market k = OtherError" if "string_at market k = Found s" for k s
    using that by (cases "json_at market k") (auto simp: string_at_def array_at_def elim!: get_string.elims)
  have "outcomes_of market = (0, 1)"
    using no_array [OF assms(2)] by (simp add: outcomes_of_def)
  moreover have "token_ids_of parse market = [t0, t1]"
    using no_array [OF assms(3)] assms(3,4) by (simp add: token_ids_of_def)
  ultimately show ?thesis
    using assms(1) by (simp add: parse_gamma_market_def Let_def)
qed

definition encoded_gamma_market :: json where
  "encoded_gamma_market =
     JObj [(''conditionId'', JStr ''0xc''), (''outcomes'', JStr ''[Down, Up]''),
           (''clobTokenIds'', JStr ''[11, 22]'')]"

theorem encoded_outcomes_are_ignored_witness:
  "\<exists>dm. parse_gamma_market
           (\<lambda>s. if s = ''[11, 22]'' then Some (JArr [JStr ''11'', JStr ''22'']) else None)
           encoded_gamma_market = Some dm \<and> dm_token_id_up dm = ''11'' \<and> dm_token_id_down dm = ''22''"
  by (rule encoded_outcomes_are_ignored [of _ "''0xc''" "''[Down, Up]''" "''[11, 22]''"])
     (simp_all add: encoded_gamma_market_def string_at_def)

lemma first_some_Some: "first_some f xs = Some y \<Longrightarrow> \<exists>x \<in> set xs. f x = Some y"
  by (induction xs) (auto split: option.splits)

lemma fee_rate_in_range: "query_fee_rate parse get t = Value fee \<Longrightarrow> 0 \<le> fee \<and> fee \<le> 10000"
  by (auto simp: query_fee_rate_def Let_def split: if_splits option.splits field.splits)

end
