(* ===== verification/Slots.thy ===== *)
theory Slots
  imports Discovery Market_Pair
begin

section \<open>Market slots and the trading session\<close>

text \<open>
  src/src/slot/market_slot_types.h, slot_token_map.h, market_slot_manager.cpp and
  src/src/scheduler/trading_session.h: the slots of the current, next and previous market of each BTC
  series, the manager that discovers markets and rotates the slots, the scheduler's table of the
  tokens of each slot, and the session that limits how long the program trades.  The array of slots
  is a function of the slot; the callbacks the manager is given (all of them are installed by main)
  and the events it pushes to the scheduler are values in a list of outputs.  The answers of the
  discovery service, the clock and the stop flags are arguments.  The lemmas show that the windows
  of a series are contiguous and aligned, that a manager that has fallen behind catches up, what the
  four events of one rotation do to the token table, and what follows from the fact that no code
  sets the flag of a resolved market.
\<close>

subsection \<open>Slots\<close>

datatype slot_name = CURRENT_5M | NEXT_5M | PREVIOUS_5M | CURRENT_15M | NEXT_15M | PREVIOUS_15M

definition all_slots :: "slot_name list" where
  "all_slots = [CURRENT_5M, NEXT_5M, PREVIOUS_5M, CURRENT_15M, NEXT_15M, PREVIOUS_15M]"

fun slot_index :: "slot_name \<Rightarrow> nat" where
  "slot_index CURRENT_5M = 0"
| "slot_index NEXT_5M = 1"
| "slot_index PREVIOUS_5M = 2"
| "slot_index CURRENT_15M = 3"
| "slot_index NEXT_15M = 4"
| "slot_index PREVIOUS_15M = 5"

text \<open>\<open>static_cast<SlotName>\<close>; the events carry no index above 5.\<close>

definition slot_of_index :: "nat \<Rightarrow> slot_name" where
  "slot_of_index i = (if i < 6 then all_slots ! i else PREVIOUS_15M)"

definition is_current_slot :: "slot_name \<Rightarrow> bool" where
  "is_current_slot s \<longleftrightarrow> s = CURRENT_5M \<or> s = CURRENT_15M"

definition is_previous_slot :: "slot_name \<Rightarrow> bool" where
  "is_previous_slot s \<longleftrightarrow> s = PREVIOUS_5M \<or> s = PREVIOUS_15M"

fun slot_timeframe :: "slot_name \<Rightarrow> btc_timeframe" where
  "slot_timeframe CURRENT_5M = BTC_5M"
| "slot_timeframe NEXT_5M = BTC_5M"
| "slot_timeframe PREVIOUS_5M = BTC_5M"
| "slot_timeframe CURRENT_15M = BTC_15M"
| "slot_timeframe NEXT_15M = BTC_15M"
| "slot_timeframe PREVIOUS_15M = BTC_15M"

definition current_slot_for :: "btc_timeframe \<Rightarrow> slot_name" where
  "current_slot_for tf = (if tf = BTC_5M then CURRENT_5M else CURRENT_15M)"

definition next_slot_for :: "btc_timeframe \<Rightarrow> slot_name" where
  "next_slot_for tf = (if tf = BTC_5M then NEXT_5M else NEXT_15M)"

definition previous_slot_for :: "btc_timeframe \<Rightarrow> slot_name" where
  "previous_slot_for tf = (if tf = BTC_5M then PREVIOUS_5M else PREVIOUS_15M)"

datatype slot_phase =
  SP_EMPTY | SP_DISCOVERING | SP_REGISTERED | SP_SUBSCRIBING | SP_ACTIVE | SP_CLOSING | SP_PREVIOUS

record market_slot =
  ms_phase :: slot_phase
  ms_market :: discovered_market
  ms_timeframe :: btc_timeframe
  ms_window_start :: int
  ms_window_end :: int

definition new_market_slot :: market_slot where
  "new_market_slot =
     \<lparr> ms_phase = SP_EMPTY, ms_market = new_discovered_market, ms_timeframe = BTC_5M,
       ms_window_start = 0, ms_window_end = 0 \<rparr>"

definition slot_clear :: "market_slot \<Rightarrow> market_slot" where
  "slot_clear s = s\<lparr> ms_phase := SP_EMPTY, ms_market := new_discovered_market,
                    ms_window_start := 0, ms_window_end := 0 \<rparr>"

record previous_market_state =
  pm_market :: discovered_market
  pm_window_start :: int
  pm_window_end :: int
  pm_awaiting_resolved :: bool
  pm_awaiting_redeem :: bool
  pm_redeem_fire_time :: int

definition new_previous_state :: previous_market_state where
  "new_previous_state =
     \<lparr> pm_market = new_discovered_market, pm_window_start = 0, pm_window_end = 0,
       pm_awaiting_resolved = True, pm_awaiting_redeem = False, pm_redeem_fire_time = 0 \<rparr>"

definition previous_clear :: "previous_market_state \<Rightarrow> previous_market_state" where
  "previous_clear p =
     \<lparr> pm_market = new_discovered_market, pm_window_start = 0, pm_window_end = 0,
       pm_awaiting_resolved = False, pm_awaiting_redeem = False, pm_redeem_fire_time = 0 \<rparr>"

subsection \<open>The scheduler's table of slot tokens\<close>

record slot_entry =
  se_token_id :: asset_id
  se_condition_id :: asset_id
  se_slot :: slot_name
  se_active :: bool

type_synonym slot_token_map = "slot_entry list"

definition kMaxEntries :: nat where "kMaxEntries = 12"

definition stm_find_by_token :: "slot_token_map \<Rightarrow> asset_id \<Rightarrow> slot_entry option" where
  "stm_find_by_token m t = List.find (\<lambda>e. se_token_id e = t) m"

definition stm_find_by_condition :: "slot_token_map \<Rightarrow> asset_id \<Rightarrow> slot_entry option" where
  "stm_find_by_condition m c = List.find (\<lambda>e. se_condition_id e = c) m"

definition is_active_token :: "slot_token_map \<Rightarrow> asset_id \<Rightarrow> bool" where
  "is_active_token m t = (case stm_find_by_token m t of None \<Rightarrow> False | Some e \<Rightarrow> se_active e)"

definition is_active_condition :: "slot_token_map \<Rightarrow> asset_id \<Rightarrow> bool" where
  "is_active_condition m c = (case stm_find_by_condition m c of None \<Rightarrow> False | Some e \<Rightarrow> se_active e)"

definition slot_for_token :: "slot_token_map \<Rightarrow> asset_id \<Rightarrow> slot_name option" where
  "slot_for_token m t = map_option se_slot (stm_find_by_token m t)"

definition stm_add ::
  "slot_token_map \<Rightarrow> slot_name \<Rightarrow> asset_id \<Rightarrow> asset_id \<Rightarrow> asset_id \<Rightarrow> bool \<Rightarrow> slot_token_map" where
  "stm_add m slot c up down act =
     (if length m + 2 > kMaxEntries then m
      else m @ [\<lparr> se_token_id = up, se_condition_id = c, se_slot = slot, se_active = act \<rparr>,
                \<lparr> se_token_id = down, se_condition_id = c, se_slot = slot, se_active = act \<rparr>])"

definition stm_remove :: "slot_token_map \<Rightarrow> slot_name \<Rightarrow> slot_token_map" where
  "stm_remove m slot = filter (\<lambda>e. se_slot e \<noteq> slot) m"

definition set_active :: "slot_token_map \<Rightarrow> slot_name \<Rightarrow> bool \<Rightarrow> slot_token_map" where
  "set_active m slot act = map (\<lambda>e. if se_slot e = slot then e\<lparr> se_active := act \<rparr> else e) m"

definition stm_promote :: "slot_token_map \<Rightarrow> slot_name \<Rightarrow> slot_name \<Rightarrow> slot_token_map" where
  "stm_promote m from_slot to_slot =
     map (\<lambda>e. if se_slot e = from_slot then e\<lparr> se_slot := to_slot \<rparr> else e) m"

definition stm_demote :: "slot_token_map \<Rightarrow> slot_name \<Rightarrow> slot_name \<Rightarrow> slot_token_map" where
  "stm_demote m from_slot to_slot =
     map (\<lambda>e. if se_slot e = from_slot then e\<lparr> se_slot := to_slot, se_active := False \<rparr> else e) m"

text \<open>What the scheduler's handlers of the slot events do to the table.\<close>

definition slot_map_event ::
  "market_pair_registry \<Rightarrow> slot_token_map \<Rightarrow> scheduler_event \<Rightarrow> slot_token_map" where
  "slot_map_event pairs m ev =
     (let slot = slot_of_index (ev_slot_name ev); c = ev_control_condition_id ev; tf = slot_timeframe slot
      in case ev_kind ev of
           SLOT_ACTIVATED \<Rightarrow>
             (let m' = (case find_by_condition pairs c of
                          Some pair \<Rightarrow>
                            if stm_find_by_condition m c = None
                            then stm_add m slot c (token_id_up pair) (token_id_down pair) (is_current_slot slot)
                            else m
                        | None \<Rightarrow> m)
              in set_active m' slot True)
         | SLOT_CLOSING \<Rightarrow> set_active m slot False
         | SLOT_PROMOTED \<Rightarrow>
             set_active (stm_promote m (next_slot_for tf) (current_slot_for tf)) (current_slot_for tf) True
         | SLOT_DEMOTED \<Rightarrow>
             stm_demote (set_active m slot False) (current_slot_for tf) (previous_slot_for tf)
         | SLOT_REMOVED \<Rightarrow> stm_remove m slot
         | _ \<Rightarrow> m)"

subsection \<open>The slot manager\<close>

record slot_manager_config =
  sc_discovery_poll_ms :: int
  sc_pre_subscribe_ms :: int
  sc_redeem_delay_ms :: int
  sc_discovery_host :: string
  sc_enable_5m :: bool
  sc_enable_15m :: bool

record slot_manager =
  sm_config :: slot_manager_config
  sm_slots :: "slot_name \<Rightarrow> market_slot"
  sm_previous :: "btc_timeframe \<Rightarrow> previous_market_state"
  sm_resolved :: "btc_timeframe \<Rightarrow> bool"

definition new_slot_manager :: "slot_manager_config \<Rightarrow> slot_manager" where
  "new_slot_manager cfg =
     \<lparr> sm_config = cfg, sm_slots = (\<lambda>_. new_market_slot), sm_previous = (\<lambda>_. new_previous_state),
       sm_resolved = (\<lambda>_. False) \<rparr>"

datatype slot_out =
    SubscribeMarketWs "string list"
  | UnsubscribeMarketWs "string list"
  | SubscribeUserWs "string list"
  | UnsubscribeUserWs "string list"
  | StartMarketWs "string list"
  | StartUserWs "string list"
  | RegisterMarket string string string bool int
  | RegisterToken string
  | SeedMarketState string
  | SeedSchedulerState string
  | SeedStrategyBook string
  | BootstrapPositions "string list"
  | FireRedeem string string string
  | UpdateUiSlot slot_name string int int slot_phase
  | PushSlotEvent scheduler_event
  | FatalFlag

definition window_start_for :: "btc_timeframe \<Rightarrow> int \<Rightarrow> int" where
  "window_start_for tf unix_s =
     (unix_s sdiv timeframe_period_seconds tf) * timeframe_period_seconds tf"

definition window_end_for :: "btc_timeframe \<Rightarrow> int \<Rightarrow> int" where
  "window_end_for tf unix_s =
     (unix_s sdiv timeframe_period_seconds tf) * timeframe_period_seconds tf + timeframe_period_seconds tf"

text \<open>The chunks of a sleep: the flags are tested before each one.\<close>

definition sleep_ms :: "int \<Rightarrow> (nat \<Rightarrow> bool) \<Rightarrow> bool" where
  "sleep_ms ms stopped = list_all (\<lambda>k. \<not> stopped k) [0 ..< nat ((ms + 49) div 50)]"

definition discover_market ::
  "(string \<Rightarrow> json option) \<Rightarrow> (string \<Rightarrow> string \<Rightarrow> string) \<Rightarrow> string \<Rightarrow> btc_timeframe \<Rightarrow> int \<Rightarrow>
   discovered_market option" where
  "discover_market parse get host tf window_start =
     (case discover_btc_market_for_window parse get host tf window_start of
        None \<Rightarrow> None
      | Some r \<Rightarrow>
          (let r1 = (case query_neg_risk parse get (dm_token_id_up r) of
                       Value b \<Rightarrow> r\<lparr> dm_neg_risk := b \<rparr> | _ \<Rightarrow> r);
               r2 = (case query_fee_rate parse get (dm_token_id_up r1) of
                       Value fee \<Rightarrow> r1\<lparr> dm_fee_rate_bps := fee \<rparr> | _ \<Rightarrow> r1)
           in Some r2))"

definition register_market_full :: "discovered_market \<Rightarrow> slot_out list" where
  "register_market_full mkt =
     (let up = dm_token_id_up mkt; down = dm_token_id_down mkt
      in [RegisterMarket (dm_condition_id mkt) up down (dm_neg_risk mkt) (dm_fee_rate_bps mkt),
          RegisterToken up, RegisterToken down, SeedMarketState up, SeedMarketState down,
          SeedSchedulerState up, SeedSchedulerState down, SeedStrategyBook up, SeedStrategyBook down])"

definition push_slot_event :: "scheduler_event_kind \<Rightarrow> slot_name \<Rightarrow> string \<Rightarrow> slot_out list" where
  "push_slot_event kind slot c = [PushSlotEvent (make_slot_event kind (slot_index slot) (AssetId c))]"

definition discovery_targets :: "slot_manager_config \<Rightarrow> int \<Rightarrow> (slot_name \<times> btc_timeframe \<times> int) list" where
  "discovery_targets cfg now_s =
     (let cur_5m = window_start_for BTC_5M now_s; cur_15m = window_start_for BTC_15M now_s
      in filter (\<lambda>(slot, tf, start). \<not> (tf = BTC_5M \<and> \<not> sc_enable_5m cfg) \<and>
                                    \<not> (tf = BTC_15M \<and> \<not> sc_enable_15m cfg))
           [(CURRENT_5M, BTC_5M, cur_5m),
            (NEXT_5M, BTC_5M, cur_5m + timeframe_period_seconds BTC_5M),
            (CURRENT_15M, BTC_15M, cur_15m),
            (NEXT_15M, BTC_15M, cur_15m + timeframe_period_seconds BTC_15M)])"

text \<open>What the outside does during the initial discovery: the answers to the attempts for each
  target, the stop request seen before it, and the flags seen in the sleeps.\<close>

record discovery_env =
  de_answer :: "nat \<Rightarrow> nat \<Rightarrow> string \<Rightarrow> string \<Rightarrow> string"
  de_stop :: "nat \<Rightarrow> bool"
  de_stopped :: "nat \<Rightarrow> nat \<Rightarrow> nat \<Rightarrow> bool"

datatype attempt_result = Discovered discovered_market | GaveUp | Interrupted

function discovery_attempts ::
  "(nat \<Rightarrow> discovered_market option) \<Rightarrow> (nat \<Rightarrow> bool) \<Rightarrow> nat \<Rightarrow> attempt_result" where
  "discovery_attempts try_once slept attempt =
     (if attempt < 10
      then (case try_once attempt of
              Some mkt \<Rightarrow> Discovered mkt
            | None \<Rightarrow>
                if slept attempt then discovery_attempts try_once slept (Suc attempt) else Interrupted)
      else GaveUp)"
  by auto
termination by (relation "measure (\<lambda>(_, _, a). 10 - a)") auto

declare discovery_attempts.simps [simp del]

definition set_slot :: "slot_manager \<Rightarrow> slot_name \<Rightarrow> market_slot \<Rightarrow> slot_manager" where
  "set_slot s n v = s\<lparr> sm_slots := (sm_slots s)(n := v) \<rparr>"

fun discover_targets ::
  "(string \<Rightarrow> json option) \<Rightarrow> discovery_env \<Rightarrow> nat \<Rightarrow> (slot_name \<times> btc_timeframe \<times> int) list \<Rightarrow> slot_manager \<Rightarrow>
   slot_manager \<times> slot_out list \<times> bool" where
  "discover_targets parse env ti [] s = (s, [], True)"
| "discover_targets parse env ti ((slot, tf, start) # ts) s =
     (if de_stop env ti then (s, [], False)
      else case discovery_attempts
                  (\<lambda>a. discover_market parse (de_answer env ti a) (sc_discovery_host (sm_config s)) tf start)
                  (\<lambda>a. sleep_ms (sc_discovery_poll_ms (sm_config s)) (de_stopped env ti a)) 0 of
             Discovered mkt \<Rightarrow>
               (let s' = set_slot s slot
                      \<lparr> ms_phase = SP_REGISTERED, ms_market = mkt, ms_timeframe = tf,
                        ms_window_start = start, ms_window_end = start + timeframe_period_seconds tf \<rparr>;
                    (s'', out, all_found) = discover_targets parse env (Suc ti) ts s'
                in (s'', register_market_full mkt @ out, all_found))
           | _ \<Rightarrow> (s, [], False))"

definition initial_discovery ::
  "(string \<Rightarrow> json option) \<Rightarrow> discovery_env \<Rightarrow> int \<Rightarrow> slot_manager \<Rightarrow> slot_manager \<times> slot_out list \<times> bool" where
  "initial_discovery parse env now_s s =
     discover_targets parse env 0 (discovery_targets (sm_config s) now_s) s"

text \<open>A next market is subscribed when its window is near.\<close>

definition subscribe_next ::
  "slot_manager \<Rightarrow> int \<Rightarrow> btc_timeframe \<Rightarrow> slot_manager \<times> slot_out list" where
  "subscribe_next s now_s tf =
     (let nx = sm_slots s (next_slot_for tf); mkt = ms_market nx
      in if ms_phase nx = SP_REGISTERED \<and>
            (ms_window_start nx - now_s) * 1000 \<le> sc_pre_subscribe_ms (sm_config s)
         then (set_slot s (next_slot_for tf) (nx\<lparr> ms_phase := SP_SUBSCRIBING \<rparr>),
               [SubscribeMarketWs [dm_token_id_up mkt, dm_token_id_down mkt],
                SubscribeUserWs [dm_condition_id mkt]])
         else (s, []))"

definition start_next :: "slot_manager \<Rightarrow> int \<Rightarrow> btc_timeframe \<Rightarrow> slot_manager" where
  "start_next s now_s tf =
     (let nx = sm_slots s (next_slot_for tf)
      in if ms_phase nx = SP_SUBSCRIBING \<and> now_s \<ge> ms_window_start nx
         then set_slot s (next_slot_for tf) (nx\<lparr> ms_phase := SP_ACTIVE \<rparr>) else s)"

text \<open>The end of the current window: the current market becomes the previous one, the next one
  becomes current, and the slot of the next one is cleared for the window after it.\<close>

definition rotate_slots ::
  "slot_manager \<Rightarrow> btc_timeframe \<Rightarrow> slot_manager \<times> slot_out list" where
  "rotate_slots s tf =
     (let cn = current_slot_for tf; nn = next_slot_for tf; pn = previous_slot_for tf;
          cur = sm_slots s cn; nx = sm_slots s nn;
          c_old = dm_condition_id (ms_market cur); c_new = dm_condition_id (ms_market nx);
          prev = (sm_previous s tf)\<lparr> pm_market := ms_market cur, pm_window_start := ms_window_start cur,
                   pm_window_end := ms_window_end cur, pm_awaiting_resolved := True,
                   pm_awaiting_redeem := False \<rparr>;
          pslot = (sm_slots s pn)\<lparr> ms_phase := SP_PREVIOUS, ms_market := ms_market cur,
                   ms_timeframe := tf, ms_window_start := ms_window_start cur,
                   ms_window_end := ms_window_end cur \<rparr>;
          cur' = cur\<lparr> ms_market := ms_market nx, ms_timeframe := ms_timeframe nx,
                   ms_window_start := ms_window_start nx, ms_window_end := ms_window_end nx,
                   ms_phase := SP_ACTIVE \<rparr>;
          nx' = (slot_clear nx)\<lparr> ms_phase := SP_DISCOVERING, ms_timeframe := tf,
                   ms_window_start := ms_window_end nx,
                   ms_window_end := ms_window_end nx + timeframe_period_seconds tf \<rparr>
      in (s\<lparr> sm_slots := (sm_slots s)(pn := pslot, cn := cur', nn := nx'),
             sm_previous := (sm_previous s)(tf := prev) \<rparr>,
          push_slot_event SLOT_CLOSING cn c_old @ push_slot_event SLOT_DEMOTED pn c_old @
          [PushSlotEvent (make_slot_promoted (slot_index cn) (AssetId c_new) (ms_window_end nx))] @
          push_slot_event SLOT_ACTIVATED cn c_new @
          [UpdateUiSlot cn c_new (ms_window_start nx) (ms_window_end nx) SP_ACTIVE]))"

definition check_rotation ::
  "slot_manager \<Rightarrow> int \<Rightarrow> btc_timeframe \<Rightarrow> slot_manager \<times> slot_out list" where
  "check_rotation s now_s tf =
     (let (s1, out1) = subscribe_next s now_s tf;
          s2 = start_next s1 now_s tf;
          cur = sm_slots s2 (current_slot_for tf)
      in if ms_phase cur = SP_ACTIVE \<and> now_s \<ge> ms_window_end cur
         then let (s3, out3) = rotate_slots s2 tf in (s3, out1 @ out3)
         else (s2, out1))"

definition check_one ::
  "slot_manager \<Rightarrow> int \<Rightarrow> btc_timeframe \<Rightarrow> slot_manager \<times> slot_out list" where
  "check_one s now_s tf =
     (let pn = previous_slot_for tf; slot = sm_slots s pn
      in if ms_phase slot \<noteq> SP_PREVIOUS then (s, [])
         else
           let s1 = (if pm_awaiting_resolved (sm_previous s tf) \<and> sm_resolved s tf
                     then s\<lparr> sm_previous := (sm_previous s)(tf := (sm_previous s tf)\<lparr>
                               pm_awaiting_resolved := False, pm_awaiting_redeem := True,
                               pm_redeem_fire_time :=
                                 now_s + sc_redeem_delay_ms (sm_config s) sdiv 1000 \<rparr>),
                             sm_resolved := (sm_resolved s)(tf := False) \<rparr>
                     else s);
               prev = sm_previous s1 tf; mkt = pm_market prev
           in if pm_awaiting_redeem prev \<and> now_s \<ge> pm_redeem_fire_time prev
              then (s1\<lparr> sm_previous := (sm_previous s1)(tf := previous_clear prev),
                        sm_slots := (sm_slots s1)(pn := slot_clear slot) \<rparr>,
                    [FireRedeem (dm_condition_id mkt) (dm_token_id_up mkt) (dm_token_id_down mkt),
                     UnsubscribeMarketWs [dm_token_id_up mkt, dm_token_id_down mkt],
                     UnsubscribeUserWs [dm_condition_id mkt]] @
                    push_slot_event SLOT_REMOVED pn (dm_condition_id mkt))
              else (s1, []))"

definition check_previous_markets :: "slot_manager \<Rightarrow> int \<Rightarrow> slot_manager \<times> slot_out list" where
  "check_previous_markets s now_s =
     (let (s1, out1) = check_one s now_s BTC_5M; (s2, out2) = check_one s1 now_s BTC_15M
      in (s2, out1 @ out2))"

text \<open>One poll of the pending discoveries: \<open>disc\<close> is \<^const>\<open>discover_market\<close> with the answers of
  this poll, \<open>stop\<close> the stop request as it is read before each discovery.\<close>

fun pending_discoveries ::
  "(btc_timeframe \<Rightarrow> int \<Rightarrow> discovered_market option) \<Rightarrow> (slot_name \<Rightarrow> bool) \<Rightarrow> slot_name list \<Rightarrow>
   slot_manager \<Rightarrow> slot_manager \<times> slot_out list" where
  "pending_discoveries disc stop [] s = (s, [])"
| "pending_discoveries disc stop (n # ns) s =
     (let slot = sm_slots s n
      in if ms_phase slot \<noteq> SP_DISCOVERING then pending_discoveries disc stop ns s
         else if stop n then (s, [])
         else case disc (ms_timeframe slot) (ms_window_start slot) of
                None \<Rightarrow> pending_discoveries disc stop ns s
              | Some mkt \<Rightarrow>
                  (let (s', out) = pending_discoveries disc stop ns
                         (set_slot s n (slot\<lparr> ms_market := mkt, ms_phase := SP_REGISTERED \<rparr>))
                   in (s', register_market_full mkt @ out)))"

definition check_pending_discoveries ::
  "(btc_timeframe \<Rightarrow> int \<Rightarrow> discovered_market option) \<Rightarrow> (slot_name \<Rightarrow> bool) \<Rightarrow> slot_manager \<Rightarrow>
   slot_manager \<times> slot_out list" where
  "check_pending_discoveries disc stop s = pending_discoveries disc stop all_slots s"

text \<open>The start of \<open>run\<close>, up to the main loop.\<close>

definition assigned_slots :: "slot_manager \<Rightarrow> slot_name list" where
  "assigned_slots s =
     filter (\<lambda>n. ms_phase (sm_slots s n) \<noteq> SP_EMPTY \<and> ms_phase (sm_slots s n) \<noteq> SP_DISCOVERING) all_slots"

definition tf_enabled :: "slot_manager \<Rightarrow> btc_timeframe \<Rightarrow> bool" where
  "tf_enabled s tf = (if tf = BTC_5M then sc_enable_5m (sm_config s) else sc_enable_15m (sm_config s))"

definition activate_current :: "slot_manager \<Rightarrow> btc_timeframe \<Rightarrow> slot_manager \<times> slot_out list" where
  "activate_current s tf =
     (if \<not> tf_enabled s tf then (s, [])
      else
        let n = current_slot_for tf; slot = (sm_slots s n)\<lparr> ms_phase := SP_ACTIVE \<rparr>
        in (set_slot s n slot,
            push_slot_event SLOT_ACTIVATED n (dm_condition_id (ms_market slot)) @
            [UpdateUiSlot n (dm_condition_id (ms_market slot)) (ms_window_start slot) (ms_window_end slot)
               SP_ACTIVE]))"

definition subscribed_next :: "slot_manager \<Rightarrow> btc_timeframe \<Rightarrow> slot_manager" where
  "subscribed_next s tf =
     (if \<not> tf_enabled s tf then s
      else set_slot s (next_slot_for tf) ((sm_slots s (next_slot_for tf))\<lparr> ms_phase := SP_SUBSCRIBING \<rparr>))"

definition manager_start ::
  "(string \<Rightarrow> json option) \<Rightarrow> discovery_env \<Rightarrow> int \<Rightarrow> slot_manager \<Rightarrow> (slot_manager \<times> slot_out list) \<times> bool" where
  "manager_start parse env now_s s =
     (case initial_discovery parse env now_s s of
        (s1, out1, False) \<Rightarrow> ((s1, out1 @ [FatalFlag]), False)
      | (s1, out1, True) \<Rightarrow>
          (let mkts = map (\<lambda>n. ms_market (sm_slots s1 n)) (assigned_slots s1);
               conds = map dm_condition_id mkts;
               tokens = concat (map (\<lambda>m. [dm_token_id_up m, dm_token_id_down m]) mkts);
               (s2, out2) = activate_current s1 BTC_5M;
               (s3, out3) = activate_current s2 BTC_15M;
               s4 = subscribed_next (subscribed_next s3 BTC_5M) BTC_15M
           in ((s4, out1 @ [BootstrapPositions conds, StartMarketWs tokens, StartUserWs conds] @ out2 @ out3),
               True)))"

text \<open>One iteration of the main loop.\<close>

record poll_env =
  po_now :: int
  po_discover :: "btc_timeframe \<Rightarrow> int \<Rightarrow> discovered_market option"
  po_stop :: "slot_name \<Rightarrow> bool"

definition manager_poll :: "slot_manager \<Rightarrow> poll_env \<Rightarrow> slot_manager \<times> slot_out list" where
  "manager_poll s e =
     (let (s1, out1) = (if sc_enable_5m (sm_config s) then check_rotation s (po_now e) BTC_5M else (s, []));
          (s2, out2) = (if sc_enable_15m (sm_config s1) then check_rotation s1 (po_now e) BTC_15M else (s1, []));
          (s3, out3) = check_previous_markets s2 (po_now e);
          (s4, out4) = check_pending_discoveries (po_discover e) (po_stop e) s3
      in (s4, out1 @ out2 @ out3 @ out4))"

fun manager_polls :: "slot_manager \<Rightarrow> poll_env list \<Rightarrow> slot_manager \<times> slot_out list" where
  "manager_polls s [] = (s, [])"
| "manager_polls s (e # es) =
     (let (s1, out1) = manager_poll s e; (s2, out2) = manager_polls s1 es in (s2, out1 @ out2))"

subsection \<open>The trading session\<close>

datatype session_state = SES_IDLE | SES_PENDING | SES_ACTIVE

record trading_session =
  ses_state :: session_state
  ses_end_time_s :: int
  ses_effective_end_s :: int
  ses_started_at_ms :: int
  ses_markets_entered :: int

definition new_session :: trading_session where
  "new_session =
     \<lparr> ses_state = SES_IDLE, ses_end_time_s = 0, ses_effective_end_s = 0, ses_started_at_ms = 0,
       ses_markets_entered = 0 \<rparr>"

definition exceeds_end :: "trading_session \<Rightarrow> int \<Rightarrow> bool" where
  "exceeds_end ses window_end_s \<longleftrightarrow> ses_effective_end_s ses > 0 \<and> window_end_s > ses_effective_end_s ses"

definition last_window_end :: "int \<Rightarrow> int \<Rightarrow> int" where
  "last_window_end end_time_s period =
     (let window_start = (end_time_s sdiv period) * period; window_end = window_start + period
      in if window_end \<le> end_time_s then window_end else window_start)"

definition compute_effective_end :: "int \<Rightarrow> int" where
  "compute_effective_end end_time_s =
     (if end_time_s \<le> 0 then 0
      else foldl (\<lambda>effective period. max effective (last_window_end end_time_s period)) 0 [300, 900])"

subsection \<open>Slot arithmetic\<close>

lemma slot_of_index_index [simp]: "slot_of_index (slot_index s) = s"
  by (cases s) (simp_all add: slot_of_index_def all_slots_def)

lemmas slot_for_defs = current_slot_for_def next_slot_for_def previous_slot_for_def

lemma slots_for_neq [simp]:
  "current_slot_for tf \<noteq> next_slot_for tf'" "next_slot_for tf \<noteq> current_slot_for tf'"
  "current_slot_for tf \<noteq> previous_slot_for tf'" "previous_slot_for tf \<noteq> current_slot_for tf'"
  "next_slot_for tf \<noteq> previous_slot_for tf'" "previous_slot_for tf \<noteq> next_slot_for tf'"
  by (simp_all add: slot_for_defs)

lemma slots_for_inject [simp]:
  "current_slot_for tf = current_slot_for tf' \<longleftrightarrow> tf = tf'"
  "next_slot_for tf = next_slot_for tf' \<longleftrightarrow> tf = tf'"
  "previous_slot_for tf = previous_slot_for tf' \<longleftrightarrow> tf = tf'"
  by (cases tf; cases tf'; simp add: slot_for_defs)+

lemma slot_timeframe_for [simp]:
  "slot_timeframe (current_slot_for tf) = tf" "slot_timeframe (next_slot_for tf) = tf"
  "slot_timeframe (previous_slot_for tf) = tf" "is_current_slot (current_slot_for tf)"
  by (cases tf; simp add: slot_for_defs is_current_slot_def)+

lemma slot_cases:
  obtains (current) "s = current_slot_for (slot_timeframe s)" | (next_one) "s = next_slot_for (slot_timeframe s)"
    | (previous) "s = previous_slot_for (slot_timeframe s)"
  by (cases s) (simp_all add: slot_for_defs)

lemma period_pos [simp]: "0 < timeframe_period_seconds tf"
  by (cases tf) simp_all

subsection \<open>The windows of a series\<close>

definition windows_ok :: "btc_timeframe \<Rightarrow> slot_manager \<Rightarrow> bool" where
  "windows_ok tf s \<longleftrightarrow>
     (let cur = sm_slots s (current_slot_for tf); nx = sm_slots s (next_slot_for tf);
          period = timeframe_period_seconds tf
      in ms_phase cur = SP_ACTIVE \<and> period dvd ms_window_start cur \<and>
         ms_window_end cur = ms_window_start cur + period \<and> ms_window_start nx = ms_window_end cur \<and>
         ms_window_end nx = ms_window_start nx + period)"

definition current_start :: "btc_timeframe \<Rightarrow> slot_manager \<Rightarrow> int" where
  "current_start tf s = ms_window_start (sm_slots s (current_slot_for tf))"

text \<open>What an operation leaves of the slots of a series, up to market and phase of the next one.\<close>

definition same_windows :: "btc_timeframe \<Rightarrow> slot_manager \<Rightarrow> slot_manager \<Rightarrow> bool" where
  "same_windows tf s s' \<longleftrightarrow>
     sm_slots s' (current_slot_for tf) = sm_slots s (current_slot_for tf) \<and>
     ms_window_start (sm_slots s' (next_slot_for tf)) = ms_window_start (sm_slots s (next_slot_for tf)) \<and>
     ms_window_end (sm_slots s' (next_slot_for tf)) = ms_window_end (sm_slots s (next_slot_for tf))"

lemma same_windows_refl [simp]: "same_windows tf s s"
  by (simp add: same_windows_def)

lemma same_windows_trans: "same_windows tf s s' \<Longrightarrow> same_windows tf s' s'' \<Longrightarrow> same_windows tf s s''"
  by (simp add: same_windows_def)

lemma same_windows_ok: "same_windows tf s s' \<Longrightarrow> windows_ok tf s \<Longrightarrow> windows_ok tf s'"
  by (simp add: same_windows_def windows_ok_def Let_def)

lemma same_windows_start: "same_windows tf s s' \<Longrightarrow> current_start tf s' = current_start tf s"
  by (simp add: same_windows_def current_start_def)

lemma subscribe_next_windows: "same_windows tf s (fst (subscribe_next s now_s tf'))"
  by (simp add: subscribe_next_def same_windows_def set_slot_def Let_def)

lemma start_next_windows: "same_windows tf s (start_next s now_s tf')"
  by (simp add: start_next_def same_windows_def set_slot_def Let_def)

lemma rotate_other: "tf \<noteq> tf' \<Longrightarrow> same_windows tf s (fst (rotate_slots s tf'))"
  by (simp add: rotate_slots_def same_windows_def Let_def)

lemma check_one_windows: "same_windows tf s (fst (check_one s now_s tf'))"
  by (simp add: check_one_def same_windows_def Let_def)

lemma check_previous_windows: "same_windows tf s (fst (check_previous_markets s now_s))"
  by (simp add: check_previous_markets_def split_beta Let_def)
     (rule same_windows_trans [OF check_one_windows check_one_windows])

lemma pending_windows:
  "ms_phase (sm_slots s (current_slot_for tf)) = SP_ACTIVE \<Longrightarrow>
   same_windows tf s (fst (pending_discoveries disc stop ns s))"
proof (induction ns arbitrary: s)
  case (Cons n ns)
  note IH = Cons.IH
  consider "ms_phase (sm_slots s n) \<noteq> SP_DISCOVERING" | "ms_phase (sm_slots s n) = SP_DISCOVERING" "stop n"
    | "ms_phase (sm_slots s n) = SP_DISCOVERING" "\<not> stop n"
        "disc (ms_timeframe (sm_slots s n)) (ms_window_start (sm_slots s n)) = None"
    | mkt where "ms_phase (sm_slots s n) = SP_DISCOVERING" "\<not> stop n"
        "disc (ms_timeframe (sm_slots s n)) (ms_window_start (sm_slots s n)) = Some mkt"
    by blast
  then show ?case
  proof cases
    case (4 mkt)
    let ?s = "set_slot s n ((sm_slots s n)\<lparr> ms_market := mkt, ms_phase := SP_REGISTERED \<rparr>)"
    have neq: "n \<noteq> current_slot_for tf" using 4(1) Cons.prems by auto
    have "same_windows tf s ?s"
      using neq by (auto simp: same_windows_def set_slot_def)
    moreover have "same_windows tf ?s (fst (pending_discoveries disc stop ns ?s))"
      using Cons.prems neq by (intro IH) (simp add: set_slot_def)
    ultimately show ?thesis
      using 4 by (simp add: split_beta Let_def same_windows_trans)
  qed (use Cons.prems IH in simp_all)
qed simp

lemma check_rotation_other:
  "tf \<noteq> tf' \<Longrightarrow> same_windows tf s (fst (check_rotation s now_s tf'))"
  using same_windows_trans [OF subscribe_next_windows start_next_windows, of tf s now_s tf' now_s tf']
  by (auto simp: check_rotation_def Let_def split_beta intro: same_windows_trans rotate_other)

lemma rotate_windows:
  assumes "windows_ok tf s"
  shows "windows_ok tf (fst (rotate_slots s tf))" and
    "current_start tf (fst (rotate_slots s tf)) = current_start tf s + timeframe_period_seconds tf"
  using assms by (auto simp: windows_ok_def rotate_slots_def slot_clear_def current_start_def Let_def)

lemma check_rotation_windows:
  assumes "windows_ok tf s"
  shows "windows_ok tf (fst (check_rotation s now_s tf)) \<and>
    current_start tf (fst (check_rotation s now_s tf)) =
      (if current_start tf s + timeframe_period_seconds tf \<le> now_s
       then current_start tf s + timeframe_period_seconds tf else current_start tf s)"
proof -
  let ?s = "start_next (fst (subscribe_next s now_s tf)) now_s tf"
  have sw: "same_windows tf s ?s"
    by (rule same_windows_trans [OF subscribe_next_windows start_next_windows])
  note w = same_windows_ok [OF sw assms] and c = same_windows_start [OF sw]
  have "ms_window_end (sm_slots ?s (current_slot_for tf)) = current_start tf s + timeframe_period_seconds tf"
    "ms_phase (sm_slots ?s (current_slot_for tf)) = SP_ACTIVE"
    using w c by (simp_all add: windows_ok_def current_start_def Let_def)
  then show ?thesis
    using w c rotate_windows [OF w] by (simp add: check_rotation_def Let_def split_beta)
qed

lemma config_kept [simp]:
  "sm_config (fst (subscribe_next s now_s tf)) = sm_config s"
  "sm_config (start_next s now_s tf) = sm_config s"
  "sm_config (fst (rotate_slots s tf)) = sm_config s"
  "sm_config (fst (check_one s now_s tf)) = sm_config s"
  by (simp_all add: subscribe_next_def start_next_def rotate_slots_def check_one_def set_slot_def Let_def)

lemma config_kept_more [simp]:
  "sm_config (fst (check_rotation s now_s tf)) = sm_config s"
  "sm_config (fst (check_previous_markets s now_s)) = sm_config s"
  by (simp_all add: check_rotation_def check_previous_markets_def Let_def split_beta)

lemma pending_config [simp]: "sm_config (fst (pending_discoveries disc stop ns s)) = sm_config s"
  by (induction ns arbitrary: s) (auto simp: Let_def split_beta set_slot_def split: option.splits)

lemma windows_active: "windows_ok tf s \<Longrightarrow> ms_phase (sm_slots s (current_slot_for tf)) = SP_ACTIVE"
  by (simp add: windows_ok_def Let_def)

text \<open>One iteration of the main loop moves an enabled series by at most one window.\<close>

lemma manager_poll_windows:
  assumes "windows_ok tf s" and "tf_enabled s tf"
  shows "windows_ok tf (fst (manager_poll s e)) \<and> tf_enabled (fst (manager_poll s e)) tf \<and>
    current_start tf (fst (manager_poll s e)) =
      (if current_start tf s + timeframe_period_seconds tf \<le> po_now e
       then current_start tf s + timeframe_period_seconds tf else current_start tf s)"
proof -
  let ?now = "po_now e" and ?P = "timeframe_period_seconds tf"
  define s1 where "s1 = (if sc_enable_5m (sm_config s) then fst (check_rotation s ?now BTC_5M) else s)"
  define s2 where "s2 = (if sc_enable_15m (sm_config s) then fst (check_rotation s1 ?now BTC_15M) else s1)"
  define s3 where "s3 = fst (check_previous_markets s2 ?now)"
  have cfg: "sm_config s1 = sm_config s" "sm_config s2 = sm_config s" "sm_config s3 = sm_config s"
    by (simp_all add: s1_def s2_def s3_def)
  have poll: "fst (manager_poll s e) = fst (check_pending_discoveries (po_discover e) (po_stop e) s3)"
    using cfg by (simp add: manager_poll_def s1_def s2_def s3_def Let_def split_beta)
  let ?moved = "\<lambda>u. windows_ok tf u \<and>
    current_start tf u = (if current_start tf s + ?P \<le> ?now then current_start tf s + ?P else current_start tf s)"
  have "?moved s2"
  proof (cases tf)
    case BTC_5M
    then have "?moved s1"
      using check_rotation_windows [OF assms(1), of ?now] assms(2) by (simp add: s1_def tf_enabled_def)
    moreover have "same_windows tf s1 s2"
      using BTC_5M check_rotation_other [of BTC_5M BTC_15M s1 ?now] by (simp add: s2_def)
    ultimately show ?thesis by (simp add: same_windows_ok same_windows_start)
  next
    case BTC_15M
    have "same_windows tf s s1"
      using BTC_15M check_rotation_other [of BTC_15M BTC_5M s ?now] by (simp add: s1_def)
    then have "windows_ok tf s1" "current_start tf s1 = current_start tf s"
      using assms(1) same_windows_ok same_windows_start by blast+
    then show ?thesis
      using check_rotation_windows [of tf s1 ?now] assms(2) BTC_15M by (simp add: s2_def tf_enabled_def)
  qed
  moreover have "same_windows tf s2 s3"
    unfolding s3_def by (rule check_previous_windows)
  ultimately have m3: "?moved s3" by (simp add: same_windows_ok same_windows_start)
  then have "same_windows tf s3 (fst (manager_poll s e))"
    unfolding poll check_pending_discoveries_def by (intro pending_windows windows_active) simp
  moreover have "tf_enabled (fst (manager_poll s e)) tf"
    using assms(2) cfg by (simp add: poll check_pending_discoveries_def tf_enabled_def)
  ultimately show ?thesis
    using m3 by (simp add: same_windows_ok same_windows_start)
qed

lemma manager_polls_windows:
  "windows_ok tf s \<Longrightarrow> tf_enabled s tf \<Longrightarrow>
   windows_ok tf (fst (manager_polls s es)) \<and> tf_enabled (fst (manager_polls s es)) tf"
  by (induction es arbitrary: s) (simp_all add: manager_poll_windows Let_def split_beta)

text \<open>The start establishes the windows.\<close>

definition placed :: "slot_manager \<Rightarrow> (slot_name \<times> btc_timeframe \<times> int) list \<Rightarrow> bool" where
  "placed s ts \<longleftrightarrow>
     list_all (\<lambda>(slot, tf, start). ms_window_start (sm_slots s slot) = start \<and>
       ms_window_end (sm_slots s slot) = start + timeframe_period_seconds tf) ts"

definition registered_slot :: "discovered_market \<Rightarrow> btc_timeframe \<Rightarrow> int \<Rightarrow> market_slot" where
  "registered_slot mkt tf start =
     \<lparr> ms_phase = SP_REGISTERED, ms_market = mkt, ms_timeframe = tf, ms_window_start = start,
       ms_window_end = start + timeframe_period_seconds tf \<rparr>"

lemma discover_targets_Cons:
  assumes "discover_targets parse env ti ((slot, tf, start) # ts) s = (s', out, r)"
  shows "(s' = s \<and> out = [] \<and> \<not> r) \<or>
    (\<exists>mkt out'. discover_targets parse env (Suc ti) ts (set_slot s slot (registered_slot mkt tf start)) =
       (s', out', r) \<and> out = register_market_full mkt @ out')"
proof (cases "de_stop env ti")
  case True
  then show ?thesis using assms by simp
next
  case False
  show ?thesis
  proof (cases "discovery_attempts
       (\<lambda>a. discover_market parse (de_answer env ti a) (sc_discovery_host (sm_config s)) tf start)
       (\<lambda>a. sleep_ms (sc_discovery_poll_ms (sm_config s)) (de_stopped env ti a)) 0")
    case (Discovered mkt)
    then show ?thesis
      using assms False by (cases "discover_targets parse env (Suc ti) ts
        (set_slot s slot (registered_slot mkt tf start))") (auto simp: registered_slot_def Let_def)
  qed (use assms False in simp_all)
qed

lemma discover_targets_keeps:
  "discover_targets parse env ti ts s = (s', out, r) \<Longrightarrow> n \<notin> fst ` set ts \<Longrightarrow>
   sm_slots s' n = sm_slots s n \<and> sm_config s' = sm_config s \<and> sm_previous s' = sm_previous s \<and>
   sm_resolved s' = sm_resolved s"
proof (induction ts arbitrary: ti s out)
  case (Cons a ts)
  obtain slot tf start where a: "a = (slot, tf, start)" by (cases a)
  from discover_targets_Cons [OF Cons.prems(1) [unfolded a]] show ?case
    using Cons.IH Cons.prems(2) by (fastforce simp: a set_slot_def)
qed simp

lemma discover_targets_placed:
  "discover_targets parse env ti ts s = (s', out, True) \<Longrightarrow> distinct (map fst ts) \<Longrightarrow> placed s' ts"
proof (induction ts arbitrary: ti s out)
  case (Cons a ts)
  obtain slot tf start where a: "a = (slot, tf, start)" by (cases a)
  from discover_targets_Cons [OF Cons.prems(1) [unfolded a]] obtain mkt out' where
    rec: "discover_targets parse env (Suc ti) ts (set_slot s slot (registered_slot mkt tf start)) =
       (s', out', True)"
    by auto
  have "placed s' ts"
    using Cons.IH [OF rec] Cons.prems(2) by simp
  moreover have "sm_slots s' slot = registered_slot mkt tf start"
    using discover_targets_keeps [OF rec, of slot] Cons.prems(2) by (simp add: a set_slot_def)
  ultimately show ?case by (simp add: placed_def a registered_slot_def)
qed (simp add: placed_def)

lemma targets_distinct: "distinct (map fst (discovery_targets cfg now_s))"
  by (simp add: discovery_targets_def Let_def)

lemma targets_of_enabled:
  assumes "tf_enabled s tf" and "placed s' (discovery_targets (sm_config s) now_s)"
  shows "ms_window_start (sm_slots s' (current_slot_for tf)) = window_start_for tf now_s \<and>
    ms_window_end (sm_slots s' (current_slot_for tf)) = window_start_for tf now_s + timeframe_period_seconds tf \<and>
    ms_window_start (sm_slots s' (next_slot_for tf)) = window_start_for tf now_s + timeframe_period_seconds tf \<and>
    ms_window_end (sm_slots s' (next_slot_for tf)) =
      window_start_for tf now_s + timeframe_period_seconds tf + timeframe_period_seconds tf"
  using assms
  by (cases tf)
     (auto simp: discovery_targets_def placed_def tf_enabled_def slot_for_defs Let_def split: if_splits)

lemma manager_start_cases:
  assumes "manager_start parse env now_s s = ((s', out), True)"
  obtains s1 out1 s2 s3 where "initial_discovery parse env now_s s = (s1, out1, True)"
    and "s2 = fst (activate_current s1 BTC_5M)" and "s3 = fst (activate_current s2 BTC_15M)"
    and "s' = subscribed_next (subscribed_next s3 BTC_5M) BTC_15M"
    and "set out \<subseteq> set out1 \<union> range BootstrapPositions \<union> range StartMarketWs \<union> range StartUserWs \<union>
           set (snd (activate_current s1 BTC_5M)) \<union> set (snd (activate_current s2 BTC_15M))"
proof -
  obtain s1 out1 r where i: "initial_discovery parse env now_s s = (s1, out1, r)"
    by (cases "initial_discovery parse env now_s s") auto
  let ?s2 = "fst (activate_current s1 BTC_5M)"
  have r: r using assms i by (cases r) (simp_all add: manager_start_def)
  with assms i have
    "s' = subscribed_next (subscribed_next (fst (activate_current ?s2 BTC_15M)) BTC_5M) BTC_15M"
    "set out \<subseteq> set out1 \<union> range BootstrapPositions \<union> range StartMarketWs \<union> range StartUserWs \<union>
       set (snd (activate_current s1 BTC_5M)) \<union> set (snd (activate_current ?s2 BTC_15M))"
    by (auto simp: manager_start_def Let_def split_beta)
  with that [OF _ refl refl] i r show ?thesis by simp
qed

lemma start_keeps [simp]:
  "sm_config (fst (activate_current s tf)) = sm_config s"
  "sm_previous (fst (activate_current s tf)) = sm_previous s"
  "sm_resolved (fst (activate_current s tf)) = sm_resolved s"
  "sm_config (subscribed_next s tf) = sm_config s"
  "sm_previous (subscribed_next s tf) = sm_previous s"
  "sm_resolved (subscribed_next s tf) = sm_resolved s"
  by (simp_all add: activate_current_def subscribed_next_def set_slot_def Let_def)

lemma initial_discovery_keeps:
  "initial_discovery parse env now_s s = (s', out, r) \<Longrightarrow>
   sm_config s' = sm_config s \<and> sm_previous s' = sm_previous s \<and> sm_resolved s' = sm_resolved s"
  using discover_targets_keeps [of parse env 0 "discovery_targets (sm_config s) now_s" s s' out r PREVIOUS_5M]
  by (auto simp: initial_discovery_def discovery_targets_def Let_def)

lemma manager_start_keeps:
  assumes "manager_start parse env now_s s = ((s', out), True)"
  shows "sm_config s' = sm_config s \<and> sm_previous s' = sm_previous s \<and> sm_resolved s' = sm_resolved s"
  by (rule manager_start_cases [OF assms]) (drule initial_discovery_keeps, simp)

lemma tf_enabled_cong: "sm_config s = sm_config s' \<Longrightarrow> tf_enabled s tf = tf_enabled s' tf"
  by (simp add: tf_enabled_def)

lemma manager_start_windows:
  assumes "manager_start parse env now_s s = ((s', out), True)" and "tf_enabled s' tf"
  shows "windows_ok tf s' \<and> current_start tf s' = window_start_for tf now_s"
proof -
  obtain s1 out1 s2 s3 where i: "initial_discovery parse env now_s s = (s1, out1, True)"
    and s2: "s2 = fst (activate_current s1 BTC_5M)" and s3: "s3 = fst (activate_current s2 BTC_15M)"
    and s': "s' = subscribed_next (subscribed_next s3 BTC_5M) BTC_15M"
    using assms(1) by (rule manager_start_cases)
  have cfg: "sm_config s1 = sm_config s"
    using initial_discovery_keeps [OF i] by simp
  have cfg': "sm_config s' = sm_config s"
    using manager_start_keeps [OF assms(1)] by simp
  have "placed s1 (discovery_targets (sm_config s) now_s)"
    using i targets_distinct discover_targets_placed by (simp add: initial_discovery_def)
  moreover have "tf_enabled s tf" "tf_enabled s1 tf"
    using assms(2) tf_enabled_cong [of s' s1 tf] tf_enabled_cong [of s' s tf] cfg cfg' by simp_all
  moreover have "timeframe_period_seconds tf dvd window_start_for tf now_s"
    by (simp add: window_start_for_def)
  ultimately show ?thesis
    using targets_of_enabled [of s tf s1 now_s]
    by (cases tf) (auto simp: windows_ok_def current_start_def s' s3 s2 activate_current_def
        subscribed_next_def set_slot_def tf_enabled_def slot_for_defs Let_def)
qed

text \<open>C18: After a successful start and any number of iterations of the main loop, every enabled series
  has an active current window that starts at a multiple of the period and lasts one period, and the
  next window begins where the current one ends.\<close>

theorem slot_windows_contiguous:
  assumes "manager_start parse env now_s (new_slot_manager cfg) = ((s, out), True)"
    and "tf_enabled s tf" and "s' = fst (manager_polls s es)"
  shows "ms_phase (sm_slots s' (current_slot_for tf)) = SP_ACTIVE \<and>
    timeframe_period_seconds tf dvd ms_window_start (sm_slots s' (current_slot_for tf)) \<and>
    ms_window_end (sm_slots s' (current_slot_for tf)) =
      ms_window_start (sm_slots s' (current_slot_for tf)) + timeframe_period_seconds tf \<and>
    ms_window_start (sm_slots s' (next_slot_for tf)) = ms_window_end (sm_slots s' (current_slot_for tf))"
  using manager_polls_windows [of tf s es] manager_start_windows [OF assms(1,2)] assms(2)
  unfolding assms(3) by (simp add: windows_ok_def Let_def)

lemma manager_polls_catch_up:
  assumes "windows_ok tf s" and "tf_enabled s tf" and "\<forall>e \<in> set es. po_now e = now_s"
    and "current_start tf s \<le> now_s"
    and "now_s < current_start tf s + (int (length es) + 1) * timeframe_period_seconds tf"
  shows "current_start tf (fst (manager_polls s es)) \<le> now_s \<and>
    now_s < current_start tf (fst (manager_polls s es)) + timeframe_period_seconds tf"
  using assms
proof (induction es arbitrary: s)
  case (Cons e es)
  note mp = manager_poll_windows [OF Cons.prems(1,2), of e]
  have now: "po_now e = now_s" using Cons.prems(3) by simp
  have more: "now_s < current_start tf (fst (manager_poll s e)) +
      (int (length es) + 1) * timeframe_period_seconds tf"
  proof (cases "current_start tf s + timeframe_period_seconds tf \<le> now_s")
    case True
    then show ?thesis
      using mp now Cons.prems(5) by (simp add: algebra_simps)
  next
    case False
    moreover have "timeframe_period_seconds tf \<le> (int (length es) + 1) * timeframe_period_seconds tf"
      using mult_right_mono [of 1 "int (length es) + 1" "timeframe_period_seconds tf"] period_pos [of tf]
      by simp
    moreover have "current_start tf (fst (manager_poll s e)) = current_start tf s"
      using mp now False by simp
    ultimately show ?thesis by linarith
  qed
  show ?case
    using Cons.IH [of "fst (manager_poll s e)"] mp now more Cons.prems(3,4)
    by (simp add: Let_def split_beta split: if_splits)
qed simp


subsection \<open>A sample start\<close>

definition sample_json :: json where
  "sample_json = JArr [JObj [(''markets'', JArr [sample_gamma_market])]]"

definition sample_parse :: "string \<Rightarrow> json option" where
  "sample_parse body = (if body = ''m'' then Some sample_json else None)"

definition sample_slot_config :: slot_manager_config where
  "sample_slot_config =
     \<lparr> sc_discovery_poll_ms = 15000, sc_pre_subscribe_ms = 150000, sc_redeem_delay_ms = 180000,
       sc_discovery_host = ''h'', sc_enable_5m = True, sc_enable_15m = False \<rparr>"

definition sample_answer :: "string \<Rightarrow> string \<Rightarrow> string" where
  "sample_answer host target = (if host = ''h'' then ''m'' else [])"

definition sample_discovery_env :: discovery_env where
  "sample_discovery_env =
     \<lparr> de_answer = (\<lambda>_ _. sample_answer), de_stop = (\<lambda>_. False), de_stopped = (\<lambda>_ _ _. False) \<rparr>"

definition sample_slot_start :: "(slot_manager \<times> slot_out list) \<times> bool" where
  "sample_slot_start = manager_start sample_parse sample_discovery_env 1000 (new_slot_manager sample_slot_config)"

definition sample_slot_manager :: slot_manager where
  "sample_slot_manager = fst (fst sample_slot_start)"

lemma sample_gamma_market_parsed: "\<exists>dm. parse_gamma_market sample_parse sample_gamma_market = Some dm"
  by (simp add: parse_gamma_market_def sample_gamma_market_def outcomes_of_def token_ids_of_def
      string_at_def array_at_def)

lemma sample_discovered: "\<exists>mkt. discover_market sample_parse sample_answer ''h'' tf w = Some mkt"
proof -
  obtain dm where "parse_gamma_market sample_parse sample_gamma_market = Some dm"
    using sample_gamma_market_parsed by blast
  then have "discover_btc_market_for_window sample_parse sample_answer ''h'' tf w = Some dm"
    by (simp add: discover_btc_market_for_window_def build_discovery_targets_def sample_answer_def
        parse_gamma_response_def sample_parse_def sample_json_def parse_gamma_event_def array_at_def)
  then show ?thesis
    by (simp add: discover_market_def Let_def)
qed

lemma sample_start_ok:
  "manager_start sample_parse sample_discovery_env 1000 (new_slot_manager sample_slot_config) =
     ((sample_slot_manager, snd (fst sample_slot_start)), True)"
proof -
  have att: "\<exists>mkt. discovery_attempts (\<lambda>a. discover_market sample_parse sample_answer ''h'' tf w) sl 0 =
      Discovered mkt" for tf w sl
    using sample_discovered [of tf w] by (auto simp: discovery_attempts.simps)
  have "snd (snd (discover_targets sample_parse sample_discovery_env ti ts s))"
    if "sc_discovery_host (sm_config s) = ''h''" for ti ts s
    using that
  proof (induction ts arbitrary: ti s)
    case (Cons a ts)
    obtain slot tf start where a: "a = (slot, tf, start)" by (cases a)
    obtain mkt where "discovery_attempts (\<lambda>a. discover_market sample_parse sample_answer ''h'' tf start)
        (\<lambda>a. sleep_ms (sc_discovery_poll_ms (sm_config s)) (\<lambda>_. False)) 0 = Discovered mkt"
      using att by blast
    then show ?case
      using Cons by (simp add: a sample_discovery_env_def set_slot_def Let_def split_beta)
  qed simp
  then have "snd (snd (initial_discovery sample_parse sample_discovery_env 1000
      (new_slot_manager sample_slot_config)))"
    by (simp add: initial_discovery_def new_slot_manager_def sample_slot_config_def)
  then have "snd sample_slot_start"
    by (simp add: sample_slot_start_def manager_start_def Let_def split_beta split: prod.splits bool.splits)
  then show ?thesis
    unfolding sample_slot_manager_def by (simp add: sample_slot_start_def [symmetric] prod_eq_iff)
qed

lemma sample_enabled: "tf_enabled sample_slot_manager BTC_5M"
  using manager_start_keeps [OF sample_start_ok]
  by (simp add: tf_enabled_def new_slot_manager_def sample_slot_config_def)

definition sample_poll :: poll_env where
  "sample_poll = \<lparr> po_now = 1600, po_discover = (\<lambda>_ _. None), po_stop = (\<lambda>_. False) \<rparr>"

theorem slot_windows_contiguous_witness:
  "ms_phase (sm_slots (fst (manager_polls sample_slot_manager [sample_poll])) CURRENT_5M) = SP_ACTIVE"
  using slot_windows_contiguous [OF sample_start_ok sample_enabled refl, of "[sample_poll]"]
  by (simp only: current_slot_for_def if_True refl simp_thms)


subsection \<open>A resolved market is never noticed\<close>

definition unresolved :: "slot_manager \<Rightarrow> bool" where
  "unresolved s \<longleftrightarrow> (\<forall>tf. \<not> sm_resolved s tf \<and> \<not> pm_awaiting_redeem (sm_previous s tf))"

fun is_removal :: "slot_out \<Rightarrow> bool" where
  "is_removal (FireRedeem c up down) \<longleftrightarrow> True"
| "is_removal (UnsubscribeMarketWs ts) \<longleftrightarrow> True"
| "is_removal (UnsubscribeUserWs cs) \<longleftrightarrow> True"
| "is_removal (PushSlotEvent ev) \<longleftrightarrow> ev_kind ev = SLOT_REMOVED"
| "is_removal _ \<longleftrightarrow> False"

lemma ev_kind_slot [simp]:
  "ev_kind (make_slot_event k n c) = k" "ev_kind (make_slot_promoted n c w) = SLOT_PROMOTED"
  "ev_slot_name (make_slot_event k n c) = n" "ev_slot_name (make_slot_promoted n c w) = n"
  "ev_control_condition_id (make_slot_event k n c) = c"
  "ev_control_condition_id (make_slot_promoted n c w) = c"
  by (simp_all add: make_slot_event_def make_slot_promoted_def control_event_def)

lemma register_no_removal: "x \<in> set (register_market_full mkt) \<Longrightarrow> \<not> is_removal x"
  by (auto simp: register_market_full_def Let_def)

lemma discover_targets_no_removal:
  "discover_targets parse env ti ts s = (s', out, r) \<Longrightarrow> x \<in> set out \<Longrightarrow> \<not> is_removal x"
proof (induction ts arbitrary: ti s out)
  case (Cons a ts)
  obtain slot tf start where a: "a = (slot, tf, start)" by (cases a)
  from discover_targets_Cons [OF Cons.prems(1) [unfolded a]] show ?case
    using Cons.IH Cons.prems(2) register_no_removal by auto
qed simp

lemma pending_no_removal:
  "x \<in> set (snd (pending_discoveries disc stop ns s)) \<Longrightarrow> \<not> is_removal x"
  by (induction ns arbitrary: s)
     (auto simp: Let_def split_beta dest: register_no_removal split: if_splits option.splits)

lemma pending_unresolved: "unresolved (fst (pending_discoveries disc stop ns s)) = unresolved s"
  by (induction ns arbitrary: s)
     (auto simp: unresolved_def Let_def split_beta set_slot_def split: option.splits)

lemma check_rotation_unresolved:
  "unresolved s \<Longrightarrow> unresolved (fst (check_rotation s now_s tf))"
  by (auto simp: unresolved_def check_rotation_def subscribe_next_def start_next_def rotate_slots_def
      set_slot_def Let_def split_beta)

lemma check_rotation_no_removal: "x \<in> set (snd (check_rotation s now_s tf)) \<Longrightarrow> \<not> is_removal x"
  by (auto simp: check_rotation_def subscribe_next_def rotate_slots_def push_slot_event_def Let_def split_beta
      split: if_splits)

lemma check_previous_unresolved:
  "unresolved s \<Longrightarrow> check_previous_markets s now_s = (s, [])"
  by (simp add: unresolved_def check_previous_markets_def check_one_def Let_def)

lemma manager_poll_unresolved:
  assumes "unresolved s"
  shows "unresolved (fst (manager_poll s e)) \<and> (\<forall>x \<in> set (snd (manager_poll s e)). \<not> is_removal x)"
proof -
  let ?now = "po_now e"
  define s1 where "s1 = (if sc_enable_5m (sm_config s) then check_rotation s ?now BTC_5M else (s, []))"
  define s2 where
    "s2 = (if sc_enable_15m (sm_config (fst s1)) then check_rotation (fst s1) ?now BTC_15M else (fst s1, []))"
  have u: "unresolved (fst s1)" "unresolved (fst s2)"
    using assms by (simp_all add: s1_def s2_def check_rotation_unresolved)
  have r: "\<forall>x \<in> set (snd s1) \<union> set (snd s2). \<not> is_removal x"
    using check_rotation_no_removal by (auto simp: s1_def s2_def split: if_splits)
  have "manager_poll s e =
      (let (s4, out4) = check_pending_discoveries (po_discover e) (po_stop e) (fst s2)
       in (s4, snd s1 @ snd s2 @ out4))"
    using check_previous_unresolved [OF u(2)]
    by (simp add: manager_poll_def s1_def [symmetric] s2_def [symmetric] split_beta Let_def)
  then show ?thesis
    using u(2) r pending_unresolved pending_no_removal
    by (auto simp: check_pending_discoveries_def split_beta)
qed

lemma manager_polls_unresolved:
  "unresolved s \<Longrightarrow> \<forall>x \<in> set (snd (manager_polls s es)). \<not> is_removal x"
proof (induction es arbitrary: s)
  case (Cons e es)
  then show ?case
    using manager_poll_unresolved [OF Cons.prems, of e] Cons.IH [of "fst (manager_poll s e)"]
    by (auto simp: Let_def split_beta)
qed simp

text \<open>The flags that would announce a resolved market are read by the manager and set by no code.
  From any successful start on, therefore, no iteration of the main loop redeems a previous market,
  unsubscribes it or tells the scheduler to remove it.\<close>

theorem previous_markets_never_removed:
  assumes "manager_start parse env now_s (new_slot_manager cfg) = ((s, out), True)"
    and "x \<in> set out \<union> set (snd (manager_polls s es))"
  shows "\<not> is_removal x"
proof -
  have "unresolved s"
    using manager_start_keeps [OF assms(1)]
    by (simp add: unresolved_def new_slot_manager_def new_previous_state_def)
  moreover have "\<not> is_removal x" if "x \<in> set out"
  proof (rule manager_start_cases [OF assms(1)])
    fix s1 out1 s2 s3
    assume "initial_discovery parse env now_s (new_slot_manager cfg) = (s1, out1, True)"
      and sub: "set out \<subseteq> set out1 \<union> range BootstrapPositions \<union> range StartMarketWs \<union> range StartUserWs \<union>
           set (snd (activate_current s1 BTC_5M)) \<union> set (snd (activate_current s2 BTC_15M))"
    then have "\<forall>x \<in> set out1. \<not> is_removal x"
      using discover_targets_no_removal by (auto simp: initial_discovery_def)
    moreover have "\<forall>x \<in> set (snd (activate_current u tf)). \<not> is_removal x" for u tf
      by (auto simp: activate_current_def push_slot_event_def Let_def)
    ultimately show ?thesis using sub that by auto
  qed
  ultimately show ?thesis
    using assms(2) manager_polls_unresolved by auto
qed

theorem previous_markets_never_removed_witness:
  "\<forall>x. x \<in> set (snd (fst sample_slot_start)) \<union> set (snd (manager_polls sample_slot_manager [sample_poll])) \<longrightarrow>
     \<not> is_removal x"
  using previous_markets_never_removed [OF sample_start_ok] by blast

subsection \<open>Rotations and the token table\<close>

fun slot_events :: "slot_out list \<Rightarrow> scheduler_event list" where
  "slot_events [] = []"
| "slot_events (PushSlotEvent ev # xs) = ev # slot_events xs"
| "slot_events (x # xs) = slot_events xs"

definition next_condition :: "btc_timeframe \<Rightarrow> slot_manager \<Rightarrow> asset_id" where
  "next_condition tf s = AssetId (dm_condition_id (ms_market (sm_slots s (next_slot_for tf))))"

definition slot_map_inv :: "slot_token_map \<Rightarrow> bool" where
  "slot_map_inv m \<longleftrightarrow>
     length m \<le> kMaxEntries \<and>
     (\<forall>e \<in> set m. (\<forall>tf. se_slot e \<noteq> next_slot_for tf) \<and> (is_previous_slot (se_slot e) \<longrightarrow> \<not> se_active e))"

lemma previous_slot_for_is [simp]: "is_previous_slot (previous_slot_for tf)" "\<not> is_previous_slot (current_slot_for tf)"
  by (simp_all add: slot_for_defs is_previous_slot_def)

lemma set_active_no_slot: "(\<forall>e \<in> set m. se_slot e \<noteq> slot) \<Longrightarrow> set_active m slot act = m"
  by (auto simp: set_active_def intro: map_idI)

lemma demoted_entries:
  "slot_map_inv m \<Longrightarrow>
   stm_demote (set_active (set_active m (current_slot_for tf) False) (previous_slot_for tf) False)
     (current_slot_for tf) (previous_slot_for tf) = stm_demote m (current_slot_for tf) (previous_slot_for tf)"
  by (auto simp: stm_demote_def set_active_def slot_map_inv_def)

lemma after_demote:
  "e \<in> set (stm_demote m (current_slot_for tf) (previous_slot_for tf)) \<Longrightarrow> se_slot e \<noteq> current_slot_for tf"
  by (auto simp: stm_demote_def split: if_splits)

lemma demote_inv:
  "slot_map_inv m \<Longrightarrow> slot_map_inv (stm_demote m (current_slot_for tf) (previous_slot_for tf))"
  by (auto simp: stm_demote_def slot_map_inv_def split: if_splits)

lemma demote_conditions [simp]: "se_condition_id ` set (stm_demote m a b) = se_condition_id ` set m"
proof -
  have "map se_condition_id (stm_demote m a b) = map se_condition_id m"
    by (simp add: stm_demote_def)
  then show ?thesis by (metis set_map)
qed

lemma find_condition_None [simp]: "stm_find_by_condition m c = None \<longleftrightarrow> c \<notin> se_condition_id ` set m"
  by (auto simp: stm_find_by_condition_def find_None_iff)

definition new_entries :: "btc_timeframe \<Rightarrow> market_pair \<Rightarrow> asset_id \<Rightarrow> slot_entry list" where
  "new_entries tf pair c =
     [\<lparr> se_token_id = token_id_up pair, se_condition_id = c, se_slot = current_slot_for tf, se_active = True \<rparr>,
      \<lparr> se_token_id = token_id_down pair, se_condition_id = c, se_slot = current_slot_for tf, se_active = True \<rparr>]"

text \<open>The events of one rotation deactivate the entries of the old current market and append the two
  of the new one, if it is not in the table and the table has room.\<close>

lemma rotation_on_table:
  assumes "slot_map_inv m" and "find_by_condition pairs (next_condition tf s) = Some pair"
  shows "foldl (slot_map_event pairs) m (slot_events (snd (rotate_slots s tf))) =
    (let m' = stm_demote m (current_slot_for tf) (previous_slot_for tf); c = next_condition tf s
     in if c \<notin> se_condition_id ` set m \<and> length m + 2 \<le> kMaxEntries then m' @ new_entries tf pair c else m')"
proof -
  let ?m = "stm_demote m (current_slot_for tf) (previous_slot_for tf)"
  have no_cur: "\<forall>e \<in> set ?m. se_slot e \<noteq> current_slot_for tf"
    using after_demote by blast
  have no_next: "stm_promote ?m (next_slot_for tf) (current_slot_for tf) = ?m"
    using demote_inv [OF assms(1)] by (auto simp: stm_promote_def slot_map_inv_def intro: map_idI)
  have len: "length ?m = length m" by (simp add: stm_demote_def)
  have act: "set_active (?m @ new_entries tf pair c) (current_slot_for tf) True =
      ?m @ new_entries tf pair c" for c
    using set_active_no_slot [OF no_cur, of True] by (simp add: set_active_def new_entries_def)
  show ?thesis
    using assms(2) no_cur
    by (auto simp: rotate_slots_def push_slot_event_def slot_map_event_def Let_def demoted_entries [OF assms(1)]
        no_next set_active_no_slot stm_add_def len act next_condition_def new_entries_def [symmetric])
qed

lemma current_entry_timeframe:
  "slot_map_inv m \<Longrightarrow> e \<in> set m \<Longrightarrow> slot_timeframe (se_slot e) = tf \<Longrightarrow> se_active e \<Longrightarrow>
   se_slot e = current_slot_for tf"
  by (cases "se_slot e" rule: slot_cases) (auto simp: slot_map_inv_def)

text \<open>C35: The events of a rotation make the new market, registered and not yet in the table, the only
  active one of its series, when the table has room for its two tokens; the entries of the other
  series keep their state.\<close>

theorem rotation_switches_active_market:
  assumes "slot_map_inv m" and "length m + 2 \<le> kMaxEntries"
    and "find_by_condition pairs (next_condition tf s) = Some pair"
    and "next_condition tf s \<notin> se_condition_id ` set m"
    and "m' = foldl (slot_map_event pairs) m (slot_events (snd (rotate_slots s tf)))"
  shows "se_token_id ` {e \<in> set m'. slot_timeframe (se_slot e) = tf \<and> se_active e} =
           {token_id_up pair, token_id_down pair} \<and>
         (\<forall>e. slot_timeframe (se_slot e) \<noteq> tf \<longrightarrow> (e \<in> set m' \<longleftrightarrow> e \<in> set m)) \<and> slot_map_inv m'"
proof -
  let ?m = "stm_demote m (current_slot_for tf) (previous_slot_for tf)"
  let ?n = "new_entries tf pair (next_condition tf s)"
  have m': "m' = ?m @ ?n"
    unfolding assms(5) rotation_on_table [OF assms(1,3)] using assms(2,4) by (simp add: Let_def)
  have "\<not> se_active e" if "e \<in> set ?m" "slot_timeframe (se_slot e) = tf" for e
    using that current_entry_timeframe [OF demote_inv [OF assms(1)] that(1,2)] after_demote [OF that(1)] by blast
  moreover have "slot_timeframe (se_slot e) = tf \<and> se_active e" if "e \<in> set ?n" for e
    using that by (auto simp: new_entries_def)
  ultimately have "{e \<in> set m'. slot_timeframe (se_slot e) = tf \<and> se_active e} = set ?n"
    unfolding m' set_append by blast
  then have "se_token_id ` {e \<in> set m'. slot_timeframe (se_slot e) = tf \<and> se_active e} =
      {token_id_up pair, token_id_down pair}"
    by (simp add: new_entries_def)
  moreover have "e \<in> set m' \<longleftrightarrow> e \<in> set m" if "slot_timeframe (se_slot e) \<noteq> tf" for e
    using that unfolding m' by (auto simp: stm_demote_def new_entries_def split: if_splits)
  moreover have "slot_map_inv m'"
    using demote_inv [OF assms(1), of tf] assms(2)
    unfolding m' by (auto simp: slot_map_inv_def new_entries_def stm_demote_def)
  ultimately show ?thesis by blast
qed

text \<open>The states of the manager at a sequence of rotations of one series, and the table they
  lead to from the activation of the first market.\<close>

definition rotation_log :: "btc_timeframe \<Rightarrow> slot_manager list \<Rightarrow> scheduler_event list" where
  "rotation_log tf ss = concat (map (\<lambda>s. slot_events (snd (rotate_slots s tf))) ss)"

definition table_after ::
  "market_pair_registry \<Rightarrow> btc_timeframe \<Rightarrow> asset_id \<Rightarrow> slot_manager list \<Rightarrow> slot_token_map" where
  "table_after pairs tf c ss =
     foldl (slot_map_event pairs) []
       (make_slot_activated (slot_index (current_slot_for tf)) c # rotation_log tf ss)"

lemma table_after_snoc:
  "table_after pairs tf c (ss @ [s]) =
   foldl (slot_map_event pairs) (table_after pairs tf c ss) (slot_events (snd (rotate_slots s tf)))"
  by (simp add: table_after_def rotation_log_def)

lemma table_after_Nil:
  assumes "find_by_condition pairs c = Some pair"
  shows "table_after pairs tf c [] = new_entries tf pair c"
  using assms
  by (simp add: table_after_def rotation_log_def slot_map_event_def make_slot_activated_def stm_add_def
      kMaxEntries_def set_active_def new_entries_def Let_def stm_find_by_condition_def)

lemma table_grows:
  assumes "distinct (c # map (next_condition tf) ss)"
    and "\<forall>d \<in> set (c # map (next_condition tf) ss). find_by_condition pairs d \<noteq> None"
  shows "slot_map_inv (table_after pairs tf c ss) \<and>
    length (table_after pairs tf c ss) = min 12 (2 * length ss + 2) \<and>
    se_condition_id ` set (table_after pairs tf c ss) \<subseteq> set (c # map (next_condition tf) ss) \<and>
    slot_timeframe ` se_slot ` set (table_after pairs tf c ss) \<subseteq> {tf} \<and>
    (6 \<le> length ss \<longrightarrow> (\<forall>e \<in> set (table_after pairs tf c ss). \<not> se_active e))"
  using assms
proof (induction ss rule: rev_induct)
  case Nil
  then obtain pair where "find_by_condition pairs c = Some pair" by auto
  then show ?case
    by (simp add: table_after_Nil) (auto simp: slot_map_inv_def new_entries_def kMaxEntries_def)
next
  case (snoc s ss)
  let ?t = "table_after pairs tf c ss" and ?d = "next_condition tf s"
  let ?m = "stm_demote ?t (current_slot_for tf) (previous_slot_for tf)"
  have IH: "slot_map_inv ?t" "length ?t = min 12 (2 * length ss + 2)"
    "se_condition_id ` set ?t \<subseteq> set (c # map (next_condition tf) ss)" "slot_timeframe ` se_slot ` set ?t \<subseteq> {tf}"
    using snoc by simp_all
  obtain pair where pair: "find_by_condition pairs ?d = Some pair" using snoc.prems by auto
  have fresh: "?d \<notin> se_condition_id ` set ?t" using IH(3) snoc.prems(1) by auto
  have len: "length ?m = length ?t" by (simp add: stm_demote_def)
  have tfs: "slot_timeframe (se_slot e) = tf" if "e \<in> set ?m" for e
    using that IH(4) by (auto simp: stm_demote_def split: if_splits)
  have inactive: "\<forall>e \<in> set ?m. \<not> se_active e"
    using current_entry_timeframe [OF demote_inv [OF IH(1)]] tfs after_demote by blast
  have eq: "table_after pairs tf c (ss @ [s]) =
      (if length ?t + 2 \<le> kMaxEntries then ?m @ new_entries tf pair ?d else ?m)"
    unfolding table_after_snoc rotation_on_table [OF IH(1) pair] using fresh by (simp add: Let_def)
  have conds: "se_condition_id ` set ?m \<subseteq> set (c # map (next_condition tf) ss)"
    using IH(3) by simp
  show ?case
  proof (cases "length ss < 5")
    case True
    then have e: "table_after pairs tf c (ss @ [s]) = ?m @ new_entries tf pair ?d"
      using IH(2) by (simp add: eq kMaxEntries_def)
    have "slot_map_inv (?m @ new_entries tf pair ?d)"
      using demote_inv [OF IH(1), of tf] True IH(2) len
      by (auto simp: slot_map_inv_def new_entries_def kMaxEntries_def)
    then show ?thesis
      unfolding e using True IH(2) conds tfs len by (auto simp: new_entries_def)
  next
    case False
    then have e: "table_after pairs tf c (ss @ [s]) = ?m"
      using IH(2) by (simp add: eq kMaxEntries_def)
    show ?thesis
      unfolding e using False IH(2) conds tfs len inactive demote_inv [OF IH(1), of tf] by auto
  qed
qed

text \<open>C40: Since no entry is ever removed, the table of twelve is full after the sixth market of a series,
  and the markets that follow are never entered: from the sixth rotation on, no token is active.\<close>

theorem slot_table_fills_up:
  assumes "distinct (c # map (next_condition tf) ss)"
    and "\<forall>d \<in> set (c # map (next_condition tf) ss). find_by_condition pairs d \<noteq> None"
    and "6 \<le> length ss"
  shows "length (table_after pairs tf c ss) = kMaxEntries \<and>
         (\<forall>t. \<not> is_active_token (table_after pairs tf c ss) t)"
proof -
  note g = table_grows [OF assms(1,2)]
  have "\<not> is_active_token (table_after pairs tf c ss) t" for t
    using g assms(3)
    by (auto simp: is_active_token_def stm_find_by_token_def find_Some_iff split: option.splits)
  then show ?thesis
    using g assms(3) by (simp add: kMaxEntries_def)
qed

definition sample_pairs :: market_pair_registry where
  "sample_pairs =
     empty_registry\<lparr> by_condition := (\<lambda>c. Some \<lparr> mp_condition_id = c, token_id_up = CHR ''u'' # c,
       token_id_down = CHR ''d'' # c, mp_neg_risk = False, mp_fee_rate_bps = 0 \<rparr>) \<rparr>"

definition manager_with_next :: "string \<Rightarrow> slot_manager" where
  "manager_with_next c =
     set_slot (new_slot_manager sample_slot_config) NEXT_5M
       (new_market_slot\<lparr> ms_market := new_discovered_market\<lparr> dm_condition_id := c \<rparr> \<rparr>)"

lemma next_condition_of [simp]: "length c < 127 \<Longrightarrow> next_condition BTC_5M (manager_with_next c) = c"
  by (simp add: next_condition_def manager_with_next_def set_slot_def next_slot_for_def AssetId_def kMaxAssetIdLen_def)

theorem rotation_switches_active_market_witness:
  "se_token_id ` {e \<in> set (foldl (slot_map_event sample_pairs) []
        (slot_events (snd (rotate_slots (manager_with_next ''a'') BTC_5M)))).
      slot_timeframe (se_slot e) = BTC_5M \<and> se_active e} = {''ua'', ''da''}"
  using rotation_switches_active_market [of "[]" sample_pairs BTC_5M "manager_with_next ''a''" _, OF _ _ _ _ refl]
  by (simp add: slot_map_inv_def kMaxEntries_def sample_pairs_def find_by_condition_def empty_registry_def)

theorem slot_table_fills_up_witness:
  "\<forall>t. \<not> is_active_token (table_after sample_pairs BTC_5M ''a''
      (map manager_with_next [''b'', ''c'', ''d'', ''e'', ''f'', ''g''])) t"
  using slot_table_fills_up [of "''a''" BTC_5M "map manager_with_next [''b'', ''c'', ''d'', ''e'', ''f'', ''g'']"
      sample_pairs]
  by (simp add: sample_pairs_def find_by_condition_def)

subsection \<open>The session's end\<close>

lemma last_window_end_div:
  assumes "0 < e" and "0 < p"
  shows "last_window_end e p = (e div p) * p"
proof -
  have "e < (e div p) * p + p"
    using assms(2) by (simp add: minus_mod_eq_div_mult [symmetric])
  then show ?thesis
    using assms by (simp add: last_window_end_def sdiv_nonneg Let_def)
qed

text \<open>A finite session ends at the last five-minute boundary that is not after the requested end.\<close>

theorem effective_end_is_last_boundary:
  assumes "0 < e"
  shows "compute_effective_end e = 300 * (e div 300) \<and> compute_effective_end e \<le> e \<and>
         e < compute_effective_end e + 300"
proof -
  have "e div 900 = e div 300 div 3"
    using zdiv_zmult2_eq [of 3 e 300] by simp
  moreover have "3 * (e div 300 div 3) \<le> e div 300"
    using mult_div_mod_eq [of 3 "e div 300"] by (simp add: div_mult_mod_eq)
  ultimately have "900 * (e div 900) \<le> 300 * (e div 300)" by linarith
  moreover have "0 \<le> e div 300" "300 * (e div 300) \<le> e" "e < 300 * (e div 300) + 300"
    using assms mult_div_mod_eq [of 300 e] pos_mod_sign [of 300 e] pos_mod_bound [of 300 e]
    by (simp_all only: pos_imp_zdiv_nonneg_iff)
  ultimately show ?thesis
    using assms by (simp add: compute_effective_end_def last_window_end_div)
qed

theorem effective_end_is_last_boundary_witness:
  "compute_effective_end 1000 = 300 * (1000 div 300) \<and> compute_effective_end 1000 \<le> 1000 \<and>
   1000 < compute_effective_end 1000 + 300"
  by (rule effective_end_is_last_boundary) simp

end
