(* ===== verification/Ui_Mirror.thy ===== *)
theory Ui_Mirror
  imports Working_Tracker "HOL-Library.Multiset"
begin

section \<open>The order and trade lists shown to the user\<close>

text \<open>
  src/src/scheduler/strategy_scheduler.cpp, from \<open>on_user_order_event_for_ui\<close> to
  \<open>maybe_push_ui_state\<close>, and src/src/ui_bridge/ui_types.h: the scheduler's copies of the account's
  working orders, closed orders and trades, kept from the user feed and the execution feedback, and
  the bounded snapshot that is sent to the user interface.  A \<open>std::vector\<close> is a list; removing an
  element by moving the last one over it keeps that order.  The lemmas show that the removal of
  matching orders is a filter up to order, that the lists are bounded, that a closed order is not
  reopened by late news, and what the loss of order means for the history that is kept.
\<close>

subsection \<open>Records\<close>

datatype ui_lifecycle = L_WORKING | L_FILLED | L_CANCELED_NO_FILL | L_CANCELED_WITH_FILL | L_REJECTED

record ui_order_record =
  ur_exchange_order_id :: order_id
  ur_client_order_id :: order_id
  ur_asset_id :: asset_id
  ur_market_id :: asset_id
  ur_side :: side
  ur_price :: price
  ur_original_size :: qty
  ur_filled_size :: qty
  ur_lifecycle :: ui_lifecycle
  ur_is_live :: bool
  ur_is_pending :: bool
  ur_last_update_ts :: timestamp
  ur_update_seq :: nat

definition new_ui_order :: ui_order_record where
  "new_ui_order =
     \<lparr> ur_exchange_order_id = [], ur_client_order_id = [], ur_asset_id = [], ur_market_id = [],
       ur_side = BID, ur_price = 0, ur_original_size = 0, ur_filled_size = 0, ur_lifecycle = L_WORKING,
       ur_is_live = False, ur_is_pending = False, ur_last_update_ts = 0, ur_update_seq = 0 \<rparr>"

record ui_trade_record =
  tr_trade_id :: trade_id
  tr_order_id :: order_id
  tr_asset_id :: asset_id
  tr_market_id :: asset_id
  tr_side :: side
  tr_price :: price
  tr_size :: qty
  tr_status :: trade_status
  tr_last_update_ts :: timestamp
  tr_update_seq :: nat

definition new_ui_trade :: ui_trade_record where
  "new_ui_trade =
     \<lparr> tr_trade_id = [], tr_order_id = [], tr_asset_id = [], tr_market_id = [], tr_side = BID,
       tr_price = 0, tr_size = 0, tr_status = T_UNKNOWN, tr_last_update_ts = 0, tr_update_seq = 0 \<rparr>"

definition kMaxUiWorkingOrders :: nat where "kMaxUiWorkingOrders = 64"
definition kMaxUiClosedOrders :: nat where "kMaxUiClosedOrders = 128"
definition kMaxUiTrades :: nat where "kMaxUiTrades = 128"

record ui_mirror =
  um_working :: "ui_order_record list"
  um_closed :: "ui_order_record list"
  um_trades :: "ui_trade_record list"
  um_order_seq :: nat
  um_trade_seq :: nat

definition new_ui_mirror :: ui_mirror where
  "new_ui_mirror =
     \<lparr> um_working = [], um_closed = [], um_trades = [], um_order_seq = 0, um_trade_seq = 0 \<rparr>"

subsection \<open>Matching\<close>

fun classify_lifecycle :: "order_status \<Rightarrow> qty \<Rightarrow> ui_lifecycle" where
  "classify_lifecycle O_LIVE f = L_WORKING"
| "classify_lifecycle O_PARTIAL f = L_WORKING"
| "classify_lifecycle O_UNKNOWN f = L_WORKING"
| "classify_lifecycle O_FILLED f = L_FILLED"
| "classify_lifecycle O_CANCELED f = (if f > 0 then L_CANCELED_WITH_FILL else L_CANCELED_NO_FILL)"
| "classify_lifecycle O_FAILED f = L_REJECTED"

definition same_non_empty :: "order_id \<Rightarrow> order_id \<Rightarrow> bool" where
  "same_non_empty a b \<longleftrightarrow> a \<noteq> [] \<and> b \<noteq> [] \<and> a = b"

definition ids_match :: "order_id \<Rightarrow> order_id \<Rightarrow> order_id \<Rightarrow> order_id \<Rightarrow> bool" where
  "ids_match exchange_a client_a exchange_b client_b \<longleftrightarrow>
     same_non_empty exchange_a exchange_b \<or> same_non_empty client_a client_b \<or>
     same_non_empty exchange_a client_b \<or> same_non_empty client_a exchange_b"

definition rec_matches :: "ui_order_record \<Rightarrow> order_id \<Rightarrow> order_id \<Rightarrow> bool" where
  "rec_matches r ex cl \<longleftrightarrow> ids_match (ur_exchange_order_id r) (ur_client_order_id r) ex cl"

definition same_order :: "ui_order_record \<Rightarrow> ui_order_record \<Rightarrow> bool" where
  "same_order target r \<longleftrightarrow>
     rec_matches r (ur_exchange_order_id target) (ur_client_order_id target) \<or>
     (ur_asset_id target \<noteq> [] \<and> ur_asset_id r = ur_asset_id target \<and> ur_side r = ur_side target \<and>
      ur_price r = ur_price target \<and> ur_original_size r = ur_original_size target)"

text \<open>\<open>rows[i] = rows.back(); rows.pop_back();\<close>\<close>

definition swap_pop :: "'a list \<Rightarrow> nat \<Rightarrow> 'a list" where
  "swap_pop xs i = butlast (xs[i := last xs])"

text \<open>The scan runs from the last index down.\<close>

fun remove_from :: "('a \<Rightarrow> bool) \<Rightarrow> nat \<Rightarrow> 'a list \<Rightarrow> 'a list" where
  "remove_from P 0 xs = xs"
| "remove_from P (Suc i) xs = remove_from P i (if P (xs ! i) then swap_pop xs i else xs)"

definition remove_matching_working :: "ui_order_record \<Rightarrow> ui_order_record list \<Rightarrow> ui_order_record list" where
  "remove_matching_working target ws = remove_from (same_order target) (length ws) ws"

definition push_bounded :: "nat \<Rightarrow> 'a list \<Rightarrow> 'a \<Rightarrow> 'a list" where
  "push_bounded cap xs x = (let ys = xs @ [x] in if length ys > cap then tl ys else ys)"

definition replace_last :: "nat \<Rightarrow> ('a \<Rightarrow> bool) \<Rightarrow> 'a list \<Rightarrow> 'a \<Rightarrow> 'a list" where
  "replace_last cap P xs x =
     push_bounded cap (case find_index P xs of None \<Rightarrow> xs | Some i \<Rightarrow> swap_pop xs i) x"

definition upsert_closed :: "ui_order_record list \<Rightarrow> ui_order_record \<Rightarrow> ui_order_record list" where
  "upsert_closed cs r = replace_last kMaxUiClosedOrders (same_order r) cs r"

text \<open>The single row that satisfies the attributes, if exactly one does.\<close>

definition unique_index :: "('a \<Rightarrow> bool) \<Rightarrow> 'a list \<Rightarrow> nat option" where
  "unique_index P xs =
     (case filter (\<lambda>i. P (xs ! i)) [0 ..< length xs] of [i] \<Rightarrow> Some i | _ \<Rightarrow> None)"

subsection \<open>Orders from the user feed\<close>

record resolved_order =
  rv_exchange :: order_id
  rv_client :: order_id
  rv_asset :: asset_id
  rv_market :: asset_id
  rv_side :: side
  rv_price :: price
  rv_original :: qty
  rv_filled :: qty

definition resolved_of :: "scheduler_event \<Rightarrow> resolved_order" where
  "resolved_of ev =
     \<lparr> rv_exchange = ev_order_id ev, rv_client = ev_client_order_id ev, rv_asset = ev_asset_id ev,
       rv_market = ev_user_market_id ev, rv_side = ev_user_side ev, rv_price = ev_user_price ev,
       rv_original = ev_user_original_size ev, rv_filled = ev_user_cumulative_filled ev \<rparr>"

definition hydrate ::
  "resolved_order \<Rightarrow> order_id \<Rightarrow> order_id \<Rightarrow> asset_id \<Rightarrow> asset_id \<Rightarrow> price \<Rightarrow> qty \<Rightarrow> qty \<Rightarrow> resolved_order" where
  "hydrate rv ex cl asset market p orig filled =
     rv\<lparr> rv_exchange := (if rv_exchange rv = [] \<and> ex \<noteq> [] then ex else rv_exchange rv),
         rv_client := (if rv_client rv = [] \<and> cl \<noteq> [] then cl else rv_client rv),
         rv_asset := (if rv_asset rv = [] \<and> asset \<noteq> [] then asset else rv_asset rv),
         rv_market := (if rv_market rv = [] \<and> market \<noteq> [] then market else rv_market rv),
         rv_price := (if rv_price rv = 0 then p else rv_price rv),
         rv_original := (if rv_original rv \<le> 0 then orig else rv_original rv),
         rv_filled := (if filled > rv_filled rv then filled else rv_filled rv) \<rparr>"

definition tracked_order :: "tracker \<Rightarrow> resolved_order \<Rightarrow> working_order option" where
  "tracked_order t rv =
     (let by_client = (if rv_client rv \<noteq> [] then find_by_client_id t (rv_client rv) else None);
          by_exchange = (if by_client = None \<and> rv_exchange rv \<noteq> []
                         then find_by_exchange_id t (rv_exchange rv) else by_client)
      in if by_exchange = None \<and> rv_market rv \<noteq> []
         then (case find_by_market_side t (rv_market rv) (rv_side rv) of
                 Some w \<Rightarrow>
                   if (rv_asset rv = [] \<or> wo_asset_id w = rv_asset rv) \<and>
                      (rv_price rv \<le> 0 \<or> wo_price w = rv_price rv)
                   then Some w else None
               | None \<Rightarrow> None)
         else by_exchange)"

definition hydrate_from_tracker :: "tracker \<Rightarrow> resolved_order \<Rightarrow> resolved_order" where
  "hydrate_from_tracker t rv =
     (case tracked_order t rv of
        None \<Rightarrow> rv
      | Some w \<Rightarrow> hydrate rv (wo_exchange_order_id w) (wo_client_order_id w) (wo_asset_id w) (wo_market_id w)
                   (wo_price w) (wo_original_size w) (wo_filled_size w))"

definition by_ids :: "resolved_order \<Rightarrow> ui_order_record list \<Rightarrow> nat option" where
  "by_ids rv rows = find_index (\<lambda>r. rec_matches r (rv_exchange rv) (rv_client rv)) rows"

definition user_attributes :: "resolved_order \<Rightarrow> ui_order_record \<Rightarrow> bool" where
  "user_attributes rv r \<longleftrightarrow>
     ur_asset_id r = rv_asset rv \<and> ur_side r = rv_side rv \<and>
     \<not> (rv_market rv \<noteq> [] \<and> ur_market_id r \<noteq> [] \<and> ur_market_id r \<noteq> rv_market rv) \<and>
     \<not> (rv_price rv > 0 \<and> ur_price r \<noteq> rv_price rv) \<and>
     \<not> (rv_original rv > 0 \<and> ur_original_size r \<noteq> rv_original rv)"

definition user_record_idx :: "resolved_order \<Rightarrow> ui_order_record list \<Rightarrow> nat option" where
  "user_record_idx rv rows =
     (case by_ids rv rows of
        Some i \<Rightarrow> Some i
      | None \<Rightarrow> if rv_asset rv = [] then None else unique_index (user_attributes rv) rows)"

definition hydrate_from_row :: "resolved_order \<Rightarrow> ui_order_record \<Rightarrow> resolved_order" where
  "hydrate_from_row rv r =
     hydrate rv (ur_exchange_order_id r) (ur_client_order_id r) (ur_asset_id r) (ur_market_id r)
       (ur_price r) (ur_original_size r) (ur_filled_size r)"

definition hydrate_from_existing :: "ui_mirror \<Rightarrow> resolved_order \<Rightarrow> resolved_order" where
  "hydrate_from_existing u rv =
     (case by_ids rv (um_working u) of
        Some i \<Rightarrow> hydrate_from_row rv (um_working u ! i)
      | None \<Rightarrow>
          (case by_ids rv (um_closed u) of
             Some i \<Rightarrow> hydrate_from_row rv (um_closed u ! i)
           | None \<Rightarrow> rv))"

definition updated_record ::
  "resolved_order \<Rightarrow> scheduler_event \<Rightarrow> nat \<Rightarrow> ui_order_record \<Rightarrow> ui_order_record" where
  "updated_record rv ev seq r =
     (let filled = (if rv_filled rv > ur_filled_size r then rv_filled rv else ur_filled_size r);
          status = ev_order_status_raw ev
      in r\<lparr> ur_exchange_order_id := (if rv_exchange rv \<noteq> [] then rv_exchange rv else ur_exchange_order_id r),
            ur_client_order_id := (if rv_client rv \<noteq> [] then rv_client rv else ur_client_order_id r),
            ur_asset_id := (if rv_asset rv \<noteq> [] then rv_asset rv else ur_asset_id r),
            ur_market_id := (if rv_market rv \<noteq> [] then rv_market rv else ur_market_id r),
            ur_side := rv_side rv,
            ur_price := (if rv_price rv > 0 \<or> ur_price r = 0 then rv_price rv else ur_price r),
            ur_original_size := (if rv_original rv > 0 \<or> ur_original_size r = 0 then rv_original rv
                                 else ur_original_size r),
            ur_filled_size := filled, ur_is_pending := False,
            ur_lifecycle := classify_lifecycle status filled,
            ur_is_live := (status = O_LIVE \<or> status = O_PARTIAL),
            ur_last_update_ts := ev_recv_ts ev, ur_update_seq := seq \<rparr>)"

definition next_seq :: "nat \<Rightarrow> nat" where
  "next_seq n = (n + 1) mod 2 ^ 64"

definition store_working :: "nat option \<Rightarrow> ui_order_record \<Rightarrow> ui_mirror \<Rightarrow> ui_mirror" where
  "store_working idx r u =
     (case idx of
        Some i \<Rightarrow> u\<lparr> um_working := (um_working u)[i := r] \<rparr>
      | None \<Rightarrow> u\<lparr> um_working := remove_matching_working r (um_working u) @ [r] \<rparr>)"

definition close_order :: "ui_order_record \<Rightarrow> ui_mirror \<Rightarrow> ui_mirror" where
  "close_order r u =
     u\<lparr> um_working := remove_matching_working r (um_working u), um_closed := upsert_closed (um_closed u) r \<rparr>"

definition on_user_order_event_for_ui :: "tracker \<Rightarrow> scheduler_event \<Rightarrow> ui_mirror \<Rightarrow> ui_mirror" where
  "on_user_order_event_for_ui t ev u =
     (let rv = hydrate_from_existing u (hydrate_from_tracker t (resolved_of ev));
          working_idx = user_record_idx rv (um_working u);
          closed_idx = user_record_idx rv (um_closed u);
          r0 = (case working_idx of
                  Some i \<Rightarrow> um_working u ! i
                | None \<Rightarrow> (case closed_idx of Some i \<Rightarrow> um_closed u ! i | None \<Rightarrow> new_ui_order));
          seq = next_seq (um_order_seq u);
          r = updated_record rv ev seq r0;
          u1 = u\<lparr> um_order_seq := seq \<rparr>
      in if ur_lifecycle r = L_WORKING
         then if closed_idx \<noteq> None \<and> working_idx = None then u1 else store_working working_idx r u1
         else close_order r u1)"

subsection \<open>Trades\<close>

definition on_user_trade_event_for_ui :: "scheduler_event \<Rightarrow> ui_mirror \<Rightarrow> ui_mirror" where
  "on_user_trade_event_for_ui ev u =
     (let P = (\<lambda>r. tr_trade_id r \<noteq> [] \<and> tr_trade_id r = ev_trade_id ev);
          r0 = (case find_index P (um_trades u) of Some i \<Rightarrow> um_trades u ! i | None \<Rightarrow> new_ui_trade);
          seq = next_seq (um_trade_seq u);
          r = r0\<lparr> tr_trade_id := ev_trade_id ev,
                  tr_order_id := (if ev_order_id ev \<noteq> [] then ev_order_id ev else tr_order_id r0),
                  tr_asset_id := (if ev_asset_id ev \<noteq> [] then ev_asset_id ev else tr_asset_id r0),
                  tr_market_id := (if ev_user_market_id ev \<noteq> [] then ev_user_market_id ev else tr_market_id r0),
                  tr_side := ev_user_side ev, tr_price := ev_user_price ev, tr_size := ev_user_fill_size ev,
                  tr_status := ev_trade_status_raw ev, tr_last_update_ts := ev_recv_ts ev,
                  tr_update_seq := seq \<rparr>
      in u\<lparr> um_trade_seq := seq, um_trades := replace_last kMaxUiTrades P (um_trades u) r \<rparr>)"

subsection \<open>Execution feedback\<close>

text \<open>The tracked order with given exchange and client id, and the ids completed from it.\<close>

definition lookup_ids :: "tracker \<Rightarrow> order_id \<times> order_id \<Rightarrow> working_order option" where
  "lookup_ids t ids =
     (case (if snd ids \<noteq> [] then find_by_client_id t (snd ids) else None) of
        Some w \<Rightarrow> Some w
      | None \<Rightarrow> if fst ids \<noteq> [] then find_by_exchange_id t (fst ids) else None)"

definition complete_ids :: "tracker \<Rightarrow> order_id \<times> order_id \<Rightarrow> order_id \<times> order_id" where
  "complete_ids t ids =
     (case lookup_ids t ids of
        None \<Rightarrow> ids
      | Some w \<Rightarrow>
          (if fst ids = [] \<and> wo_exchange_order_id w \<noteq> [] then wo_exchange_order_id w else fst ids,
           if snd ids = [] \<and> wo_client_order_id w \<noteq> [] then wo_client_order_id w else snd ids))"

definition row_of_tracker :: "working_order \<Rightarrow> ui_order_record" where
  "row_of_tracker w =
     new_ui_order\<lparr> ur_exchange_order_id := wo_exchange_order_id w, ur_client_order_id := wo_client_order_id w,
       ur_asset_id := wo_asset_id w, ur_market_id := wo_market_id w, ur_side := wo_side w,
       ur_price := wo_price w, ur_original_size := wo_original_size w, ur_filled_size := wo_filled_size w,
       ur_is_live := wo_is_live w, ur_is_pending := wo_is_pending w \<rparr>"

definition tracked_row :: "tracker \<Rightarrow> order_id \<times> order_id \<Rightarrow> ui_order_record" where
  "tracked_row t ids = (case lookup_ids t ids of Some w \<Rightarrow> row_of_tracker w | None \<Rightarrow> new_ui_order)"

definition feedback_attributes :: "ui_order_record \<Rightarrow> ui_order_record \<Rightarrow> bool" where
  "feedback_attributes tracked r \<longleftrightarrow>
     ur_asset_id r = ur_asset_id tracked \<and> ur_side r = ur_side tracked \<and>
     \<not> (ur_market_id r \<noteq> [] \<and> ur_market_id tracked \<noteq> [] \<and> ur_market_id r \<noteq> ur_market_id tracked) \<and>
     ur_price r = ur_price tracked \<and> ur_original_size r = ur_original_size tracked"

definition feedback_record_idx ::
  "order_id \<times> order_id \<Rightarrow> ui_order_record \<Rightarrow> ui_order_record list \<Rightarrow> nat option" where
  "feedback_record_idx ids tracked rows =
     (case find_index (\<lambda>r. rec_matches r (fst ids) (snd ids)) rows of
        Some i \<Rightarrow> Some i
      | None \<Rightarrow> if ur_asset_id tracked = [] then None else unique_index (feedback_attributes tracked) rows)"

definition stamp_record ::
  "order_id \<times> order_id \<Rightarrow> ui_lifecycle \<Rightarrow> bool \<Rightarrow> timestamp \<Rightarrow> nat \<Rightarrow> ui_order_record \<Rightarrow> ui_order_record" where
  "stamp_record ids life live now seq r =
     r\<lparr> ur_client_order_id := (if snd ids \<noteq> [] then snd ids else ur_client_order_id r),
        ur_exchange_order_id := (if fst ids \<noteq> [] then fst ids else ur_exchange_order_id r),
        ur_lifecycle := life, ur_is_live := live, ur_is_pending := False, ur_last_update_ts := now,
        ur_update_seq := seq \<rparr>"

definition close_feedback :: "ui_order_record \<Rightarrow> ui_mirror \<Rightarrow> ui_mirror" where
  "close_feedback r u =
     (let u1 = u\<lparr> um_working := remove_matching_working r (um_working u) \<rparr>
      in if ur_client_order_id r \<noteq> [] \<or> ur_exchange_order_id r \<noteq> [] \<or> ur_asset_id r \<noteq> []
         then u1\<lparr> um_closed := upsert_closed (um_closed u1) r \<rparr> else u1)"

definition on_exec_feedback_for_ui :: "tracker \<Rightarrow> scheduler_event \<Rightarrow> timestamp \<Rightarrow> ui_mirror \<Rightarrow> ui_mirror" where
  "on_exec_feedback_for_ui t ev clock u =
     (let now = (if ev_recv_ts ev > 0 then ev_recv_ts ev else clock);
          ids = complete_ids t (ev_order_id ev, ev_client_order_id ev);
          tracked = tracked_row t (ev_order_id ev, ev_client_order_id ev);
          working_idx = feedback_record_idx ids (tracked_row t ids) (um_working u);
          closed_idx = feedback_record_idx ids (tracked_row t ids) (um_closed u);
          r0 = (case working_idx of Some i \<Rightarrow> um_working u ! i | None \<Rightarrow> tracked);
          seq = next_seq (um_order_seq u);
          u1 = u\<lparr> um_order_seq := seq \<rparr>
      in case ev_exec_feedback_kind ev of
           ORDER_ACCEPTED \<Rightarrow>
             if closed_idx \<noteq> None \<and> working_idx = None then u
             else
               let r = stamp_record ids L_WORKING True now seq r0
               in if working_idx \<noteq> None \<or> ur_client_order_id r \<noteq> [] \<or> ur_exchange_order_id r \<noteq> []
                  then store_working working_idx r u1 else u1
         | ORDER_REJECTED \<Rightarrow> close_feedback (stamp_record ids L_REJECTED False now seq r0) u1
         | CANCEL_CONFIRMED \<Rightarrow>
             close_feedback (stamp_record ids
               (if ur_filled_size r0 > 0 then L_CANCELED_WITH_FILL else L_CANCELED_NO_FILL) False now seq r0) u1
         | _ \<Rightarrow> u)"

subsection \<open>The snapshot\<close>

text \<open>\<open>memcmp\<close> of the common length, then the length.\<close>

fun id_before :: "order_id \<Rightarrow> order_id \<Rightarrow> bool" where
  "id_before [] [] \<longleftrightarrow> False"
| "id_before [] (y # ys) \<longleftrightarrow> True"
| "id_before (x # xs) [] \<longleftrightarrow> False"
| "id_before (x # xs) (y # ys) \<longleftrightarrow>
     (of_char x :: nat) < of_char y \<or> ((of_char x :: nat) = of_char y \<and> id_before xs ys)"

definition row_before :: "ui_order_record \<Rightarrow> ui_order_record \<Rightarrow> bool" where
  "row_before a b \<longleftrightarrow>
     (if ur_update_seq a \<noteq> ur_update_seq b then ur_update_seq a > ur_update_seq b
      else if ur_last_update_ts a \<noteq> ur_last_update_ts b then ur_last_update_ts a > ur_last_update_ts b
      else id_before (ur_exchange_order_id a) (ur_exchange_order_id b))"

text \<open>\<open>std::sort\<close> by that order; rows with equal keys keep the order they have here.\<close>

fun insert_row :: "ui_order_record \<Rightarrow> ui_order_record list \<Rightarrow> ui_order_record list" where
  "insert_row r [] = [r]"
| "insert_row r (x # xs) = (if row_before x r then x # insert_row r xs else r # x # xs)"

definition sort_rows :: "ui_order_record list \<Rightarrow> ui_order_record list" where
  "sort_rows rs = foldr insert_row rs []"

definition duplicate_row :: "working_order \<Rightarrow> ui_order_record \<Rightarrow> bool" where
  "duplicate_row w r \<longleftrightarrow>
     rec_matches r (wo_exchange_order_id w) (wo_client_order_id w) \<or>
     (ur_exchange_order_id r = [] \<and> ur_client_order_id r = [] \<and> wo_exchange_order_id w = [] \<and>
      wo_client_order_id w = [] \<and> ur_asset_id r = wo_asset_id w \<and> ur_side r = wo_side w \<and>
      ur_price r = wo_price w \<and> ur_original_size r = wo_original_size w \<and> ur_filled_size r = wo_filled_size w)"

definition overlay_row :: "ui_order_record list \<Rightarrow> working_order \<Rightarrow> ui_order_record list" where
  "overlay_row rows w =
     (if \<not> working w \<or> list_ex (duplicate_row w) rows then rows
      else rows @ [(row_of_tracker w)\<lparr> ur_last_update_ts := wo_sent_ts w \<rparr>])"

definition snapshot_working :: "tracker \<Rightarrow> ui_mirror \<Rightarrow> ui_order_record list" where
  "snapshot_working t u =
     take kMaxUiWorkingOrders
       (sort_rows (foldl overlay_row (filter (\<lambda>r. ur_lifecycle r = L_WORKING) (um_working u)) t))"

definition snapshot_closed :: "ui_mirror \<Rightarrow> ui_order_record list" where
  "snapshot_closed u = take kMaxUiClosedOrders (rev (um_closed u))"

definition snapshot_trades :: "ui_mirror \<Rightarrow> ui_trade_record list" where
  "snapshot_trades u = take kMaxUiTrades (rev (um_trades u))"

subsection \<open>Removal by swapping\<close>

lemma mset_swap_pop:
  assumes "i < length xs"
  shows "mset (swap_pop xs i) + {#xs ! i#} = mset xs"
proof -
  have "xs \<noteq> []" using assms by auto
  have "mset (xs[i := last xs]) = mset xs - {#xs ! i#} + {#last xs#}"
    using assms by (simp add: mset_update)
  moreover have "last (xs[i := last xs]) = last xs"
    using \<open>xs \<noteq> []\<close> by (simp add: last_list_update)
  moreover have "mset (butlast (xs[i := last xs])) + {#last (xs[i := last xs])#} = mset (xs[i := last xs])"
    using \<open>xs \<noteq> []\<close> by (metis append_butlast_last_id list_update_nonempty mset.simps(1,2) mset_append
        union_mset_add_mset_right add_0_right)
  ultimately show ?thesis
    using assms by (simp add: swap_pop_def)
qed

lemma swap_pop_prefix:
  assumes "i < length xs" "j < i"
  shows "swap_pop xs i ! j = xs ! j"
  using assms by (simp add: swap_pop_def nth_butlast)

lemma length_swap_pop [simp]: "length (swap_pop xs i) = length xs - 1"
  by (simp add: swap_pop_def)

lemma remove_from_mset:
  assumes "i \<le> length xs" and "\<forall>x \<in> set (drop i xs). \<not> P x"
  shows "mset (remove_from P i xs) = mset (filter (\<lambda>x. \<not> P x) xs)"
  using assms
proof (induction i arbitrary: xs)
  case 0
  then show ?case by (simp add: filter_True)
next
  case (Suc i)
  then have i: "i < length xs" by simp
  have drop: "drop i xs = xs ! i # drop (Suc i) xs"
    using i by (simp add: Cons_nth_drop_Suc)
  show ?case
  proof (cases "P (xs ! i)")
    case False
    then show ?thesis
      using Suc.prems i drop Suc.IH [of xs] by simp
  next
    case True
    let ?ys = "swap_pop xs i"
    have m: "mset ?ys + {#xs ! i#} = mset xs" using mset_swap_pop [OF i] .
    have "set (drop i ?ys) \<subseteq> set (drop (Suc i) xs)"
    proof (cases "i = length xs - 1")
      case True
      then show ?thesis by simp
    next
      case False
      then have ne: "drop (Suc i) xs \<noteq> []" using i by simp
      have "drop i (xs[i := last xs]) = last xs # drop (Suc i) xs"
        using i Cons_nth_drop_Suc [of i "xs[i := last xs]"] by simp
      then have "drop i ?ys = last (drop (Suc i) xs) # butlast (drop (Suc i) xs)"
        using ne i by (simp add: swap_pop_def drop_butlast last_drop)
      moreover have "last (drop (Suc i) xs) \<in> set (drop (Suc i) xs)" using ne by (rule last_in_set)
      ultimately show ?thesis
        by (metis in_set_butlastD insert_subset list.simps(15) subsetI)
    qed
    then have "\<forall>x \<in> set (drop i ?ys). \<not> P x" using Suc.prems by blast
    then have "mset (remove_from P i ?ys) = mset (filter (\<lambda>x. \<not> P x) ?ys)"
      using Suc.IH [of ?ys] i by simp
    also have "\<dots> = mset (filter (\<lambda>x. \<not> P x) xs)"
      using m True by (metis (no_types, lifting) add.right_neutral filter_empty_mset filter_mset_add_mset
          filter_union_mset mset_filter)
    finally show ?thesis using True by simp
  qed
qed

lemma removal_is_filter_set:
  "set (remove_matching_working target ws) = {r \<in> set ws. \<not> same_order target r}"
proof -
  have "mset (remove_matching_working target ws) = mset (filter (\<lambda>r. \<not> same_order target r) ws)"
    unfolding remove_matching_working_def by (rule remove_from_mset) simp_all
  then show ?thesis by (metis set_filter set_mset_mset)
qed

text \<open>Scanning from the end and moving the last row over each match removes exactly the matching
  rows: what remains is the filtered list up to order.\<close>

theorem removal_is_filter:
  "mset (remove_matching_working target ws) = mset (filter (\<lambda>r. \<not> same_order target r) ws)"
  unfolding remove_matching_working_def by (rule remove_from_mset) simp_all

subsection \<open>Bounds\<close>

definition ui_bounded :: "ui_mirror \<Rightarrow> bool" where
  "ui_bounded u \<longleftrightarrow> length (um_closed u) \<le> kMaxUiClosedOrders \<and> length (um_trades u) \<le> kMaxUiTrades"

lemma length_push_bounded: "0 < cap \<Longrightarrow> length xs \<le> cap \<Longrightarrow> length (push_bounded cap xs x) \<le> cap"
  by (simp add: push_bounded_def Let_def)

lemma length_replace_last:
  "0 < cap \<Longrightarrow> length xs \<le> cap \<Longrightarrow> length (replace_last cap P xs x) \<le> cap"
  unfolding replace_last_def by (rule length_push_bounded) (auto split: option.splits)

lemma length_upsert: "length cs \<le> kMaxUiClosedOrders \<Longrightarrow> length (upsert_closed cs r) \<le> kMaxUiClosedOrders"
  unfolding upsert_closed_def by (rule length_replace_last) (simp_all add: kMaxUiClosedOrders_def)

lemma store_working_bounded: "ui_bounded (store_working i r u) = ui_bounded u"
  by (simp add: store_working_def ui_bounded_def split: option.splits)

text \<open>The closed orders and the trades stay within the sizes of the snapshot, whatever the feeds
  deliver; the working orders have no such bound.\<close>

theorem ui_history_bounded:
  assumes "ui_bounded u"
  shows "ui_bounded (on_user_order_event_for_ui t ev u) \<and> ui_bounded (on_user_trade_event_for_ui ev u) \<and>
         ui_bounded (on_exec_feedback_for_ui t ev now u)"
proof (intro conjI)
  have seq: "ui_bounded (u\<lparr> um_order_seq := n \<rparr>)" for n
    using assms by (simp add: ui_bounded_def)
  have closed: "ui_bounded (close_order r v)" "ui_bounded (close_feedback r v)" if "ui_bounded v" for r v
    using that length_upsert by (auto simp: close_order_def close_feedback_def ui_bounded_def Let_def)
  show "ui_bounded (on_user_order_event_for_ui t ev u)"
    unfolding on_user_order_event_for_ui_def Let_def using seq closed(1) by (simp add: store_working_bounded)
  show "ui_bounded (on_exec_feedback_for_ui t ev now u)"
    unfolding on_exec_feedback_for_ui_def Let_def
    using assms seq closed(2) by (simp add: store_working_bounded split: exec_feedback_kind.split)
  show "ui_bounded (on_user_trade_event_for_ui ev u)"
    using assms
    by (simp add: on_user_trade_event_for_ui_def Let_def ui_bounded_def length_replace_last kMaxUiTrades_def)
qed

theorem ui_history_bounded_witness:
  "ui_bounded (on_user_order_event_for_ui [] new_event new_ui_mirror) \<and>
   ui_bounded (on_user_trade_event_for_ui new_event new_ui_mirror) \<and>
   ui_bounded (on_exec_feedback_for_ui [] new_event 0 new_ui_mirror)"
  by (rule ui_history_bounded) (simp add: ui_bounded_def new_ui_mirror_def)

subsection \<open>Closed orders stay closed\<close>

lemma hydrate_ids:
  "rv_exchange rv \<noteq> [] \<Longrightarrow> rv_client rv \<noteq> [] \<Longrightarrow> rv_asset rv \<noteq> [] \<Longrightarrow>
   rv_exchange (hydrate rv ex cl a m p q f) = rv_exchange rv \<and> rv_client (hydrate rv ex cl a m p q f) = rv_client rv \<and>
   rv_asset (hydrate rv ex cl a m p q f) = rv_asset rv"
  by (simp add: hydrate_def)

lemma hydrated_ids:
  fixes t :: tracker and u :: ui_mirror
  assumes "ev_order_id ev \<noteq> []" "ev_client_order_id ev \<noteq> []" "ev_asset_id ev \<noteq> []"
  defines "rv \<equiv> hydrate_from_existing u (hydrate_from_tracker t (resolved_of ev))"
  shows "rv_exchange rv = ev_order_id ev \<and> rv_client rv = ev_client_order_id ev \<and> rv_asset rv = ev_asset_id ev"
proof -
  let ?r1 = "hydrate_from_tracker t (resolved_of ev)"
  have 1: "rv_exchange ?r1 = ev_order_id ev \<and> rv_client ?r1 = ev_client_order_id ev \<and> rv_asset ?r1 = ev_asset_id ev"
    using assms(1-3)
    by (cases "tracked_order t (resolved_of ev)")
       (simp_all add: hydrate_from_tracker_def resolved_of_def hydrate_def)
  have row: "rv_exchange (hydrate_from_row ?r1 r) = rv_exchange ?r1 \<and>
      rv_client (hydrate_from_row ?r1 r) = rv_client ?r1 \<and> rv_asset (hydrate_from_row ?r1 r) = rv_asset ?r1" for r
    unfolding hydrate_from_row_def by (rule hydrate_ids) (use 1 assms(1-3) in simp_all)
  show ?thesis
    unfolding rv_def hydrate_from_existing_def using 1 row by (simp split: option.split)
qed

text \<open>Late news that an order is working does not bring it back: when the history holds the order's
  exchange id and no listed working order has its ids or its token, both lists stay as they are.\<close>

theorem closed_order_not_reopened:
  assumes "ev_order_status_raw ev \<in> {O_LIVE, O_PARTIAL, O_UNKNOWN}"
    and "ev_order_id ev \<noteq> []" and "ev_client_order_id ev \<noteq> []" and "ev_asset_id ev \<noteq> []"
    and "r \<in> set (um_closed u)" and "ur_exchange_order_id r = ev_order_id ev"
    and "\<forall>w \<in> set (um_working u). \<not> rec_matches w (ev_order_id ev) (ev_client_order_id ev) \<and>
           ur_asset_id w \<noteq> ev_asset_id ev"
  shows "um_working (on_user_order_event_for_ui t ev u) = um_working u \<and>
         um_closed (on_user_order_event_for_ui t ev u) = um_closed u"
proof -
  define rv where "rv = hydrate_from_existing u (hydrate_from_tracker t (resolved_of ev))"
  have rv: "rv_exchange rv = ev_order_id ev" "rv_client rv = ev_client_order_id ev" "rv_asset rv = ev_asset_id ev"
    using hydrated_ids [OF assms(2-4), of u t] by (simp_all add: rv_def)
  have no_ids: "by_ids rv (um_working u) = None"
    using assms(7) by (simp add: by_ids_def rv find_index_None)
  have "\<not> user_attributes rv (um_working u ! i)" if "i < length (um_working u)" for i
    using bspec [OF assms(7) nth_mem [OF that]] by (simp add: user_attributes_def rv)
  then have "filter (\<lambda>i. user_attributes rv (um_working u ! i)) [0 ..< length (um_working u)] = []"
    by (simp add: filter_empty_conv)
  then have working: "user_record_idx rv (um_working u) = None"
    by (simp add: user_record_idx_def no_ids unique_index_def)
  have "rec_matches r (rv_exchange rv) (rv_client rv)"
    using assms(2,6) by (simp add: rec_matches_def ids_match_def same_non_empty_def rv)
  then obtain i where "by_ids rv (um_closed u) = Some i"
    using find_index_ex [of r "um_closed u" "\<lambda>r. rec_matches r (rv_exchange rv) (rv_client rv)"] assms(5)
    by (auto simp: by_ids_def)
  then have closed: "user_record_idx rv (um_closed u) = Some i"
    by (simp add: user_record_idx_def)
  have life: "ur_lifecycle (updated_record rv ev n r0) = L_WORKING" for n r0
    using assms(1) by (auto simp: updated_record_def Let_def)
  have "on_user_order_event_for_ui t ev u = u\<lparr> um_order_seq := next_seq (um_order_seq u) \<rparr>"
    unfolding on_user_order_event_for_ui_def Let_def rv_def [symmetric] working closed life
    by simp
  then show ?thesis by simp
qed

definition sample_closed :: ui_order_record where
  "sample_closed = new_ui_order\<lparr> ur_exchange_order_id := ''e1'', ur_client_order_id := ''c1'', ur_asset_id := ''a'' \<rparr>"

definition sample_late_event :: scheduler_event where
  "sample_late_event = new_event\<lparr> ev_order_id := ''e1'', ev_client_order_id := ''c1'', ev_asset_id := ''a'',
     ev_order_status_raw := O_LIVE \<rparr>"

theorem closed_order_not_reopened_witness:
  "um_working (on_user_order_event_for_ui [] sample_late_event (new_ui_mirror\<lparr> um_closed := [sample_closed] \<rparr>)) =
     um_working (new_ui_mirror\<lparr> um_closed := [sample_closed] \<rparr>) \<and>
   um_closed (on_user_order_event_for_ui [] sample_late_event (new_ui_mirror\<lparr> um_closed := [sample_closed] \<rparr>)) =
     um_closed (new_ui_mirror\<lparr> um_closed := [sample_closed] \<rparr>)"
  by (rule closed_order_not_reopened [of _ sample_closed])
     (simp_all add: sample_late_event_def sample_closed_def new_ui_mirror_def)

subsection \<open>What the history loses\<close>

text \<open>Closing one order also removes every listed order with the same token, side, price and size,
  whatever its ids: two equal orders disappear together when one of them is filled.\<close>

theorem equal_orders_vanish_together:
  assumes "ur_asset_id r \<noteq> []" and "ur_asset_id w = ur_asset_id r" and "ur_side w = ur_side r"
    and "ur_price w = ur_price r" and "ur_original_size w = ur_original_size r"
  shows "w \<notin> set (um_working (close_order r u))"
  using assms by (simp add: close_order_def removal_is_filter_set same_order_def)

theorem equal_orders_vanish_together_witness:
  "sample_closed\<lparr> ur_exchange_order_id := ''e2'', ur_client_order_id := ''c2'' \<rparr> \<notin>
     set (um_working (close_order sample_closed (new_ui_mirror\<lparr> um_working :=
       [sample_closed, sample_closed\<lparr> ur_exchange_order_id := ''e2'', ur_client_order_id := ''c2'' \<rparr>] \<rparr>)))"
  by (rule equal_orders_vanish_together) (simp_all add: sample_closed_def)

lemma swap_pop_first: "2 \<le> length xs \<Longrightarrow> swap_pop xs 0 = last xs # butlast (tl xs)"
  by (cases xs) (auto simp: swap_pop_def)

text \<open>Updating the oldest entry of a full history moves the newest entry to the front, and the next
  closed order drops that newest entry while the older ones stay.\<close>

theorem history_drops_newest:
  assumes "length cs = kMaxUiClosedOrders" and "find_index (same_order r) cs = Some 0"
    and "\<forall>x \<in> set (r # cs). \<not> same_order r' x"
  shows "upsert_closed (upsert_closed cs r) r' = butlast (tl cs) @ [r, r']"
proof -
  have len: "2 \<le> length cs" "length cs = 128" using assms(1) by (simp_all add: kMaxUiClosedOrders_def)
  have 1: "upsert_closed cs r = last cs # butlast (tl cs) @ [r]"
    using len assms(2)
    by (simp add: upsert_closed_def replace_last_def swap_pop_first push_bounded_def kMaxUiClosedOrders_def)
  have "set (last cs # butlast (tl cs) @ [r]) \<subseteq> set (r # cs)"
    using len by (cases cs) (auto dest: in_set_butlastD)
  then have "find_index (same_order r') (last cs # butlast (tl cs) @ [r]) = None"
    using assms(3) by (simp only: find_index_None) blast
  then show ?thesis
    using len unfolding 1 by (simp add: upsert_closed_def replace_last_def push_bounded_def kMaxUiClosedOrders_def)
qed

definition sample_history :: "ui_order_record list" where
  "sample_history = sample_closed # replicate 127 (new_ui_order\<lparr> ur_exchange_order_id := ''x'' \<rparr>)"

theorem history_drops_newest_witness:
  "upsert_closed (upsert_closed sample_history sample_closed) (new_ui_order\<lparr> ur_exchange_order_id := ''y'' \<rparr>) =
   butlast (tl sample_history) @ [sample_closed, new_ui_order\<lparr> ur_exchange_order_id := ''y'' \<rparr>]"
  by (rule history_drops_newest)
     (simp_all add: sample_history_def sample_closed_def kMaxUiClosedOrders_def same_order_def rec_matches_def
       ids_match_def same_non_empty_def new_ui_order_def)

subsection \<open>The snapshot shows the tracked orders\<close>

lemma set_insert_row [simp]: "set (insert_row r xs) = insert r (set xs)"
  by (induction xs) auto

lemma set_sort_rows [simp]: "set (sort_rows rs) = set rs"
  unfolding sort_rows_def by (induction rs) simp_all

lemma length_sort_rows [simp]: "length (sort_rows rs) = length rs"
proof -
  have "length (insert_row r xs) = Suc (length xs)" for r xs by (induction xs) auto
  then show ?thesis unfolding sort_rows_def by (induction rs) simp_all
qed

lemma own_row_duplicate: "duplicate_row w ((row_of_tracker w)\<lparr> ur_last_update_ts := ts \<rparr>)"
  by (auto simp: duplicate_row_def rec_matches_def ids_match_def same_non_empty_def row_of_tracker_def)

lemma overlay_row_facts:
  "set rows \<subseteq> set (overlay_row rows w)"
  "length (overlay_row rows w) \<le> length rows + (if working w then 1 else 0)"
  by (auto simp: overlay_row_def)

lemma overlay_keeps: "set rows \<subseteq> set (foldl overlay_row rows t)"
proof (induction t arbitrary: rows)
  case (Cons w t)
  show ?case
    unfolding foldl_Cons by (rule subset_trans [OF overlay_row_facts(1) Cons.IH])
qed simp

lemma overlay_length: "length (foldl overlay_row rows t) \<le> length rows + length (filter working t)"
proof (induction t arbitrary: rows)
  case (Cons w t)
  show ?case
    using Cons.IH [of "overlay_row rows w"] overlay_row_facts(2) [of rows w] by (simp split: if_splits)
qed simp

lemma overlay_shows: "w \<in> set t \<Longrightarrow> working w \<Longrightarrow> \<exists>r \<in> set (foldl overlay_row rows t). duplicate_row w r"
proof (induction t arbitrary: rows)
  case (Cons x t)
  show ?case
  proof (cases "x = w")
    case True
    then have "\<exists>r \<in> set (overlay_row rows x). duplicate_row w r"
      using Cons.prems own_row_duplicate [of w "wo_sent_ts w"]
      by (auto simp: overlay_row_def list_ex_iff simp del: working_def)
    then show ?thesis using overlay_keeps [of "overlay_row rows x" t] by auto
  next
    case False
    then show ?thesis using Cons by simp
  qed
qed simp

text \<open>As long as the rows fit into the snapshot, each order the tracker has working is shown, by its
  own row or by one of the account with the same ids.\<close>

theorem snapshot_shows_tracked_orders:
  assumes "w \<in> set t" and "working w"
    and "length (filter (\<lambda>r. ur_lifecycle r = L_WORKING) (um_working u)) + length (filter working t) \<le> kMaxUiWorkingOrders"
  shows "\<exists>r \<in> set (snapshot_working t u). duplicate_row w r"
proof -
  have "length (foldl overlay_row (filter (\<lambda>r. ur_lifecycle r = L_WORKING) (um_working u)) t) \<le> kMaxUiWorkingOrders"
    using overlay_length assms(3) by (rule le_trans)
  then show ?thesis
    using overlay_shows [OF assms(1,2)] by (simp add: snapshot_working_def)
qed

theorem snapshot_shows_tracked_orders_witness:
  "\<exists>r \<in> set (snapshot_working [empty_slot\<lparr> wo_occupied := True, wo_client_order_id := ''c'' \<rparr>] new_ui_mirror).
     duplicate_row (empty_slot\<lparr> wo_occupied := True, wo_client_order_id := ''c'' \<rparr>) r"
  by (rule snapshot_shows_tracked_orders)
     (simp_all add: working_def empty_slot_def new_ui_mirror_def kMaxUiWorkingOrders_def)

end
