(* ===== verification/Scheduler.thy ===== *)
theory Scheduler
  imports Slots Ui_Mirror Risk_Gate Sinks Book_Feed
begin

section \<open>The strategy scheduler\<close>

text \<open>
  src/src/scheduler/strategy_scheduler.cpp and strategy_scheduler.h: the thread that takes events from
  the user feed, the execution gateway, the market feed, the slot manager and the user interface, in
  that order of priority, keeps the state they update, asks the strategy for orders and sends what
  the risk gate allows.  The components are those main wires: a mode filter before the execution
  queue, a risk gate, a tracker, an inventory view and a pair registry are always present; the
  journal and the inventory queue may be absent.  The strategy is the interface
  src/src/scheduler/strategy.h: a record of operations on a state of any type.  Shared data that other
  threads write (inventory, pair registry), the clock and the outcomes of queue pushes come with each
  event in an environment record; one clock value is used within an event.  Metrics and log lines are
  left out.  The lemmas show what can leave the program in dry-run mode, what the risk gate has
  checked, what the emergency stop, the session and the sell buttons do, the order and the fairness
  of one pass over the queues, and where a probe can leave an order behind.
\<close>

subsection \<open>The strategy interface\<close>

datatype inventory_op_type = OP_SPLIT | OP_MERGE | OP_REDEEM

record inventory_op_request =
  ir_type :: inventory_op_type
  ir_condition_id :: asset_id
  ir_token_id :: asset_id
  ir_token_id_up :: asset_id
  ir_token_id_down :: asset_id
  ir_quantity :: qty
  ir_request_id :: nat
  ir_created_ts :: timestamp

record strategy_context =
  sx_event :: scheduler_event
  sx_books :: book_store
  sx_inventory :: token_inventory
  sx_inventory_ops :: bool
  sx_tracker :: tracker
  sx_pairs :: market_pair_registry
  sx_state :: strategy_state_stub
  sx_current_time :: timestamp
  sx_slot_map :: "slot_token_map option"

record ('s, 'p, 'b) strategy_ops =
  so_evaluate :: "'s \<Rightarrow> strategy_context \<Rightarrow> 's \<times> intent_batch \<times> inventory_op_request list"
  so_set_enabled :: "'s \<Rightarrow> bool \<Rightarrow> 's"
  so_enabled :: "'s \<Rightarrow> bool"
  so_set_size :: "'s \<Rightarrow> qty \<Rightarrow> 's"
  so_set_dry_run :: "'s \<Rightarrow> bool \<Rightarrow> 's"
  so_reset_all_quotes :: "'s \<Rightarrow> 's"
  so_on_gateway_degraded :: "'s \<Rightarrow> 's"
  so_on_gateway_recovered :: "'s \<Rightarrow> 's"
  so_on_rate_limited :: "'s \<Rightarrow> 's"
  so_spread_ticks :: "'s \<Rightarrow> int"
  so_quote_size :: "'s \<Rightarrow> qty"
  so_on_crypto_price :: "'s \<Rightarrow> 'p \<Rightarrow> 's"
  so_on_binance_update :: "'s \<Rightarrow> 'b \<Rightarrow> 's"

subsection \<open>State\<close>

datatype probe_phase = P_IDLE | P_PLACING | P_WAITING_CANCEL | P_CANCELLING | P_DONE | P_FAILED

record probe_state =
  pb_phase :: probe_phase
  pb_client_order_id :: order_id
  pb_exchange_order_id :: order_id
  pb_place_intent_id :: nat
  pb_cancel_intent_id :: nat
  pb_place_sent_ts :: timestamp
  pb_place_ack_ts :: timestamp
  pb_cancel_sent_ts :: timestamp
  pb_cancel_ack_ts :: timestamp
  pb_probe_start_ts :: timestamp
  pb_order_rtt_ns :: int
  pb_cancel_rtt_ns :: int
  pb_roundtrip_ns :: int
  pb_asset_id :: asset_id
  pb_market_id :: asset_id

definition new_probe :: probe_state where
  "new_probe =
     \<lparr> pb_phase = P_IDLE, pb_client_order_id = [], pb_exchange_order_id = [], pb_place_intent_id = 0,
       pb_cancel_intent_id = 0, pb_place_sent_ts = 0, pb_place_ack_ts = 0, pb_cancel_sent_ts = 0,
       pb_cancel_ack_ts = 0, pb_probe_start_ts = 0, pb_order_rtt_ns = 0, pb_cancel_rtt_ns = 0,
       pb_roundtrip_ns = 0, pb_asset_id = [], pb_market_id = [] \<rparr>"

datatype journal_call =
    JOrderStatus scheduler_event
  | JFill scheduler_event qty
  | JExecFeedback scheduler_event
  | JModeChange execution_mode execution_mode
  | JCancelAll event_source nat
  | JStrategyEval scheduler_event price price price price qty nat
  | JRiskDecision execution_intent risk_decision risk_deny_reason qty int
  | JOrderSent execution_intent price price

datatype sched_out =
    ToExec sink_output
  | InventoryRequest inventory_op_request
  | Journal journal_call

text \<open>The dry-run simulator is the one inside the mode filter, which the constructor wires;
  \<open>sd_accepts\<close> counts the calls of the sink and indexes the outcomes of its pushes.\<close>

record 's scheduler =
  sd_state :: strategy_state_stub
  sd_books :: book_store
  sd_planner :: quote_planner
  sd_strategy :: 's
  sd_risk :: risk_gate
  sd_sink :: mode_filtered_sink
  sd_tracker :: tracker
  sd_session :: trading_session
  sd_slot_map :: slot_token_map
  sd_has_slot_queue :: bool
  sd_has_inventory_sink :: bool
  sd_has_journal :: bool
  sd_next_inventory_id :: nat
  sd_probe :: probe_state
  sd_next_probe_id :: nat
  sd_probe_status :: int
  sd_sell_all_id :: nat
  sd_ui :: ui_mirror
  sd_has_ui_queue :: bool
  sd_last_ui_push_ts :: timestamp
  sd_ui_push_interval_ns :: int
  sd_last_stats_time :: timestamp
  sd_accepts :: nat

record event_env =
  ee_now :: timestamp
  ee_wall_ms :: int
  ee_pushed :: "nat \<Rightarrow> bool"
  ee_inventory_pushed :: bool
  ee_inventory :: token_inventory
  ee_pairs :: market_pair_registry
  ee_pair_order :: "market_pair list"

definition sd_mode :: "'s scheduler \<Rightarrow> execution_mode" where
  "sd_mode s = mf_mode (sd_sink s)"

definition journal :: "'s scheduler \<Rightarrow> journal_call \<Rightarrow> sched_out list" where
  "journal s c = (if sd_has_journal s then [Journal c] else [])"

definition on_sim :: "(dry_run_simulator \<Rightarrow> dry_run_simulator) \<Rightarrow> 's scheduler \<Rightarrow> 's scheduler" where
  "on_sim f s = s\<lparr> sd_sink := (sd_sink s)\<lparr> mf_dry_sim := map_option f (mf_dry_sim (sd_sink s)) \<rparr> \<rparr>"

definition on_strategy :: "('s \<Rightarrow> 's) \<Rightarrow> 's scheduler \<Rightarrow> 's scheduler" where
  "on_strategy f s = s\<lparr> sd_strategy := f (sd_strategy s) \<rparr>"

definition switch_mode :: "execution_mode \<Rightarrow> 's scheduler \<Rightarrow> 's scheduler" where
  "switch_mode m s = s\<lparr> sd_sink := mf_set_mode (sd_sink s) m \<rparr>"

subsection \<open>Sending\<close>

definition sched_accept ::
  "event_env \<Rightarrow> 's scheduler \<Rightarrow> execution_intent \<Rightarrow> 's scheduler \<times> sink_result \<times> sched_out list" where
  "sched_accept e s i =
     (case mf_accept (sd_sink s) i (ee_now e) (ee_pushed e (sd_accepts s)) of (m, r, out) \<Rightarrow>
        (s\<lparr> sd_sink := m, sd_accepts := sd_accepts s + 1 \<rparr>, r, map ToExec out))"

fun accept_each :: "event_env \<Rightarrow> 's scheduler \<Rightarrow> execution_intent list \<Rightarrow> 's scheduler \<times> sched_out list" where
  "accept_each e s [] = (s, [])"
| "accept_each e s (i # is) =
     (case sched_accept e s i of (s1, r, out1) \<Rightarrow>
      case accept_each e s1 is of (s2, out2) \<Rightarrow> (s2, out1 @ out2))"

definition send_all_cancels :: "event_env \<Rightarrow> 's scheduler \<Rightarrow> 's scheduler \<times> sched_out list" where
  "send_all_cancels e s = accept_each e s (map cancel_of (filter working (sd_tracker s)))"

definition send_market_cancels :: "event_env \<Rightarrow> asset_id \<Rightarrow> 's scheduler \<Rightarrow> 's scheduler \<times> sched_out list" where
  "send_market_cancels e c s =
     accept_each e s (map cancel_of (filter (\<lambda>w. working w \<and> wo_market_id w = c) (sd_tracker s)))"

definition cancel_all_intent :: "timestamp \<Rightarrow> execution_intent" where
  "cancel_all_intent now = new_execution_intent\<lparr> in_action := WOULD_CANCEL_ALL, in_created_ts := now \<rparr>"

text \<open>All working orders and then the exchange-wide cancel.\<close>

definition flatten_orders :: "event_env \<Rightarrow> 's scheduler \<Rightarrow> 's scheduler \<times> sched_out list" where
  "flatten_orders e s =
     (case send_all_cancels e s of (s1, out1) \<Rightarrow>
      case sched_accept e s1 (cancel_all_intent (ee_now e)) of (s2, r, out2) \<Rightarrow> (s2, out1 @ out2))"

definition to_dry_run :: "'s scheduler \<Rightarrow> 's scheduler \<times> sched_out list" where
  "to_dry_run s =
     (on_sim (\<lambda>d. dr_set_enabled d True) (switch_mode DRY_RUN s), journal s (JModeChange (sd_mode s) DRY_RUN))"

subsection \<open>Execution feedback to the strategy\<close>

definition emergency_stop :: "event_env \<Rightarrow> 's scheduler \<Rightarrow> 's scheduler \<times> sched_out list" where
  "emergency_stop e s =
     (case flatten_orders e s of (s1, out1) \<Rightarrow>
      case to_dry_run s1 of (s2, out2) \<Rightarrow>
        (if ses_state (sd_session s2) \<noteq> SES_IDLE then s2\<lparr> sd_session := new_session \<rparr> else s2, out1 @ out2))"

definition route_feedback ::
  "('s, 'p, 'b) strategy_ops \<Rightarrow> event_env \<Rightarrow> scheduler_event \<Rightarrow> 's scheduler \<Rightarrow> 's scheduler \<times> sched_out list" where
  "route_feedback ops e ev s =
     (if ev_source ev \<noteq> EXEC_INTERNAL then (s, [])
      else if ev_exec_feedback_kind ev = GATEWAY_DEGRADED then (on_strategy (so_on_gateway_degraded ops) s, [])
      else if ev_exec_feedback_kind ev = GATEWAY_RECOVERED then (on_strategy (so_on_gateway_recovered ops) s, [])
      else if ev_exec_feedback_kind ev = EXCHANGE_UNAVAILABLE then emergency_stop e s
      else if ev_exec_feedback_kind ev = RATE_LIMITED then (on_strategy (so_on_rate_limited ops) s, [])
      else (s, []))"

subsection \<open>Control events\<close>

text \<open>The parser of commands lets only the modes 0 and 1 through.\<close>

definition mode_of_nat :: "nat \<Rightarrow> execution_mode" where
  "mode_of_nat n = (if n = 0 then DRY_RUN else LIVE_MODE)"

definition handle_set_mode ::
  "('s, 'p, 'b) strategy_ops \<Rightarrow> scheduler_event \<Rightarrow> 's scheduler \<Rightarrow> 's scheduler \<times> sched_out list" where
  "handle_set_mode ops ev s =
     (let new_mode = mode_of_nat (ev_control_mode ev); dry = (new_mode = DRY_RUN);
          s1 = on_strategy (\<lambda>st. so_set_dry_run ops st dry)
                 (on_sim (\<lambda>d. dr_set_enabled d dry) (switch_mode new_mode s));
          s2 = (if dry then s1
                else on_strategy (so_reset_all_quotes ops)
                       ((on_sim dr_reset s1)\<lparr> sd_tracker := clear_all (sd_tracker s1) \<rparr>))
      in (s2, journal s (JModeChange (sd_mode s) new_mode)))"

definition handle_inventory_op ::
  "event_env \<Rightarrow> scheduler_event \<Rightarrow> inventory_op_type \<Rightarrow> 's scheduler \<Rightarrow> 's scheduler \<times> sched_out list" where
  "handle_inventory_op e ev ty s =
     (if \<not> sd_has_inventory_sink s then (s, [])
      else
        let req = \<lparr> ir_type = ty, ir_condition_id = ev_control_condition_id ev,
                    ir_token_id = ev_control_token_id ev, ir_token_id_up = [], ir_token_id_down = [],
                    ir_quantity = ev_control_qty_param ev, ir_request_id = sd_next_inventory_id s,
                    ir_created_ts = ee_now e \<rparr>
        in (s\<lparr> sd_next_inventory_id := (sd_next_inventory_id s + 1) mod 2 ^ 32 \<rparr>,
            if ee_inventory_pushed e then [InventoryRequest req] else []))"

definition handle_cancel_all ::
  "event_env \<Rightarrow> scheduler_event \<Rightarrow> 's scheduler \<Rightarrow> 's scheduler \<times> sched_out list" where
  "handle_cancel_all e ev s =
     (case flatten_orders e s of (s1, out) \<Rightarrow>
        (s1, journal s (JCancelAll (ev_source ev) (working_count (sd_tracker s))) @ out))"

definition handle_slot_closing ::
  "event_env \<Rightarrow> scheduler_event \<Rightarrow> 's scheduler \<Rightarrow> 's scheduler \<times> sched_out list" where
  "handle_slot_closing e ev s =
     accept_each e (s\<lparr> sd_slot_map := slot_map_event (ee_pairs e) (sd_slot_map s) ev \<rparr>)
       (cancel_intents_for_market (sd_tracker s) (ev_control_condition_id ev))"

definition session_end ::
  "('s, 'p, 'b) strategy_ops \<Rightarrow> event_env \<Rightarrow> 's scheduler \<Rightarrow> 's scheduler \<times> sched_out list" where
  "session_end ops e s =
     (case flatten_orders e s of (s1, out1) \<Rightarrow>
      case to_dry_run s1 of (s2, out2) \<Rightarrow>
        ((on_strategy (\<lambda>st. so_set_dry_run ops (so_set_enabled ops st False) True) s2)\<lparr> sd_session := new_session \<rparr>,
         out1 @ out2))"

definition session_go_live ::
  "('s, 'p, 'b) strategy_ops \<Rightarrow> event_env \<Rightarrow> 's scheduler \<Rightarrow> 's scheduler \<times> sched_out list" where
  "session_go_live ops e s =
     (let s1 = s\<lparr> sd_session := (sd_session s)\<lparr> ses_state := SES_ACTIVE, ses_started_at_ms := ee_wall_ms e \<rparr> \<rparr>;
          s2 = on_sim (\<lambda>d. dr_reset (dr_set_enabled d False)) (switch_mode LIVE_MODE s1)
      in (on_strategy (\<lambda>st. so_set_dry_run ops st False) s2, journal s (JModeChange (sd_mode s) LIVE_MODE)))"

definition handle_slot_promoted ::
  "('s, 'p, 'b) strategy_ops \<Rightarrow> event_env \<Rightarrow> scheduler_event \<Rightarrow> 's scheduler \<Rightarrow> 's scheduler \<times> sched_out list" where
  "handle_slot_promoted ops e ev s0 =
     (let s = s0\<lparr> sd_slot_map := slot_map_event (ee_pairs e) (sd_slot_map s0) ev \<rparr>;
          window_end_s = ev_control_qty_param ev; ses = sd_session s
      in case ses_state ses of
           SES_PENDING \<Rightarrow>
             if exceeds_end ses window_end_s then (s\<lparr> sd_session := new_session \<rparr>, [])
             else session_go_live ops e s
         | SES_ACTIVE \<Rightarrow>
             (let s1 = s\<lparr> sd_session := ses\<lparr> ses_markets_entered := ses_markets_entered ses + 1 \<rparr> \<rparr>
              in if exceeds_end (sd_session s1) window_end_s then session_end ops e s1 else (s1, []))
         | SES_IDLE \<Rightarrow> (s, []))"

definition handle_start_session ::
  "('s, 'p, 'b) strategy_ops \<Rightarrow> scheduler_event \<Rightarrow> 's scheduler \<Rightarrow> 's scheduler" where
  "handle_start_session ops ev s =
     (if ses_state (sd_session s) \<noteq> SES_IDLE then s
      else on_strategy (\<lambda>st. so_set_enabled ops st True)
             (s\<lparr> sd_session := (sd_session s)\<lparr> ses_end_time_s := ev_control_qty_param ev,
                   ses_effective_end_s := compute_effective_end (ev_control_qty_param ev),
                   ses_state := SES_PENDING \<rparr> \<rparr>))"

definition handle_stop_session :: "event_env \<Rightarrow> 's scheduler \<Rightarrow> 's scheduler \<times> sched_out list" where
  "handle_stop_session e s =
     (if ses_state (sd_session s) = SES_IDLE then (s, [])
      else case flatten_orders e s of (s1, out1) \<Rightarrow>
           case to_dry_run s1 of (s2, out2) \<Rightarrow> (s2\<lparr> sd_session := new_session \<rparr>, out1 @ out2))"

subsection \<open>The latency probe\<close>

definition idle_probe :: "probe_phase \<Rightarrow> bool" where
  "idle_probe p \<longleftrightarrow> p = P_IDLE \<or> p = P_DONE \<or> p = P_FAILED"

text \<open>The first active token of the slot table with a registered pair, or any registered pair.\<close>

definition probe_pair :: "event_env \<Rightarrow> slot_token_map \<Rightarrow> market_pair option" where
  "probe_pair e m =
     (case first_some (\<lambda>en. if se_active en then find_by_condition (ee_pairs e) (se_condition_id en) else None) m of
        Some pair \<Rightarrow> Some pair
      | None \<Rightarrow> (case ee_pair_order e of [] \<Rightarrow> None | pair # _ \<Rightarrow> Some pair))"

definition probe_place :: "probe_state \<Rightarrow> market_pair \<Rightarrow> timestamp \<Rightarrow> execution_intent" where
  "probe_place pb pair now =
     new_execution_intent\<lparr> in_action := WOULD_PLACE_BID, in_asset_id := pb_asset_id pb,
       in_market_id := pb_market_id pb, in_client_order_id := pb_client_order_id pb, in_price := 100,
       in_qty := qty_from_int 5, in_intent_id := pb_place_intent_id pb, in_created_ts := now,
       in_order_type := GTC, in_neg_risk := mp_neg_risk pair, in_fee_rate_bps := mp_fee_rate_bps pair \<rparr>"

definition handle_latency_probe ::
  "('s, 'p, 'b) strategy_ops \<Rightarrow> event_env \<Rightarrow> 's scheduler \<Rightarrow> 's scheduler \<times> sched_out list" where
  "handle_latency_probe ops e s =
     (if \<not> idle_probe (pb_phase (sd_probe s)) then (s, [])
      else if sd_mode s \<noteq> LIVE_MODE \<or> so_enabled ops (sd_strategy s) then (s\<lparr> sd_probe_status := 3 \<rparr>, [])
      else case probe_pair e (sd_slot_map s) of
        None \<Rightarrow> (s\<lparr> sd_probe_status := 3 \<rparr>, [])
      | Some pair \<Rightarrow>
          (let n = sd_next_probe_id s;
               pb = new_probe\<lparr> pb_phase := P_PLACING, pb_probe_start_ts := ee_now e,
                      pb_asset_id := token_id_up pair, pb_market_id := mp_condition_id pair,
                      pb_place_intent_id := n, pb_client_order_id := OrderId (''PROBE_'' @ to_string n),
                      pb_place_sent_ts := ee_now e \<rparr>;
               (s1, r, out) = sched_accept e (s\<lparr> sd_probe := pb, sd_next_probe_id := (n + 1) mod 2 ^ 32 \<rparr>)
                                (probe_place pb pair (ee_now e))
           in (if r \<noteq> SINK_ACCEPTED
               then s1\<lparr> sd_probe := pb\<lparr> pb_phase := P_FAILED \<rparr>, sd_probe_status := 3 \<rparr>
               else s1\<lparr> sd_probe_status := 1 \<rparr>, out)))"

definition handle_probe_feedback :: "event_env \<Rightarrow> scheduler_event \<Rightarrow> 's scheduler \<Rightarrow> 's scheduler" where
  "handle_probe_feedback e ev s =
     (let pb = sd_probe s; now = ee_now e; fb = ev_exec_feedback_kind ev
      in if ev_client_order_id ev \<noteq> pb_client_order_id pb then s
         else if pb_phase pb = P_PLACING then
           (if fb = ORDER_ACCEPTED then
              s\<lparr> sd_probe := pb\<lparr> pb_place_ack_ts := now, pb_order_rtt_ns := now - pb_place_sent_ts pb,
                   pb_exchange_order_id := ev_order_id ev, pb_phase := P_WAITING_CANCEL \<rparr> \<rparr>
            else if fb = ORDER_REJECTED \<or> fb = RATE_LIMITED \<or> fb = FB_TIMEOUT then
              s\<lparr> sd_probe := pb\<lparr> pb_phase := P_FAILED \<rparr>, sd_probe_status := 3 \<rparr>
            else s)
         else if pb_phase pb = P_CANCELLING then
           (if fb = CANCEL_CONFIRMED then
              s\<lparr> sd_probe := pb\<lparr> pb_cancel_ack_ts := now, pb_cancel_rtt_ns := now - pb_cancel_sent_ts pb,
                   pb_roundtrip_ns := now - pb_probe_start_ts pb, pb_phase := P_DONE \<rparr>, sd_probe_status := 2 \<rparr>
            else if fb = ORDER_REJECTED \<or> fb = FB_TIMEOUT then
              s\<lparr> sd_probe := pb\<lparr> pb_phase := P_FAILED \<rparr>, sd_probe_status := 3 \<rparr>
            else s)
         else s)"

definition kProbeCancelDelayNs :: int where "kProbeCancelDelayNs = 1000000000"
definition kProbeTimeoutNs :: int where "kProbeTimeoutNs = 10000000000"

definition probe_cancel :: "probe_state \<Rightarrow> timestamp \<Rightarrow> execution_intent" where
  "probe_cancel pb now =
     new_execution_intent\<lparr> in_action := WOULD_CANCEL_BID, in_asset_id := pb_asset_id pb,
       in_market_id := pb_market_id pb, in_exchange_order_id := pb_exchange_order_id pb,
       in_client_order_id := pb_client_order_id pb, in_intent_id := pb_cancel_intent_id pb,
       in_created_ts := now \<rparr>"

definition check_probe_cancel_timer :: "event_env \<Rightarrow> 's scheduler \<Rightarrow> 's scheduler \<times> sched_out list" where
  "check_probe_cancel_timer e s =
     (let pb = sd_probe s; now = ee_now e
      in if pb_phase pb \<noteq> P_WAITING_CANCEL \<or> now - pb_place_ack_ts pb < kProbeCancelDelayNs then (s, [])
         else
           let n = sd_next_probe_id s;
               pb' = pb\<lparr> pb_cancel_intent_id := n, pb_cancel_sent_ts := now, pb_phase := P_CANCELLING \<rparr>;
               (s1, r, out) = sched_accept e (s\<lparr> sd_probe := pb', sd_next_probe_id := (n + 1) mod 2 ^ 32 \<rparr>)
                                (probe_cancel pb' now)
           in (s1, out))"

definition check_probe_timeout :: "event_env \<Rightarrow> 's scheduler \<Rightarrow> 's scheduler" where
  "check_probe_timeout e s =
     (let pb = sd_probe s
      in if idle_probe (pb_phase pb) then s
         else if ee_now e - pb_probe_start_ts pb > kProbeTimeoutNs
         then s\<lparr> sd_probe := pb\<lparr> pb_phase := P_FAILED \<rparr>, sd_probe_status := 3 \<rparr> else s)"

subsection \<open>Selling everything\<close>

definition kSellShareRound :: int where "kSellShareRound = 10000"

fun sell_intents ::
  "token_inventory \<Rightarrow> timestamp \<Rightarrow> nat \<Rightarrow> (asset_id \<times> market_pair) list \<Rightarrow> execution_intent list \<times> nat" where
  "sell_intents iv now n [] = ([], n)"
| "sell_intents iv now n ((token, pair) # ts) =
     (let pos = position_for iv token; rounded = (pos sdiv kSellShareRound) * kSellShareRound
      in if pos \<le> 0 \<or> rounded \<le> 0 then sell_intents iv now n ts
         else
           let fak = new_execution_intent\<lparr> in_action := WOULD_PLACE_ASK, in_asset_id := token,
                 in_market_id := mp_condition_id pair, in_price := 100, in_qty := rounded,
                 in_order_type := FAK, in_intent_id := n, in_created_ts := now,
                 in_neg_risk := mp_neg_risk pair, in_fee_rate_bps := mp_fee_rate_bps pair \<rparr>;
               (rest, n') = sell_intents iv now ((n + 1) mod 2 ^ 32) ts
           in (fak # rest, n'))"

definition sell_tokens :: "bool \<Rightarrow> market_pair list \<Rightarrow> (asset_id \<times> market_pair) list" where
  "sell_tokens sell_down pairs =
     concat (map (\<lambda>p. if sell_down then [(token_id_down p, p)]
                      else [(token_id_up p, p), (token_id_down p, p)]) pairs)"

definition handle_market_sell ::
  "('s, 'p, 'b) strategy_ops \<Rightarrow> event_env \<Rightarrow> bool \<Rightarrow> 's scheduler \<Rightarrow> 's scheduler \<times> sched_out list" where
  "handle_market_sell ops e sell_down s =
     (let prev_mode = sd_mode s;
          s1 = switch_mode LIVE_MODE (on_strategy (\<lambda>st. so_set_enabled ops st False) s);
          (s2, out2) = send_all_cancels e s1;
          (sells, n) = sell_intents (ee_inventory e) (ee_now e) (sd_sell_all_id s2)
                         (sell_tokens sell_down (ee_pair_order e));
          (s3, out3) = accept_each e (s2\<lparr> sd_sell_all_id := n \<rparr>) sells
      in (switch_mode prev_mode s3, out2 @ out3))"

subsection \<open>Dispatch of control events\<close>

definition handle_control ::
  "('s, 'p, 'b) strategy_ops \<Rightarrow> event_env \<Rightarrow> scheduler_event \<Rightarrow> 's scheduler \<Rightarrow> 's scheduler \<times> sched_out list" where
  "handle_control ops e ev s =
     (if ev_source ev \<noteq> CONTROL then (s, [])
      else case ev_kind ev of
        CONTROL_SET_MODE \<Rightarrow> handle_set_mode ops ev s
      | CONTROL_SET_SIZE \<Rightarrow>
          (on_strategy (\<lambda>st. so_set_size ops st (ev_control_int_param ev * kQtyScale)) s, [])
      | CONTROL_ENABLE_STRATEGY \<Rightarrow>
          (on_strategy (\<lambda>st. so_set_enabled ops st (ev_control_bool_param ev)) s, [])
      | CONTROL_CANCEL_ALL \<Rightarrow> handle_cancel_all e ev s
      | CONTROL_INVENTORY_SPLIT \<Rightarrow> handle_inventory_op e ev OP_SPLIT s
      | CONTROL_INVENTORY_MERGE \<Rightarrow> handle_inventory_op e ev OP_MERGE s
      | CONTROL_INVENTORY_REDEEM \<Rightarrow> handle_inventory_op e ev OP_REDEEM s
      | SLOT_ACTIVATED \<Rightarrow> (s\<lparr> sd_slot_map := slot_map_event (ee_pairs e) (sd_slot_map s) ev \<rparr>, [])
      | SLOT_CLOSING \<Rightarrow> handle_slot_closing e ev s
      | SLOT_PROMOTED \<Rightarrow> handle_slot_promoted ops e ev s
      | SLOT_DEMOTED \<Rightarrow> (s\<lparr> sd_slot_map := slot_map_event (ee_pairs e) (sd_slot_map s) ev \<rparr>, [])
      | SLOT_REMOVED \<Rightarrow> (s\<lparr> sd_slot_map := slot_map_event (ee_pairs e) (sd_slot_map s) ev \<rparr>, [])
      | CONTROL_START_SESSION \<Rightarrow> (handle_start_session ops ev s, [])
      | CONTROL_STOP_SESSION \<Rightarrow> handle_stop_session e s
      | CONTROL_LATENCY_PROBE \<Rightarrow> handle_latency_probe ops e s
      | CONTROL_MARKET_SELL_ALL \<Rightarrow> handle_market_sell ops e False s
      | CONTROL_MARKET_SELL_DOWN \<Rightarrow> handle_market_sell ops e True s
      | _ \<Rightarrow> (s, []))"

subsection \<open>From the strategy to the sink\<close>

definition should_trigger :: "scheduler_event \<Rightarrow> bool" where
  "should_trigger ev =
     (case ev_source ev of
        MARKET_WS \<Rightarrow> ev_kind ev \<in> {MARKET_BOOK_SNAPSHOT, MARKET_PRICE_CHANGE, MARKET_BBO_UPDATE, MARKET_RESOLVED}
      | USER_WS \<Rightarrow> True
      | EXEC_INTERNAL \<Rightarrow> True
      | CONTROL \<Rightarrow> ev_kind ev \<in> {SLOT_ACTIVATED, SLOT_CLOSING})"

definition enrich_intent :: "market_pair_registry \<Rightarrow> execution_intent \<Rightarrow> execution_intent" where
  "enrich_intent pairs i =
     (if in_market_id i = [] then i
      else case find_by_condition pairs (in_market_id i) of
             None \<Rightarrow> i
           | Some pair \<Rightarrow> i\<lparr> in_neg_risk := mp_neg_risk pair, in_fee_rate_bps := mp_fee_rate_bps pair \<rparr>)"

text \<open>One planned intent: the risk gate, the sink, the tracker.\<close>

definition submit_intent ::
  "event_env \<Rightarrow> scheduler_event \<Rightarrow> 's scheduler \<Rightarrow> execution_intent \<Rightarrow> 's scheduler \<times> sched_out list" where
  "submit_intent e ev s i =
     (let (g, rr) = risk_evaluate (sd_risk s) (Some (ee_inventory e)) (Some (sd_tracker s)) (Some (ee_pairs e)) i;
          s1 = s\<lparr> sd_risk := g \<rparr>;
          jr = journal s1 (JRiskDecision i (rr_decision rr) (rr_reason rr)
                 (position_for (ee_inventory e) (in_asset_id i)) (total_working_notional (sd_tracker s1)))
      in if rr_decision rr \<noteq> ALLOW then (s1, jr)
         else
           let (s2, r, out) = sched_accept e s1 i;
               s3 = (if r = SINK_ACCEPTED \<and> sd_mode s2 \<noteq> DRY_RUN
                     then s2\<lparr> sd_tracker := fst (on_intent_sent (sd_tracker s2) i) \<rparr> else s2);
               js = (if r = SINK_ACCEPTED
                     then journal s3 (JOrderSent i (best_bid (ev_bbo ev)) (best_ask (ev_bbo ev))) else [])
           in (s3, jr @ out @ js))"

fun submit_all ::
  "event_env \<Rightarrow> scheduler_event \<Rightarrow> 's scheduler \<Rightarrow> execution_intent list \<Rightarrow> 's scheduler \<times> sched_out list" where
  "submit_all e ev s [] = (s, [])"
| "submit_all e ev s (i # is) =
     (case submit_intent e ev s i of (s1, out1) \<Rightarrow>
      case submit_all e ev s1 is of (s2, out2) \<Rightarrow> (s2, out1 @ out2))"

definition strategy_context_of :: "event_env \<Rightarrow> scheduler_event \<Rightarrow> 's scheduler \<Rightarrow> strategy_context" where
  "strategy_context_of e ev s =
     \<lparr> sx_event = ev, sx_books = sd_books s, sx_inventory = ee_inventory e,
       sx_inventory_ops = (sd_mode s \<noteq> DRY_RUN \<and> sd_has_inventory_sink s), sx_tracker = sd_tracker s,
       sx_pairs = ee_pairs e, sx_state = sd_state s, sx_current_time = ee_now e,
       sx_slot_map = (if sd_has_slot_queue s then Some (sd_slot_map s) else None) \<rparr>"

text \<open>The cancels a denied intent has asked for, and those of a resolved market.\<close>

definition risk_cancels :: "event_env \<Rightarrow> 's scheduler \<Rightarrow> 's scheduler \<times> sched_out list" where
  "risk_cancels e s =
     (if rg_pending_cancel_all (sd_risk s)
      then case send_all_cancels e s of (s', out) \<Rightarrow>
             (s'\<lparr> sd_risk := clear_pending_cancel_all (sd_risk s') \<rparr>, out)
      else (s, []))"

definition resolved_cancels ::
  "event_env \<Rightarrow> scheduler_event \<Rightarrow> 's scheduler \<Rightarrow> 's scheduler \<times> sched_out list" where
  "resolved_cancels e ev s =
     (if ev_kind ev = MARKET_RESOLVED \<and> ev_resolved_condition_id ev \<noteq> []
      then send_market_cancels e (ev_resolved_condition_id ev) s else (s, []))"

definition run_strategy ::
  "('s, 'p, 'b) strategy_ops \<Rightarrow> event_env \<Rightarrow> scheduler_event \<Rightarrow> 's scheduler \<Rightarrow> 's scheduler \<times> sched_out list" where
  "run_strategy ops e ev s0 =
     (let s = s0\<lparr> sd_state := (sd_state s0)\<lparr> sst_trigger_count := sst_trigger_count (sd_state s0) + 1 \<rparr> \<rparr>;
          ctx = strategy_context_of e ev s;
          (st, batch, reqs) = so_evaluate ops (sd_strategy s) ctx;
          intents = take kMaxIntents batch;
          s1 = s\<lparr> sd_strategy := st \<rparr>;
          out1 = (if sx_inventory_ops ctx then map InventoryRequest reqs else []);
          je = (case intents of
                  [] \<Rightarrow> []
                | i # is \<Rightarrow> journal s1 (JStrategyEval ev (best_bid (ev_bbo ev)) (best_ask (ev_bbo ev)) (in_price i)
                              (case is of [] \<Rightarrow> 0 | i2 # _ \<Rightarrow> in_price i2) (in_qty i) (length intents)));
          (s2, out2) = submit_all e ev s1 (concat (map plan (map (enrich_intent (ee_pairs e)) intents)));
          (s3, out3) = risk_cancels e s2;
          (s4, out4) = resolved_cancels e ev s3
      in (s4, out1 @ je @ out2 @ out3 @ out4))"

subsection \<open>One event\<close>

definition note_tick_size :: "scheduler_event \<Rightarrow> 's scheduler \<Rightarrow> 's scheduler" where
  "note_tick_size ev s =
     (if ev_source ev = MARKET_WS \<and> ev_kind ev = MARKET_TICK_SIZE_CHANGE \<and> ev_market_tick_size ev > 0
      then s\<lparr> sd_planner := planner_set_tick_size (sd_planner s) (ev_asset_id ev) (ev_market_tick_size ev) \<rparr>
      else s)"

definition journal_user :: "event_env \<Rightarrow> scheduler_event \<Rightarrow> 's scheduler \<Rightarrow> sched_out list" where
  "journal_user e ev s =
     (if ev_source ev \<noteq> USER_WS then []
      else if ev_kind ev = USER_ORDER_UPDATE then journal s (JOrderStatus ev)
      else if ev_kind ev = USER_TRADE_UPDATE \<and> ev_is_new_fill ev
      then journal s (JFill ev (position_for (ee_inventory e) (ev_asset_id ev))) else [])"

definition mirror_event :: "event_env \<Rightarrow> scheduler_event \<Rightarrow> 's scheduler \<Rightarrow> 's scheduler" where
  "mirror_event e ev s =
     (if ev_source ev = USER_WS \<and> ev_kind ev = USER_ORDER_UPDATE
      then s\<lparr> sd_ui := on_user_order_event_for_ui (sd_tracker s) ev (sd_ui s) \<rparr>
      else if ev_source ev = USER_WS \<and> ev_kind ev = USER_TRADE_UPDATE
      then s\<lparr> sd_ui := on_user_trade_event_for_ui ev (sd_ui s) \<rparr>
      else if ev_source ev = EXEC_INTERNAL \<and> sd_mode s \<noteq> DRY_RUN
      then s\<lparr> sd_ui := on_exec_feedback_for_ui (sd_tracker s) ev (ee_now e) (sd_ui s) \<rparr>
      else s)"

definition feed_tracker :: "scheduler_event \<Rightarrow> 's scheduler \<Rightarrow> 's scheduler" where
  "feed_tracker ev s =
     (if sd_mode s = DRY_RUN then s
      else if ev_source ev = EXEC_INTERNAL then s\<lparr> sd_tracker := on_exec_feedback (sd_tracker s) ev \<rparr>
      else if ev_source ev = USER_WS then s\<lparr> sd_tracker := on_user_update (sd_tracker s) ev \<rparr>
      else s)"

text \<open>What an event updates before the strategy is asked.\<close>

definition absorb_event :: "event_env \<Rightarrow> scheduler_event \<Rightarrow> 's scheduler \<Rightarrow> 's scheduler" where
  "absorb_event e ev s =
     feed_tracker ev (mirror_event e ev (note_tick_size ev (s\<lparr> sd_state := state_on_event (sd_state s) ev \<rparr>)))"

definition process_event ::
  "('s, 'p, 'b) strategy_ops \<Rightarrow> event_env \<Rightarrow> scheduler_event \<Rightarrow> 's scheduler \<Rightarrow> 's scheduler \<times> sched_out list" where
  "process_event ops e ev s =
     (let s1 = absorb_event e ev s;
          j = journal_user e ev s @ (if ev_source ev = EXEC_INTERNAL then journal s (JExecFeedback ev) else []);
          (s2, out2) = route_feedback ops e ev s1;
          (s3, out3) = handle_control ops e ev s2;
          s4 = (if ev_source ev = EXEC_INTERNAL then handle_probe_feedback e ev s3 else s3);
          (s5, out5) = (if should_trigger ev then run_strategy ops e ev s4 else (s4, []))
      in (s5, j @ out2 @ out3 @ out5))"

subsection \<open>One pass over the queues\<close>

record scheduler_config =
  scf_max_user :: int
  scf_max_exec :: int
  scf_max_market :: int
  scf_max_control :: int
  scf_max_binance :: int
  scf_stats_interval_ms :: int
  scf_poll_strategy :: int
  scf_sleep_us :: int

definition clamp :: "int \<Rightarrow> int \<Rightarrow> int \<Rightarrow> int" where
  "clamp lo hi v = (let v1 = (if v < lo then lo else v) in if v1 > hi then hi else v1)"

definition scheduler_validate :: "scheduler_config \<Rightarrow> scheduler_config \<times> bool" where
  "scheduler_validate c =
     (let c' = c\<lparr> scf_max_user := clamp 1 4096 (scf_max_user c), scf_max_exec := clamp 1 4096 (scf_max_exec c),
                  scf_max_market := clamp 1 4096 (scf_max_market c),
                  scf_max_control := clamp 1 4096 (scf_max_control c),
                  scf_max_binance := clamp 1 4096 (scf_max_binance c),
                  scf_poll_strategy := (if scf_poll_strategy c < 0 \<or> scf_poll_strategy c > 2 then 2
                                        else scf_poll_strategy c),
                  scf_sleep_us := (if scf_sleep_us c < 0 then 100 else scf_sleep_us c),
                  scf_stats_interval_ms := (if scf_stats_interval_ms c < 100 then 100
                                            else scf_stats_interval_ms c) \<rparr>
      in (c', c' = c))"

text \<open>The contents each phase of the pass finds in its queue, oldest first.\<close>

record ('p, 'b) pass_queues =
  q_deltas :: "book_delta list"
  q_user :: "scheduler_event list"
  q_exec :: "scheduler_event list"
  q_market :: "market_notification list"
  q_rtds :: "'p list"
  q_binance :: "'b list"
  q_slot :: "scheduler_event list"
  q_control :: "scheduler_event list"

text \<open>The state of a pass: the scheduler, what it has sent, the events processed so far and whether
  a shutdown was requested.  The k-th event of the pass sees the environment \<open>env k\<close>.\<close>

record 's pass_state =
  ps_sched :: "'s scheduler"
  ps_out :: "sched_out list"
  ps_done :: "scheduler_event list"
  ps_stop :: bool

definition pass_event ::
  "('s, 'p, 'b) strategy_ops \<Rightarrow> (nat \<Rightarrow> event_env) \<Rightarrow> 's pass_state \<Rightarrow> scheduler_event \<Rightarrow> 's pass_state" where
  "pass_event ops env p ev =
     (case process_event ops (env (length (ps_done p))) ev (ps_sched p) of (s, out) \<Rightarrow>
        p\<lparr> ps_sched := s, ps_out := ps_out p @ out, ps_done := ps_done p @ [ev] \<rparr>)"

definition pass_events ::
  "('s, 'p, 'b) strategy_ops \<Rightarrow> (nat \<Rightarrow> event_env) \<Rightarrow> scheduler_event list \<Rightarrow> 's pass_state \<Rightarrow> 's pass_state" where
  "pass_events ops env evs p = foldl (pass_event ops env) p evs"

text \<open>The synthetic feedback is drained until none is left; the strategy may add to it on the way.\<close>

fun drain_sim ::
  "('s, 'p, 'b) strategy_ops \<Rightarrow> (nat \<Rightarrow> event_env) \<Rightarrow> nat \<Rightarrow> 's pass_state \<Rightarrow> 's pass_state option" where
  "drain_sim ops env fuel p =
     (case mf_dry_sim (sd_sink (ps_sched p)) of
        None \<Rightarrow> Some p
      | Some d \<Rightarrow>
          (case dr_pop d of
             (_, None) \<Rightarrow> Some p
           | (d', Some ev) \<Rightarrow>
               (case fuel of
                  0 \<Rightarrow> None
                | Suc fuel' \<Rightarrow>
                    drain_sim ops env fuel'
                      (pass_event ops env (p\<lparr> ps_sched := on_sim (\<lambda>_. d') (ps_sched p) \<rparr>) ev))))"

declare drain_sim.simps [simp del]

definition sim_phase ::
  "('s, 'p, 'b) strategy_ops \<Rightarrow> (nat \<Rightarrow> event_env) \<Rightarrow> nat \<Rightarrow> 's pass_state \<Rightarrow> 's pass_state option" where
  "sim_phase ops env fuel p =
     (if (case mf_dry_sim (sd_sink (ps_sched p)) of None \<Rightarrow> False | Some d \<Rightarrow> dr_enabled d)
      then drain_sim ops env fuel p else Some p)"

fun control_phase ::
  "('s, 'p, 'b) strategy_ops \<Rightarrow> (nat \<Rightarrow> event_env) \<Rightarrow> nat \<Rightarrow> scheduler_event list \<Rightarrow> 's pass_state \<Rightarrow> 's pass_state" where
  "control_phase ops env 0 evs p = p"
| "control_phase ops env (Suc n) [] p = p"
| "control_phase ops env (Suc n) (ev # evs) p =
     (let p1 = pass_event ops env p ev
      in if ev_kind ev = CONTROL_SHUTDOWN then p1\<lparr> ps_stop := True \<rparr> else control_phase ops env n evs p1)"

definition feed_prices ::
  "('s, 'p, 'b) strategy_ops \<Rightarrow> 'p list \<Rightarrow> 'b list \<Rightarrow> 's pass_state \<Rightarrow> 's pass_state" where
  "feed_prices ops ps bs p =
     p\<lparr> ps_sched := on_strategy (\<lambda>st. foldl (so_on_binance_update ops) (foldl (so_on_crypto_price ops) st ps) bs)
          (ps_sched p) \<rparr>"

definition scheduler_pass ::
  "('s, 'p, 'b) strategy_ops \<Rightarrow> scheduler_config \<Rightarrow> (nat \<Rightarrow> event_env) \<Rightarrow> nat \<Rightarrow> ('p, 'b) pass_queues \<Rightarrow>
   's scheduler \<Rightarrow> 's pass_state option" where
  "scheduler_pass ops cfg env fuel q s =
     (let p0 = \<lparr> ps_sched = s\<lparr> sd_books := foldl apply_delta (sd_books s) (q_deltas q) \<rparr>,
                 ps_out = [], ps_done = [], ps_stop = False \<rparr>;
          p1 = pass_events ops env (take (nat (scf_max_user cfg)) (q_user q)) p0;
          p2 = pass_events ops env (take (nat (scf_max_exec cfg)) (q_exec q)) p1
      in case sim_phase ops env fuel p2 of
           None \<Rightarrow> None
         | Some p3 \<Rightarrow>
             (let p4 = pass_events ops env (map from_market (take (nat (scf_max_market cfg)) (q_market q))) p3;
                  p5 = feed_prices ops (q_rtds q) (take (nat (scf_max_binance cfg)) (q_binance q)) p4;
                  p6 = (if sd_has_slot_queue s then pass_events ops env (q_slot q) p5 else p5);
                  p7 = control_phase ops env (nat (scf_max_control cfg)) (q_control q) p6;
                  s7 = ps_sched p7
              in Some (p7\<lparr> ps_sched := s7\<lparr> sd_state := (sd_state s7)\<lparr> sst_cycle_count :=
                            sst_cycle_count (sd_state s7) + 1 \<rparr> \<rparr> \<rparr>)))"

subsection \<open>The end of a pass\<close>

definition kMaxUiPositions :: nat where "kMaxUiPositions = 64"

record ui_state_snapshot =
  sn_timestamp :: timestamp
  sn_working :: "ui_order_record list"
  sn_closed :: "ui_order_record list"
  sn_trades :: "ui_trade_record list"
  sn_strategy_enabled :: bool
  sn_spread_ticks :: int
  sn_quote_size :: qty
  sn_execution_mode :: execution_mode
  sn_session_state :: session_state
  sn_session_end_time_s :: int
  sn_session_markets_entered :: int
  sn_risk_counts :: "int \<times> int \<times> int"
  sn_positions :: "(asset_id \<times> qty) list"

fun snapshot_positions :: "token_inventory \<Rightarrow> market_pair list \<Rightarrow> nat \<Rightarrow> (asset_id \<times> qty) list" where
  "snapshot_positions iv [] n = []"
| "snapshot_positions iv (p # ps) n =
     (if n + 1 \<ge> kMaxUiPositions then []
      else (token_id_up p, position_for iv (token_id_up p)) # (token_id_down p, position_for iv (token_id_down p))
             # snapshot_positions iv ps (n + 2))"

definition maybe_push_ui_state ::
  "('s, 'p, 'b) strategy_ops \<Rightarrow> event_env \<Rightarrow> 's scheduler \<Rightarrow> 's scheduler \<times> ui_state_snapshot option" where
  "maybe_push_ui_state ops e s =
     (if \<not> sd_has_ui_queue s then (s, None)
      else if ee_now e - sd_last_ui_push_ts s < sd_ui_push_interval_ns s then (s, None)
      else
        (s\<lparr> sd_last_ui_push_ts := ee_now e \<rparr>,
         Some \<lparr> sn_timestamp = ee_now e, sn_working = snapshot_working (sd_tracker s) (sd_ui s),
                sn_closed = snapshot_closed (sd_ui s), sn_trades = snapshot_trades (sd_ui s),
                sn_strategy_enabled = so_enabled ops (sd_strategy s),
                sn_spread_ticks = so_spread_ticks ops (sd_strategy s),
                sn_quote_size = so_quote_size ops (sd_strategy s),
                sn_execution_mode = sd_mode s, sn_session_state = ses_state (sd_session s),
                sn_session_end_time_s = ses_effective_end_s (sd_session s),
                sn_session_markets_entered = ses_markets_entered (sd_session s),
                sn_risk_counts = (rg_check_count (sd_risk s), rg_allow_count (sd_risk s), rg_deny_count (sd_risk s)),
                sn_positions = snapshot_positions (ee_inventory e) (ee_pair_order e) 0 \<rparr>))"

definition kStaleAgeNs :: int where "kStaleAgeNs = 30000000000"

definition collect_garbage :: "scheduler_config \<Rightarrow> event_env \<Rightarrow> 's scheduler \<Rightarrow> 's scheduler" where
  "collect_garbage cfg e s =
     (if ee_now e - sd_last_stats_time s > scf_stats_interval_ms cfg * 1000000
      then s\<lparr> sd_tracker := fst (gc_stale_pending (sd_tracker s) (ee_now e) kStaleAgeNs),
              sd_last_stats_time := ee_now e \<rparr>
      else s)"

definition pass_end ::
  "('s, 'p, 'b) strategy_ops \<Rightarrow> scheduler_config \<Rightarrow> event_env \<Rightarrow> 's scheduler \<Rightarrow>
   's scheduler \<times> sched_out list \<times> ui_state_snapshot option" where
  "pass_end ops cfg e s =
     (let (s1, snap) = maybe_push_ui_state ops e s;
          (s2, out) = check_probe_cancel_timer e s1
      in (collect_garbage cfg e (check_probe_timeout e s2), out, snap))"

text \<open>The two halves of the pause that the rotation asks for.\<close>

definition pause_for_rotation ::
  "('s, 'p, 'b) strategy_ops \<Rightarrow> event_env \<Rightarrow> 's scheduler \<Rightarrow> 's scheduler \<times> sched_out list" where
  "pause_for_rotation ops e s =
     (case send_all_cancels e s of (s1, out) \<Rightarrow> (on_strategy (\<lambda>st. so_set_enabled ops st False) s1, out))"

definition resume_after_rotation ::
  "('s, 'p, 'b) strategy_ops \<Rightarrow> ('s \<Rightarrow> 's) \<Rightarrow> 's scheduler \<Rightarrow> 's scheduler" where
  "resume_after_rotation ops set_timing s = on_strategy (\<lambda>st. so_set_enabled ops (set_timing st) True) s"

end
