(* ===== verification/Scheduler_Safety.thy ===== *)
theory Scheduler_Safety
  imports Scheduler
begin

section \<open>What the scheduler sends\<close>

text \<open>
  Properties of the scheduler of theory \<open>Scheduler\<close>, for every strategy: what reaches the
  execution queue in dry-run mode, what the risk gate has seen of it, what the stops and the sell
  buttons send, and what one pass over the queues processes, in which order, and when it ends.
\<close>

subsection \<open>The sink\<close>

fun sent_by :: "sched_out \<Rightarrow> exec_intent list" where
  "sent_by (ToExec (SentIntent x)) = [x]"
| "sent_by _ = []"

definition sent :: "sched_out list \<Rightarrow> exec_intent list" where
  "sent out = concat (map sent_by out)"

lemma sent_simps [simp]:
  "sent [] = []" "sent (xs @ ys) = sent xs @ sent ys" "sent (journal s c) = []"
  "sent (Journal c # xs) = sent xs" "sent (InventoryRequest r # xs) = sent xs"
  by (auto simp: sent_def journal_def)

lemma sent_requests [simp]: "sent (map InventoryRequest reqs) = []"
  by (induction reqs) auto

lemma inner_accept_sent:
  "inner_accept s i now p = (s', r, out) \<Longrightarrow> sent (map ToExec out) \<in> {[], [to_exec_intent i]}"
  by (cases s) (auto simp: queue_sink_accept_def stub_sink_accept_def sent_def Let_def split: if_splits prod.splits)

text \<open>One call of the sink.  A sink in front of the queue stays in front of it.\<close>

definition queue_behind :: "'s scheduler \<Rightarrow> bool" where
  "queue_behind s \<longleftrightarrow> (\<exists>q. mf_inner (sd_sink s) = QueueSink q)"

text \<open>The simulator's pending events are execution feedback.\<close>

definition sim_ok :: "'s scheduler \<Rightarrow> bool" where
  "sim_ok s = (case mf_dry_sim (sd_sink s) of None \<Rightarrow> True
     | Some d \<Rightarrow> dr_inv d \<and> (\<forall>ev \<in> set (dr_list d). ev_source ev = EXEC_INTERNAL))"

text \<open>The scheduler after any number of sends: only the sink and the count of sends differ, and
  the mode and the kind of the wrapped sink are kept.\<close>

definition after_sends :: "'s scheduler \<Rightarrow> 's scheduler \<Rightarrow> bool" where
  "after_sends s s' \<longleftrightarrow>
     (\<exists>m n. s' = s\<lparr> sd_sink := m, sd_accepts := n \<rparr>) \<and> sd_mode s' = sd_mode s \<and>
     (queue_behind s \<longrightarrow> queue_behind s') \<and> (sim_ok s \<longrightarrow> sim_ok s')"

lemma after_sends_refl [simp]: "after_sends s s"
  unfolding after_sends_def by (metis scheduler.surjective scheduler.update_convs(6,23))

lemma after_sends_trans [trans]: "after_sends s s' \<Longrightarrow> after_sends s' s'' \<Longrightarrow> after_sends s s''"
  unfolding after_sends_def by clarsimp blast

lemma after_sends_frame:
  assumes "after_sends s s'"
  shows "sd_tracker s' = sd_tracker s" "sd_risk s' = sd_risk s" "sd_session s' = sd_session s"
    "sd_mode s' = sd_mode s" "sd_strategy s' = sd_strategy s" "sd_slot_map s' = sd_slot_map s"
    "sd_has_journal s' = sd_has_journal s" "sd_sell_all_id s' = sd_sell_all_id s" "sd_probe s' = sd_probe s"
    "sd_state s' = sd_state s" "sd_ui s' = sd_ui s" "sd_books s' = sd_books s"
    "queue_behind s \<Longrightarrow> queue_behind s'" "sim_ok s \<Longrightarrow> sim_ok s'"
  using assms by (auto simp: after_sends_def)

lemma mf_accept_cases:
  assumes "mf_accept m i now p = (m', r, out)"
  shows "mf_mode m' = mf_mode m"
    "sent (map ToExec out) \<in> {[], [to_exec_intent i]}"
    "mf_mode m = DRY_RUN \<Longrightarrow> in_action i \<noteq> WOULD_CANCEL_ALL \<Longrightarrow> sent (map ToExec out) = []"
    "\<exists>q. mf_inner m = QueueSink q \<Longrightarrow> \<exists>q. mf_inner m' = QueueSink q"
    "\<exists>q. mf_inner m = QueueSink q \<Longrightarrow> p \<Longrightarrow> mf_mode m = LIVE_MODE \<or> in_action i = WOULD_CANCEL_ALL \<Longrightarrow>
       sent (map ToExec out) = [to_exec_intent i] \<and> r = SINK_ACCEPTED"
  using assms inner_accept_sent [of "mf_inner m" i now p]
  by (cases "mf_mode m"; force simp: mf_accept_def mf_forward_def queue_sink_accept_def sent_def Let_def
       split: if_splits option.splits prod.splits)+

lemma simulated_feedback_source [simp]: "ev_source (simulated_feedback n i) = EXEC_INTERNAL"
  by (simp add: simulated_feedback_def Let_def)

lemma mf_accept_sim:
  assumes "mf_accept m i now p = (m', r, out)"
  shows "mf_dry_sim m' = mf_dry_sim m \<or> (\<exists>d. mf_dry_sim m = Some d \<and> mf_dry_sim m' = Some (dr_on_intent d i))"
  using assms by (cases "mf_mode m")
    (auto simp: mf_accept_def mf_forward_def Let_def split: if_splits option.splits prod.splits)

lemma dr_on_intent_sources:
  "dr_inv d \<Longrightarrow> \<forall>ev \<in> set (dr_list d). ev_source ev = EXEC_INTERNAL \<Longrightarrow>
   \<forall>ev \<in> set (dr_list (dr_on_intent d i)). ev_source ev = EXEC_INTERNAL"
  by (simp add: dr_on_intent_list(1) sim_pending_def)

lemma sched_accept_after:
  assumes "sched_accept e s i = (s', r, out)"
  shows "after_sends s s'"
proof -
  obtain m o' where a: "mf_accept (sd_sink s) i (ee_now e) (ee_pushed e (sd_accepts s)) = (m, r, o')"
    and s': "s' = s\<lparr> sd_sink := m, sd_accepts := sd_accepts s + 1 \<rparr>"
    using assms by (auto simp: sched_accept_def split: prod.splits)
  have "sim_ok s \<longrightarrow> sim_ok s'"
    using mf_accept_sim [OF a] dr_on_intent_list(2) dr_on_intent_sources
    by (auto simp: sim_ok_def s')
  thus ?thesis using mf_accept_cases(1,4) [OF a] s'
    by (auto simp: after_sends_def sd_mode_def queue_behind_def)
qed

lemma sched_accept_sent:
  assumes "sched_accept e s i = (s', r, out)"
  shows "sent out \<in> {[], [to_exec_intent i]}"
    "sd_mode s = DRY_RUN \<Longrightarrow> in_action i \<noteq> WOULD_CANCEL_ALL \<Longrightarrow> sent out = []"
    "queue_behind s \<Longrightarrow> ee_pushed e (sd_accepts s) \<Longrightarrow> sd_mode s = LIVE_MODE \<or> in_action i = WOULD_CANCEL_ALL \<Longrightarrow>
       sent out = [to_exec_intent i] \<and> r = SINK_ACCEPTED"
proof -
  obtain m o' where a: "mf_accept (sd_sink s) i (ee_now e) (ee_pushed e (sd_accepts s)) = (m, r, o')"
    and out: "out = map ToExec o'"
    using assms by (auto simp: sched_accept_def split: prod.splits)
  note f = mf_accept_cases [OF a]
  show "sent out \<in> {[], [to_exec_intent i]}" using f(2) by (simp add: out)
  show "sent out = []" if "sd_mode s = DRY_RUN" "in_action i \<noteq> WOULD_CANCEL_ALL"
    using f(3) that by (simp add: out sd_mode_def)
  show "sent out = [to_exec_intent i] \<and> r = SINK_ACCEPTED"
    if "queue_behind s" "ee_pushed e (sd_accepts s)" "sd_mode s = LIVE_MODE \<or> in_action i = WOULD_CANCEL_ALL"
    using f(5) that by (simp add: out sd_mode_def queue_behind_def)
qed

lemma accept_each_after: "accept_each e s is = (s', out) \<Longrightarrow> after_sends s s'"
proof (induction "is" arbitrary: s s' out)
  case (Cons i "is")
  then show ?case
    by (auto split: prod.splits dest!: sched_accept_after intro: after_sends_trans)
qed simp

lemma accept_each_sent:
  "accept_each e s is = (s', out) \<Longrightarrow> set (sent out) \<subseteq> to_exec_intent ` set is"
proof (induction "is" arbitrary: s s' out)
  case (Cons i "is")
  obtain s1 r o1 where a: "sched_accept e s i = (s1, r, o1)" by (cases "sched_accept e s i") auto
  obtain s2 o2 where b: "accept_each e s1 is = (s2, o2)" by (cases "accept_each e s1 is") auto
  have "out = o1 @ o2" using Cons.prems by (simp add: a b)
  with Cons.IH [OF b] sched_accept_sent(1) [OF a] show ?case by auto
qed simp

lemma accept_each_dry:
  "accept_each e s is = (s', out) \<Longrightarrow> sd_mode s = DRY_RUN \<Longrightarrow> \<forall>i \<in> set is. in_action i \<noteq> WOULD_CANCEL_ALL \<Longrightarrow>
   sent out = []"
proof (induction "is" arbitrary: s s' out)
  case (Cons i "is")
  obtain s1 r o1 where a: "sched_accept e s i = (s1, r, o1)" by (cases "sched_accept e s i") auto
  obtain s2 o2 where b: "accept_each e s1 is = (s2, o2)" by (cases "accept_each e s1 is") auto
  have "out = o1 @ o2" using Cons.prems by (simp add: a b)
  with Cons.IH [OF b] sched_accept_sent(2) [OF a] Cons.prems after_sends_frame(4) [OF sched_accept_after [OF a]]
  show ?case by auto
qed simp

lemma accept_each_live:
  "accept_each e s is = (s', out) \<Longrightarrow> sd_mode s = LIVE_MODE \<Longrightarrow> queue_behind s \<Longrightarrow> \<forall>n. ee_pushed e n \<Longrightarrow>
   sent out = map to_exec_intent is"
proof (induction "is" arbitrary: s s' out)
  case (Cons i "is")
  obtain s1 r o1 where a: "sched_accept e s i = (s1, r, o1)" by (cases "sched_accept e s i") auto
  obtain s2 o2 where b: "accept_each e s1 is = (s2, o2)" by (cases "accept_each e s1 is") auto
  have "out = o1 @ o2" using Cons.prems by (simp add: a b)
  with Cons.IH [OF b] sched_accept_sent(3) [OF a] Cons.prems
    after_sends_frame(4,13) [OF sched_accept_after [OF a]]
  show ?case by auto
qed simp

lemma accept_each_send_all [simp]: "after_sends s (fst (accept_each e s is))"
  using accept_each_after [of e s "is"] by (cases "accept_each e s is") simp

lemma cancel_of_action [simp]:
  "in_action (cancel_of w) \<noteq> WOULD_CANCEL_ALL" "\<not> is_placement (in_action (cancel_of w))"
  by (simp_all add: cancel_of_def is_placement_def)

lemma to_exec_intent_type [simp]: "xi_type (to_exec_intent i) = exec_intent_kind (in_action i)"
  by (simp add: to_exec_intent_def)

lemma cancel_all_intent_action [simp]: "in_action (cancel_all_intent now) = WOULD_CANCEL_ALL"
  by (simp add: cancel_all_intent_def)

lemma kind_of_cancel: "\<not> is_placement a \<longleftrightarrow> exec_intent_kind a \<noteq> PLACE_ORDER"
  by (cases a) (simp_all add: is_placement_def)

subsection \<open>A scheduler that stays out of the market\<close>

text \<open>Dry-run mode without a session; the events that can end it are the mode command for live
  trading, the start of a session and the two sell buttons.\<close>

definition resting :: "'s scheduler \<Rightarrow> bool" where
  "resting s \<longleftrightarrow> sd_mode s = DRY_RUN \<and> ses_state (sd_session s) = SES_IDLE \<and> sim_ok s"

definition starts_trading :: "scheduler_event \<Rightarrow> bool" where
  "starts_trading ev \<longleftrightarrow> ev_source ev = CONTROL \<and>
     (ev_kind ev \<in> {CONTROL_START_SESSION, CONTROL_MARKET_SELL_ALL, CONTROL_MARKET_SELL_DOWN} \<or>
      ev_kind ev = CONTROL_SET_MODE \<and> ev_control_mode ev \<noteq> 0)"

definition only_cancel_all :: "sched_out list \<Rightarrow> bool" where
  "only_cancel_all out \<longleftrightarrow> (\<forall>x \<in> set (sent out). xi_type x = CANCEL_ALL)"

lemma only_cancel_all_simps [simp]:
  "only_cancel_all []" "only_cancel_all (xs @ ys) \<longleftrightarrow> only_cancel_all xs \<and> only_cancel_all ys"
  "only_cancel_all (journal s c)" "only_cancel_all (map InventoryRequest reqs)"
  "only_cancel_all (InventoryRequest r # xs) \<longleftrightarrow> only_cancel_all xs"
  by (auto simp: only_cancel_all_def)

definition rests :: "'s scheduler \<times> sched_out list \<Rightarrow> bool" where
  "rests r \<longleftrightarrow> resting (fst r) \<and> only_cancel_all (snd r)"

lemma rests_simps [simp]: "rests (s, out) \<longleftrightarrow> resting s \<and> only_cancel_all out"
  by (simp add: rests_def)

lemma rests_bind:
  "rests r \<Longrightarrow> (\<And>s out. r = (s, out) \<Longrightarrow> resting s \<Longrightarrow> only_cancel_all out \<Longrightarrow> rests (f s out)) \<Longrightarrow>
   rests (case r of (s, out) \<Rightarrow> f s out)"
  by (cases r) simp

lemma resting_sends: "after_sends s s' \<Longrightarrow> resting s \<Longrightarrow> resting s'"
  by (simp add: resting_def after_sends_frame)

lemma dr_list_ops [simp]:
  "dr_list (dr_set_enabled d b) = dr_list d" "dr_inv (dr_set_enabled d b) = dr_inv d"
  "dr_list (dr_reset d) = []" "dr_inv d \<Longrightarrow> dr_inv (dr_reset d)"
  by (auto simp: dr_list_def ring_view_def dr_set_enabled_def dr_reset_def dr_inv_def)

lemma resting_updates [simp]:
  "resting (on_strategy f s) = resting s" "resting (s\<lparr> sd_state := a \<rparr>) = resting s"
  "resting (s\<lparr> sd_slot_map := b \<rparr>) = resting s" "resting (s\<lparr> sd_risk := c \<rparr>) = resting s"
  "resting (s\<lparr> sd_tracker := t \<rparr>) = resting s" "resting (s\<lparr> sd_ui := u \<rparr>) = resting s"
  "resting (s\<lparr> sd_probe := pb \<rparr>) = resting s" "resting (s\<lparr> sd_probe_status := k \<rparr>) = resting s"
  "resting (s\<lparr> sd_planner := pl \<rparr>) = resting s" "resting (s\<lparr> sd_books := bs \<rparr>) = resting s"
  "resting (s\<lparr> sd_next_inventory_id := n \<rparr>) = resting s"
  "resting (s\<lparr> sd_strategy := st \<rparr>) = resting s" "resting (s\<lparr> sd_last_stats_time := ts \<rparr>) = resting s"
  by (simp_all add: resting_def on_strategy_def sd_mode_def sim_ok_def)

lemma resting_session [simp]: "sd_mode s = DRY_RUN \<Longrightarrow> sim_ok s \<Longrightarrow> resting (s\<lparr> sd_session := new_session \<rparr>)"
  by (simp add: resting_def sd_mode_def sim_ok_def new_session_def)

lemma resting_accept:
  assumes "sched_accept e s i = (s', r, out)" "resting s"
  shows "resting s'" "only_cancel_all out"
  using resting_sends [OF sched_accept_after [OF assms(1)] assms(2)]
    sched_accept_sent(1,2) [OF assms(1)] assms(2)
  by (cases "in_action i = WOULD_CANCEL_ALL"; auto simp: only_cancel_all_def resting_def)+

lemma rests_accept_each: "resting s \<Longrightarrow> rests (accept_each e s is)"
proof (induction "is" arbitrary: s)
  case (Cons i "is")
  obtain s1 r o1 where a: "sched_accept e s i = (s1, r, o1)" by (cases "sched_accept e s i") auto
  obtain s2 o2 where b: "accept_each e s1 is = (s2, o2)" by (cases "accept_each e s1 is") auto
  show ?case using Cons.IH [OF resting_accept(1) [OF a Cons.prems]] resting_accept(2) [OF a Cons.prems]
    by (simp add: a b)
qed simp

lemma rests_flatten: "resting s \<Longrightarrow> rests (flatten_orders e s)"
  unfolding flatten_orders_def send_all_cancels_def
  by (rule rests_bind [OF rests_accept_each]) (auto dest: resting_accept split: prod.splits)

lemma sim_ok_switch [simp]: "sim_ok (switch_mode m s) = sim_ok s" "sim_ok (on_strategy f s) = sim_ok s"
  by (simp_all add: sim_ok_def switch_mode_def mf_set_mode_def on_strategy_def)

lemma sim_ok_on_sim:
  "sim_ok s \<Longrightarrow> sim_ok (on_sim (\<lambda>d. dr_set_enabled d b) s)" "sim_ok s \<Longrightarrow> sim_ok (on_sim dr_reset s)"
  by (auto simp: sim_ok_def on_sim_def split: option.splits)

lemma mode_updates [simp]:
  "sd_mode (switch_mode m s) = m" "sd_mode (on_sim f s) = sd_mode s" "sd_mode (on_strategy g s) = sd_mode s"
  "sd_mode (s\<lparr> sd_session := ses \<rparr>) = sd_mode s" "sd_mode (s\<lparr> sd_slot_map := b \<rparr>) = sd_mode s"
  "sd_mode (s\<lparr> sd_tracker := t \<rparr>) = sd_mode s" "sd_mode (s\<lparr> sd_risk := rk \<rparr>) = sd_mode s"
  "sd_mode (s\<lparr> sd_ui := u \<rparr>) = sd_mode s" "sd_mode (s\<lparr> sd_state := a \<rparr>) = sd_mode s"
  "sd_mode (s\<lparr> sd_strategy := st \<rparr>) = sd_mode s" "sd_mode (s\<lparr> sd_planner := pl \<rparr>) = sd_mode s"
  "sd_mode (s\<lparr> sd_sell_all_id := n \<rparr>) = sd_mode s"
  by (simp_all add: sd_mode_def switch_mode_def mf_set_mode_def on_sim_def on_strategy_def)

lemma session_updates [simp]:
  "sd_session (switch_mode m s) = sd_session s" "sd_session (on_sim f s) = sd_session s"
  "sd_session (on_strategy g s) = sd_session s"
  by (simp_all add: switch_mode_def on_sim_def on_strategy_def)

lemma rests_to_dry_run: "resting s \<Longrightarrow> rests (to_dry_run s)"
  by (simp add: to_dry_run_def resting_def sim_ok_on_sim)

lemma rests_emergency_stop: "resting s \<Longrightarrow> rests (emergency_stop e s)"
  unfolding emergency_stop_def
  by (rule rests_bind [OF rests_flatten], simp, rule rests_bind [OF rests_to_dry_run]) (auto simp: resting_def)

lemma rests_route: "resting s \<Longrightarrow> rests (route_feedback ops e ev s)"
  by (simp add: route_feedback_def rests_emergency_stop)

lemma rests_set_mode: "resting s \<Longrightarrow> ev_control_mode ev = 0 \<Longrightarrow> rests (handle_set_mode ops ev s)"
  by (simp add: handle_set_mode_def mode_of_nat_def Let_def resting_def sim_ok_on_sim)

lemma rests_inventory_op: "resting s \<Longrightarrow> rests (handle_inventory_op e ev ty s)"
  by (simp add: handle_inventory_op_def Let_def)

lemma rests_cancel_all: "resting s \<Longrightarrow> rests (handle_cancel_all e ev s)"
  unfolding handle_cancel_all_def by (rule rests_bind [OF rests_flatten]) auto

lemma rests_slot_closing: "resting s \<Longrightarrow> rests (handle_slot_closing e ev s)"
  unfolding handle_slot_closing_def by (rule rests_accept_each) simp

lemma rests_slot_promoted: "resting s \<Longrightarrow> rests (handle_slot_promoted ops e ev s)"
  by (simp add: handle_slot_promoted_def Let_def) (simp add: resting_def sim_ok_def)

lemma rests_stop_session: "resting s \<Longrightarrow> rests (handle_stop_session e s)"
  by (simp add: handle_stop_session_def resting_def)

lemma rests_probe: "resting s \<Longrightarrow> rests (handle_latency_probe ops e s)"
  by (simp add: handle_latency_probe_def resting_def sd_mode_def sim_ok_def)

lemmas rests_handlers = rests_set_mode rests_inventory_op rests_cancel_all rests_slot_closing
  rests_slot_promoted rests_stop_session rests_probe

lemma rests_control:
  assumes "resting s" "\<not> starts_trading ev"
  shows "rests (handle_control ops e ev s)"
  using assms by (auto simp: handle_control_def starts_trading_def rests_handlers split: scheduler_event_kind.split)

lemma rests_submit_intent: "resting s \<Longrightarrow> rests (submit_intent e ev s i)"
  by (auto simp: submit_intent_def Let_def dest: resting_accept split: prod.splits)

lemma rests_submit_all: "resting s \<Longrightarrow> rests (submit_all e ev s is)"
proof (induction "is" arbitrary: s)
  case (Cons i "is")
  then show ?case using rests_submit_intent [of s e ev i] by (auto split: prod.splits dest: Cons.IH) (metis rests_simps Cons.IH)+
qed simp

lemma rests_risk_cancels: "resting s \<Longrightarrow> rests (risk_cancels e s)"
  unfolding risk_cancels_def send_all_cancels_def
  by (simp, intro impI, rule rests_bind [OF rests_accept_each]) auto

lemma rests_resolved_cancels: "resting s \<Longrightarrow> rests (resolved_cancels e ev s)"
  by (simp add: resolved_cancels_def send_market_cancels_def rests_accept_each)

lemma rests_triple: "(\<And>a b c. rests (f a b c)) \<Longrightarrow> rests (case r of (a, b, c) \<Rightarrow> f a b c)"
  by (cases r) simp

lemma rests_run_strategy: "resting s \<Longrightarrow> rests (run_strategy ops e ev s)"
  unfolding run_strategy_def Let_def
  by (rule rests_triple, rule rests_bind [OF rests_submit_all], simp, rule rests_bind [OF rests_risk_cancels], assumption,
      rule rests_bind [OF rests_resolved_cancels], assumption)
    (simp split: list.split)

lemma resting_absorb: "resting s \<Longrightarrow> resting (absorb_event e ev s)"
  by (simp add: absorb_event_def feed_tracker_def mirror_event_def note_tick_size_def)

lemma resting_probe_feedback: "resting s \<Longrightarrow> resting (handle_probe_feedback e ev s)"
  by (auto simp: handle_probe_feedback_def Let_def resting_def sim_ok_def sd_mode_def)

lemma rests_process_event:
  assumes "resting s" "\<not> starts_trading ev"
  shows "rests (process_event ops e ev s)"
  unfolding process_event_def Let_def
proof (rule rests_bind [OF rests_route [OF resting_absorb [OF assms(1)]]],
    rule rests_bind [OF rests_control [OF _ assms(2)]], assumption)
  fix s2 out2 s3 out3 assume r: "resting (s3 :: 'a scheduler)" "only_cancel_all out2" "only_cancel_all out3"
  let ?s4 = "if ev_source ev = EXEC_INTERNAL then handle_probe_feedback e ev s3 else s3"
  have "resting ?s4" using r(1) by (simp add: resting_probe_feedback)
  hence "rests (if should_trigger ev then run_strategy ops e ev ?s4 else (?s4, []))"
    by (simp add: rests_run_strategy)
  thus "rests (case if should_trigger ev then run_strategy ops e ev ?s4 else (?s4, []) of
      (s5, out5) \<Rightarrow> (s5, (journal_user e ev s @
        (if ev_source ev = EXEC_INTERNAL then journal s (JExecFeedback ev) else [])) @ out2 @ out3 @ out5))"
    using r by (rule_tac rests_bind) (auto simp: journal_user_def)
qed

subsection \<open>Passes over the queues\<close>

definition pass_rests :: "'s pass_state \<Rightarrow> bool" where
  "pass_rests p \<longleftrightarrow> resting (ps_sched p) \<and> only_cancel_all (ps_out p)"

lemma pass_rests_event: "pass_rests p \<Longrightarrow> \<not> starts_trading ev \<Longrightarrow> pass_rests (pass_event ops env p ev)"
  using rests_process_event [of "ps_sched p" ev ops "env (length (ps_done p))"]
  by (auto simp: pass_rests_def pass_event_def rests_def split: prod.splits)

lemma pass_rests_events:
  "pass_rests p \<Longrightarrow> list_all (\<lambda>ev. \<not> starts_trading ev) evs \<Longrightarrow> pass_rests (pass_events ops env evs p)"
  by (induction evs arbitrary: p) (auto simp: pass_events_def pass_rests_event)

lemma pass_rests_control:
  "pass_rests p \<Longrightarrow> list_all (\<lambda>ev. \<not> starts_trading ev) evs \<Longrightarrow> pass_rests (control_phase ops env n evs p)"
proof (induction ops env n evs p rule: control_phase.induct)
  case (3 ops env n ev evs p)
  then show ?case using pass_rests_event [of p ev ops env] by (simp add: Let_def pass_rests_def)
qed simp_all

lemma pass_rests_drain:
  "pass_rests p \<Longrightarrow> drain_sim ops env fuel p = Some p' \<Longrightarrow> pass_rests p'"
proof (induction fuel arbitrary: p)
  case 0
  then show ?case by (subst (asm) drain_sim.simps) (auto split: option.splits prod.splits)
next
  case (Suc fuel)
  show ?case
  proof (cases "mf_dry_sim (sd_sink (ps_sched p))")
    case None
    then show ?thesis using Suc.prems by (subst (asm) drain_sim.simps) simp
  next
    case (Some d)
    have d: "dr_inv d" "\<forall>ev \<in> set (dr_list d). ev_source ev = EXEC_INTERNAL"
      using Suc.prems(1) Some by (auto simp: pass_rests_def resting_def sim_ok_def)
    show ?thesis
    proof (cases "dr_pop d = (d, None) \<and> dr_list d = []")
      case True
      then show ?thesis using Suc.prems Some by (subst (asm) drain_sim.simps) simp
    next
      case False
      then obtain d' ev where pop: "dr_pop d = (d', Some ev)" "dr_list d = ev # dr_list d'" "dr_inv d'"
        using dr_pop_list [OF d(1)] by auto
      let ?p = "p\<lparr> ps_sched := on_sim (\<lambda>_. d') (ps_sched p) \<rparr>"
      have "pass_rests ?p"
        using Suc.prems(1) pop d(2) Some by (auto simp: pass_rests_def resting_def sim_ok_def on_sim_def sd_mode_def)
      moreover have "\<not> starts_trading ev" using d(2) pop(2) by (simp add: starts_trading_def)
      ultimately have "pass_rests (pass_event ops env ?p ev)" by (rule pass_rests_event)
      moreover have "drain_sim ops env fuel (pass_event ops env ?p ev) = Some p'"
        using Suc.prems(2) Some pop(1) by (subst (asm) drain_sim.simps) simp
      ultimately show ?thesis by (rule Suc.IH)
    qed
  qed
qed

lemma from_market_source [simp]: "ev_source (from_market n) = MARKET_WS"
  by (simp add: from_market_def Let_def)

definition calm :: "('p, 'b) pass_queues \<Rightarrow> bool" where
  "calm q \<longleftrightarrow> list_all (\<lambda>ev. \<not> starts_trading ev) (q_user q @ q_exec q @ q_slot q @ q_control q)"

lemma calm_take: "list_all P xs \<Longrightarrow> list_all P (take n xs)"
  by (auto simp: list_all_iff dest: in_set_takeD)

lemma pass_rests_sim: "pass_rests p \<Longrightarrow> sim_phase ops env fuel p = Some p' \<Longrightarrow> pass_rests p'"
  by (auto simp: sim_phase_def dest: pass_rests_drain split: if_splits)

lemma pass_rests_feed: "pass_rests p \<Longrightarrow> pass_rests (feed_prices ops ps bs p)"
  by (simp add: pass_rests_def feed_prices_def)

lemma scheduler_pass_rests:
  assumes "resting s" "calm q" "scheduler_pass ops cfg env fuel q s = Some p"
  shows "pass_rests p"
proof -
  have c: "list_all (\<lambda>ev. \<not> starts_trading ev) (q_user q)" "list_all (\<lambda>ev. \<not> starts_trading ev) (q_exec q)"
    "list_all (\<lambda>ev. \<not> starts_trading ev) (q_slot q)" "list_all (\<lambda>ev. \<not> starts_trading ev) (q_control q)"
    using assms(2) by (simp_all add: calm_def)
  have m: "list_all (\<lambda>ev. \<not> starts_trading ev) (map from_market ns)" for ns
    by (simp add: list_all_iff starts_trading_def)
  let ?p0 = "\<lparr> ps_sched = s\<lparr> sd_books := foldl apply_delta (sd_books s) (q_deltas q) \<rparr>, ps_out = [], ps_done = [], ps_stop = False \<rparr>"
  let ?p2 = "pass_events ops env (take (nat (scf_max_exec cfg)) (q_exec q))
    (pass_events ops env (take (nat (scf_max_user cfg)) (q_user q)) ?p0)"
  have p0: "pass_rests ?p0" using assms(1) by (simp add: pass_rests_def)
  obtain p3 where sim: "sim_phase ops env fuel ?p2 = Some p3" using assms(3)
    by (auto simp: scheduler_pass_def Let_def split: option.splits)
  have p3: "pass_rests p3"
    by (rule pass_rests_sim [OF _ sim]) (intro pass_rests_events calm_take c p0)
  let ?p5 = "feed_prices ops (q_rtds q) (take (nat (scf_max_binance cfg)) (q_binance q))
    (pass_events ops env (map from_market (take (nat (scf_max_market cfg)) (q_market q))) p3)"
  have p5: "pass_rests ?p5" by (intro pass_rests_feed pass_rests_events m p3)
  let ?p7 = "control_phase ops env (nat (scf_max_control cfg)) (q_control q)
    (if sd_has_slot_queue s then pass_events ops env (q_slot q) ?p5 else ?p5)"
  have "pass_rests ?p7" using p5 by (intro pass_rests_control c) (simp add: pass_rests_events c)
  thus ?thesis using assms(3) sim by (auto simp: scheduler_pass_def Let_def pass_rests_def)
qed

lemma pass_end_rests:
  assumes "resting s" "pass_end ops cfg e s = (s', out, snap)"
  shows "resting s'" "sent out = []"
proof -
  obtain s1 where s1: "maybe_push_ui_state ops e s = (s1, snap)" and r1: "resting s1"
    using assms by (auto simp: pass_end_def maybe_push_ui_state_def resting_def sd_mode_def sim_ok_def split: prod.splits if_splits)
  obtain s2 where t: "check_probe_cancel_timer e s1 = (s2, out)" using assms(2)
    by (auto simp: pass_end_def s1 split: prod.splits)
  have "resting s2 \<and> sent out = []"
  proof (cases "out = [] \<and> s2 = s1")
    case False
    then obtain pb n r where "sched_accept e (s1\<lparr> sd_probe := pb, sd_next_probe_id := n \<rparr>) (probe_cancel pb (ee_now e)) = (s2, r, out)"
      using t by (auto simp: check_probe_cancel_timer_def Let_def split: if_splits prod.splits)
    moreover have "resting (s1\<lparr> sd_probe := pb, sd_next_probe_id := n \<rparr>)"
      using r1 by (simp add: resting_def sd_mode_def sim_ok_def)
    ultimately show ?thesis
      using resting_accept(1) sched_accept_sent(2) by (fastforce simp: probe_cancel_def resting_def)
  qed (use r1 in simp)
  thus "resting s'" "sent out = []"
    using assms(2) s1 t
    by (auto simp: pass_end_def check_probe_timeout_def collect_garbage_def Let_def)
qed

subsection \<open>Properties: dry-run mode\<close>


text \<open>The constructor, with the state the members start in.\<close>

definition new_scheduler :: "'s \<Rightarrow> risk_config \<Rightarrow> inner_sink \<Rightarrow> execution_mode \<Rightarrow> 's scheduler" where
  "new_scheduler st risk inner mode =
     \<lparr> sd_state = new_strategy_state, sd_books = new_book_store, sd_planner = new_quote_planner, sd_strategy = st,
       sd_risk = new_risk_gate risk,
       sd_sink = (new_mode_filtered_sink inner mode)\<lparr> mf_dry_sim :=
         Some (if mode = DRY_RUN then dr_set_enabled new_dry_run_simulator True else new_dry_run_simulator) \<rparr>,
       sd_tracker = new_tracker, sd_session = new_session, sd_slot_map = [], sd_has_slot_queue = False,
       sd_has_inventory_sink = False, sd_has_journal = False, sd_next_inventory_id = 1, sd_probe = new_probe,
       sd_next_probe_id = 900000, sd_probe_status = 0, sd_sell_all_id = 800000, sd_ui = new_ui_mirror,
       sd_has_ui_queue = False, sd_last_ui_push_ts = 0, sd_ui_push_interval_ns = 50000000,
       sd_last_stats_time = 0, sd_accepts = 0 \<rparr>"

lemma new_scheduler_resting: "resting (new_scheduler st risk inner DRY_RUN)"
  by (simp add: resting_def new_scheduler_def sd_mode_def sim_ok_def new_session_def new_mode_filtered_sink_def)

lemma new_scheduler_queue: "queue_behind (new_scheduler st risk (QueueSink q) mode)"
  by (simp add: queue_behind_def new_scheduler_def new_mode_filtered_sink_def)

text \<open>A strategy that answers every event with the same intents, a configuration and an environment in
  which every push succeeds.\<close>

definition fixed_strategy :: "intent_batch \<Rightarrow> (bool, unit, unit) strategy_ops" where
  "fixed_strategy batch =
     \<lparr> so_evaluate = (\<lambda>st ctx. (st, if st then batch else [], [])), so_set_enabled = (\<lambda>st b. b), so_enabled = (\<lambda>st. st),
       so_set_size = (\<lambda>st n. st), so_set_dry_run = (\<lambda>st b. st), so_reset_all_quotes = (\<lambda>st. st),
       so_on_gateway_degraded = (\<lambda>st. st), so_on_gateway_recovered = (\<lambda>st. st), so_on_rate_limited = (\<lambda>st. st),
       so_spread_ticks = (\<lambda>st. 0), so_quote_size = (\<lambda>st. 0), so_on_crypto_price = (\<lambda>st x. st),
       so_on_binance_update = (\<lambda>st x. st) \<rparr>"

definition sample_bid :: execution_intent where
  "sample_bid = new_execution_intent\<lparr> in_action := WOULD_PLACE_BID, in_asset_id := ''up'', in_market_id := ''m'',
     in_client_order_id := ''q1'', in_price := 5000, in_qty := 10 \<rparr>"

definition sample_env :: event_env where
  "sample_env = \<lparr> ee_now = 1, ee_wall_ms = 1, ee_pushed = (\<lambda>_. True), ee_inventory_pushed = True,
     ee_inventory = empty_inventory, ee_pairs = empty_registry, ee_pair_order = [] \<rparr>"

definition sample_config :: scheduler_config where
  "sample_config = \<lparr> scf_max_user = 8, scf_max_exec = 8, scf_max_market = 8, scf_max_control = 8, scf_max_binance = 8,
     scf_stats_interval_ms = 1000, scf_poll_strategy = 2, scf_sleep_us = 100 \<rparr>"

definition sample_scheduler :: "execution_mode \<Rightarrow> bool scheduler" where
  "sample_scheduler mode = new_scheduler True default_risk_config
     (QueueSink \<lparr> qs_intent_count = 0, qs_overflow_count = 0 \<rparr>) mode"

definition sample_queues :: "scheduler_event list \<Rightarrow> (unit, unit) pass_queues" where
  "sample_queues control = \<lparr> q_deltas = [], q_user = [], q_exec = [],
     q_market = [], q_rtds = [], q_binance = [], q_slot = [], q_control = control \<rparr>"

text \<open>A pass that finds only slot and control events returns.\<close>

lemma sample_pass_returns:
  "\<exists>p. scheduler_pass (fixed_strategy batch) sample_config env 0 (sample_queues evs) (sample_scheduler mode) = Some p"
  by (simp add: scheduler_pass_def sample_queues_def pass_events_def Let_def sim_phase_def drain_sim.simps
      sample_scheduler_def new_scheduler_def new_mode_filtered_sink_def dr_pop_def dr_set_enabled_def
      new_dry_run_simulator_def)


subsection \<open>The stops\<close>

definition all_pushed :: "event_env \<Rightarrow> bool" where
  "all_pushed e \<longleftrightarrow> (\<forall>n. ee_pushed e n)"

lemma flatten_orders_live:
  assumes "flatten_orders e s = (s', out)" "sd_mode s = LIVE_MODE" "queue_behind s" "all_pushed e"
  shows "after_sends s s'"
    "sent out = map to_exec_intent (map cancel_of (filter working (sd_tracker s)) @ [cancel_all_intent (ee_now e)])"
proof -
  obtain s1 o1 where a: "accept_each e s (map cancel_of (filter working (sd_tracker s))) = (s1, o1)"
    by (cases "accept_each e s (map cancel_of (filter working (sd_tracker s)))") auto
  obtain s2 r o2 where b: "sched_accept e s1 (cancel_all_intent (ee_now e)) = (s2, r, o2)"
    by (cases "sched_accept e s1 (cancel_all_intent (ee_now e))") auto
  have eq: "s' = s2" "out = o1 @ o2" using assms(1) by (simp_all add: flatten_orders_def send_all_cancels_def a b)
  show "after_sends s s'" unfolding eq
    using accept_each_after [OF a] sched_accept_after [OF b] by (rule after_sends_trans)
  show "sent out = map to_exec_intent (map cancel_of (filter working (sd_tracker s)) @ [cancel_all_intent (ee_now e)])"
    using accept_each_live [OF a assms(2,3)] sched_accept_sent(3) [OF b] assms(4)
      after_sends_frame(4,13) [OF accept_each_after [OF a]] assms(3)
    by (simp add: eq all_pushed_def)
qed

lemma to_dry_run_result:
  "sd_mode (fst (to_dry_run s)) = DRY_RUN" "sent (snd (to_dry_run s)) = []"
  "sd_session (fst (to_dry_run s)) = sd_session s" "sim_ok s \<Longrightarrow> sim_ok (fst (to_dry_run s))"
  "sd_strategy (fst (to_dry_run s)) = sd_strategy s" "sd_tracker (fst (to_dry_run s)) = sd_tracker s"
  by (simp_all add: to_dry_run_def sim_ok_on_sim) (simp_all add: on_sim_def switch_mode_def)

lemma emergency_stop_live:
  assumes "sd_mode s = LIVE_MODE" "queue_behind s" "all_pushed e" "sim_ok s"
  shows "resting (fst (emergency_stop e s))"
    "sent (snd (emergency_stop e s)) =
       map to_exec_intent (map cancel_of (filter working (sd_tracker s)) @ [cancel_all_intent (ee_now e)])"
proof -
  obtain s1 o1 where a: "flatten_orders e s = (s1, o1)" by (cases "flatten_orders e s") auto
  obtain s2 o2 where b: "to_dry_run s1 = (s2, o2)" by (cases "to_dry_run s1") auto
  note fl = flatten_orders_live [OF a assms(1,2,3)]
  note dr = to_dry_run_result [of s1, unfolded b, simplified]
  have "sim_ok s2" using dr(4) after_sends_frame(14) [OF fl(1)] assms(4) by simp
  thus "resting (fst (emergency_stop e s))" using dr(1)
    by (auto simp: emergency_stop_def a b resting_def new_session_def sd_mode_def sim_ok_def)
  show "sent (snd (emergency_stop e s)) =
      map to_exec_intent (map cancel_of (filter working (sd_tracker s)) @ [cancel_all_intent (ee_now e)])"
    using fl(2) dr(2) by (simp add: emergency_stop_def a b)
qed

lemma absorb_frame:
  "sd_mode (absorb_event e ev s) = sd_mode s" "queue_behind (absorb_event e ev s) = queue_behind s"
  "sim_ok (absorb_event e ev s) = sim_ok s" "sd_session (absorb_event e ev s) = sd_session s"
  "sd_strategy (absorb_event e ev s) = sd_strategy s" "sd_risk (absorb_event e ev s) = sd_risk s"
  "sd_has_journal (absorb_event e ev s) = sd_has_journal s" "sd_slot_map (absorb_event e ev s) = sd_slot_map s"
  "sd_sell_all_id (absorb_event e ev s) = sd_sell_all_id s" "sd_sink (absorb_event e ev s) = sd_sink s"
  by (simp_all add: absorb_event_def feed_tracker_def mirror_event_def note_tick_size_def queue_behind_def
      sim_ok_def)

lemma absorb_tracker:
  "sd_tracker (absorb_event e ev s) =
     (if sd_mode s = DRY_RUN then sd_tracker s
      else if ev_source ev = EXEC_INTERNAL then on_exec_feedback (sd_tracker s) ev
      else if ev_source ev = USER_WS then on_user_update (sd_tracker s) ev else sd_tracker s)"
  by (simp add: absorb_event_def feed_tracker_def mirror_event_def note_tick_size_def)



subsection \<open>Sessions\<close>

text \<open>What the promotion of a market to the current slot does to a session, given whether the window
  of that market ends after the session's effective end.\<close>

fun session_next :: "session_state \<Rightarrow> bool \<Rightarrow> session_state" where
  "session_next SES_IDLE late = SES_IDLE"
| "session_next SES_PENDING late = (if late then SES_IDLE else SES_ACTIVE)"
| "session_next SES_ACTIVE late = (if late then SES_IDLE else SES_ACTIVE)"

fun session_mode :: "session_state \<Rightarrow> bool \<Rightarrow> execution_mode \<Rightarrow> execution_mode" where
  "session_mode SES_IDLE late m = m"
| "session_mode SES_PENDING late m = (if late then m else LIVE_MODE)"
| "session_mode SES_ACTIVE late m = (if late then DRY_RUN else m)"

lemma exceeds_end_entered [simp]:
  "exceeds_end (ses\<lparr> ses_markets_entered := n \<rparr>) w = exceeds_end ses w"
  by (simp add: exceeds_end_def)

lemma process_promotion:
  assumes "ev_source ev = CONTROL" "ev_kind ev = SLOT_PROMOTED"
  shows "process_event ops e ev s = handle_slot_promoted ops e ev (absorb_event e ev s)"
  using assms
  by (cases "handle_slot_promoted ops e ev (absorb_event e ev s)")
    (simp add: process_event_def route_feedback_def handle_control_def should_trigger_def journal_user_def)

lemma flatten_after: "flatten_orders e s = (s', out) \<Longrightarrow> after_sends s s'"
  by (auto simp: flatten_orders_def send_all_cancels_def split: prod.splits
      dest!: accept_each_after sched_accept_after intro: after_sends_trans)

lemma session_end_result:
  assumes "session_end ops e s = (s', out)"
  shows "sd_mode s' = DRY_RUN" "sd_session s' = new_session"
    "sd_strategy s' = so_set_dry_run ops (so_set_enabled ops (sd_strategy s) False) True"
    "sd_mode s = LIVE_MODE \<Longrightarrow> queue_behind s \<Longrightarrow> all_pushed e \<Longrightarrow>
       sent out = map to_exec_intent (map cancel_of (filter working (sd_tracker s)) @ [cancel_all_intent (ee_now e)])"
proof -
  obtain s1 o1 where a: "flatten_orders e s = (s1, o1)" by (cases "flatten_orders e s") auto
  obtain s2 o2 where b: "to_dry_run s1 = (s2, o2)" by (cases "to_dry_run s1") auto
  note dr = to_dry_run_result [of s1, unfolded b, simplified]
  have eq: "s' = (on_strategy (\<lambda>st. so_set_dry_run ops (so_set_enabled ops st False) True) s2)\<lparr> sd_session := new_session \<rparr>"
    "out = o1 @ o2"
    using assms by (simp_all add: session_end_def a b)
  show "sd_mode s' = DRY_RUN" "sd_session s' = new_session" by (simp_all add: eq dr)
  show "sd_strategy s' = so_set_dry_run ops (so_set_enabled ops (sd_strategy s) False) True"
    using dr(5) after_sends_frame(5) [OF flatten_after [OF a]] by (simp add: eq on_strategy_def)
  show "sent out = map to_exec_intent (map cancel_of (filter working (sd_tracker s)) @ [cancel_all_intent (ee_now e)])"
    if "sd_mode s = LIVE_MODE" "queue_behind s" "all_pushed e"
    using flatten_orders_live(2) [OF a that] dr(2) by (simp add: eq)
qed



subsection \<open>The sell buttons\<close>

lemma sdiv_pos: "0 < a \<Longrightarrow> a sdiv kSellShareRound = a div kSellShareRound"
  by (simp add: sdiv_nonneg kSellShareRound_def)

lemma rounded_positive: "0 < p \<Longrightarrow> (p sdiv kSellShareRound) * kSellShareRound > 0 \<longleftrightarrow> 10000 \<le> (p::int)"
  by (simp add: sdiv_pos) (simp add: kSellShareRound_def pos_imp_zdiv_pos_iff)

text \<open>The whole hundredths of a share of each token with at least one of them.\<close>

definition sales :: "token_inventory \<Rightarrow> (asset_id \<times> market_pair) list \<Rightarrow> (asset_id \<times> qty) list" where
  "sales iv ts = map (\<lambda>(t, p). (t, position_for iv t - position_for iv t mod 10000))
     (filter (\<lambda>(t, p). 10000 \<le> position_for iv t) ts)"

definition is_sale :: "exec_intent \<Rightarrow> bool" where
  "is_sale x \<longleftrightarrow> xi_type x = PLACE_ORDER \<and> xi_side x = ASK \<and> xi_order_type x = FAK \<and> xi_price x = 100"

lemma sell_intents_sales:
  "map (\<lambda>x. (xi_asset_id x, xi_size x)) (map to_exec_intent (fst (sell_intents iv now n ts))) = sales iv ts \<and>
   list_all is_sale (map to_exec_intent (fst (sell_intents iv now n ts)))"
proof (induction iv now n ts rule: sell_intents.induct)
  case (2 iv now n token pair ts)
  let ?p = "position_for iv token"
  show ?case
  proof (cases "10000 \<le> ?p")
    case True
    hence r: "?p > 0" "(?p sdiv kSellShareRound) * kSellShareRound > 0" by (simp_all add: rounded_positive)
    have "(?p sdiv kSellShareRound) * kSellShareRound = ?p - ?p mod 10000"
      using r(1) by (simp add: sdiv_pos) (simp add: kSellShareRound_def minus_mod_eq_div_mult)
    with r True 2 show ?thesis
      by (auto simp: Let_def sales_def is_sale_def to_exec_intent_def new_execution_intent_def exec_intent_side_def
          split: prod.split)
  next
    case False
    hence "?p \<le> 0 \<or> (?p sdiv kSellShareRound) * kSellShareRound \<le> 0" using rounded_positive [of ?p] by fastforce
    with False 2 show ?thesis by (auto simp: Let_def sales_def)
  qed
qed (simp_all add: sales_def)

lemma switch_frame [simp]:
  "queue_behind (switch_mode m s) = queue_behind s" "sd_tracker (switch_mode m s) = sd_tracker s"
  "sd_strategy (switch_mode m s) = sd_strategy s" "sd_sell_all_id (switch_mode m s) = sd_sell_all_id s"
  "queue_behind (on_strategy f s) = queue_behind s" "sd_tracker (on_strategy f s) = sd_tracker s"
  "sd_strategy (on_strategy f s) = f (sd_strategy s)" "sd_sell_all_id (on_strategy f s) = sd_sell_all_id s"
  "queue_behind (s\<lparr> sd_sell_all_id := n \<rparr>) = queue_behind s"
  by (simp_all add: queue_behind_def switch_mode_def mf_set_mode_def on_strategy_def)

lemma market_sell_result:
  assumes "handle_market_sell ops e down s = (s', out)" "queue_behind s" "all_pushed e"
  shows "\<exists>sells. sent out = map to_exec_intent (map cancel_of (filter working (sd_tracker s))) @ sells \<and>
      list_all is_sale sells \<and>
      map (\<lambda>x. (xi_asset_id x, xi_size x)) sells = sales (ee_inventory e) (sell_tokens down (ee_pair_order e))"
    "sd_mode s' = sd_mode s" "sd_strategy s' = so_set_enabled ops (sd_strategy s) False"
    "sd_session s' = sd_session s" "sd_tracker s' = sd_tracker s"
proof -
  let ?s1 = "switch_mode LIVE_MODE (on_strategy (\<lambda>st. so_set_enabled ops st False) s)"
  let ?cs = "map cancel_of (filter working (sd_tracker s))"
  obtain s2 o2 where a: "accept_each e ?s1 ?cs = (s2, o2)" by (cases "accept_each e ?s1 ?cs") auto
  obtain sells n where b: "sell_intents (ee_inventory e) (ee_now e) (sd_sell_all_id s2) (sell_tokens down (ee_pair_order e)) = (sells, n)"
    by (cases "sell_intents (ee_inventory e) (ee_now e) (sd_sell_all_id s2) (sell_tokens down (ee_pair_order e))") auto
  obtain s3 o3 where c: "accept_each e (s2\<lparr> sd_sell_all_id := n \<rparr>) sells = (s3, o3)"
    by (cases "accept_each e (s2\<lparr> sd_sell_all_id := n \<rparr>) sells") auto
  have eq: "s' = switch_mode (sd_mode s) s3" "out = o2 @ o3"
    using assms(1) by (simp_all add: handle_market_sell_def send_all_cancels_def a b c)
  note f2 = after_sends_frame [OF accept_each_after [OF a]]
  note f3 = after_sends_frame [OF accept_each_after [OF c]]
  have "sent o2 = map to_exec_intent ?cs"
    using accept_each_live [OF a] assms(2,3) by (simp add: all_pushed_def)
  moreover have "sent o3 = map to_exec_intent sells"
    using accept_each_live [OF c] f2(4,13) assms(2,3) by (simp add: all_pushed_def)
  moreover note sell_intents_sales [of "ee_inventory e" "ee_now e" "sd_sell_all_id s2" "sell_tokens down (ee_pair_order e)"]
  ultimately show "\<exists>sells. sent out = map to_exec_intent ?cs @ sells \<and> list_all is_sale sells \<and>
      map (\<lambda>x. (xi_asset_id x, xi_size x)) sells = sales (ee_inventory e) (sell_tokens down (ee_pair_order e))"
    by (intro exI [of _ "map to_exec_intent sells"]) (simp add: eq b)
  show "sd_mode s' = sd_mode s" "sd_strategy s' = so_set_enabled ops (sd_strategy s) False"
    "sd_session s' = sd_session s" "sd_tracker s' = sd_tracker s"
    using f2(1,3,5) f3(1,3,5) by (simp_all add: eq)
qed


definition sell_env :: event_env where
  "sell_env = sample_env\<lparr> ee_inventory := empty_inventory\<lparr> positions := [''u'' \<mapsto> 25000, ''d'' \<mapsto> 9999] \<rparr>,
     ee_pair_order := [\<lparr> mp_condition_id = ''m'', token_id_up = ''u'', token_id_down = ''d'',
       mp_neg_risk = False, mp_fee_rate_bps = 0 \<rparr>] \<rparr>"

lemma control_event_simps [simp]: "ev_source (control_event k) = CONTROL" "ev_kind (control_event k) = k"
  by (simp_all add: control_event_def)


subsection \<open>The order of a pass\<close>

fun until_shutdown :: "scheduler_event list \<Rightarrow> scheduler_event list" where
  "until_shutdown [] = []"
| "until_shutdown (ev # evs) = (if ev_kind ev = CONTROL_SHUTDOWN then [ev] else ev # until_shutdown evs)"

lemma pass_event_done [simp]: "ps_done (pass_event ops env p ev) = ps_done p @ [ev]"
  "ps_stop (pass_event ops env p ev) = ps_stop p"
  by (simp_all add: pass_event_def split: prod.split)

lemma pass_events_done: "ps_done (pass_events ops env evs p) = ps_done p @ evs"
  "ps_stop (pass_events ops env evs p) = ps_stop p"
  by (induction evs arbitrary: p) (simp_all add: pass_events_def)

lemma control_phase_done:
  "ps_done (control_phase ops env n evs p) = ps_done p @ until_shutdown (take n evs)"
  "\<not> ps_stop p \<Longrightarrow> ps_stop (control_phase ops env n evs p) \<longleftrightarrow> (\<exists>ev \<in> set (take n evs). ev_kind ev = CONTROL_SHUTDOWN)"
  by (induction ops env n evs p rule: control_phase.induct) (auto simp: Let_def)

lemma drain_sim_done: "drain_sim ops env fuel p = Some p' \<Longrightarrow> (\<exists>sims. ps_done p' = ps_done p @ sims) \<and> ps_stop p' = ps_stop p"
proof (induction fuel arbitrary: p)
  case 0
  then show ?case by (subst (asm) drain_sim.simps) (auto split: option.splits prod.splits)
next
  case (Suc fuel)
  from Suc.prems show ?case
    by (subst (asm) drain_sim.simps) (auto split: option.splits prod.splits dest!: Suc.IH)
qed

text \<open>A pass that returns has processed, in this order: the first user events, the first execution
  events, the simulated feedback, the first market events, the slot events and the first control
  events up to a shutdown, each queue from its oldest entry and never beyond its limit.  It asks the
  loop to stop exactly if a shutdown is among those control events.\<close>

theorem pass_processes_in_order:
  assumes "scheduler_pass ops cfg env fuel q s = Some p"
  shows "(\<exists>sims. ps_done p = take (nat (scf_max_user cfg)) (q_user q) @ take (nat (scf_max_exec cfg)) (q_exec q) @ sims @
      map from_market (take (nat (scf_max_market cfg)) (q_market q)) @ (if sd_has_slot_queue s then q_slot q else []) @
      until_shutdown (take (nat (scf_max_control cfg)) (q_control q))) \<and>
    (ps_stop p \<longleftrightarrow> (\<exists>ev. ev \<in> set (take (nat (scf_max_control cfg)) (q_control q)) \<and> ev_kind ev = CONTROL_SHUTDOWN))"
proof -
  let ?p0 = "\<lparr> ps_sched = s\<lparr> sd_books := foldl apply_delta (sd_books s) (q_deltas q) \<rparr>, ps_out = [], ps_done = [], ps_stop = False \<rparr>"
  let ?p2 = "pass_events ops env (take (nat (scf_max_exec cfg)) (q_exec q))
    (pass_events ops env (take (nat (scf_max_user cfg)) (q_user q)) ?p0)"
  obtain p3 where sim: "sim_phase ops env fuel ?p2 = Some p3" using assms
    by (auto simp: scheduler_pass_def Let_def split: option.splits)
  obtain sims where p3: "ps_done p3 = ps_done ?p2 @ sims" "\<not> ps_stop p3"
    using sim by (auto simp: sim_phase_def pass_events_done dest!: drain_sim_done split: if_splits)
  let ?p5 = "feed_prices ops (q_rtds q) (take (nat (scf_max_binance cfg)) (q_binance q))
    (pass_events ops env (map from_market (take (nat (scf_max_market cfg)) (q_market q))) p3)"
  let ?p6 = "if sd_has_slot_queue s then pass_events ops env (q_slot q) ?p5 else ?p5"
  have p6: "ps_done ?p6 = ps_done p3 @ map from_market (take (nat (scf_max_market cfg)) (q_market q)) @
      (if sd_has_slot_queue s then q_slot q else [])" "\<not> ps_stop ?p6"
    using p3(2) by (simp_all add: feed_prices_def pass_events_done)
  have "ps_done p = ps_done (control_phase ops env (nat (scf_max_control cfg)) (q_control q) ?p6)"
    "ps_stop p = ps_stop (control_phase ops env (nat (scf_max_control cfg)) (q_control q) ?p6)"
    using assms sim by (auto simp: scheduler_pass_def Let_def)
  thus ?thesis using p3(1) p6 by (auto simp: control_phase_done pass_events_done)
qed

theorem pass_processes_in_order_witness:
  "\<exists>p. scheduler_pass (fixed_strategy []) sample_config (\<lambda>_. sample_env) 0
       (sample_queues [control_event CONTROL_CANCEL_ALL, control_event CONTROL_SHUTDOWN, control_event CONTROL_CANCEL_ALL])
       (sample_scheduler DRY_RUN) = Some p \<and> ps_stop p \<and>
     (\<exists>sims. ps_done p = sims @ [control_event CONTROL_CANCEL_ALL, control_event CONTROL_SHUTDOWN])"
proof -
  let ?evs = "[control_event CONTROL_CANCEL_ALL, control_event CONTROL_SHUTDOWN, control_event CONTROL_CANCEL_ALL]"
  obtain p where p: "scheduler_pass (fixed_strategy []) sample_config (\<lambda>_. sample_env) 0 (sample_queues ?evs)
      (sample_scheduler DRY_RUN) = Some p"
    using sample_pass_returns by blast
  note o = pass_processes_in_order [OF p]
  have c: "take (nat (scf_max_control sample_config)) (q_control (sample_queues ?evs)) = ?evs"
    by (simp add: sample_queues_def sample_config_def)
  have "ps_stop p" using o unfolding c by auto
  moreover have "\<exists>sims. ps_done p = sims @ [control_event CONTROL_CANCEL_ALL, control_event CONTROL_SHUTDOWN]"
    using o unfolding c by auto
  ultimately show ?thesis using p by blast
qed

end
