(* ===== verification/Scheduler_Limits.thy ===== *)
theory Scheduler_Limits
  imports Scheduler_Safety
begin

section \<open>Limits kept by the scheduler, and the simulated feedback\<close>

text \<open>
  Two more groups of properties of the scheduler.  The first: through the processing of a market
  event, whatever the strategy answers, the position limit and the notional limit of the risk gate
  hold for every token with all pending orders counted as filled.  The second: when the loop that
  drains the simulated feedback of dry-run mode ends.
\<close>

subsection \<open>Limits\<close>

definition free_slots :: "tracker \<Rightarrow> nat" where
  "free_slots t = length (filter (\<lambda>w. \<not> wo_occupied w) t)"

definition within_limits :: "event_env \<Rightarrow> 's scheduler \<Rightarrow> bool" where
  "within_limits e s \<longleftrightarrow>
     (\<forall>tok. \<bar>position_for (ee_inventory e) tok + pending_exposure_for_token (sd_tracker s) tok\<bar>
              \<le> max_position_per_token (rg_config (sd_risk s))) \<and>
     total_working_notional (sd_tracker s) \<le> max_notional (rg_config (sd_risk s))"

lemma risk_evaluate_config [simp]: "rg_config (fst (risk_evaluate g iv tr reg i)) = rg_config g"
  by (simp add: risk_evaluate_def risk_allow_def risk_deny_def Let_def)

lemma free_slots_pos: "0 < free_slots t \<longleftrightarrow> (\<exists>w \<in> set t. \<not> wo_occupied w)"
  by (auto simp: free_slots_def filter_empty_conv)

lemma free_slots_update:
  "i < length t \<Longrightarrow> free_slots t \<le> Suc (free_slots (t[i := w]))"
proof (induction t arbitrary: i)
  case (Cons v t)
  then show ?case by (cases i) (auto simp: free_slots_def)
qed simp

lemma free_slots_sent: "free_slots t \<le> Suc (free_slots (fst (on_intent_sent t i)))"
  using slot_lt(3) [of t] by (auto simp: on_intent_sent_def free_slots_update split: option.splits)

text \<open>Steps that keep the tracker, the limits and so the bounds.\<close>

definition same_exposure :: "'s scheduler \<Rightarrow> 's scheduler \<Rightarrow> bool" where
  "same_exposure s s' \<longleftrightarrow> sd_tracker s' = sd_tracker s \<and> rg_config (sd_risk s') = rg_config (sd_risk s)"

lemma same_exposure_within: "same_exposure s s' \<Longrightarrow> within_limits e s' = within_limits e s"
  by (simp add: same_exposure_def within_limits_def)

lemma same_exposure_trans: "same_exposure s s' \<Longrightarrow> same_exposure s' s'' \<Longrightarrow> same_exposure s s''"
  by (simp add: same_exposure_def)

lemma same_exposure_sends: "after_sends s s' \<Longrightarrow> same_exposure s s'"
  by (simp add: same_exposure_def after_sends_frame)

text \<open>One step of the submission: the bounds hold again and at most one slot is used.\<close>

definition kept :: "event_env \<Rightarrow> nat \<Rightarrow> 's scheduler \<Rightarrow> 's scheduler \<Rightarrow> bool" where
  "kept e n s s' \<longleftrightarrow> within_limits e s' \<and> rg_config (sd_risk s') = rg_config (sd_risk s) \<and>
     free_slots (sd_tracker s) \<le> free_slots (sd_tracker s') + n"

lemma kept_same: "same_exposure s s' \<Longrightarrow> within_limits e s \<Longrightarrow> kept e n s s'"
  using same_exposure_within by (auto simp: kept_def same_exposure_def)

lemma within_after_placement:
  assumes "within_limits e s" "0 < free_slots (sd_tracker s)"
    and "rr_decision (snd (risk_evaluate (sd_risk s) (Some (ee_inventory e)) (Some (sd_tracker s)) reg i)) = ALLOW"
    and "sd_tracker s' = fst (on_intent_sent (sd_tracker s) i)" "rg_config (sd_risk s') = rg_config (sd_risk s)"
  shows "within_limits e s'"
proof (cases "is_placement (in_action i)")
  case False
  hence "sd_tracker s' = sd_tracker s" using assms(4) by (simp add: on_intent_sent_def is_placement_def)
  with assms(1,5) show ?thesis by (simp add: within_limits_def)
next
  case True
  have tracked: "snd (on_intent_sent (sd_tracker s) i)"
    using on_intent_sent_full [OF True] assms(2) by (simp add: free_slots_pos)
  note ex = exposure_placed [OF True tracked] and no = notional_placed [OF True tracked]
  note lim = allowed_limits [OF assms(3) True]
  have "\<bar>position_for (ee_inventory e) tok + pending_exposure_for_token (sd_tracker s') tok\<bar>
      \<le> max_position_per_token (rg_config (sd_risk s'))" for tok
    using lim(1) assms(1,4,5)
    by (cases "in_asset_id i = tok")
      (auto simp: ex projected_position_def pending_of_def within_limits_def add.assoc)
  moreover have "total_working_notional (sd_tracker s') \<le> max_notional (rg_config (sd_risk s'))"
    using lim(2) assms(4,5) by (simp add: no)
  ultimately show ?thesis by (simp add: within_limits_def)
qed

lemma submit_intent_kept:
  assumes "submit_intent e ev s i = (s', out)" "within_limits e s" "0 < free_slots (sd_tracker s)"
  shows "kept e 1 s s'"
proof -
  obtain g rr where ev: "risk_evaluate (sd_risk s) (Some (ee_inventory e)) (Some (sd_tracker s)) (Some (ee_pairs e)) i = (g, rr)"
    by (cases "risk_evaluate (sd_risk s) (Some (ee_inventory e)) (Some (sd_tracker s)) (Some (ee_pairs e)) i") auto
  have g: "rg_config g = rg_config (sd_risk s)"
    using risk_evaluate_config [of "sd_risk s" "Some (ee_inventory e)" "Some (sd_tracker s)" "Some (ee_pairs e)" i]
    by (simp add: ev)
  obtain s2 r o2 where a: "sched_accept e (s\<lparr> sd_risk := g \<rparr>) i = (s2, r, o2)"
    by (cases "sched_accept e (s\<lparr> sd_risk := g \<rparr>) i") auto
  note f = after_sends_frame(1,2) [OF sched_accept_after [OF a], simplified]
  show ?thesis
  proof (cases "rr_decision rr = ALLOW \<and> r = SINK_ACCEPTED \<and> sd_mode s2 \<noteq> DRY_RUN")
    case True
    hence s': "s' = s2\<lparr> sd_tracker := fst (on_intent_sent (sd_tracker s) i) \<rparr>"
      using assms(1) by (auto simp: submit_intent_def ev a f Let_def)
    have "within_limits e s'"
      by (rule within_after_placement [OF assms(2,3), of "Some (ee_pairs e)" i]) (simp_all add: ev True s' f g)
    thus ?thesis using free_slots_sent [of "sd_tracker s" i] by (simp add: kept_def s' f g)
  next
    case False
    hence "s' = s\<lparr> sd_risk := g \<rparr> \<or> s' = s2"
      using assms(1) by (auto simp: submit_intent_def ev a f Let_def split: if_splits)
    hence "same_exposure s s'" using f g by (auto simp: same_exposure_def)
    thus ?thesis using assms(2) by (rule kept_same)
  qed
qed

lemma submit_all_kept:
  "submit_all e ev s is = (s', out) \<Longrightarrow> within_limits e s \<Longrightarrow> length is \<le> free_slots (sd_tracker s) \<Longrightarrow>
   kept e (length is) s s'"
proof (induction "is" arbitrary: s s' out)
  case Nil
  then show ?case by (simp add: kept_def)
next
  case (Cons i "is")
  obtain s1 o1 where a: "submit_intent e ev s i = (s1, o1)" by (cases "submit_intent e ev s i") auto
  obtain s2 o2 where b: "submit_all e ev s1 is = (s2, o2)" by (cases "submit_all e ev s1 is") auto
  have "0 < free_slots (sd_tracker s)" using Cons.prems(3) by simp
  with submit_intent_kept [OF a Cons.prems(2)] have k: "kept e 1 s s1" by simp
  hence "kept e (length is) s1 s2" using Cons.IH [OF b] Cons.prems(3) by (simp add: kept_def)
  thus ?case using k Cons.prems(1) by (auto simp: kept_def a b)
qed

lemma risk_cancels_book: "same_exposure s (fst (risk_cancels e s))"
proof (cases "send_all_cancels e s")
  case (Pair s1 out)
  have "same_exposure s s1" using Pair by (auto simp: send_all_cancels_def dest!: accept_each_after same_exposure_sends)
  thus ?thesis using Pair by (simp add: risk_cancels_def same_exposure_def clear_pending_cancel_all_def)
qed

lemma resolved_cancels_book: "same_exposure s (fst (resolved_cancels e ev s))"
  by (cases "send_market_cancels e (ev_resolved_condition_id ev) s")
    (auto simp: resolved_cancels_def send_market_cancels_def same_exposure_def
      dest!: accept_each_after same_exposure_sends)

lemma run_strategy_kept:
  assumes "within_limits e s" "kMaxIntents \<le> free_slots (sd_tracker s)"
  shows "within_limits e (fst (run_strategy ops e ev s)) \<and>
    rg_config (sd_risk (fst (run_strategy ops e ev s))) = rg_config (sd_risk s)"
proof -
  let ?s = "s\<lparr> sd_state := (sd_state s)\<lparr> sst_trigger_count := sst_trigger_count (sd_state s) + 1 \<rparr> \<rparr>"
  obtain st batch reqs where ev: "so_evaluate ops (sd_strategy ?s) (strategy_context_of e ev ?s) = (st, batch, reqs)"
    by (cases "so_evaluate ops (sd_strategy ?s) (strategy_context_of e ev ?s)") auto
  let ?is = "concat (map plan (map (enrich_intent (ee_pairs e)) (take kMaxIntents batch)))"
  obtain s2 out2 where sub: "submit_all e ev (?s\<lparr> sd_strategy := st \<rparr>) ?is = (s2, out2)"
    by (cases "submit_all e ev (?s\<lparr> sd_strategy := st \<rparr>) ?is") auto
  obtain s3 out3 where c: "risk_cancels e s2 = (s3, out3)" by (cases "risk_cancels e s2") auto
  obtain s4 out4 where r: "resolved_cancels e ev s3 = (s4, out4)" by (cases "resolved_cancels e ev s3") auto
  have fin: "fst (run_strategy ops e ev s) = s4"
    using ev sub c r unfolding run_strategy_def Let_def by (simp only: prod.case fst_conv)
  have len: "length ?is \<le> kMaxIntents" by (simp add: o_def)
  have "kept e (length ?is) (?s\<lparr> sd_strategy := st \<rparr>) s2"
    by (rule submit_all_kept [OF sub]) (use assms len in \<open>auto simp: within_limits_def\<close>)
  moreover have "same_exposure s2 s4"
    using risk_cancels_book [of s2 e] resolved_cancels_book [of s3 e ev] same_exposure_trans by (simp add: c r)
  ultimately show ?thesis using same_exposure_within [of s2 s4 e] by (simp add: fin kept_def same_exposure_def)
qed

subsection \<open>Properties: limits\<close>

text \<open>C4: The processing of a market event keeps the limits: if before it the position of every token with
  all pending orders counted as filled is within the position limit and the working notional is
  within the notional limit, then so they are after it, for every strategy, provided the tracker has
  a free slot for each intent of one batch.\<close>

theorem market_event_keeps_limits:
  assumes "ev_source ev = MARKET_WS" and "within_limits e s" and "kMaxIntents \<le> free_slots (sd_tracker s)"
    and "process_event ops e ev s = (s', out)"
  shows "within_limits e s' \<and> rg_config (sd_risk s') = rg_config (sd_risk s)"
proof -
  let ?s1 = "absorb_event e ev s"
  have b: "same_exposure s ?s1" using assms(1) by (simp add: same_exposure_def absorb_frame absorb_tracker)
  hence w: "within_limits e ?s1" "kMaxIntents \<le> free_slots (sd_tracker ?s1)"
    using assms(2,3) same_exposure_within [OF b] by (simp_all add: same_exposure_def)
  have "s' = (if should_trigger ev then fst (run_strategy ops e ev ?s1) else ?s1)"
    using assms(1,4) by (auto simp: process_event_def route_feedback_def handle_control_def Let_def split: prod.splits)
  with run_strategy_kept [OF w, of ops ev] w(1) b show ?thesis by (auto simp: same_exposure_def)
qed

theorem market_event_keeps_limits_witness:
  "within_limits sample_env (fst (process_event (fixed_strategy [sample_bid]) sample_env
     (new_event\<lparr> ev_kind := MARKET_BBO_UPDATE \<rparr>) (sample_scheduler LIVE_MODE)))"
proof -
  let ?s = "sample_scheduler LIVE_MODE" and ?ev = "new_event\<lparr> ev_kind := MARKET_BBO_UPDATE \<rparr>"
  have t: "sd_tracker ?s = new_tracker" "rg_config (sd_risk ?s) = default_risk_config"
    by (simp_all add: sample_scheduler_def new_scheduler_def new_risk_gate_def)
  have z: "sum_where P f new_tracker = 0" if "\<not> P empty_slot" for P :: "working_order \<Rightarrow> bool" and f
    using that by (simp add: new_tracker_def sum_where_def)
  have w: "within_limits sample_env ?s"
    by (simp add: within_limits_def t pending_exposure_for_token_def total_working_notional_def z sample_env_def
        position_for_def empty_inventory_def default_risk_config_def)
  have f: "kMaxIntents \<le> free_slots (sd_tracker ?s)"
    by (simp add: t free_slots_def new_tracker_def kMaxWorking_def kMaxIntents_def)
  have v: "ev_source ?ev = MARKET_WS" by (simp add: new_event_def)
  show ?thesis
    using market_event_keeps_limits [OF v w f, of "fixed_strategy [sample_bid]"]
    by (cases "process_event (fixed_strategy [sample_bid]) sample_env ?ev ?s") simp
qed

subsection \<open>Simulated feedback\<close>

definition simulated :: "scheduler_event \<Rightarrow> bool" where
  "simulated ev \<longleftrightarrow> ev_source ev = EXEC_INTERNAL \<and> ev_kind ev = EXEC_ORDER_ACK \<and>
     (ev_exec_feedback_kind ev = ORDER_ACCEPTED \<or> ev_exec_feedback_kind ev = CANCEL_CONFIRMED)"

lemma simulated_feedback_simulated [simp]: "simulated (simulated_feedback n i)"
  by (simp add: simulated_def simulated_feedback_def Let_def)

text \<open>Simulated feedback reaches the strategy only: the sink and the risk gate are those the strategy's
  answer leaves.\<close>

lemma probe_feedback_frame [simp]:
  "sd_sink (handle_probe_feedback e ev s) = sd_sink s" "sd_risk (handle_probe_feedback e ev s) = sd_risk s"
  "sd_strategy (handle_probe_feedback e ev s) = sd_strategy s"
  by (simp_all add: handle_probe_feedback_def Let_def)

lemma process_simulated:
  assumes "simulated ev"
  obtains s1 where "fst (process_event ops e ev s) = fst (run_strategy ops e ev s1)"
    "sd_sink s1 = sd_sink s" "sd_risk s1 = sd_risk s" "sd_strategy s1 = sd_strategy s"
proof
  let ?s = "handle_probe_feedback e ev (absorb_event e ev s)"
  show "fst (process_event ops e ev s) = fst (run_strategy ops e ev ?s)"
    using assms by (auto simp: process_event_def route_feedback_def handle_control_def should_trigger_def simulated_def
        split: prod.split)
qed (simp_all add: absorb_frame)

definition answer ::
  "('s, 'p, 'b) strategy_ops \<Rightarrow> event_env \<Rightarrow> scheduler_event \<Rightarrow> 's scheduler \<Rightarrow>
   's \<times> intent_batch \<times> inventory_op_request list" where
  "answer ops e ev s = so_evaluate ops (sd_strategy s) (strategy_context_of e ev
     (s\<lparr> sd_state := (sd_state s)\<lparr> sst_trigger_count := sst_trigger_count (sd_state s) + 1 \<rparr> \<rparr>))"

lemma run_strategy_simulated:
  assumes "simulated ev"
  obtains s1 where
    "fst (run_strategy ops e ev s) = fst (risk_cancels e (fst (submit_all e ev s1
       (map (enrich_intent (ee_pairs e)) (take kMaxIntents (fst (snd (answer ops e ev s))))))))"
    "sd_sink s1 = sd_sink s" "sd_risk s1 = sd_risk s" "sd_strategy s1 = fst (answer ops e ev s)"
proof
  let ?s1 = "s\<lparr> sd_state := (sd_state s)\<lparr> sst_trigger_count := sst_trigger_count (sd_state s) + 1 \<rparr>,
    sd_strategy := fst (answer ops e ev s) \<rparr>"
  have c: "concat (map (plan \<circ> f) xs) = map f xs" for f :: "execution_intent \<Rightarrow> execution_intent" and xs
    by (induction xs) simp_all
  have r: "resolved_cancels e ev s' = (s', [])" for s' :: "'a scheduler"
    using assms by (simp add: resolved_cancels_def simulated_def)
  show "fst (run_strategy ops e ev s) = fst (risk_cancels e (fst (submit_all e ev ?s1
       (map (enrich_intent (ee_pairs e)) (take kMaxIntents (fst (snd (answer ops e ev s))))))))"
    by (auto simp: run_strategy_def answer_def Let_def c r split: prod.split)
qed simp_all

text \<open>The strategy sends nothing in answer to execution feedback.\<close>

definition silent_on_feedback :: "('s, 'p, 'b) strategy_ops \<Rightarrow> bool" where
  "silent_on_feedback ops \<longleftrightarrow>
     (\<forall>st ctx. ev_source (sx_event ctx) = EXEC_INTERNAL \<longrightarrow> fst (snd (so_evaluate ops st ctx)) = [])"

lemma silent_keeps_sink:
  assumes "simulated ev" "silent_on_feedback ops" "\<not> rg_pending_cancel_all (sd_risk s)"
  shows "sd_sink (fst (process_event ops e ev s)) = sd_sink s" "sd_risk (fst (process_event ops e ev s)) = sd_risk s"
proof -
  obtain s1 where 1: "fst (process_event ops e ev s) = fst (run_strategy ops e ev s1)"
    "sd_sink s1 = sd_sink s" "sd_risk s1 = sd_risk s"
    using process_simulated [OF assms(1)] by blast
  have n: "fst (snd (answer ops e ev s1)) = []"
    using assms(1,2) by (simp add: answer_def silent_on_feedback_def strategy_context_of_def simulated_def)
  obtain s2 where 2: "fst (run_strategy ops e ev s1) = fst (risk_cancels e s2)" "sd_sink s2 = sd_sink s1" "sd_risk s2 = sd_risk s1"
    by (rule run_strategy_simulated [OF assms(1), of ops e s1]) (simp add: n)
  show "sd_sink (fst (process_event ops e ev s)) = sd_sink s" "sd_risk (fst (process_event ops e ev s)) = sd_risk s"
    using 1 2 assms(3) by (simp_all add: risk_cancels_def)
qed

lemma pass_event_sched: "ps_sched (pass_event ops env p ev) = fst (process_event ops (env (length (ps_done p))) ev (ps_sched p))"
  by (simp add: pass_event_def split: prod.split)

lemma drain_silent:
  assumes "silent_on_feedback ops"
  shows "mf_dry_sim (sd_sink (ps_sched p)) = Some d \<Longrightarrow> dr_inv d \<Longrightarrow> list_all simulated (dr_list d) \<Longrightarrow>
    \<not> rg_pending_cancel_all (sd_risk (ps_sched p)) \<Longrightarrow> dr_count d \<le> fuel \<Longrightarrow>
    \<exists>p'. drain_sim ops env fuel p = Some p' \<and> ps_done p' = ps_done p @ dr_list d"
proof (induction fuel arbitrary: p d)
  case 0
  then have "dr_count d = 0" by simp
  hence "dr_pop d = (d, None)" "dr_list d = []" by (simp_all add: dr_pop_def flip: length_dr_list)
  then show ?case using 0 by (subst drain_sim.simps) simp
next
  case (Suc fuel)
  show ?case
  proof (cases "dr_pop d = (d, None) \<and> dr_list d = []")
    case True
    then show ?thesis using Suc.prems by (subst drain_sim.simps) simp
  next
    case False
    then obtain d' ev where pop: "dr_pop d = (d', Some ev)" "dr_list d = ev # dr_list d'" "dr_inv d'"
      using dr_pop_list [OF Suc.prems(2)] by auto
    let ?p = "p\<lparr> ps_sched := on_sim (\<lambda>_. d') (ps_sched p) \<rparr>"
    let ?p1 = "pass_event ops env ?p ev"
    have sim: "simulated ev" "list_all simulated (dr_list d')" using Suc.prems(3) pop(2) by simp_all
    have len: "dr_count d' \<le> fuel" using Suc.prems(5) pop(2) length_dr_list [of d] length_dr_list [of d'] by simp
    have risk: "sd_risk (ps_sched ?p) = sd_risk (ps_sched p)" by (simp add: on_sim_def)
    note k = silent_keeps_sink [OF sim(1) assms, of "ps_sched ?p" "env (length (ps_done ?p))"]
    have "mf_dry_sim (sd_sink (ps_sched ?p1)) = Some d'" "\<not> rg_pending_cancel_all (sd_risk (ps_sched ?p1))"
      using k Suc.prems(1,4) risk by (simp_all add: pass_event_sched) (simp add: on_sim_def)
    from Suc.IH [OF this(1) pop(3) sim(2) this(2) len]
    obtain p' where "drain_sim ops env fuel ?p1 = Some p'" "ps_done p' = ps_done p @ ev # dr_list d'" by auto
    moreover have "drain_sim ops env (Suc fuel) p = drain_sim ops env fuel ?p1"
      using Suc.prems(1) pop(1) by (subst drain_sim.simps) simp
    ultimately show ?thesis using pop(2) by simp
  qed
qed

subsection \<open>Properties: simulated feedback\<close>

text \<open>C31: With a strategy that sends nothing in answer to execution feedback, the loop over the simulated
  feedback ends after as many rounds as there are pending events, and it has processed exactly those
  events, in the order of the simulated orders.\<close>

theorem simulated_feedback_drains:
  assumes "silent_on_feedback ops" and "mf_dry_sim (sd_sink (ps_sched p)) = Some d" and "dr_inv d"
    and "list_all simulated (dr_list d)" and "\<not> rg_pending_cancel_all (sd_risk (ps_sched p))"
  shows "\<exists>p'. drain_sim ops env (dr_count d) p = Some p' \<and> ps_done p' = ps_done p @ dr_list d"
  using drain_silent [OF assms] by simp

definition pending_scheduler :: "bool scheduler" where
  "pending_scheduler = on_sim (\<lambda>d. dr_on_intent d sample_bid) (sample_scheduler DRY_RUN)"

definition pending_sim :: dry_run_simulator where
  "pending_sim = dr_on_intent (dr_set_enabled new_dry_run_simulator True) sample_bid"

lemma pending_sim_facts:
  "mf_dry_sim (sd_sink pending_scheduler) = Some pending_sim" "dr_inv pending_sim" "dr_enabled pending_sim"
  "dr_list pending_sim = [simulated_feedback 0 sample_bid]"
  "\<not> rg_pending_cancel_all (sd_risk pending_scheduler)"
proof -
  show "mf_dry_sim (sd_sink pending_scheduler) = Some pending_sim" "\<not> rg_pending_cancel_all (sd_risk pending_scheduler)"
    by (simp_all add: pending_scheduler_def pending_sim_def on_sim_def sample_scheduler_def new_scheduler_def
        new_mode_filtered_sink_def new_risk_gate_def)
  note l = dr_on_intent_list [of "dr_set_enabled new_dry_run_simulator True" sample_bid, simplified]
  show "dr_inv pending_sim" using l(2) by (simp add: pending_sim_def)
  show "dr_list pending_sim = [simulated_feedback 0 sample_bid]"
    using l(1) by (simp add: pending_sim_def sim_pending_def sample_bid_def kMaxBuffered_def dr_set_enabled_def new_dry_run_simulator_def)
  show "dr_enabled pending_sim"
    by (simp add: pending_sim_def dr_on_intent_def dr_set_enabled_def)
qed

theorem simulated_feedback_drains_witness:
  "\<exists>p'. drain_sim (fixed_strategy []) (\<lambda>_. sample_env) (dr_count pending_sim)
      \<lparr> ps_sched = pending_scheduler, ps_out = [], ps_done = [], ps_stop = False \<rparr> = Some p' \<and>
     ps_done p' = [simulated_feedback 0 sample_bid]"
proof -
  let ?p = "\<lparr> ps_sched = pending_scheduler, ps_out = [], ps_done = [], ps_stop = False \<rparr>"
  have s: "silent_on_feedback (fixed_strategy [])" by (simp add: silent_on_feedback_def fixed_strategy_def)
  show ?thesis
    using simulated_feedback_drains [OF s, of ?p pending_sim "\<lambda>_. sample_env"] by (simp add: pending_sim_facts)
qed

text \<open>A strategy that answers every event with one cancel.\<close>

definition echo_cancel :: execution_intent where
  "echo_cancel = new_execution_intent\<lparr> in_action := WOULD_CANCEL_BID, in_client_order_id := ''q1'' \<rparr>"

lemma echo_cancel_simps [simp]: "in_action echo_cancel = WOULD_CANCEL_BID" "in_market_id echo_cancel = []"
  by (simp_all add: echo_cancel_def new_execution_intent_def)

definition echoing :: "bool scheduler \<Rightarrow> bool" where
  "echoing s \<longleftrightarrow> sd_strategy s \<and> sd_mode s = DRY_RUN \<and> \<not> rg_pending_cancel_all (sd_risk s) \<and>
     (\<exists>d. mf_dry_sim (sd_sink s) = Some d \<and> dr_inv d \<and> dr_enabled d \<and> list_all simulated (dr_list d) \<and> dr_list d \<noteq> [])"

lemma submit_echo:
  assumes "sd_strategy s" "sd_mode s = DRY_RUN" "\<not> rg_pending_cancel_all (sd_risk s)"
    "mf_dry_sim (sd_sink s) = Some d" "dr_inv d" "dr_enabled d" "list_all simulated (dr_list d)"
    "dr_count d < kMaxBuffered"
  shows "echoing (fst (submit_intent e ev s echo_cancel))"
proof -
  note l = dr_on_intent_list [OF assms(5), of echo_cancel]
  have "dr_list (dr_on_intent d echo_cancel) = dr_list d @ [simulated_feedback (dr_seq d) echo_cancel]"
    using assms(6,8) by (simp add: l(1) sim_pending_def)
  moreover have "dr_enabled (dr_on_intent d echo_cancel)" using assms(6) by (simp add: dr_on_intent_def)
  ultimately show ?thesis using assms l(2)
    by (simp add: submit_intent_def risk_evaluate_def risk_allow_def Let_def sched_accept_def
        mf_accept_def sd_mode_def echoing_def)
qed

lemma echo_step:
  assumes "echoing s" "mf_dry_sim (sd_sink s) = Some d" "dr_pop d = (d', Some ev)"
  shows "echoing (fst (process_event (fixed_strategy [echo_cancel]) e ev (on_sim (\<lambda>_. d') s)))"
proof -
  let ?ops = "fixed_strategy [echo_cancel]" and ?s = "on_sim (\<lambda>_. d') s"
  have d: "dr_inv d" "dr_enabled d" "list_all simulated (dr_list d)" using assms(1,2) by (auto simp: echoing_def)
  have pop: "dr_list d = ev # dr_list d'" "dr_inv d'" "dr_enabled d'"
    using dr_pop_list [OF d(1)] assms(3) d(2) by auto
  have sim: "simulated ev" "list_all simulated (dr_list d')" using d(3) pop(1) by simp_all
  have "dr_count d' < kMaxBuffered"
    using d(1) pop(1) length_dr_list [of d] length_dr_list [of d'] by (simp add: dr_inv_def)
  moreover have s: "sd_strategy ?s" "sd_mode ?s = DRY_RUN" "\<not> rg_pending_cancel_all (sd_risk ?s)"
    "mf_dry_sim (sd_sink ?s) = Some d'"
    using assms(1,2) by (auto simp: echoing_def on_sim_def sd_mode_def)
  obtain s1 where 1: "fst (process_event ?ops e ev ?s) = fst (run_strategy ?ops e ev s1)"
    "sd_sink s1 = sd_sink ?s" "sd_risk s1 = sd_risk ?s" "sd_strategy s1 = sd_strategy ?s"
    using process_simulated [OF sim(1)] by blast
  have an: "answer ?ops e ev s1 = (True, [echo_cancel], [])"
    using 1(4) s(1) by (simp add: answer_def fixed_strategy_def)
  obtain s2 where 2: "fst (run_strategy ?ops e ev s1) = fst (risk_cancels e (fst (submit_all e ev s2 [echo_cancel])))"
    "sd_sink s2 = sd_sink s1" "sd_risk s2 = sd_risk s1" "sd_strategy s2"
    by (rule run_strategy_simulated [OF sim(1), of ?ops e s1]) (simp add: an enrich_intent_def kMaxIntents_def)
  have "echoing (fst (submit_intent e ev s2 echo_cancel))"
    using 1 2 s pop sim \<open>dr_count d' < kMaxBuffered\<close> by (intro submit_echo [of _ d']) (simp_all add: sd_mode_def)
  moreover have "fst (submit_all e ev s2 [echo_cancel]) = fst (submit_intent e ev s2 echo_cancel)"
    by (simp split: prod.split)
  ultimately show ?thesis using 1(1) 2(1) by (simp add: risk_cancels_def echoing_def)
qed

lemma echo_never_drains: "echoing (ps_sched p) \<Longrightarrow> drain_sim (fixed_strategy [echo_cancel]) env fuel p = None"
proof (induction fuel arbitrary: p)
  case 0
  then obtain d d' ev where d: "mf_dry_sim (sd_sink (ps_sched p)) = Some d" "dr_pop d = (d', Some ev)"
    using dr_pop_list by (auto simp: echoing_def) metis
  show ?case using d by (subst drain_sim.simps) simp
next
  case (Suc fuel)
  then obtain d d' ev where d: "mf_dry_sim (sd_sink (ps_sched p)) = Some d" "dr_pop d = (d', Some ev)"
    using dr_pop_list by (auto simp: echoing_def) metis
  let ?p = "p\<lparr> ps_sched := on_sim (\<lambda>_. d') (ps_sched p) \<rparr>"
  have "echoing (ps_sched (pass_event (fixed_strategy [echo_cancel]) env ?p ev))"
    using echo_step [OF Suc.prems d] by (simp add: pass_event_sched)
  from Suc.IH [OF this] show ?case using d by (subst drain_sim.simps) simp
qed

lemma pending_echoing: "echoing pending_scheduler"
proof -
  have "sd_strategy pending_scheduler" "sd_mode pending_scheduler = DRY_RUN"
    by (simp_all add: pending_scheduler_def sample_scheduler_def new_scheduler_def sd_mode_def on_sim_def new_mode_filtered_sink_def)
  thus ?thesis using pending_sim_facts by (simp add: echoing_def sd_mode_def)
qed

text \<open>C39: A strategy that answers each event with one cancel keeps the loop over the simulated feedback
  running for ever: in dry-run mode, with one acknowledgement pending, the pass never gets to the
  market events or to the control events, whatever they are.\<close>

theorem simulated_feedback_can_starve:
  "scheduler_pass (fixed_strategy [echo_cancel]) cfg env fuel (sample_queues control) pending_scheduler = None"
proof -
  let ?p0 = "\<lparr> ps_sched = pending_scheduler\<lparr> sd_books := sd_books pending_scheduler \<rparr>, ps_out = [], ps_done = [], ps_stop = False \<rparr>"
  have "drain_sim (fixed_strategy [echo_cancel]) env fuel ?p0 = None"
    by (rule echo_never_drains) (simp add: pending_echoing)
  thus ?thesis using pending_sim_facts(1,3)
    by (simp add: scheduler_pass_def sample_queues_def pass_events_def sim_phase_def Let_def)
qed

end
