(* ===== verification/Tx_Encoding.thy ===== *)
theory Tx_Encoding
  imports Crypto_Encoding Price
begin

section \<open>Signatures, contract calls and transactions\<close>

text \<open>
  src/src/crypto/order_signer.cpp, src/src/inventory/rlp_encoder.cpp, abi_encoder.cpp, tx_builder.cpp,
  safe_tx_builder.cpp and proxy_tx_builder.cpp.  Functions that append to a vector return what they
  append.  The signature primitive of the curve library and the hash function are parameters: the first
  gives the compact signature and the recovery number, or nothing.  The lemmas: what the RLP encoder
  writes is read back by a decoder of the format; a transaction hash, a Safe hash and a relay hash bind
  the transaction they are computed from; the calldata of a proxy call carries the inner call.
\<close>

subsection \<open>Signing\<close>

type_synonym ecdsa = "bytes \<Rightarrow> (bytes \<times> nat) option"

definition sign_hash :: "ecdsa \<Rightarrow> bytes \<Rightarrow> bytes option" where
  "sign_hash sign h = map_option (\<lambda>(rs, recid). rs @ [of_nat (27 + recid)]) (sign h)"

definition sign_order :: "(bytes \<Rightarrow> bytes) \<Rightarrow> ecdsa \<Rightarrow> order_fields \<Rightarrow> bytes \<Rightarrow> bytes option" where
  "sign_order keccak256 sign f domain_sep =
     sign_hash sign (eip712_signing_hash keccak256 domain_sep (hash_order_struct keccak256 f))"

definition kPersonalPrefix :: bytes where
  "kPersonalPrefix = 0x19 # string_bytes ''Ethereum Signed Message:'' @ [0x0A]"

definition personal_sign :: "(bytes \<Rightarrow> bytes) \<Rightarrow> ecdsa \<Rightarrow> string \<Rightarrow> bytes option" where
  "personal_sign keccak256 sign msg =
     sign_hash sign (keccak256 (kPersonalPrefix @ string_bytes (to_string (length msg)) @ string_bytes msg))"

text \<open>The address of a public key in its uncompressed form of 65 bytes.\<close>

definition derive_address :: "(bytes \<Rightarrow> bytes) \<Rightarrow> bytes \<Rightarrow> bytes" where
  "derive_address keccak256 pub = drop 12 (keccak256 (drop 1 pub))"

subsection \<open>RLP\<close>

function encode_length_bytes :: "nat \<Rightarrow> bytes" where
  "encode_length_bytes len = (if len = 0 then [] else encode_length_bytes (len div 256) @ [of_nat (len mod 256)])"
  by auto
termination by (relation "measure id") auto

function count_length_bytes :: "nat \<Rightarrow> nat" where
  "count_length_bytes len = (if len = 0 then 0 else Suc (count_length_bytes (len div 256)))"
  by auto
termination by (relation "measure id") auto

declare encode_length_bytes.simps [simp del] count_length_bytes.simps [simp del]

definition rlp_encode_string :: "bytes \<Rightarrow> bytes" where
  "rlp_encode_string d =
     (if length d = 1 \<and> d ! 0 \<le> 0x7f then [d ! 0]
      else if length d \<le> 55 then of_nat (0x80 + length d) # d
      else of_nat (0xb7 + count_length_bytes (length d)) # encode_length_bytes (length d) @ d)"

definition rlp_encode_uint64 :: "64 word \<Rightarrow> bytes" where
  "rlp_encode_uint64 v = (if v = 0 then [0x80] else rlp_encode_string (dropWhile (\<lambda>b. b = 0) (be_bytes 8 v)))"

definition rlp_encode_uint256 :: "bytes \<Rightarrow> bytes" where
  "rlp_encode_uint256 v =
     (let d = dropWhile (\<lambda>b. b = 0) v in if d = [] then [0x80] else rlp_encode_string d)"

definition rlp_wrap_list :: "bytes \<Rightarrow> bytes" where
  "rlp_wrap_list items =
     (if length items \<le> 55 then of_nat (0xc0 + length items) # items
      else of_nat (0xf7 + count_length_bytes (length items)) # encode_length_bytes (length items) @ items)"

subsection \<open>Contract calls\<close>

definition CTF_CONTRACT_ADDRESS :: bytes where
  "CTF_CONTRACT_ADDRESS =
     [0x4D, 0x97, 0xDC, 0xd9, 0x7e, 0xC9, 0x45, 0xf4, 0x0c, 0xF6,
      0x5F, 0x87, 0x09, 0x7A, 0xCe, 0x5E, 0xA0, 0x47, 0x60, 0x45]"

definition USDC_E_ADDRESS :: bytes where
  "USDC_E_ADDRESS =
     [0x27, 0x91, 0xBc, 0xa1, 0xf2, 0xde, 0x46, 0x61, 0xED, 0x88,
      0xA3, 0x0C, 0x99, 0xA7, 0xa9, 0x44, 0x9A, 0xa8, 0x41, 0x74]"

definition selector :: "(bytes \<Rightarrow> bytes) \<Rightarrow> string \<Rightarrow> bytes" where
  "selector keccak256 sig = take 4 (keccak256 (string_bytes sig))"

definition position_call :: "(bytes \<Rightarrow> bytes) \<Rightarrow> string \<Rightarrow> bytes \<Rightarrow> 64 word \<Rightarrow> bytes" where
  "position_call keccak256 sig condition_id amount =
     selector keccak256 sig @ address_to_bytes32 USDC_E_ADDRESS @ replicate 32 0 @ condition_id @
     uint64_to_uint256_be 160 @ uint64_to_uint256_be amount @ uint64_to_uint256_be 2 @
     uint64_to_uint256_be 1 @ uint64_to_uint256_be 2"

definition encode_split_position :: "(bytes \<Rightarrow> bytes) \<Rightarrow> bytes \<Rightarrow> 64 word \<Rightarrow> bytes" where
  "encode_split_position keccak256 =
     position_call keccak256 ''splitPosition(address,bytes32,bytes32,uint256[],uint256)''"

definition encode_merge_positions :: "(bytes \<Rightarrow> bytes) \<Rightarrow> bytes \<Rightarrow> 64 word \<Rightarrow> bytes" where
  "encode_merge_positions keccak256 =
     position_call keccak256 ''mergePositions(address,bytes32,bytes32,uint256[],uint256)''"

definition encode_redeem_positions :: "(bytes \<Rightarrow> bytes) \<Rightarrow> bytes \<Rightarrow> bytes" where
  "encode_redeem_positions keccak256 condition_id =
     selector keccak256 ''redeemPositions(address,bytes32,bytes32,uint256[])'' @
     address_to_bytes32 USDC_E_ADDRESS @ replicate 32 0 @ condition_id @ uint64_to_uint256_be 128 @
     uint64_to_uint256_be 2 @ uint64_to_uint256_be 1 @ uint64_to_uint256_be 2"

definition encode_usdc_approve_ctf :: "(bytes \<Rightarrow> bytes) \<Rightarrow> bytes" where
  "encode_usdc_approve_ctf keccak256 =
     selector keccak256 ''approve(address,uint256)'' @ address_to_bytes32 CTF_CONTRACT_ADDRESS @ replicate 32 0xFF"

subsection \<open>Transactions\<close>

record raw_tx_params =
  rt_nonce :: "64 word"
  rt_gas_price :: "64 word"
  rt_gas_limit :: "64 word"
  rt_to :: bytes
  rt_value :: "64 word"
  rt_data :: bytes
  rt_chain_id :: "64 word"

definition encode_tx_fields :: "raw_tx_params \<Rightarrow> bytes" where
  "encode_tx_fields p =
     rlp_encode_uint64 (rt_nonce p) @ rlp_encode_uint64 (rt_gas_price p) @ rlp_encode_uint64 (rt_gas_limit p) @
     rlp_encode_string (rt_to p) @ rlp_encode_uint64 (rt_value p) @ rlp_encode_string (rt_data p)"

definition unsigned_rlp :: "raw_tx_params \<Rightarrow> bytes" where
  "unsigned_rlp p =
     rlp_wrap_list (encode_tx_fields p @ rlp_encode_uint64 (rt_chain_id p) @ rlp_encode_uint64 0 @ rlp_encode_uint64 0)"

definition build_signed_transaction ::
  "(bytes \<Rightarrow> bytes) \<Rightarrow> ecdsa \<Rightarrow> raw_tx_params \<Rightarrow> bytes" where
  "build_signed_transaction keccak256 sign p =
     (case sign_hash sign (keccak256 (unsigned_rlp p)) of
        None \<Rightarrow> []
      | Some sig \<Rightarrow>
          (let recid = sig ! 64 - 27; v = rt_chain_id p * 2 + 35 + ucast recid
           in rlp_wrap_list (encode_tx_fields p @ rlp_encode_uint64 v @ rlp_encode_uint256 (take 32 sig) @
                rlp_encode_uint256 (take 32 (drop 32 sig)))))"

definition compute_tx_hash :: "(bytes \<Rightarrow> bytes) \<Rightarrow> bytes \<Rightarrow> bytes" where
  "compute_tx_hash keccak256 signed_tx = keccak256 signed_tx"

subsection \<open>Safe wallets\<close>

definition safe_domain_type :: string where
  "safe_domain_type = ''EIP712Domain(uint256 chainId,address verifyingContract)''"

definition safe_tx_type :: string where
  "safe_tx_type = concat
     [''SafeTx(address to,uint256 value,bytes data,uint8 operation,'',
      ''uint256 safeTxGas,uint256 baseGas,uint256 gasPrice,'',
      ''address gasToken,address refundReceiver,uint256 nonce)'']"

definition compute_safe_domain_separator :: "(bytes \<Rightarrow> bytes) \<Rightarrow> bytes \<Rightarrow> 64 word \<Rightarrow> bytes" where
  "compute_safe_domain_separator keccak256 safe chain_id =
     keccak256 (keccak256 (string_bytes safe_domain_type) @ uint64_to_uint256_be chain_id @ address_to_bytes32 safe)"

record safe_tx_fields =
  sf_to :: bytes
  sf_data :: bytes
  sf_nonce :: "64 word"
  sf_operation :: byte

definition safe_tx_bytes :: "(bytes \<Rightarrow> bytes) \<Rightarrow> safe_tx_fields \<Rightarrow> bytes" where
  "safe_tx_bytes keccak256 f =
     keccak256 (string_bytes safe_tx_type) @ address_to_bytes32 (sf_to f) @ replicate 32 0 @
     keccak256 (sf_data f) @ (replicate 31 0 @ [sf_operation f]) @ replicate 32 0 @ replicate 32 0 @
     replicate 32 0 @ replicate 32 0 @ replicate 32 0 @ uint64_to_uint256_be (sf_nonce f)"

definition hash_safe_tx_struct :: "(bytes \<Rightarrow> bytes) \<Rightarrow> safe_tx_fields \<Rightarrow> bytes" where
  "hash_safe_tx_struct keccak256 f = keccak256 (safe_tx_bytes keccak256 f)"

definition safe_tx_signing_hash :: "(bytes \<Rightarrow> bytes) \<Rightarrow> bytes \<Rightarrow> safe_tx_fields \<Rightarrow> bytes" where
  "safe_tx_signing_hash keccak256 domain_sep f =
     eip712_signing_hash keccak256 domain_sep (hash_safe_tx_struct keccak256 f)"

definition SAFE_FACTORY :: bytes where
  "SAFE_FACTORY =
     [0xaa, 0xcf, 0xee, 0xa0, 0x3e, 0xb1, 0x56, 0x1c, 0x4e, 0x67,
      0xd6, 0x61, 0xe4, 0x06, 0x82, 0xbd, 0x20, 0xe3, 0x54, 0x1b]"

definition SAFE_INIT_CODE_HASH :: bytes where
  "SAFE_INIT_CODE_HASH =
     [0x2b, 0xce, 0x21, 0x27, 0xff, 0x07, 0xfb, 0x63, 0x2d, 0x16, 0xc8, 0x34, 0x7c, 0x4e, 0xbf, 0x50,
      0x1f, 0x48, 0x41, 0x16, 0x8b, 0xed, 0x00, 0xd9, 0xe6, 0xef, 0x71, 0x5d, 0xdb, 0x6f, 0xce, 0xcf]"

definition create2_address :: "(bytes \<Rightarrow> bytes) \<Rightarrow> bytes \<Rightarrow> bytes \<Rightarrow> bytes \<Rightarrow> string" where
  "create2_address keccak256 factory salt init_hash =
     ''0x'' @ hex_encode (take 20 (drop 12 (keccak256 (0xff # factory @ salt @ init_hash))))"

definition derive_safe_address :: "(bytes \<Rightarrow> bytes) \<Rightarrow> bytes \<Rightarrow> string" where
  "derive_safe_address keccak256 eoa =
     create2_address keccak256 SAFE_FACTORY (keccak256 (address_to_bytes32 eoa)) SAFE_INIT_CODE_HASH"

definition eth_sign_hash :: "(bytes \<Rightarrow> bytes) \<Rightarrow> bytes \<Rightarrow> bytes" where
  "eth_sign_hash keccak256 h = keccak256 (kPersonalPrefix @ string_bytes ''32'' @ h)"

subsection \<open>Proxy wallets\<close>

definition PROXY_FACTORY_ADDRESS :: bytes where
  "PROXY_FACTORY_ADDRESS =
     [0xaB, 0x45, 0xc5, 0xA4, 0xB0, 0xc9, 0x41, 0xa2, 0xF2, 0x31,
      0xC0, 0x4C, 0x3f, 0x49, 0x18, 0x2e, 0x1A, 0x25, 0x40, 0x52]"

definition RELAY_HUB_ADDRESS :: bytes where
  "RELAY_HUB_ADDRESS =
     [0xD2, 0x16, 0x15, 0x3c, 0x06, 0xE8, 0x57, 0xcD, 0x7f, 0x72,
      0x66, 0x5E, 0x0a, 0xF1, 0xd7, 0xD8, 0x21, 0x72, 0xF4, 0x94]"

definition PROXY_INIT_CODE_HASH :: bytes where
  "PROXY_INIT_CODE_HASH =
     [0xd2, 0x1d, 0xf8, 0xdc, 0x65, 0x88, 0x0a, 0x86, 0x06, 0xf0, 0x9f, 0xe0, 0xce, 0x3d, 0xf9, 0xb8,
      0x86, 0x92, 0x87, 0xab, 0x0b, 0x05, 0x8b, 0xe0, 0x5a, 0xa9, 0xe8, 0xaf, 0x63, 0x30, 0xa0, 0x0b]"

definition derive_proxy_address :: "(bytes \<Rightarrow> bytes) \<Rightarrow> bytes \<Rightarrow> string" where
  "derive_proxy_address keccak256 eoa =
     create2_address keccak256 PROXY_FACTORY_ADDRESS (keccak256 eoa) PROXY_INIT_CODE_HASH"

definition padded_data_len :: "bytes \<Rightarrow> nat" where
  "padded_data_len d = (length d + 31) div 32 * 32"

definition encode_proxy_call_data :: "(bytes \<Rightarrow> bytes) \<Rightarrow> bytes \<Rightarrow> bytes \<Rightarrow> bytes" where
  "encode_proxy_call_data keccak256 target inner =
     selector keccak256 ''proxy((uint8,address,uint256,bytes)[])'' @
     uint64_to_uint256_be 32 @ uint64_to_uint256_be 1 @ uint64_to_uint256_be 32 @ uint64_to_uint256_be 1 @
     address_to_bytes32 target @ uint64_to_uint256_be 0 @ uint64_to_uint256_be 128 @
     uint64_to_uint256_be (of_nat (length inner)) @ inner @ replicate (padded_data_len inner - length inner) 0"

record proxy_tx_params =
  px_from :: bytes
  px_to :: bytes
  px_data :: bytes
  px_tx_fee :: "64 word"
  px_gas_price :: "64 word"
  px_gas_limit :: "64 word"
  px_nonce :: "64 word"
  px_relay_hub :: bytes
  px_relay :: bytes

definition proxy_tx_bytes :: "proxy_tx_params \<Rightarrow> bytes" where
  "proxy_tx_bytes p =
     string_bytes ''rlx:'' @ px_from p @ px_to p @ px_data p @ uint64_to_uint256_be (px_tx_fee p) @
     uint64_to_uint256_be (px_gas_price p) @ uint64_to_uint256_be (px_gas_limit p) @
     uint64_to_uint256_be (px_nonce p) @ px_relay_hub p @ px_relay p"

definition create_proxy_struct_hash :: "(bytes \<Rightarrow> bytes) \<Rightarrow> proxy_tx_params \<Rightarrow> bytes" where
  "create_proxy_struct_hash keccak256 p = keccak256 (proxy_tx_bytes p)"

subsection \<open>Reading RLP\<close>

text \<open>A decoder of the format: whether the first item is a list, its payload and what follows.\<close>

fun rlp_item :: "bytes \<Rightarrow> (bool \<times> bytes \<times> bytes) option" where
  "rlp_item [] = None"
| "rlp_item (b # bs) =
     (let t = unat b
      in if t < 128 then Some (False, [b], bs)
         else if t \<le> 183 then Some (False, take (t - 128) bs, drop (t - 128) bs)
         else if t < 192 then
           (let k = t - 183; n = be_value (take k bs) in Some (False, take n (drop k bs), drop (k + n) bs))
         else if t \<le> 247 then Some (True, take (t - 192) bs, drop (t - 192) bs)
         else (let k = t - 247; n = be_value (take k bs) in Some (True, take n (drop k bs), drop (k + n) bs)))"

fun rlp_strings :: "nat \<Rightarrow> bytes \<Rightarrow> bytes list option" where
  "rlp_strings 0 bs = (if bs = [] then Some [] else None)"
| "rlp_strings (Suc n) bs =
     (case rlp_item bs of
        Some (False, d, rest) \<Rightarrow> map_option (Cons d) (rlp_strings n rest)
      | _ \<Rightarrow> None)"

definition rlp_list :: "nat \<Rightarrow> bytes \<Rightarrow> bytes list option" where
  "rlp_list n bs = (case rlp_item bs of Some (True, items, []) \<Rightarrow> rlp_strings n items | _ \<Rightarrow> None)"

lemma length_bytes_value:
  "be_value (encode_length_bytes n) = n \<and> length (encode_length_bytes n) = count_length_bytes n"
proof (induction n rule: encode_length_bytes.induct)
  case (1 n)
  have b: "be_value [of_nat (n mod 256)] = n mod 256"
    by (simp add: be_value_def unat_byte_of_nat)
  show ?case
  proof (cases "n = 0")
    case True
    then show ?thesis by (simp add: encode_length_bytes.simps [of 0] count_length_bytes.simps [of 0] be_value_def)
  next
    case False
    with 1 b show ?thesis
      by (simp add: encode_length_bytes.simps [of n] count_length_bytes.simps [of n] be_value_append)
  qed
qed

lemma count_length_bound: "n < 256 ^ k \<Longrightarrow> count_length_bytes n \<le> k"
proof (induction k arbitrary: n)
  case 0
  then show ?case by (simp add: count_length_bytes.simps)
next
  case (Suc k)
  have "n div 256 < 256 ^ k" using Suc.prems by (simp add: less_mult_imp_div_less mult.commute)
  with Suc.IH show ?case by (simp add: count_length_bytes.simps [of n])
qed

lemma count_length_pos: "0 < n \<Longrightarrow> 0 < count_length_bytes n"
  by (simp add: count_length_bytes.simps [of n])

lemma rlp_item_string:
  assumes "length d < 2 ^ 64"
  shows "rlp_item (rlp_encode_string d @ rest) = Some (False, d, rest)"
proof -
  have "length d < 256 ^ 8" using assms by simp
  hence k: "count_length_bytes (length d) \<le> 8" by (rule count_length_bound)
  consider (one) "length d = 1" "d ! 0 \<le> 0x7f" | (short) "\<not> (length d = 1 \<and> d ! 0 \<le> 0x7f)" "length d \<le> 55" | (long) "length d > 55"
    by force
  thus ?thesis
  proof cases
    case one
    then obtain b where d: "d = [b]" by (cases d) auto
    have "unat b < 128" using one(2) by (simp add: d word_le_nat_alt)
    thus ?thesis by (simp add: rlp_encode_string_def d word_le_nat_alt)
  next
    case short
    have "unat (of_nat (128 + length d) :: byte) = 128 + length d" using short(2) by (intro unat_byte_of_nat) simp
    thus ?thesis using short by (simp add: rlp_encode_string_def del: of_nat_add) force
  next
    case long
    let ?k = "count_length_bytes (length d)"
    have kp: "0 < ?k" using count_length_pos [of "length d"] long by linarith
    have "unat (of_nat (183 + ?k) :: byte) = 183 + ?k" using k by (intro unat_byte_of_nat) simp
    thus ?thesis using long kp k length_bytes_value [of "length d"]
      by (simp add: rlp_encode_string_def Let_def del: of_nat_add)
  qed
qed

lemma rlp_item_list:
  assumes "length items < 2 ^ 64"
  shows "rlp_item (rlp_wrap_list items @ rest) = Some (True, items, rest)"
proof -
  have "length items < 256 ^ 8" using assms by simp
  hence k: "count_length_bytes (length items) \<le> 8" by (rule count_length_bound)
  show ?thesis
  proof (cases "length items \<le> 55")
    case True
    have "unat (of_nat (192 + length items) :: byte) = 192 + length items" using True by (intro unat_byte_of_nat) simp
    thus ?thesis using True by (simp add: rlp_wrap_list_def del: of_nat_add)
  next
    case False
    let ?k = "count_length_bytes (length items)"
    have kp: "0 < ?k" using count_length_pos [of "length items"] False by linarith
    have "unat (of_nat (247 + ?k) :: byte) = 247 + ?k" using k by (intro unat_byte_of_nat) simp
    thus ?thesis using False kp k length_bytes_value [of "length items"]
      by (simp add: rlp_wrap_list_def Let_def del: of_nat_add)
  qed
qed

lemma rlp_strings_encoded:
  "(\<And>d. d \<in> set ds \<Longrightarrow> length d < 2 ^ 64) \<Longrightarrow>
   rlp_strings (length ds) (concat (map rlp_encode_string ds)) = Some ds"
  by (induction ds) (simp_all add: rlp_item_string)

text \<open>Numbers are written as strings without leading zeros.\<close>

definition minimal :: "bytes \<Rightarrow> bytes" where
  "minimal bs = dropWhile (\<lambda>b. b = 0) bs"

lemma be_value_minimal: "be_value (minimal bs) = be_value bs"
proof -
  have "bs = takeWhile (\<lambda>b. b = 0) bs @ minimal bs" by (simp add: minimal_def)
  moreover have "takeWhile (\<lambda>b. b = 0) bs = replicate (length (takeWhile (\<lambda>b. b = 0) bs)) 0"
    by (rule replicate_length_same [symmetric]) (auto dest: set_takeWhileD)
  ultimately show ?thesis by (metis add_0 be_value_append be_value_zeros mult_0)
qed

lemma length_minimal: "length (minimal bs) \<le> length bs"
  by (simp add: minimal_def length_dropWhile_le)

lemma unat_lt_8_bytes: "unat (v :: 64 word) < 256 ^ 8"
  using unsigned_less [of v, where ?'a = nat] by simp

lemma be_value_be8: "be_value (be_bytes 8 v) = unat v"
  using be_bytes_value [of 8 v] unat_lt_8_bytes [of v] by simp

lemma be_value_uint64: "be_value (minimal (be_bytes 8 v)) = unat v"
  by (simp add: be_value_minimal be_value_be8)

lemma minimal_inj: "minimal (be_bytes 8 v) = minimal (be_bytes 8 w) \<Longrightarrow> v = w"
  using be_value_uint64 [of v] be_value_uint64 [of w] by (metis word_eq_iff_unsigned)

lemma rlp_uint64_string: "rlp_encode_uint64 v = rlp_encode_string (minimal (be_bytes 8 v))"
proof (cases "v = 0")
  case True
  have "be_bytes n 0 = replicate n 0" for n
    by (induction n) (simp_all add: replicate_append_same)
  hence "minimal (be_bytes 8 v) = []" using True by (simp add: minimal_def)
  thus ?thesis using True by (simp add: rlp_encode_uint64_def rlp_encode_string_def)
qed (simp add: rlp_encode_uint64_def minimal_def)

lemma rlp_uint256_string: "rlp_encode_uint256 v = rlp_encode_string (minimal v)"
proof (cases "minimal v = []")
  case True
  then show ?thesis by (simp add: rlp_encode_uint256_def minimal_def [symmetric] rlp_encode_string_def [of "[]"])
qed (simp add: rlp_encode_uint256_def minimal_def [symmetric])

text \<open>The nine strings of a transaction whose last three are given.\<close>

definition tx_strings :: "raw_tx_params \<Rightarrow> bytes list \<Rightarrow> bytes list" where
  "tx_strings p ls =
     [minimal (be_bytes 8 (rt_nonce p)), minimal (be_bytes 8 (rt_gas_price p)), minimal (be_bytes 8 (rt_gas_limit p)),
      rt_to p, minimal (be_bytes 8 (rt_value p)), rt_data p] @ ls"

lemma encode_tx_fields_strings: "encode_tx_fields p = concat (map rlp_encode_string (tx_strings p []))"
  by (simp add: encode_tx_fields_def tx_strings_def rlp_uint64_string)

lemma length_rlp_string: "length (rlp_encode_string d) \<le> length d + 9" if "length d < 2 ^ 64"
proof -
  have "length d < 256 ^ 8" using that by simp
  hence "count_length_bytes (length d) \<le> 8" by (rule count_length_bound)
  thus ?thesis using length_bytes_value [of "length d"] by (simp add: rlp_encode_string_def)
qed

definition tx_sized :: "raw_tx_params \<Rightarrow> bool" where
  "tx_sized p \<longleftrightarrow> length (rt_to p) = 20 \<and> length (rt_data p) < 2 ^ 32"

lemma length_uint64_string: "length (minimal (be_bytes 8 v)) \<le> 8"
  using length_minimal [of "be_bytes 8 v"] be_bytes_value [of 8 v] by simp

lemma tx_strings_sized:
  assumes "tx_sized p" "\<And>d. d \<in> set ls \<Longrightarrow> length d \<le> 32" "d \<in> set (tx_strings p ls)"
  shows "length d < 2 ^ 32"
proof -
  have "length d \<le> 32 \<or> d = rt_data p"
    using assms(2,3) assms(1)[unfolded tx_sized_def] length_uint64_string
    by (auto simp: tx_strings_def intro: le_trans [OF length_uint64_string])
  thus ?thesis using assms(1) by (auto simp: tx_sized_def)
qed

lemma length_concat_rlp:
  "(\<And>d. d \<in> set ds \<Longrightarrow> length d < 2 ^ 32) \<Longrightarrow> length (concat (map rlp_encode_string ds)) \<le> length ds * (2 ^ 32 + 9)"
proof (induction ds)
  case (Cons d ds)
  have "length d < 2 ^ 32" using Cons.prems by simp
  hence "length (rlp_encode_string d) \<le> 2 ^ 32 + 9" using length_rlp_string [of d] by simp
  with Cons show ?case by simp
qed simp

lemma tx_decodes:
  assumes "tx_sized p" "\<And>d. d \<in> set ls \<Longrightarrow> length d \<le> 32" "length ls = 3"
  shows "rlp_list 9 (rlp_wrap_list (encode_tx_fields p @ concat (map rlp_encode_string ls))) = Some (tx_strings p ls)"
proof -
  let ?ds = "tx_strings p ls"
  have sz: "\<And>d. d \<in> set ?ds \<Longrightarrow> length d < 2 ^ 32" using tx_strings_sized [OF assms(1,2)] .
  have items: "encode_tx_fields p @ concat (map rlp_encode_string ls) = concat (map rlp_encode_string ?ds)"
    by (simp add: encode_tx_fields_strings tx_strings_def)
  have n: "length ?ds = 9" using assms(3) by (simp add: tx_strings_def)
  have "length (concat (map rlp_encode_string ?ds)) \<le> 9 * (2 ^ 32 + 9)" using length_concat_rlp [of ?ds, OF sz] unfolding n by simp
  also have "\<dots> < 2 ^ 64" by simp
  finally have lt: "length (concat (map rlp_encode_string ?ds)) < 2 ^ 64" .
  have "rlp_item (rlp_wrap_list (concat (map rlp_encode_string ?ds))) = Some (True, concat (map rlp_encode_string ?ds), [])"
    using rlp_item_list [OF lt, of "[]"] by simp
  moreover have "rlp_strings 9 (concat (map rlp_encode_string ?ds)) = Some ?ds"
    by (rule rlp_strings_encoded [of ?ds, unfolded n]) (drule sz, simp)
  ultimately show ?thesis by (simp add: rlp_list_def items)
qed

lemma unsigned_rlp_decodes:
  assumes "tx_sized p"
  shows "rlp_list 9 (unsigned_rlp p) = Some (tx_strings p [minimal (be_bytes 8 (rt_chain_id p)), minimal (be_bytes 8 0), minimal (be_bytes 8 0)])"
proof -
  let ?ls = "[minimal (be_bytes 8 (rt_chain_id p)), minimal (be_bytes 8 0), minimal (be_bytes 8 0)]"
  have "rlp_list 9 (rlp_wrap_list (encode_tx_fields p @ concat (map rlp_encode_string ?ls))) = Some (tx_strings p ?ls)"
    by (rule tx_decodes [OF assms]) (auto intro: le_trans [OF length_uint64_string])
  thus ?thesis by (simp add: unsigned_rlp_def rlp_uint64_string)
qed

lemma unsigned_rlp_inj:
  assumes "tx_sized p" "tx_sized q" "unsigned_rlp p = unsigned_rlp q"
  shows "p = q"
  using unsigned_rlp_decodes [OF assms(1)] unsigned_rlp_decodes [OF assms(2)] assms(3)
  by (cases p; cases q) (auto simp: tx_strings_def dest!: minimal_inj)

subsection \<open>Properties: transactions\<close>

text \<open>The hash that is signed for a transaction binds all its fields, the chain included: two
  transactions with the same hash are the same, or two inputs with the same hash exist.\<close>

theorem transaction_hash_binds:
  assumes "tx_sized p" and "tx_sized q" and "keccak (unsigned_rlp p) = keccak (unsigned_rlp q)"
  shows "p = q \<or> (\<exists>x y. x \<noteq> y \<and> keccak x = keccak y)"
  using unsigned_rlp_inj [OF assms(1,2)] assms(3) by blast

definition sample_tx :: "64 word \<Rightarrow> raw_tx_params" where
  "sample_tx n = \<lparr> rt_nonce = n, rt_gas_price = 30, rt_gas_limit = 500000, rt_to = CTF_CONTRACT_ADDRESS, rt_value = 0,
     rt_data = [1, 2, 3], rt_chain_id = 137 \<rparr>"

lemma sample_tx_sized: "tx_sized (sample_tx n)"
  by (simp add: tx_sized_def sample_tx_def CTF_CONTRACT_ADDRESS_def)

theorem transaction_hash_binds_witness:
  "\<exists>x y :: bytes. x \<noteq> y \<and> take 0 x = take 0 y"
proof -
  have "sample_tx 1 \<noteq> sample_tx 2" by (simp add: sample_tx_def)
  with transaction_hash_binds [of "sample_tx 1" "sample_tx 2" "take 0"] sample_tx_sized show ?thesis by simp
qed

text \<open>C16: Every signed transaction is a list of nine strings in which a reader finds the nonce, the gas
  price, the gas limit, the receiver, the value and the calldata of the parameters, the replay
  protection value for the chain and the recovery number, and the two halves of the signature.\<close>

theorem signed_transaction_decodes:
  assumes "tx_sized p" and "sign (keccak (unsigned_rlp p)) = Some (rs, recid)" and "length rs = 64"
    and "recid < 4" and "unat (rt_chain_id p) < 2 ^ 62"
  shows "\<exists>ds. rlp_list 9 (build_signed_transaction keccak sign p) = Some ds \<and>
    map be_value ds = [unat (rt_nonce p), unat (rt_gas_price p), unat (rt_gas_limit p), be_value (rt_to p),
      unat (rt_value p), be_value (rt_data p), 2 * unat (rt_chain_id p) + 35 + recid,
      be_value (take 32 rs), be_value (drop 32 rs)] \<and>
    ds ! 3 = rt_to p \<and> ds ! 5 = rt_data p"
proof -
  let ?sig = "rs @ [of_nat (27 + recid) :: byte]" and ?v = "rt_chain_id p * 2 + 35 + of_nat recid"
  have r: "ucast (of_nat (27 + recid) - 27 :: byte) = (of_nat recid :: 64 word)"
  proof -
    have "recid \<in> {0, 1, 2, 3}" using assms(4) by auto
    thus ?thesis by auto
  qed
  have n: "?sig ! 64 = of_nat (27 + recid)" using assms(3) by (simp add: nth_append del: of_nat_add)
  have v: "unat ?v = 2 * unat (rt_chain_id p) + 35 + recid"
  proof -
    have "?v = of_nat (2 * unat (rt_chain_id p) + 35 + recid)" by (simp add: mult.commute)
    moreover have "2 * unat (rt_chain_id p) + 35 + recid < 2 ^ LENGTH(64)" using assms(4,5) by simp
    ultimately show ?thesis by (simp only: unsigned_of_nat take_bit_nat_eq_self of_nat_id)
  qed
  let ?ls = "[minimal (be_bytes 8 ?v), minimal (take 32 rs), minimal (drop 32 rs)]"
  have "rlp_list 9 (rlp_wrap_list (encode_tx_fields p @ concat (map rlp_encode_string ?ls))) = Some (tx_strings p ?ls)"
    using length_minimal [of "take 32 rs"] length_minimal [of "drop 32 rs"] length_uint64_string [of ?v] assms(3)
    by (intro tx_decodes [OF assms(1)]) auto
  moreover have "sign_hash sign (keccak (unsigned_rlp p)) = Some ?sig" using assms(2) by (simp add: sign_hash_def)
  moreover have "take 32 ?sig = take 32 rs" "take 32 (drop 32 ?sig) = drop 32 rs" using assms(3) by simp_all
  ultimately have "rlp_list 9 (build_signed_transaction keccak sign p) = Some (tx_strings p ?ls)"
    by (simp only: build_signed_transaction_def option.case Let_def n r rlp_uint64_string rlp_uint256_string
        list.map concat.simps append_Nil2)
  thus ?thesis by (simp add: tx_strings_def be_value_be8 be_value_minimal v)
qed

theorem signed_transaction_decodes_witness:
  "\<exists>ds. rlp_list 9 (build_signed_transaction (take 32) (\<lambda>_. Some (replicate 64 1, 1)) (sample_tx 7)) = Some ds \<and>
     be_value (ds ! 0) = 7 \<and> ds ! 5 = [1, 2, 3] \<and> be_value (ds ! 6) = 310"
proof -
  from signed_transaction_decodes [OF sample_tx_sized [of 7], of "\<lambda>_. Some (replicate 64 1, 1)" "take 32" "replicate 64 1" 1]
  obtain ds where ds: "rlp_list 9 (build_signed_transaction (take 32) (\<lambda>_. Some (replicate 64 1, 1)) (sample_tx 7)) = Some ds"
    "map be_value ds = [7, 30, 500000, be_value CTF_CONTRACT_ADDRESS, 0, be_value [1, 2, 3], 310,
      be_value (take 32 (replicate 64 1)), be_value (drop 32 (replicate 64 1))]" "ds ! 5 = [1, 2, 3]"
    by (auto simp: sample_tx_def)
  have "length ds = 9" using arg_cong [OF ds(2), of length] by simp
  moreover have "map be_value ds ! 0 = 7" "map be_value ds ! 6 = 310" by (simp_all add: ds(2))
  ultimately show ?thesis using ds(1,3) by auto
qed

subsection \<open>Properties: wallets\<close>

definition safe_sized :: "safe_tx_fields \<Rightarrow> bool" where
  "safe_sized f \<longleftrightarrow> length (sf_to f) = 20"

lemma safe_tx_bytes_inj:
  assumes "\<And>x. length (keccak x) = 32" "safe_sized f" "safe_sized g" "safe_tx_bytes keccak f = safe_tx_bytes keccak g"
  shows "sf_to f = sf_to g" "keccak (sf_data f) = keccak (sf_data g)" "sf_operation f = sf_operation g" "sf_nonce f = sf_nonce g"
  using assms by (simp_all add: safe_tx_bytes_def safe_sized_def address_to_bytes32_def uint64_be uint64_be_inj)

text \<open>The hash that is signed for a Safe transaction binds the wallet, the chain, the receiver, the
  calldata, the kind of call and the nonce, unless two inputs with the same hash exist.\<close>

theorem safe_hash_binds:
  assumes len: "\<And>x. length (keccak x) = 32"
    and sz: "safe_sized f" "safe_sized g" "length a = 20" "length b = 20"
    and eq: "safe_tx_signing_hash keccak (compute_safe_domain_separator keccak a c) f =
      safe_tx_signing_hash keccak (compute_safe_domain_separator keccak b d) g"
  shows "(f = g \<and> a = b \<and> c = d) \<or> (\<exists>x y. x \<noteq> y \<and> keccak x = keccak y)"
proof (rule disjCI)
  assume "\<nexists>x y. x \<noteq> y \<and> keccak x = keccak y"
  hence inj: "\<And>x y. keccak x = keccak y \<Longrightarrow> x = y" by blast
  from eq have "compute_safe_domain_separator keccak a c @ hash_safe_tx_struct keccak f =
      compute_safe_domain_separator keccak b d @ hash_safe_tx_struct keccak g"
    unfolding safe_tx_signing_hash_def eip712_signing_hash_def by (auto dest!: inj)
  hence dom: "compute_safe_domain_separator keccak a c = compute_safe_domain_separator keccak b d"
    and str: "hash_safe_tx_struct keccak f = hash_safe_tx_struct keccak g"
    by (simp_all add: compute_safe_domain_separator_def len)
  note f = safe_tx_bytes_inj [OF len sz(1,2) inj [OF str [unfolded hash_safe_tx_struct_def]]]
  have "f = g" using f(1,3,4) inj [OF f(2)] by (cases f; cases g) simp
  moreover have "a = b \<and> c = d"
    using inj [OF dom [unfolded compute_safe_domain_separator_def]] sz(3,4)
    by (simp add: len address_to_bytes32_def uint64_be uint64_be_inj)
  ultimately show "f = g \<and> a = b \<and> c = d" by blast
qed

theorem safe_hash_binds_witness:
  "\<exists>x y :: bytes. x \<noteq> y \<and> take 32 (x @ replicate 32 0) = take 32 (y @ replicate 32 0)"
proof -
  let ?k = "\<lambda>x :: bytes. take 32 (x @ replicate 32 0)"
  let ?f = "\<lambda>n. \<lparr> sf_to = CTF_CONTRACT_ADDRESS, sf_data = [], sf_nonce = n, sf_operation = 0 \<rparr>"
  have "(?f 0 = ?f 1 \<and> USDC_E_ADDRESS = USDC_E_ADDRESS \<and> POLYGON_CHAIN_ID = POLYGON_CHAIN_ID) \<or> (\<exists>x y. x \<noteq> y \<and> ?k x = ?k y)"
    by (rule safe_hash_binds)
      (simp_all add: safe_sized_def CTF_CONTRACT_ADDRESS_def USDC_E_ADDRESS_def safe_tx_signing_hash_def
        hash_safe_tx_struct_def safe_tx_bytes_def safe_tx_type_def string_bytes_def eip712_signing_hash_def)
  thus ?thesis by simp
qed

definition proxy_sized :: "proxy_tx_params \<Rightarrow> bool" where
  "proxy_sized p \<longleftrightarrow> length (px_from p) = 20 \<and> length (px_to p) = 20 \<and> length (px_relay_hub p) = 20 \<and> length (px_relay p) = 20"

lemma proxy_tx_bytes_inj:
  assumes "proxy_sized p" "proxy_sized q" "proxy_tx_bytes p = proxy_tx_bytes q"
  shows "p = q"
proof -
  have "length (px_data p) = length (px_data q)"
    using arg_cong [OF assms(3), of length] assms(1,2) by (simp add: proxy_tx_bytes_def proxy_sized_def uint64_be)
  with assms show ?thesis
    by (cases p; cases q) (simp add: proxy_tx_bytes_def proxy_sized_def uint64_be uint64_be_inj)
qed

text \<open>The hash that the relay checks binds all parameters of a proxy transaction, although the calldata
  in its middle has no length before it, unless two inputs with the same hash exist.\<close>

theorem relay_hash_binds:
  assumes "proxy_sized p" and "proxy_sized q" and "create_proxy_struct_hash keccak p = create_proxy_struct_hash keccak q"
  shows "p = q \<or> (\<exists>x y. x \<noteq> y \<and> keccak x = keccak y)"
  using proxy_tx_bytes_inj [OF assms(1,2)] assms(3) unfolding create_proxy_struct_hash_def by blast

definition sample_proxy :: "bytes \<Rightarrow> proxy_tx_params" where
  "sample_proxy d = \<lparr> px_from = replicate 20 1, px_to = PROXY_FACTORY_ADDRESS, px_data = d, px_tx_fee = 0, px_gas_price = 0,
     px_gas_limit = 500000, px_nonce = 3, px_relay_hub = RELAY_HUB_ADDRESS, px_relay = replicate 20 2 \<rparr>"

theorem relay_hash_binds_witness:
  "\<exists>x y :: bytes. x \<noteq> y \<and> take 0 x = take 0 y"
proof -
  have "proxy_sized (sample_proxy d)" for d
    by (simp add: proxy_sized_def sample_proxy_def PROXY_FACTORY_ADDRESS_def RELAY_HUB_ADDRESS_def)
  moreover have "sample_proxy [1] \<noteq> sample_proxy [2]" by (simp add: sample_proxy_def)
  ultimately show ?thesis
    using relay_hash_binds [of "sample_proxy [1]" "sample_proxy [2]" "take 0"] by (simp add: create_proxy_struct_hash_def)
qed

text \<open>The calldata of a proxy call, as the contract reads it: one call of the kind 1 to the target with
  no value, whose data, found at the offset and with the length that are written before it, is the inner
  call; the whole is the selector and a multiple of 32 bytes.\<close>

theorem proxy_call_carries_inner_call:
  assumes "\<And>x. length (keccak x) = 32" and "length target = 20" and "length inner < 2 ^ 64"
    and "d = encode_proxy_call_data keccak target inner"
  shows "map (\<lambda>k. be_value (take 32 (drop (4 + 32 * k) d))) [0, 1, 2, 3, 4, 5, 6, 7] =
      [32, 1, 32, 1, be_value target, 0, 128, length inner] \<and>
    take (length inner) (drop (4 + 32 * 8) d) = inner \<and> length d mod 32 = 4"
proof -
  have sel: "length (selector keccak s) = 4" for s by (simp add: selector_def assms(1))
  have adr: "length (address_to_bytes32 target) = 32" "be_value (address_to_bytes32 target) = be_value target"
    using assms(2) by (simp_all add: address_to_bytes32_def be_value_append)
  have n: "unat (of_nat (length inner) :: 64 word) = length inner"
    using assms(3) by (simp add: unsigned_of_nat take_bit_nat_eq_self)
  have pad: "length inner \<le> padded_data_len inner" "padded_data_len inner mod 32 = 0" by (simp_all add: padded_data_len_def)
  have "length d = 260 + padded_data_len inner"
    using pad(1) by (simp add: assms(4) encode_proxy_call_data_def sel adr uint64_be)
  hence "length d mod 32 = 4" using pad(2) by presburger
  thus ?thesis by (simp add: assms(4) encode_proxy_call_data_def sel adr uint64_be n)
qed

theorem proxy_call_carries_inner_call_witness:
  "let d = encode_proxy_call_data (\<lambda>x. take 32 (x @ replicate 32 0)) CTF_CONTRACT_ADDRESS [1, 2, 3]
   in take (length [1, 2, 3 :: byte]) (drop (4 + 32 * 8) d) = [1, 2, 3] \<and> length d mod 32 = 4"
proof -
  let ?k = "\<lambda>x :: bytes. take 32 (x @ replicate 32 0)"
  have k: "length (?k x) = 32" for x by simp
  have c: "length CTF_CONTRACT_ADDRESS = 20" "length [1, 2, 3 :: byte] < 2 ^ 64" by (simp_all add: CTF_CONTRACT_ADDRESS_def)
  show ?thesis
    using proxy_call_carries_inner_call [of ?k, OF k c refl] unfolding Let_def by blast
qed

end
