(* ===== verification/Test_Strategy.thy ===== *)
theory Test_Strategy
  imports Scheduler
begin

section \<open>The smoke-test strategy\<close>

text \<open>
  src/src/scheduler/test_strategy.h and .cpp: a state machine that places two resting orders at the
  extremes of the price range and cancels them, then two orders at the best prices, hedges what was
  filled, and ends with one buy and one sell that cross the spread.  The pair registry the strategy
  points to is the one in the context of the scheduler; the log file is left out.  The lemmas: the
  phases never go back, a run sends at most eight orders whatever happens, the ids of its orders are
  pairwise different; where a timeout leaves resting orders behind and where the last sale is larger
  than the purchase.
\<close>

subsection \<open>State\<close>

datatype test_phase =
    WAIT_FOR_BBO | P1_PLACE | P1_WAIT_ACCEPTED | P1_WAIT_LIVE | P1_HOLD | P1_CANCEL | P1_WAIT_CANCELED
  | P2_PLACE | P2_WAIT_ACCEPTED | P2_WAIT_FILLS | P2_CLEANUP | P2_WAIT_CLEANUP
  | P3_FAK_BUY | P3_WAIT_BUY | P3_FAK_SELL | P3_WAIT_SELL | TEST_DONE

record order_slot =
  os_client_id :: order_id
  os_exchange_id :: order_id
  os_accepted :: bool
  os_live :: bool
  os_filled :: bool
  os_canceled :: bool
  os_rejected :: bool
  os_filled_qty :: qty
  os_side :: side

definition new_order_slot :: order_slot where
  "new_order_slot =
     \<lparr> os_client_id = [], os_exchange_id = [], os_accepted = False, os_live = False, os_filled = False,
       os_canceled = False, os_rejected = False, os_filled_qty = 0, os_side = BID \<rparr>"

record test_strategy =
  ts_enabled :: bool
  ts_phase :: test_phase
  ts_next_intent_id :: nat
  ts_entered :: timestamp
  ts_asset :: asset_id
  ts_market :: asset_id
  ts_latest_bid :: price
  ts_latest_ask :: price
  ts_slots :: "order_slot list"
  ts_hedge_done :: bool
  ts_cancel_done :: bool
  ts_unfilled_idx :: int
  ts_retry_issued :: bool

definition new_test_strategy :: test_strategy where
  "new_test_strategy =
     \<lparr> ts_enabled = False, ts_phase = WAIT_FOR_BBO, ts_next_intent_id = 0, ts_entered = 0, ts_asset = [],
       ts_market = [], ts_latest_bid = kInvalidPrice, ts_latest_ask = kInvalidPrice,
       ts_slots = [new_order_slot, new_order_slot], ts_hedge_done = False, ts_cancel_done = False,
       ts_unfilled_idx = -1, ts_retry_issued = False \<rparr>"

definition kMinLimitQty :: qty where "kMinLimitQty = 5 * kQtyScale"
definition kMinTakerNotional :: int where "kMinTakerNotional = 10000"
definition kTimeoutNs :: int where "kTimeoutNs = 30000000000"
definition kHoldNs :: int where "kHoldNs = 10000000000"

subsection \<open>Helpers\<close>

definition test_transition :: "test_phase \<Rightarrow> timestamp \<Rightarrow> test_strategy \<Rightarrow> test_strategy" where
  "test_transition next now st = st\<lparr> ts_phase := next, ts_entered := now \<rparr>"

definition taker_qty_for_price :: "price \<Rightarrow> qty" where
  "taker_qty_for_price p =
     (if p \<le> 0 then kMinLimitQty
      else max kMinLimitQty (((kMinTakerNotional + p - 1) sdiv p) * kQtyScale))"

definition test_timed_out :: "test_strategy \<Rightarrow> timestamp \<Rightarrow> bool" where
  "test_timed_out st now \<longleftrightarrow> ts_entered st > 0 \<and> now > 0 \<and> now - ts_entered st > kTimeoutNs"

definition market_data :: "scheduler_event \<Rightarrow> bool" where
  "market_data ev \<longleftrightarrow> ev_source ev = MARKET_WS \<and>
     ev_kind ev \<in> {MARKET_BBO_UPDATE, MARKET_BOOK_SNAPSHOT, MARKET_PRICE_CHANGE}"

definition refresh_bbo :: "scheduler_event \<Rightarrow> test_strategy \<Rightarrow> test_strategy" where
  "refresh_bbo ev st =
     (if \<not> market_data ev then st
      else if ts_asset st \<noteq> [] \<and> ev_asset_id ev \<noteq> ts_asset st then st
      else st\<lparr> ts_latest_bid := (if best_bid (ev_bbo ev) \<noteq> kInvalidPrice then best_bid (ev_bbo ev) else ts_latest_bid st),
               ts_latest_ask := (if best_ask (ev_bbo ev) \<noteq> kInvalidPrice then best_ask (ev_bbo ev) else ts_latest_ask st) \<rparr>)"

definition slot_on_feedback :: "scheduler_event \<Rightarrow> order_slot \<Rightarrow> order_slot" where
  "slot_on_feedback ev s =
     (let fk = ev_exec_feedback_kind ev
      in if fk = ORDER_ACCEPTED \<and> ev_exec_accepted ev
         then s\<lparr> os_accepted := True, os_exchange_id := ev_order_id ev, os_live := True \<rparr>
         else if fk = ORDER_REJECTED \<or> fk = RATE_LIMITED \<or> fk = EXCHANGE_UNAVAILABLE then s\<lparr> os_rejected := True \<rparr>
         else if fk = CANCEL_CONFIRMED then s\<lparr> os_canceled := True \<rparr>
         else s)"

definition slot_on_update :: "scheduler_event \<Rightarrow> order_slot \<Rightarrow> order_slot" where
  "slot_on_update ev s =
     (let status = ev_order_status_raw ev;
          s1 = (if ev_user_cumulative_filled ev > os_filled_qty s
                then s\<lparr> os_filled_qty := ev_user_cumulative_filled ev \<rparr> else s);
          s2 = (if status = O_LIVE then s1\<lparr> os_live := True \<rparr> else s1);
          s3 = (if status = O_PARTIAL \<and> os_filled_qty s2 > 0 then s2\<lparr> os_filled := True \<rparr> else s2);
          s4 = (if status = O_CANCELED then s3\<lparr> os_canceled := True \<rparr> else s3)
      in if status = O_FILLED then s4\<lparr> os_filled := True \<rparr> else s4)"

definition slot_on_trade :: "scheduler_event \<Rightarrow> order_slot \<Rightarrow> order_slot" where
  "slot_on_trade ev s =
     (let s1 = s\<lparr> os_filled := True \<rparr>
      in if ev_user_fill_size ev > 0 then s1\<lparr> os_filled_qty := os_filled_qty s1 + ev_user_fill_size ev \<rparr> else s1)"

definition on_first_slot :: "(order_slot \<Rightarrow> bool) \<Rightarrow> (order_slot \<Rightarrow> order_slot) \<Rightarrow> order_slot list \<Rightarrow> order_slot list" where
  "on_first_slot P f ss = (case find_index P ss of None \<Rightarrow> ss | Some i \<Rightarrow> ss[i := f (ss ! i)])"

definition process_order_event :: "scheduler_event \<Rightarrow> test_strategy \<Rightarrow> test_strategy" where
  "process_order_event ev st =
     (if ev_source ev = EXEC_INTERNAL \<and> ev_kind ev \<in> {EXEC_ORDER_ACK, EXEC_ORDER_REJECT} then
        st\<lparr> ts_slots := on_first_slot
              (\<lambda>s. os_client_id s \<noteq> [] \<and> ev_client_order_id ev = os_client_id s) (slot_on_feedback ev) (ts_slots st) \<rparr>
      else if ev_source ev = USER_WS \<and> ev_kind ev = USER_ORDER_UPDATE then
        st\<lparr> ts_slots := on_first_slot
              (\<lambda>s. os_client_id s \<noteq> [] \<and>
                   (ev_order_id ev = os_exchange_id s \<and> os_exchange_id s \<noteq> [] \<or> ev_client_order_id ev = os_client_id s))
              (slot_on_update ev) (ts_slots st) \<rparr>
      else if ev_source ev = USER_WS \<and> ev_kind ev = USER_TRADE_UPDATE \<and> ev_is_new_fill ev then
        st\<lparr> ts_slots := on_first_slot
              (\<lambda>s. os_exchange_id s \<noteq> [] \<and> ev_order_id ev = os_exchange_id s) (slot_on_trade ev) (ts_slots st) \<rparr>
      else st)"

subsection \<open>Orders\<close>

abbreviation slot0 :: "test_strategy \<Rightarrow> order_slot" where "slot0 st \<equiv> ts_slots st ! 0"
abbreviation slot1 :: "test_strategy \<Rightarrow> order_slot" where "slot1 st \<equiv> ts_slots st ! 1"

definition set_order_slot :: "nat \<Rightarrow> order_slot \<Rightarrow> test_strategy \<Rightarrow> test_strategy" where
  "set_order_slot i s st = st\<lparr> ts_slots := (ts_slots st)[i := s] \<rparr>"

definition reset_slots :: "test_strategy \<Rightarrow> test_strategy" where
  "reset_slots st = st\<lparr> ts_slots := (ts_slots st)[0 := new_order_slot, 1 := new_order_slot] \<rparr>"

definition test_client_id :: "nat \<Rightarrow> order_id" where
  "test_client_id n = OrderId (''lt-test-'' @ to_string n)"

definition take_intent_id :: "test_strategy \<Rightarrow> test_strategy" where
  "take_intent_id st = st\<lparr> ts_next_intent_id := (ts_next_intent_id st + 1) mod 2 ^ 32 \<rparr>"

text \<open>An order with the next id, tracked in slot \<open>i\<close>, which is reset before.\<close>

definition place ::
  "nat \<Rightarrow> side \<Rightarrow> price \<Rightarrow> qty \<Rightarrow> order_type \<Rightarrow> timestamp \<Rightarrow> qty \<Rightarrow> test_strategy \<Rightarrow> test_strategy \<times> execution_intent" where
  "place i sd p q ty now tracked st =
     (let n = ts_next_intent_id st; cid = test_client_id n
      in (take_intent_id (set_order_slot i (new_order_slot\<lparr> os_side := sd, os_client_id := cid, os_filled_qty := tracked \<rparr>) st),
          new_execution_intent\<lparr> in_action := (if sd = BID then WOULD_PLACE_BID else WOULD_PLACE_ASK),
            in_asset_id := ts_asset st, in_market_id := ts_market st, in_price := p, in_qty := q,
            in_order_type := ty, in_intent_id := n, in_recv_ts := now, in_client_order_id := cid \<rparr>))"

text \<open>A cancel of the order in slot \<open>i\<close>, whose canceled flag is cleared.\<close>

definition cancel_slot :: "nat \<Rightarrow> timestamp \<Rightarrow> test_strategy \<Rightarrow> test_strategy \<times> execution_intent" where
  "cancel_slot i now st =
     (let s = ts_slots st ! i
      in (take_intent_id (set_order_slot i (s\<lparr> os_canceled := False \<rparr>) st),
          new_execution_intent\<lparr> in_action := (if i = 0 then WOULD_CANCEL_BID else WOULD_CANCEL_ASK),
            in_asset_id := ts_asset st, in_market_id := ts_market st, in_exchange_order_id := os_exchange_id s,
            in_client_order_id := os_client_id s, in_intent_id := ts_next_intent_id st, in_recv_ts := now \<rparr>))"

subsection \<open>Phase 3\<close>

definition handle_p3_wait_sell :: "test_strategy \<Rightarrow> test_strategy \<times> intent_batch" where
  "handle_p3_wait_sell st =
     (if os_accepted (slot1 st) \<or> os_filled (slot1 st) \<or> os_rejected (slot1 st)
      then ((test_transition TEST_DONE (ts_entered st) st)\<lparr> ts_enabled := False \<rparr>, []) else (st, []))"

definition handle_p3_fak_sell :: "timestamp \<Rightarrow> test_strategy \<Rightarrow> test_strategy \<times> intent_batch" where
  "handle_p3_fak_sell now st =
     (case place 1 ASK (ts_latest_bid st) (taker_qty_for_price (10000 - ts_latest_bid st)) FAK now 0 st of
        (st1, i) \<Rightarrow> (test_transition P3_WAIT_SELL now st1, [i]))"

definition handle_p3_wait_buy :: "test_strategy \<Rightarrow> test_strategy \<times> intent_batch" where
  "handle_p3_wait_buy st =
     (if os_accepted (slot0 st) \<or> os_filled (slot0 st) \<or> os_rejected (slot0 st)
      then handle_p3_fak_sell (ts_entered st)
             (test_transition P3_FAK_SELL (ts_entered st) (set_order_slot 0 new_order_slot st))
      else (st, []))"

definition handle_p3_fak_buy :: "timestamp \<Rightarrow> test_strategy \<Rightarrow> test_strategy \<times> intent_batch" where
  "handle_p3_fak_buy now st =
     (case place 0 BID (ts_latest_ask st) (taker_qty_for_price (ts_latest_ask st)) FAK now 0 st of
        (st1, i) \<Rightarrow> (test_transition P3_WAIT_BUY now st1, [i]))"

subsection \<open>Phase 2\<close>

definition hedge_price :: "side \<Rightarrow> test_strategy \<Rightarrow> price" where
  "hedge_price sd st = (if sd = BID then ts_latest_ask st else ts_latest_bid st)"

definition event_time :: "scheduler_event \<Rightarrow> test_strategy \<Rightarrow> timestamp" where
  "event_time ev st = (if ev_recv_ts ev > 0 then ev_recv_ts ev else ts_entered st)"

definition handle_p2_wait_cleanup :: "scheduler_event \<Rightarrow> test_strategy \<Rightarrow> test_strategy \<times> intent_batch" where
  "handle_p2_wait_cleanup ev st =
     (if ts_unfilled_idx st < 0 then
        (if (os_canceled (slot0 st) \<or> os_rejected (slot0 st)) \<and> (os_canceled (slot1 st) \<or> os_rejected (slot1 st))
         then handle_p3_fak_buy (ts_entered st)
                (test_transition P3_FAK_BUY (ts_entered st) ((reset_slots st)\<lparr> ts_retry_issued := False \<rparr>))
         else (st, []))
      else
        let u = nat (ts_unfilled_idx st); h = nat (1 - ts_unfilled_idx st)
        in if os_canceled (ts_slots st ! u) \<or> os_rejected (ts_slots st ! u) then
             (if os_accepted (ts_slots st ! h) \<or> os_filled (ts_slots st ! h)
              then handle_p3_fak_buy (ts_entered st)
                     (test_transition P3_FAK_BUY (ts_entered st)
                        ((reset_slots st)\<lparr> ts_unfilled_idx := -1, ts_retry_issued := False \<rparr>))
              else if os_rejected (ts_slots st ! h) then
                (if \<not> ts_retry_issued st then
                   (let sd = os_side (ts_slots st ! h);
                        p = hedge_price sd st;
                        (st1, i) = place h sd (if p = kInvalidPrice then 5000 else p) kMinLimitQty FAK (event_time ev st)
                                     kMinLimitQty st
                    in (st1\<lparr> ts_retry_issued := True \<rparr>, [i]))
                 else
                   ((test_transition TEST_DONE (event_time ev st) (st\<lparr> ts_unfilled_idx := -1, ts_retry_issued := False \<rparr>))
                      \<lparr> ts_enabled := False \<rparr>, []))
              else (st, []))
           else (st, []))"

definition handle_p2_cleanup :: "timestamp \<Rightarrow> test_strategy \<Rightarrow> test_strategy \<times> intent_batch" where
  "handle_p2_cleanup now st0 =
     (let st = st0\<lparr> ts_hedge_done := False, ts_cancel_done := False, ts_unfilled_idx := -1, ts_retry_issued := False \<rparr>;
          bid_filled = os_filled (slot0 st); ask_filled = os_filled (slot1 st)
      in if bid_filled \<and> ask_filled then
           handle_p3_fak_buy now
             (reset_slots (test_transition P3_FAK_BUY now (st\<lparr> ts_hedge_done := True, ts_cancel_done := True \<rparr>)))
         else if \<not> bid_filled \<and> \<not> ask_filled then
           (let (st1, c0) = cancel_slot 0 now (st\<lparr> ts_hedge_done := True \<rparr>);
                (st2, c1) = cancel_slot 1 now st1
            in (test_transition P2_WAIT_CLEANUP now st2, [c0, c1]))
         else
           (let filled_idx = (if bid_filled then 0 else 1); unfilled_idx = (if bid_filled then 1 else 0);
                q = os_filled_qty (ts_slots st ! filled_idx);
                hedge_qty = min (if q \<le> 0 then kMinLimitQty else q) kMinLimitQty;
                sd = (if bid_filled then ASK else BID);
                (st1, hedge) = place filled_idx sd (hedge_price sd st) hedge_qty FAK now hedge_qty
                                 (st\<lparr> ts_unfilled_idx := int unfilled_idx \<rparr>);
                (st2, c) = cancel_slot unfilled_idx now st1
            in (test_transition P2_WAIT_CLEANUP now st2, [hedge, c])))"

definition handle_p2_wait_fills :: "timestamp \<Rightarrow> test_strategy \<Rightarrow> test_strategy \<times> intent_batch" where
  "handle_p2_wait_fills now st =
     (if os_filled (slot0 st) \<and> os_filled (slot1 st)
      then handle_p3_fak_buy now (test_transition P3_FAK_BUY now (reset_slots st))
      else if ts_entered st > 0 \<and> now > 0 \<and> now - ts_entered st \<ge> kHoldNs
      then handle_p2_cleanup now (test_transition P2_CLEANUP now st)
      else (st, []))"

definition handle_p2_wait_accepted :: "test_strategy \<Rightarrow> test_strategy \<times> intent_batch" where
  "handle_p2_wait_accepted st =
     (if os_accepted (slot0 st) \<and> os_accepted (slot1 st) then (test_transition P2_WAIT_FILLS (ts_entered st) st, [])
      else if os_rejected (slot0 st) \<or> os_rejected (slot1 st)
      then handle_p2_cleanup (ts_entered st) (test_transition P2_CLEANUP (ts_entered st) st)
      else (st, []))"

text \<open>Two resting orders, the bid in slot 0 and the ask in slot 1.\<close>

definition place_both :: "price \<Rightarrow> price \<Rightarrow> test_phase \<Rightarrow> timestamp \<Rightarrow> test_strategy \<Rightarrow> test_strategy \<times> intent_batch" where
  "place_both bid ask next now st =
     (let (st1, b) = place 0 BID bid kMinLimitQty GTC now 0 st;
          (st2, a) = place 1 ASK ask kMinLimitQty GTC now 0 st1
      in (test_transition next now st2, [b, a]))"

definition handle_p2_place :: "timestamp \<Rightarrow> test_strategy \<Rightarrow> test_strategy \<times> intent_batch" where
  "handle_p2_place now st = place_both (ts_latest_ask st) (ts_latest_bid st) P2_WAIT_ACCEPTED now st"

subsection \<open>Phase 1\<close>

definition handle_p1_wait_canceled :: "test_strategy \<Rightarrow> test_strategy \<times> intent_batch" where
  "handle_p1_wait_canceled st =
     (if (os_canceled (slot0 st) \<or> os_rejected (slot0 st)) \<and> (os_canceled (slot1 st) \<or> os_rejected (slot1 st))
      then handle_p2_place (ts_entered st) (test_transition P2_PLACE (ts_entered st) (reset_slots st))
      else (st, []))"

definition handle_p1_cancel :: "timestamp \<Rightarrow> test_strategy \<Rightarrow> test_strategy \<times> intent_batch" where
  "handle_p1_cancel now st =
     (let (st1, c0) = cancel_slot 0 now st; (st2, c1) = cancel_slot 1 now st1
      in (test_transition P1_WAIT_CANCELED now st2, [c0, c1]))"

definition handle_p1_hold :: "timestamp \<Rightarrow> test_strategy \<Rightarrow> test_strategy \<times> intent_batch" where
  "handle_p1_hold now st =
     (if ts_entered st > 0 \<and> now > 0 \<and> now - ts_entered st \<ge> kHoldNs
      then handle_p1_cancel now (test_transition P1_CANCEL now st) else (st, []))"

definition handle_p1_wait_live :: "test_strategy \<Rightarrow> test_strategy \<times> intent_batch" where
  "handle_p1_wait_live st =
     (if os_live (slot0 st) \<and> os_live (slot1 st) then (test_transition P1_HOLD (ts_entered st) st, []) else (st, []))"

definition handle_p1_wait_accepted :: "test_strategy \<Rightarrow> test_strategy \<times> intent_batch" where
  "handle_p1_wait_accepted st =
     (if os_accepted (slot0 st) \<and> os_accepted (slot1 st) then (test_transition P1_WAIT_LIVE (ts_entered st) st, [])
      else if os_rejected (slot0 st) \<or> os_rejected (slot1 st)
      then handle_p1_cancel (ts_entered st) (test_transition P1_CANCEL (ts_entered st) st)
      else (st, []))"

definition handle_p1_place :: "timestamp \<Rightarrow> test_strategy \<Rightarrow> test_strategy \<times> intent_batch" where
  "handle_p1_place now st = place_both 100 9900 P1_WAIT_ACCEPTED now st"

definition handle_wait_for_bbo ::
  "market_pair_registry \<Rightarrow> scheduler_event \<Rightarrow> test_strategy \<Rightarrow> test_strategy \<times> intent_batch" where
  "handle_wait_for_bbo pairs ev st =
     (if \<not> market_data ev \<or> best_bid (ev_bbo ev) = kInvalidPrice \<or> best_ask (ev_bbo ev) = kInvalidPrice then (st, [])
      else case condition_for_token pairs (ev_asset_id ev) of
        None \<Rightarrow> (st, [])
      | Some cond \<Rightarrow>
          (case find_by_condition pairs cond of
             None \<Rightarrow> (st, [])
           | Some pair \<Rightarrow>
               if ev_asset_id ev \<noteq> token_id_up pair \<and> ev_asset_id ev \<noteq> token_id_down pair then (st, [])
               else handle_p1_place (ev_recv_ts ev)
                      (test_transition P1_PLACE (ev_recv_ts ev)
                         (st\<lparr> ts_asset := ev_asset_id ev, ts_market := cond, ts_latest_bid := best_bid (ev_bbo ev),
                              ts_latest_ask := best_ask (ev_bbo ev) \<rparr>))))"

subsection \<open>One evaluation\<close>

definition run_phase :: "market_pair_registry \<Rightarrow> scheduler_event \<Rightarrow> test_strategy \<Rightarrow> test_strategy \<times> intent_batch" where
  "run_phase pairs ev st =
     (let now = ev_recv_ts ev
      in case ts_phase st of
           WAIT_FOR_BBO \<Rightarrow> handle_wait_for_bbo pairs ev st
         | P1_PLACE \<Rightarrow> handle_p1_place now st
         | P1_WAIT_ACCEPTED \<Rightarrow> handle_p1_wait_accepted st
         | P1_WAIT_LIVE \<Rightarrow> handle_p1_wait_live st
         | P1_HOLD \<Rightarrow> handle_p1_hold now st
         | P1_CANCEL \<Rightarrow> handle_p1_cancel now st
         | P1_WAIT_CANCELED \<Rightarrow> handle_p1_wait_canceled st
         | P2_PLACE \<Rightarrow> handle_p2_place now st
         | P2_WAIT_ACCEPTED \<Rightarrow> handle_p2_wait_accepted st
         | P2_WAIT_FILLS \<Rightarrow> handle_p2_wait_fills now st
         | P2_CLEANUP \<Rightarrow> handle_p2_cleanup now st
         | P2_WAIT_CLEANUP \<Rightarrow> handle_p2_wait_cleanup ev st
         | P3_FAK_BUY \<Rightarrow> handle_p3_fak_buy now st
         | P3_WAIT_BUY \<Rightarrow> handle_p3_wait_buy st
         | P3_FAK_SELL \<Rightarrow> handle_p3_fak_sell now st
         | P3_WAIT_SELL \<Rightarrow> handle_p3_wait_sell st
         | TEST_DONE \<Rightarrow> (st\<lparr> ts_enabled := False \<rparr>, []))"

definition test_evaluate :: "market_pair_registry \<Rightarrow> scheduler_event \<Rightarrow> test_strategy \<Rightarrow> test_strategy \<times> intent_batch" where
  "test_evaluate pairs ev st =
     (if \<not> ts_enabled st \<or> ts_phase st = TEST_DONE then (st, [])
      else if ev_kind ev = MARKET_RESOLVED then (st\<lparr> ts_phase := TEST_DONE, ts_enabled := False \<rparr>, [])
      else
        let st1 = refresh_bbo ev st
        in if ts_phase st1 \<noteq> WAIT_FOR_BBO \<and> test_timed_out st1 (ev_recv_ts ev)
           then (st1\<lparr> ts_phase := TEST_DONE, ts_enabled := False \<rparr>, [])
           else run_phase pairs ev (process_order_event ev st1))"

definition test_strategy_ops :: "(test_strategy, 'p, 'b) strategy_ops" where
  "test_strategy_ops =
     \<lparr> so_evaluate = (\<lambda>st ctx. case test_evaluate (sx_pairs ctx) (sx_event ctx) st of (st', batch) \<Rightarrow> (st', batch, [])),
       so_set_enabled = (\<lambda>st b. st\<lparr> ts_enabled := b \<rparr>), so_enabled = ts_enabled, so_set_size = (\<lambda>st q. st),
       so_set_dry_run = (\<lambda>st b. st), so_reset_all_quotes = (\<lambda>st. st), so_on_gateway_degraded = (\<lambda>st. st),
       so_on_gateway_recovered = (\<lambda>st. st), so_on_rate_limited = (\<lambda>st. st), so_spread_ticks = (\<lambda>st. 30),
       so_quote_size = (\<lambda>st. 5 * kQtyScale), so_on_crypto_price = (\<lambda>st p. st), so_on_binance_update = (\<lambda>st u. st) \<rparr>"

subsection \<open>Progress\<close>

definition placements :: "intent_batch \<Rightarrow> execution_intent list" where
  "placements batch = filter (\<lambda>i. is_placement (in_action i)) batch"

fun phase_rank :: "test_phase \<Rightarrow> nat" where
  "phase_rank WAIT_FOR_BBO = 0"
| "phase_rank P1_PLACE = 1"
| "phase_rank P1_WAIT_ACCEPTED = 2"
| "phase_rank P1_WAIT_LIVE = 3"
| "phase_rank P1_HOLD = 4"
| "phase_rank P1_CANCEL = 5"
| "phase_rank P1_WAIT_CANCELED = 6"
| "phase_rank P2_PLACE = 7"
| "phase_rank P2_WAIT_ACCEPTED = 8"
| "phase_rank P2_WAIT_FILLS = 9"
| "phase_rank P2_CLEANUP = 10"
| "phase_rank P2_WAIT_CLEANUP = 11"
| "phase_rank P3_FAK_BUY = 12"
| "phase_rank P3_WAIT_BUY = 13"
| "phase_rank P3_FAK_SELL = 14"
| "phase_rank P3_WAIT_SELL = 15"
| "phase_rank TEST_DONE = 16"

text \<open>How many orders a run can still send.\<close>

definition orders_left :: "test_strategy \<Rightarrow> nat" where
  "orders_left st =
     (let r = phase_rank (ts_phase st)
      in if r < 2 then 8 else if r < 8 then 6 else if r < 11 then 4
         else if r = 11 then (if ts_unfilled_idx st \<ge> 0 \<and> \<not> ts_retry_issued st then 3 else 2)
         else if r = 12 then 2 else if r < 15 then 1 else 0)"

text \<open>How many intents, orders and cancels together.\<close>

definition intents_left :: "test_strategy \<Rightarrow> nat" where
  "intents_left st =
     (let r = phase_rank (ts_phase st)
      in if r < 2 then 12 else if r < 6 then 10 else if r < 8 then 8 else if r < 11 then 6 else orders_left st)"

text \<open>One evaluation: at most so many orders are sent as are then no longer left, the phase does not go
  back, and the intents carry the next ids.\<close>

definition ids_from :: "nat \<Rightarrow> intent_batch \<Rightarrow> bool" where
  "ids_from n batch \<longleftrightarrow> map in_intent_id batch = map (\<lambda>k. (n + k) mod 2 ^ 32) [0..<length batch] \<and>
     (\<forall>i \<in> set (placements batch). in_client_order_id i = test_client_id (in_intent_id i))"

definition step_ok :: "test_strategy \<Rightarrow> test_strategy \<times> intent_batch \<Rightarrow> bool" where
  "step_ok st r \<longleftrightarrow> length (placements (snd r)) + orders_left (fst r) \<le> orders_left st \<and>
     length (snd r) + intents_left (fst r) \<le> intents_left st \<and>
     phase_rank (ts_phase st) \<le> phase_rank (ts_phase (fst r)) \<and>
     (ts_next_intent_id st < 2 ^ 32 \<longrightarrow> ids_from (ts_next_intent_id st) (snd r) \<and>
      ts_next_intent_id (fst r) = (ts_next_intent_id st + length (snd r)) mod 2 ^ 32)"

lemmas order_defs = place_def cancel_slot_def take_intent_id_def set_order_slot_def test_transition_def
  reset_slots_def Let_def
lemmas step_defs = step_ok_def orders_left_def intents_left_def placements_def is_placement_def ids_from_def

lemma step_ok_from:
  "step_ok st1 r \<Longrightarrow> orders_left st1 \<le> orders_left st \<Longrightarrow> intents_left st1 \<le> intents_left st \<Longrightarrow> phase_rank (ts_phase st) \<le> phase_rank (ts_phase st1) \<Longrightarrow>
   ts_next_intent_id st1 = ts_next_intent_id st \<Longrightarrow> step_ok st r"
  by (auto simp: step_ok_def)

lemma step_ok_quiet:
  "orders_left st' \<le> orders_left st \<Longrightarrow> intents_left st' \<le> intents_left st \<Longrightarrow>
   phase_rank (ts_phase st) \<le> phase_rank (ts_phase st') \<Longrightarrow>
   ts_next_intent_id st' = ts_next_intent_id st \<Longrightarrow> step_ok st (st', [])"
  by (simp add: step_ok_def placements_def ids_from_def)

lemma step_ok_stay [simp]: "step_ok st (st, [])"
  by (simp add: step_ok_quiet)

lemma orders_left_done: "ts_phase st = TEST_DONE \<Longrightarrow> orders_left st = 0" "ts_phase st = TEST_DONE \<Longrightarrow> intents_left st = 0"
  by (simp_all add: orders_left_def intents_left_def)

lemma fak_sell_ok: "phase_rank (ts_phase st) \<in> {13, 14} \<Longrightarrow> step_ok st (handle_p3_fak_sell now st)"
  by (auto simp: handle_p3_fak_sell_def order_defs step_defs)

lemma wait_sell_ok: "ts_phase st = P3_WAIT_SELL \<Longrightarrow> step_ok st (handle_p3_wait_sell st)"
  by (simp add: handle_p3_wait_sell_def step_ok_quiet orders_left_done test_transition_def)

lemma wait_buy_ok: "ts_phase st = P3_WAIT_BUY \<Longrightarrow> step_ok st (handle_p3_wait_buy st)"
  unfolding handle_p3_wait_buy_def
  by (auto intro!: step_ok_from [OF fak_sell_ok] simp: order_defs orders_left_def intents_left_def)

lemma fak_buy_ok: "phase_rank (ts_phase st) \<in> {9, 10, 11, 12} \<Longrightarrow> step_ok st (handle_p3_fak_buy now st)"
  by (auto simp: handle_p3_fak_buy_def order_defs step_defs)

lemma wait_cleanup_ok: "ts_phase st = P2_WAIT_CLEANUP \<Longrightarrow> step_ok st (handle_p2_wait_cleanup ev st)"
proof -
  assume ph: "ts_phase st = P2_WAIT_CLEANUP"
  have buy: "step_ok st (handle_p3_fak_buy now (test_transition P3_FAK_BUY now st'))"
    if "ts_next_intent_id st' = ts_next_intent_id st" for now st'
    by (rule step_ok_from [OF fak_buy_ok]) (use ph that in \<open>simp_all add: test_transition_def orders_left_def intents_left_def\<close>)
  have retry: "step_ok st (case place h sd p kMinLimitQty FAK now q st of (st1, i) \<Rightarrow> (st1\<lparr> ts_retry_issued := True \<rparr>, [i]))"
    if "ts_unfilled_idx st \<ge> 0" "\<not> ts_retry_issued st" for h sd p now q
    using ph that by (simp add: order_defs step_defs)
  have fin: "step_ok st ((test_transition TEST_DONE now (st\<lparr> ts_unfilled_idx := u, ts_retry_issued := b \<rparr>))\<lparr> ts_enabled := False \<rparr>, [])" for now u b
    using ph by (simp add: step_ok_quiet orders_left_done test_transition_def)
  show ?thesis
    unfolding handle_p2_wait_cleanup_def Let_def
    by (simp add: buy retry fin reset_slots_def)
qed

lemma cleanup_ok:
  assumes "phase_rank (ts_phase st) \<in> {8, 9, 10}"
  shows "step_ok st (handle_p2_cleanup now st)"
proof -
  have buy: "step_ok st (handle_p3_fak_buy now (reset_slots (test_transition P3_FAK_BUY now st')))"
    if "ts_next_intent_id st' = ts_next_intent_id st" for st'
    by (rule step_ok_from [OF fak_buy_ok]) (use assms that in \<open>auto simp: test_transition_def orders_left_def intents_left_def reset_slots_def\<close>)
  have cancels: "step_ok st (case cancel_slot i now st' of (st1, c0) \<Rightarrow> case cancel_slot j now st1 of
      (st2, c1) \<Rightarrow> (test_transition P2_WAIT_CLEANUP now st2, [c0, c1]))"
    if "ts_next_intent_id st' = ts_next_intent_id st" for st' i j
    using assms that by (auto simp: order_defs step_defs mod_simps upt_rec)
  have hedge: "step_ok st (case place f sd p q FAK now q st' of (st1, h) \<Rightarrow> case cancel_slot u now st1 of
      (st2, c) \<Rightarrow> (test_transition P2_WAIT_CLEANUP now st2, [h, c]))"
    if "ts_next_intent_id st' = ts_next_intent_id st" for st' f sd p q u
    using assms that by (auto simp: order_defs step_defs mod_simps upt_rec)
  show ?thesis unfolding handle_p2_cleanup_def Let_def by (simp add: buy cancels hedge)
qed

lemma wait_fills_ok: "ts_phase st = P2_WAIT_FILLS \<Longrightarrow> step_ok st (handle_p2_wait_fills now st)"
  unfolding handle_p2_wait_fills_def
  by (auto intro!: step_ok_from [OF fak_buy_ok] step_ok_from [OF cleanup_ok]
      simp: test_transition_def orders_left_def intents_left_def reset_slots_def)

lemma p2_wait_accepted_ok: "ts_phase st = P2_WAIT_ACCEPTED \<Longrightarrow> step_ok st (handle_p2_wait_accepted st)"
  unfolding handle_p2_wait_accepted_def
  by (auto intro!: step_ok_quiet step_ok_from [OF cleanup_ok] simp: test_transition_def orders_left_def intents_left_def)

lemma place_both_ok:
  "phase_rank (ts_phase st) < 2 \<and> next = P1_WAIT_ACCEPTED \<or> phase_rank (ts_phase st) \<in> {6, 7} \<and> next = P2_WAIT_ACCEPTED \<Longrightarrow>
   step_ok st (place_both b a next now st)"
  by (auto simp: place_both_def order_defs step_defs mod_simps upt_rec)

lemma p1_wait_canceled_ok: "ts_phase st = P1_WAIT_CANCELED \<Longrightarrow> step_ok st (handle_p1_wait_canceled st)"
  unfolding handle_p1_wait_canceled_def handle_p2_place_def
  by (auto intro!: step_ok_from [OF place_both_ok] simp: test_transition_def orders_left_def intents_left_def reset_slots_def)

lemma p1_cancel_ok: "phase_rank (ts_phase st) \<in> {2, 4, 5} \<Longrightarrow> step_ok st (handle_p1_cancel now st)"
  by (auto simp: handle_p1_cancel_def order_defs step_defs mod_simps upt_rec)

lemma p1_hold_ok: "ts_phase st = P1_HOLD \<Longrightarrow> step_ok st (handle_p1_hold now st)"
  unfolding handle_p1_hold_def
  by (auto intro!: step_ok_from [OF p1_cancel_ok] simp: test_transition_def orders_left_def intents_left_def)

lemma p1_wait_live_ok: "ts_phase st = P1_WAIT_LIVE \<Longrightarrow> step_ok st (handle_p1_wait_live st)"
  by (auto simp: handle_p1_wait_live_def test_transition_def orders_left_def intents_left_def intro!: step_ok_quiet)

lemma p1_wait_accepted_ok: "ts_phase st = P1_WAIT_ACCEPTED \<Longrightarrow> step_ok st (handle_p1_wait_accepted st)"
  unfolding handle_p1_wait_accepted_def
  by (auto intro!: step_ok_quiet step_ok_from [OF p1_cancel_ok] simp: test_transition_def orders_left_def intents_left_def)

lemma wait_for_bbo_ok: "ts_phase st = WAIT_FOR_BBO \<Longrightarrow> step_ok st (handle_wait_for_bbo pairs ev st)"
  unfolding handle_wait_for_bbo_def handle_p1_place_def
  by (auto intro!: step_ok_from [OF place_both_ok] simp: test_transition_def orders_left_def intents_left_def split: option.split)

lemma run_phase_ok: "step_ok st (run_phase pairs ev st)"
  unfolding run_phase_def Let_def
  by (cases "ts_phase st")
    (simp_all add: fak_sell_ok wait_sell_ok wait_buy_ok fak_buy_ok wait_cleanup_ok cleanup_ok wait_fills_ok
      p2_wait_accepted_ok place_both_ok p1_wait_canceled_ok p1_cancel_ok p1_hold_ok p1_wait_live_ok p1_wait_accepted_ok
      wait_for_bbo_ok handle_p1_place_def handle_p2_place_def step_ok_quiet orders_left_done)

lemma orders_left_cong:
  "orders_left (st\<lparr> ts_slots := ss \<rparr>) = orders_left st"
  "orders_left (st\<lparr> ts_latest_bid := b, ts_latest_ask := a \<rparr>) = orders_left st"
  "intents_left (st\<lparr> ts_slots := ss \<rparr>) = intents_left st"
  "intents_left (st\<lparr> ts_latest_bid := b, ts_latest_ask := a \<rparr>) = intents_left st"
  by (simp_all add: orders_left_def intents_left_def Let_def)

lemma event_keeps_progress:
  "ts_phase (process_order_event ev st) = ts_phase st" "ts_phase (refresh_bbo ev st) = ts_phase st"
  "orders_left (process_order_event ev st) = orders_left st" "orders_left (refresh_bbo ev st) = orders_left st"
  "intents_left (process_order_event ev st) = intents_left st" "intents_left (refresh_bbo ev st) = intents_left st"
  "ts_next_intent_id (process_order_event ev st) = ts_next_intent_id st"
  "ts_next_intent_id (refresh_bbo ev st) = ts_next_intent_id st"
  by (simp_all add: process_order_event_def refresh_bbo_def orders_left_cong)

lemma test_evaluate_ok: "step_ok st (test_evaluate pairs ev st)"
proof -
  have stop: "step_ok st (st'\<lparr> ts_phase := TEST_DONE, ts_enabled := False \<rparr>, [])"
    if "ts_next_intent_id st' = ts_next_intent_id st" for st'
    using that by (intro step_ok_quiet) (simp_all add: orders_left_done, cases "ts_phase st", simp_all)
  have run: "step_ok st (run_phase pairs ev (process_order_event ev (refresh_bbo ev st)))"
    by (rule step_ok_from [OF run_phase_ok]) (simp_all add: event_keeps_progress)
  show ?thesis by (simp add: test_evaluate_def Let_def stop run event_keeps_progress)
qed

subsection \<open>Runs\<close>

text \<open>What the scheduler does with the strategy: it asks for intents, and it enables or disables it.\<close>

datatype test_step = Evaluate market_pair_registry scheduler_event | SetEnabled bool

fun test_run :: "test_step list \<Rightarrow> test_strategy \<Rightarrow> test_strategy \<times> execution_intent list" where
  "test_run [] st = (st, [])"
| "test_run (Evaluate pairs ev # steps) st =
     (case test_evaluate pairs ev st of (st1, out1) \<Rightarrow>
      case test_run steps st1 of (st2, out2) \<Rightarrow> (st2, out1 @ out2))"
| "test_run (SetEnabled b # steps) st = test_run steps (st\<lparr> ts_enabled := b \<rparr>)"

lemma placements_append [simp]: "placements (xs @ ys) = placements xs @ placements ys"
  by (simp add: placements_def)

lemma enable_keeps_progress:
  "orders_left (st\<lparr> ts_enabled := b \<rparr>) = orders_left st" "intents_left (st\<lparr> ts_enabled := b \<rparr>) = intents_left st"
  by (simp_all add: orders_left_def intents_left_def Let_def)

lemma test_run_orders:
  "test_run steps st = (st', out) \<Longrightarrow> length (placements out) + orders_left st' \<le> orders_left st \<and>
     length out + intents_left st' \<le> intents_left st \<and> phase_rank (ts_phase st) \<le> phase_rank (ts_phase st')"
proof (induction steps arbitrary: st st' out)
  case (Cons s steps)
  show ?case
  proof (cases s)
    case (Evaluate pairs ev)
    obtain st1 out1 where e: "test_evaluate pairs ev st = (st1, out1)" by force
    obtain st2 out2 where r: "test_run steps st1 = (st2, out2)" by force
    show ?thesis using Cons.IH [OF r] Cons.prems test_evaluate_ok [of st pairs ev]
      by (auto simp: Evaluate e r step_ok_def)
  next
    case (SetEnabled b)
    then show ?thesis using Cons.IH [of "st\<lparr> ts_enabled := b \<rparr>" st' out] Cons.prems
      by (simp add: enable_keeps_progress)
  qed
qed (simp add: placements_def)

lemma test_run_append:
  "test_run (steps @ more_steps) st =
     (case test_run steps st of (st1, out1) \<Rightarrow> case test_run more_steps st1 of (st2, out2) \<Rightarrow> (st2, out1 @ out2))"
proof (induction steps arbitrary: st)
  case (Cons s steps)
  then show ?case by (cases s) (auto split: prod.splits)
qed simp

lemma ids_from_append:
  assumes "ids_from n xs" "ids_from ((n + length xs) mod 2 ^ 32) ys"
  shows "ids_from n (xs @ ys)"
proof -
  have u: "[length xs..<length xs + length ys] = map (\<lambda>i. i + length xs) [0..<length ys]"
    by (simp add: map_add_upt add.commute)
  have "map (\<lambda>k. (n + k) mod 2 ^ 32) [0..<length xs + length ys] =
      map (\<lambda>k. (n + k) mod 2 ^ 32) [0..<length xs] @ map (\<lambda>k. (n + length xs + k) mod 2 ^ 32) [0..<length ys]"
    unfolding upt_add_eq_append [OF le0] u by (simp add: comp_def ac_simps)
  thus ?thesis using assms by (auto simp: ids_from_def mod_simps ac_simps)
qed

lemma test_run_ids:
  "test_run steps st = (st', out) \<Longrightarrow> ts_next_intent_id st < 2 ^ 32 \<Longrightarrow> ids_from (ts_next_intent_id st) out"
proof (induction steps arbitrary: st st' out)
  case Nil
  then show ?case by (simp add: ids_from_def placements_def)
next
  case (Cons s steps)
  show ?case
  proof (cases s)
    case (Evaluate pairs ev)
    obtain st1 out1 where e: "test_evaluate pairs ev st = (st1, out1)" by force
    obtain st2 out2 where r: "test_run steps st1 = (st2, out2)" by force
    have n: "ids_from (ts_next_intent_id st) out1" "ts_next_intent_id st1 = (ts_next_intent_id st + length out1) mod 2 ^ 32"
      using test_evaluate_ok [of st pairs ev] Cons.prems(2) by (simp_all add: e step_ok_def)
    hence "ids_from (ts_next_intent_id st1) out2" using Cons.IH [OF r] by simp
    thus ?thesis using ids_from_append [OF n(1)] Cons.prems(1) n(2) by (auto simp: Evaluate e r)
  next
    case (SetEnabled b)
    then show ?thesis using Cons.IH [of "st\<lparr> ts_enabled := b \<rparr>" st' out] Cons.prems by simp
  qed
qed

lemma OrderId_short: "length sv < 80 \<Longrightarrow> OrderId sv = sv"
  by (simp add: OrderId_def kMaxOrderIdLen_def)

lemma test_client_id_eq:
  assumes "n < 2 ^ 32"
  shows "test_client_id n = ''lt-test-'' @ to_string n"
proof -
  have "(2::nat) ^ 32 \<le> 10 ^ 10" by simp
  hence "n < 10 ^ 10" using assms by (rule less_le_trans [rotated])
  hence "length (to_string n) \<le> 10" by (rule to_string_length) (rule zero_less_numeral)
  hence "length (''lt-test-'' @ to_string n) < 80" by simp
  thus ?thesis unfolding test_client_id_def by (rule OrderId_short)
qed

lemma test_client_id_inj:
  assumes "n < 2 ^ 32" "m < 2 ^ 32" "test_client_id n = test_client_id m"
  shows "n = m"
proof -
  have "to_string n = to_string m"
    using assms(3) unfolding test_client_id_eq [OF assms(1)] test_client_id_eq [OF assms(2)] by simp
  thus ?thesis by (metis to_string_value)
qed

lemma distinct_client_ids:
  assumes "ids_from 0 out" "length out \<le> 12"
  shows "distinct (map in_client_order_id (placements out))"
proof -
  have ids: "map in_intent_id out = [0..<length out]"
    using assms by (auto simp: ids_from_def intro!: nth_equalityI)
  have lt: "in_intent_id i < 2 ^ 32" if "i \<in> set out" for i
  proof -
    have "in_intent_id i \<in> set (map in_intent_id out)" using that by simp
    hence "in_intent_id i < 12" using assms(2) unfolding ids by simp
    thus ?thesis by simp
  qed
  have "distinct (map in_intent_id (placements out))"
    unfolding placements_def by (rule distinct_map_filter) (simp add: ids)
  moreover have "map in_client_order_id (placements out) = map test_client_id (map in_intent_id (placements out))"
    using assms(1) by (simp add: ids_from_def)
  moreover have "inj_on test_client_id (set (map in_intent_id (placements out)))"
    using lt by (auto intro!: inj_onI test_client_id_inj simp: placements_def)
  ultimately show ?thesis by (simp only: distinct_map)
qed

subsection \<open>Properties\<close>

text \<open>C36: Whatever events the strategy sees and whenever it is enabled and disabled, from its start it sends
  at most eight orders and at most twelve intents, no two orders have the same client id, and its phase
  never goes back.\<close>

theorem test_strategy_bounded:
  assumes "test_run steps new_test_strategy = (st, out)" and "test_run more_steps st = (st', out')"
  shows "length (placements (out @ out')) \<le> 8 \<and> length (out @ out') \<le> 12 \<and>
    distinct (map in_client_order_id (placements (out @ out'))) \<and> phase_rank (ts_phase st) \<le> phase_rank (ts_phase st')"
proof -
  have both: "test_run (steps @ more_steps) new_test_strategy = (st', out @ out')"
    using assms by (simp add: test_run_append)
  have n: "orders_left new_test_strategy = 8" "intents_left new_test_strategy = 12" "ts_next_intent_id new_test_strategy = 0"
    by (simp_all add: new_test_strategy_def orders_left_def intents_left_def)
  note b = test_run_orders [OF both]
  have "ids_from 0 (out @ out')" using test_run_ids [OF both] n(3) by simp
  thus ?thesis using b n test_run_orders [OF assms(2)] distinct_client_ids [of "out @ out'"] by simp
qed

definition sample_registry :: market_pair_registry where
  "sample_registry = empty_registry\<lparr> by_condition := [''m'' \<mapsto> \<lparr> mp_condition_id = ''m'', token_id_up = ''u'',
       token_id_down = ''d'', mp_neg_risk = False, mp_fee_rate_bps = 0 \<rparr>], condition_by_token := [''u'' \<mapsto> ''m''] \<rparr>"

definition sample_bbo_event :: "timestamp \<Rightarrow> scheduler_event" where
  "sample_bbo_event t = new_event\<lparr> ev_kind := MARKET_BBO_UPDATE, ev_asset_id := ''u'', ev_recv_ts := t,
     ev_bbo := empty_bbo\<lparr> best_bid := 4900, best_ask := 5000 \<rparr> \<rparr>"

theorem test_strategy_bounded_witness:
  "length (placements (snd (test_run [SetEnabled True, Evaluate sample_registry (sample_bbo_event 1)] new_test_strategy))) \<in> {2..8}"
proof -
  let ?steps = "[SetEnabled True, Evaluate sample_registry (sample_bbo_event 1)]"
  obtain st out where r: "test_run ?steps new_test_strategy = (st, out)" by force
  have "length (placements out) \<le> 8" using test_strategy_bounded [OF r, of "[]" st "[]"] by simp
  moreover have "length (placements (snd (test_run ?steps new_test_strategy))) = 2"
    by (simp add: test_evaluate_def run_phase_def refresh_bbo_def market_data_def process_order_event_def
        handle_wait_for_bbo_def handle_p1_place_def place_both_def order_defs placements_def is_placement_def
        new_test_strategy_def sample_bbo_event_def sample_registry_def new_event_def empty_registry_def
        condition_for_token_def find_by_condition_def empty_bbo_def kInvalidPrice_def)
  ultimately show ?thesis using r by simp
qed

text \<open>While the two orders of the first phase rest, an event that comes more than thirty seconds after
  they were placed ends the test without a cancel: neither this evaluation nor any later one sends
  anything, even if the strategy is enabled again, so both orders stay on the exchange.\<close>

theorem timeout_leaves_resting_orders:
  assumes "ts_enabled st" and "ts_phase st = P1_HOLD" and "0 < ts_entered st"
    and "ev_recv_ts ev - ts_entered st > 30000000000"
  shows "snd (test_run (Evaluate pairs ev # steps) st) = [] \<and>
    ts_phase (fst (test_run (Evaluate pairs ev # steps) st)) = TEST_DONE"
proof -
  have fin: "snd (test_run steps st') = [] \<and> ts_phase (fst (test_run steps st')) = TEST_DONE" if "ts_phase st' = TEST_DONE" for st' steps
    using that
  proof (induction steps arbitrary: st')
    case (Cons s steps)
    then show ?case by (cases s) (auto simp: test_evaluate_def split: prod.split)
  qed simp
  have "ts_entered (refresh_bbo ev st) = ts_entered st" "ts_phase (refresh_bbo ev st) = P1_HOLD"
    using assms(2) by (simp_all add: refresh_bbo_def)
  hence "test_timed_out (refresh_bbo ev st) (ev_recv_ts ev)"
    using assms(3,4) by (simp add: test_timed_out_def kTimeoutNs_def)
  hence "snd (test_evaluate pairs ev st) = []" "ts_phase (fst (test_evaluate pairs ev st)) = TEST_DONE"
    using assms(1,2) \<open>ts_phase (refresh_bbo ev st) = P1_HOLD\<close> by (simp_all add: test_evaluate_def Let_def)
  thus ?thesis using fin [of "fst (test_evaluate pairs ev st)" steps] by (auto split: prod.split)
qed

theorem timeout_leaves_resting_orders_witness:
  "snd (test_run [Evaluate sample_registry (sample_bbo_event 31000000000)]
     (new_test_strategy\<lparr> ts_enabled := True, ts_phase := P1_HOLD, ts_entered := 1 \<rparr>)) = []"
  using timeout_leaves_resting_orders [of "new_test_strategy\<lparr> ts_enabled := True, ts_phase := P1_HOLD, ts_entered := 1 \<rparr>"
      "sample_bbo_event 31000000000" sample_registry "[]"]
  by (simp add: sample_bbo_event_def)

text \<open>When the best bid is above 0.80, the closing sale is for more shares than the purchase before
  it, at the minimum of one dollar computed from the complement of the price.\<close>

theorem last_sale_exceeds_purchase:
  assumes "8000 < bid" and "bid < 10000" and "bid \<le> ask"
  shows "taker_qty_for_price (10000 - bid) > taker_qty_for_price ask"
proof -
  have q: "0 < kQtyScale" by (simp add: kQtyScale_def)
  have buy: "(10000 + ask - 1) sdiv ask \<le> 5"
  proof -
    have "(10000 + ask - 1) div ask \<le> (5 * ask) div ask" using assms by (intro zdiv_mono1) auto
    thus ?thesis using assms by (simp add: sdiv_nonneg)
  qed
  have sell: "6 \<le> (10000 + (10000 - bid) - 1) sdiv (10000 - bid)"
  proof -
    have "(6 * (10000 - bid)) div (10000 - bid) \<le> (10000 + (10000 - bid) - 1) div (10000 - bid)"
      using assms by (intro zdiv_mono1) auto
    moreover have "(6 * (10000 - bid)) div (10000 - bid) = 6"
      using assms by (intro nonzero_mult_div_cancel_right) simp
    ultimately have "6 \<le> (10000 + (10000 - bid) - 1) div (10000 - bid)" by (simp only:)
    thus ?thesis using assms by (simp add: sdiv_nonneg)
  qed
  have "taker_qty_for_price ask \<le> 5 * kQtyScale"
    using buy q assms by (simp add: taker_qty_for_price_def kMinLimitQty_def kMinTakerNotional_def)
  moreover have "6 * kQtyScale \<le> taker_qty_for_price (10000 - bid)"
    using sell q assms by (simp add: taker_qty_for_price_def kMinLimitQty_def kMinTakerNotional_def)
  ultimately show ?thesis using q by linarith
qed

theorem last_sale_exceeds_purchase_witness:
  "taker_qty_for_price 9900 = 5 * kQtyScale \<and> taker_qty_for_price (10000 - 9800) > taker_qty_for_price 9900"
  using last_sale_exceeds_purchase [of 9800 9900]
  by (simp add: taker_qty_for_price_def kMinLimitQty_def kMinTakerNotional_def kQtyScale_def sdiv_nonneg)

end
