(* ===== verification/Rotation.thy ===== *)
theory Rotation
  imports Slots "HOL-Library.Multiset"
begin

section \<open>The rotation coordinator\<close>

text \<open>
  src/src/rotation/rotation_coordinator.{h,cpp}, the main thread of the single-series mode, and the
  half of its handshake that runs on the scheduler's thread (src/src/scheduler/strategy_scheduler.cpp,
  the head of the loop of run).  The first part is the coordinator's own control flow: discovery with
  retries, start-up, one iteration of its loop, the ten steps of a rotation and the delayed
  redemptions.  Callbacks are output values, the network, both clocks and the stop flags are
  arguments.  The second part is the handshake itself: the two threads as program counters over the
  shared phase, and a step relation that interleaves them.  The lemmas show that a rotation at the
  end of a window keeps the traded market the one of the current window, that a rotation before the
  end of the window loses it, that every market a rotation leaves is redeemed once,
  and that the coordinator changes the shared tables of a rotation only while the scheduler waits.
\<close>

subsection \<open>State\<close>

datatype rotation_phase = PHASE_NORMAL | PAUSE_REQUESTED | PAUSED | RESUME_REQUESTED

record rotation_timing =
  rt_window_start :: int
  rt_window_end :: int
  rt_period :: int
  rt_no_trade_start_ms :: int
  rt_no_trade_end_ms :: int
  rt_enabled :: bool

record rotation_config =
  rc_timeframe :: btc_timeframe
  rc_discovery_poll_ms :: int
  rc_pre_rotation_ms :: int
  rc_no_trade_start_ms :: int
  rc_no_trade_end_ms :: int
  rc_discovery_api_url :: string

record pending_redeem =
  pr_condition_id :: string
  pr_token_id_up :: string
  pr_token_id_down :: string
  pr_fire_at :: int

record rotation =
  ro_config :: rotation_config
  ro_host :: string
  ro_timing :: rotation_timing
  ro_current :: discovered_market
  ro_next :: "discovered_market option"
  ro_pre :: "discovered_market option"
  ro_count :: int
  ro_pending :: "pending_redeem list"
  ro_last_poll :: int

definition kRedeemDelayMs :: int where "kRedeemDelayMs = 180000"

definition default_rotation_config :: rotation_config where
  "default_rotation_config =
     \<lparr> rc_timeframe = BTC_5M, rc_discovery_poll_ms = 15000, rc_pre_rotation_ms = 5000,
       rc_no_trade_start_ms = 0, rc_no_trade_end_ms = 0,
       rc_discovery_api_url = ''https://gamma-api.polymarket.com'' \<rparr>"

definition new_rotation :: "rotation_config \<Rightarrow> rotation" where
  "new_rotation cfg =
     \<lparr> ro_config = cfg, ro_host = extract_host (rc_discovery_api_url cfg),
       ro_timing = \<lparr> rt_window_start = 0, rt_window_end = 0, rt_period = 300, rt_no_trade_start_ms = 0,
                     rt_no_trade_end_ms = 0, rt_enabled = False \<rparr>,
       ro_current = new_discovered_market, ro_next = None, ro_pre = None, ro_count = 0,
       ro_pending = [], ro_last_poll = 0 \<rparr>"

datatype rotation_out =
    StopMarketWs
  | StopUserWs
  | Callback slot_out
  | UpdateUiRotation string int int int bool

subsection \<open>Windows and discovery\<close>

definition rot_window_start :: "rotation_config \<Rightarrow> int \<Rightarrow> int" where
  "rot_window_start cfg unix_s =
     (let period = timeframe_period_seconds (rc_timeframe cfg)
      in case discovery_window_candidates (rc_timeframe cfg) unix_s of
           c # _ \<Rightarrow> c | [] \<Rightarrow> (unix_s sdiv period) * period)"

definition rot_window_end :: "rotation_config \<Rightarrow> int \<Rightarrow> int" where
  "rot_window_end cfg unix_s = rot_window_start cfg unix_s + timeframe_period_seconds (rc_timeframe cfg)"

definition kMetadataRetries :: nat where "kMetadataRetries = 3"

text \<open>The first answer among the three attempts of a query.\<close>

definition retry_query :: "(nat \<Rightarrow> 'a expected) \<Rightarrow> 'a option" where
  "retry_query q = first_some (\<lambda>i. case q i of Value v \<Rightarrow> Some v | _ \<Rightarrow> None) [0 ..< kMetadataRetries]"

text \<open>
  \<open>get k\<close> is the network during the k-th request of one discovery: 0 for the market, 1 to 3 and 4 to
  6 for the attempts of the two token queries.
\<close>

definition rot_discover ::
  "(string \<Rightarrow> json option) \<Rightarrow> (nat \<Rightarrow> string \<Rightarrow> string \<Rightarrow> string) \<Rightarrow> rotation \<Rightarrow> int \<Rightarrow> discovered_market option" where
  "rot_discover parse get r window_ts =
     (case discover_btc_market_for_window parse (get 0) (ro_host r) (rc_timeframe (ro_config r)) window_ts of
        None \<Rightarrow> None
      | Some m \<Rightarrow>
          if dm_token_id_up m = [] then Some m
          else
            let m1 = (case retry_query (\<lambda>i. query_neg_risk parse (get (1 + i)) (dm_token_id_up m)) of
                        Some b \<Rightarrow> m\<lparr> dm_neg_risk := b \<rparr> | None \<Rightarrow> m);
                m2 = (case retry_query (\<lambda>i. query_fee_rate parse (get (4 + i)) (dm_token_id_up m)) of
                        Some fee \<Rightarrow> m1\<lparr> dm_fee_rate_bps := fee \<rparr> | None \<Rightarrow> m1)
            in Some m2)"

definition rot_register :: "discovered_market \<Rightarrow> rotation_out list" where
  "rot_register mkt =
     (let up = dm_token_id_up mkt; down = dm_token_id_down mkt; c = dm_condition_id mkt
      in map Callback
           [RegisterMarket c up down (dm_neg_risk mkt) (dm_fee_rate_bps mkt),
            RegisterToken up, RegisterToken down, SeedMarketState up, SeedMarketState down,
            SeedSchedulerState up, SeedSchedulerState down, SeedSchedulerState c])"

text \<open>\<open>sleep_ms\<close>: no stop flag is seen before a chunk of 100 ms or at the end.\<close>

definition rot_sleep :: "int \<Rightarrow> (nat \<Rightarrow> bool) \<Rightarrow> bool" where
  "rot_sleep ms stopped = list_all (\<lambda>k. \<not> stopped k) [0 ..< Suc (nat ((ms + 99) div 100))]"

definition rot_tokens :: "rotation \<Rightarrow> string list" where
  "rot_tokens r =
     [dm_token_id_up (ro_current r), dm_token_id_down (ro_current r)] @
     (case ro_next r of Some n \<Rightarrow> [dm_token_id_up n, dm_token_id_down n] | None \<Rightarrow> [])"

definition rot_conditions :: "rotation \<Rightarrow> string list" where
  "rot_conditions r =
     dm_condition_id (ro_current r) # (case ro_next r of Some n \<Rightarrow> [dm_condition_id n] | None \<Rightarrow> [])"

definition start_feeds :: "rotation \<Rightarrow> rotation_out list" where
  "start_feeds r = [Callback (StartMarketWs (rot_tokens r)), Callback (StartUserWs (rot_conditions r))]"

definition ui_rotation :: "rotation \<Rightarrow> rotation_out" where
  "ui_rotation r =
     UpdateUiRotation (dm_condition_id (ro_current r)) (rt_window_start (ro_timing r))
       (rt_window_end (ro_timing r)) (ro_count r) False"

subsection \<open>A rotation\<close>

text \<open>
  What a rotation meets: whether the scheduler acknowledges the pause before a stop flag is set, at
  which polls the execution queue is seen empty, when the stop flags are seen during the sleeps, and
  the readings of both clocks.
\<close>

record rotation_env =
  re_stopped :: "nat \<Rightarrow> bool"
  re_now :: int
  re_steady :: int
  re_steady_poll :: int
  re_get :: "nat \<Rightarrow> string \<Rightarrow> string \<Rightarrow> string"
  re_paused :: bool
  re_drained :: "nat \<Rightarrow> bool"
  re_drain_stopped :: "nat \<Rightarrow> nat \<Rightarrow> bool"
  re_switch_steady :: int
  re_switch_now :: int

fun drain_wait :: "rotation_env \<Rightarrow> nat \<Rightarrow> nat \<Rightarrow> bool" where
  "drain_wait env 0 k = True"
| "drain_wait env (Suc n) k = (re_drained env k \<or> (rot_sleep 10 (re_drain_stopped env k) \<and> drain_wait env n (Suc k)))"

definition kDrainPolls :: nat where "kDrainPolls = 300"

definition old_market_redeem :: "rotation_env \<Rightarrow> rotation \<Rightarrow> pending_redeem list" where
  "old_market_redeem env r =
     (let m = ro_current r
      in if dm_condition_id m = [] then []
         else [\<lparr> pr_condition_id = dm_condition_id m, pr_token_id_up = dm_token_id_up m,
                 pr_token_id_down = dm_token_id_down m,
                 pr_fire_at = re_switch_steady env + kRedeemDelayMs * 1000000 \<rparr>])"

definition switch_market :: "rotation_env \<Rightarrow> discovered_market \<Rightarrow> discovered_market \<Rightarrow> rotation \<Rightarrow> rotation" where
  "switch_market env nxt new_next r =
     r\<lparr> ro_pending := ro_pending r @ old_market_redeem env r,
        ro_current := nxt,
        ro_next := (if dm_condition_id new_next = [] then None else Some new_next),
        ro_timing := (ro_timing r)\<lparr> rt_window_start := rot_window_start (ro_config r) (re_switch_now env),
                                    rt_window_end := rot_window_end (ro_config r) (re_switch_now env) \<rparr>,
        ro_count := ro_count r + 1 \<rparr>"

text \<open>\<open>execute_rotation\<close>; it is called only with a next market.\<close>

definition execute_rotation ::
  "rotation_env \<Rightarrow> discovered_market \<Rightarrow> discovered_market \<Rightarrow> rotation \<Rightarrow> rotation \<times> rotation_out list" where
  "execute_rotation env nxt new_next r =
     (if \<not> re_paused env then (r, [])
      else if \<not> drain_wait env kDrainPolls 0 then (r, [StopMarketWs, StopUserWs])
      else
        let r' = switch_market env nxt new_next r
        in (r', [StopMarketWs, StopUserWs] @
                (if dm_condition_id new_next = [] then [] else rot_register new_next) @
                start_feeds r' @ [ui_rotation r']))"

subsection \<open>One iteration of the loop\<close>

definition rotate_now ::
  "(string \<Rightarrow> json option) \<Rightarrow> rotation_env \<Rightarrow> discovered_market \<Rightarrow> rotation \<Rightarrow> rotation \<times> rotation_out list" where
  "rotate_now parse env nxt r =
     (let cached = (case ro_pre r of Some m \<Rightarrow> m | None \<Rightarrow> new_discovered_market);
          r1 = r\<lparr> ro_pre := None \<rparr>;
          new_next =
            (if dm_condition_id cached = [] then
               (case rot_discover parse (re_get env) r1
                       (rt_window_end (ro_timing r) + timeframe_period_seconds (rc_timeframe (ro_config r))) of
                  Some m \<Rightarrow> m | None \<Rightarrow> cached)
             else cached);
          (r2, out) = execute_rotation env nxt new_next r1
      in (r2\<lparr> ro_last_poll := re_steady_poll env \<rparr>, out))"

definition fire_redeems :: "rotation_env \<Rightarrow> rotation \<Rightarrow> rotation \<times> rotation_out list" where
  "fire_redeems env r =
     (r\<lparr> ro_pending := filter (\<lambda>p. re_steady env < pr_fire_at p) (ro_pending r) \<rparr>,
      map (\<lambda>p. Callback (FireRedeem (pr_condition_id p) (pr_token_id_up p) (pr_token_id_down p)))
        (filter (\<lambda>p. pr_fire_at p \<le> re_steady env) (ro_pending r)))"

definition poll_discovery ::
  "(string \<Rightarrow> json option) \<Rightarrow> rotation_env \<Rightarrow> rotation \<Rightarrow> rotation \<times> rotation_out list" where
  "poll_discovery parse env r =
     (if (re_steady_poll env - ro_last_poll r) sdiv 1000000 \<ge> rc_discovery_poll_ms (ro_config r) then
        let r1 = r\<lparr> ro_last_poll := re_steady_poll env \<rparr>;
            find = rot_discover parse (re_get env) r1
        in case ro_next r of
             None \<Rightarrow>
               (case find (rt_window_end (ro_timing r)) of
                  Some n \<Rightarrow> if dm_condition_id n \<noteq> dm_condition_id (ro_current r)
                            then (r1\<lparr> ro_next := Some n \<rparr>, rot_register n) else (r1, [])
                | None \<Rightarrow> (r1, []))
           | Some _ \<Rightarrow>
               (case find (rt_window_end (ro_timing r) +
                           timeframe_period_seconds (rc_timeframe (ro_config r))) of
                  Some m \<Rightarrow> (r1\<lparr> ro_pre := Some m \<rparr>, []) | None \<Rightarrow> (r1, []))
      else (r, []))"

definition rotation_poll ::
  "(string \<Rightarrow> json option) \<Rightarrow> rotation_env \<Rightarrow> rotation \<Rightarrow> rotation \<times> rotation_out list" where
  "rotation_poll parse env r =
     (if \<not> rot_sleep 100 (re_stopped env) then (r, [])
      else
        let time_to_end_ms = (rt_window_end (ro_timing r) - re_now env) * 1000
        in case (ro_next r, time_to_end_ms \<le> rc_pre_rotation_ms (ro_config r)) of
             (Some nxt, True) \<Rightarrow> rotate_now parse env nxt r
           | _ \<Rightarrow>
               let (r1, out1) = fire_redeems env r;
                   (r2, out2) = poll_discovery parse env r1
               in (r2, out1 @ out2))"

subsection \<open>Start-up\<close>

definition kMaxDiscoveryAttempts :: nat where "kMaxDiscoveryAttempts = 10"

text \<open>
  One attempt of the initial discovery at the given time: \<open>get 0\<close> is the network of the first
  discovery of the attempt, \<open>get 1\<close> of the second.
\<close>

definition first_markets ::
  "(string \<Rightarrow> json option) \<Rightarrow> (nat \<Rightarrow> nat \<Rightarrow> string \<Rightarrow> string \<Rightarrow> string) \<Rightarrow> int \<Rightarrow> rotation \<Rightarrow> rotation option" where
  "first_markets parse get now r =
     (let w = rot_window_start (ro_config r) now;
          nw = w + timeframe_period_seconds (rc_timeframe (ro_config r));
          nxt = rot_discover parse (get 1) r nw
      in case rot_discover parse (get 0) r w of
           Some m \<Rightarrow>
             if \<not> dm_is_closed m then
               Some (case nxt of Some n \<Rightarrow> r\<lparr> ro_current := m, ro_next := Some n \<rparr>
                               | None \<Rightarrow> r\<lparr> ro_current := m \<rparr>)
             else (case nxt of Some n \<Rightarrow> if \<not> dm_is_closed n then Some (r\<lparr> ro_current := n \<rparr>) else None
                             | None \<Rightarrow> None)
         | None \<Rightarrow> (case nxt of Some n \<Rightarrow> if \<not> dm_is_closed n then Some (r\<lparr> ro_current := n \<rparr>) else None
                             | None \<Rightarrow> None))"

text \<open>
  The attempts one after the other; \<open>stopped a\<close> says whether a stop flag is seen before attempt a,
  \<open>slept a\<close> whether the pause after it is not interrupted.
\<close>

fun rot_initial_discovery ::
  "(string \<Rightarrow> json option) \<Rightarrow> (nat \<Rightarrow> nat \<Rightarrow> nat \<Rightarrow> string \<Rightarrow> string \<Rightarrow> string) \<Rightarrow> (nat \<Rightarrow> int) \<Rightarrow>
   (nat \<Rightarrow> bool) \<Rightarrow> (nat \<Rightarrow> bool) \<Rightarrow> nat \<Rightarrow> nat \<Rightarrow> rotation \<Rightarrow> rotation option" where
  "rot_initial_discovery parse get now stopped slept 0 a r = None"
| "rot_initial_discovery parse get now stopped slept (Suc n) a r =
     (if stopped a then None
      else case first_markets parse (get a) (now a) r of
        Some r' \<Rightarrow> Some r'
      | None \<Rightarrow> if n \<noteq> 0 \<and> slept a
                then rot_initial_discovery parse get now stopped slept n (Suc a) r else None)"

text \<open>Phases B to D of \<open>run\<close> at the given times.\<close>

definition rotation_start :: "int \<Rightarrow> int \<Rightarrow> rotation \<Rightarrow> rotation \<times> rotation_out list" where
  "rotation_start now steady r =
     (let cfg = ro_config r;
          r' = r\<lparr> ro_timing :=
                 \<lparr> rt_window_start = rot_window_start cfg now, rt_window_end = rot_window_end cfg now,
                   rt_period = timeframe_period_seconds (rc_timeframe cfg),
                   rt_no_trade_start_ms = rc_no_trade_start_ms cfg,
                   rt_no_trade_end_ms = rc_no_trade_end_ms cfg, rt_enabled = True \<rparr>,
                 ro_last_poll := steady \<rparr>
      in (r', rot_register (ro_current r) @
              (case ro_next r of Some n \<Rightarrow> rot_register n | None \<Rightarrow> []) @
              [Callback (BootstrapPositions (rot_conditions r))] @ start_feeds r' @ [ui_rotation r']))"

subsection \<open>The handshake of the two threads\<close>

text \<open>
  The coordinator: the head of its loop, the body of an iteration before a rotation, waiting for the pause, holding the tables
  alone (steps 3 to 9), waiting for the resumption, the bounded wait of the shutdown, and the end.
\<close>

datatype coordinator_pc = C_LOOP | C_POLL | C_WAIT_PAUSE | C_EXCLUSIVE | C_WAIT_RESUME | C_FINAL nat | C_END

text \<open>
  The scheduler: an iteration of its loop, the cancels before the acknowledgement, the wait, the
  taking over of the timing, and the end.
\<close>

datatype scheduler_pc = S_LOOP | S_PAUSING | S_PAUSED | S_RESUMING | S_END

record handshake =
  hs_phase :: rotation_phase
  hs_coordinator :: coordinator_pc
  hs_scheduler :: scheduler_pc
  hs_stop :: bool
  hs_fatal :: bool
  hs_stop_scheduler :: bool

definition new_handshake :: handshake where
  "new_handshake = \<lparr> hs_phase = PHASE_NORMAL, hs_coordinator = C_LOOP, hs_scheduler = S_LOOP,
     hs_stop = False, hs_fatal = False, hs_stop_scheduler = False \<rparr>"

text \<open>
  \<open>hs_stop\<close> is the disjunction of the coordinator's stop request and the shutdown flag; no code
  clears one of the three flags.
\<close>

inductive handshake_step :: "handshake \<Rightarrow> handshake \<Rightarrow> bool" where
  enter_poll: "hs_coordinator h = C_LOOP \<Longrightarrow> \<not> hs_stop h \<Longrightarrow> \<not> hs_fatal h \<Longrightarrow>
    handshake_step h (h\<lparr> hs_coordinator := C_POLL \<rparr>)"
| leave_poll: "hs_coordinator h = C_POLL \<Longrightarrow> handshake_step h (h\<lparr> hs_coordinator := C_LOOP \<rparr>)"
| request_pause: "hs_coordinator h = C_POLL \<Longrightarrow>
    handshake_step h (h\<lparr> hs_coordinator := C_WAIT_PAUSE, hs_phase := PAUSE_REQUESTED \<rparr>)"
| pause_seen: "hs_coordinator h = C_WAIT_PAUSE \<Longrightarrow> hs_phase h = PAUSED \<Longrightarrow> \<not> hs_stop h \<Longrightarrow>
    handshake_step h (h\<lparr> hs_coordinator := C_EXCLUSIVE \<rparr>)"
| pause_stopped: "hs_coordinator h = C_WAIT_PAUSE \<Longrightarrow> hs_stop h \<Longrightarrow>
    handshake_step h (h\<lparr> hs_coordinator := C_LOOP \<rparr>)"
| drain_stopped: "hs_coordinator h = C_EXCLUSIVE \<Longrightarrow> hs_stop h \<or> hs_fatal h \<Longrightarrow>
    handshake_step h (h\<lparr> hs_coordinator := C_LOOP \<rparr>)"
| request_resume: "hs_coordinator h = C_EXCLUSIVE \<Longrightarrow>
    handshake_step h (h\<lparr> hs_coordinator := C_WAIT_RESUME, hs_phase := RESUME_REQUESTED \<rparr>)"
| resume_seen: "hs_coordinator h = C_WAIT_RESUME \<Longrightarrow> hs_phase h = PHASE_NORMAL \<or> hs_stop h \<Longrightarrow>
    handshake_step h (h\<lparr> hs_coordinator := C_LOOP \<rparr>)"
| leave_loop: "hs_coordinator h = C_LOOP \<Longrightarrow> hs_stop h \<or> hs_fatal h \<Longrightarrow>
    handshake_step h (if hs_phase h = PHASE_NORMAL
      then h\<lparr> hs_coordinator := C_FINAL 100, hs_phase := PAUSE_REQUESTED \<rparr>
      else h\<lparr> hs_coordinator := C_END \<rparr>)"
| final_poll: "hs_coordinator h = C_FINAL (Suc n) \<Longrightarrow>
    handshake_step h (if hs_phase h = PAUSED
      then h\<lparr> hs_coordinator := C_END, hs_phase := RESUME_REQUESTED \<rparr>
      else h\<lparr> hs_coordinator := C_FINAL n \<rparr>)"
| final_over: "hs_coordinator h = C_FINAL 0 \<Longrightarrow> handshake_step h (h\<lparr> hs_coordinator := C_END \<rparr>)"
| begin_pause: "hs_scheduler h = S_LOOP \<Longrightarrow> hs_phase h = PAUSE_REQUESTED \<Longrightarrow>
    handshake_step h (h\<lparr> hs_scheduler := S_PAUSING \<rparr>)"
| acknowledge: "hs_scheduler h = S_PAUSING \<Longrightarrow>
    handshake_step h (h\<lparr> hs_scheduler := S_PAUSED, hs_phase := PAUSED \<rparr>)"
| begin_resume: "hs_scheduler h = S_PAUSED \<Longrightarrow> hs_phase h = RESUME_REQUESTED \<Longrightarrow>
    handshake_step h (h\<lparr> hs_scheduler := S_RESUMING \<rparr>)"
| resume: "hs_scheduler h = S_RESUMING \<Longrightarrow>
    handshake_step h (h\<lparr> hs_scheduler := S_LOOP, hs_phase := PHASE_NORMAL \<rparr>)"
| scheduler_leaves: "hs_scheduler h \<in> {S_LOOP, S_PAUSED} \<Longrightarrow> hs_stop_scheduler h \<Longrightarrow>
    handshake_step h (h\<lparr> hs_scheduler := S_END \<rparr>)"
| scheduler_fails: "handshake_step h (h\<lparr> hs_scheduler := S_END, hs_fatal := True \<rparr>)"
| set_stop: "handshake_step h (h\<lparr> hs_stop := True \<rparr>)"
| set_fatal: "handshake_step h (h\<lparr> hs_fatal := True \<rparr>)"
| set_stop_scheduler: "handshake_step h (h\<lparr> hs_stop_scheduler := True \<rparr>)"

definition handshake_reachable :: "handshake \<Rightarrow> bool" where
  "handshake_reachable h = handshake_step\<^sup>*\<^sup>* new_handshake h"

inductive_cases handshake_stepE: "handshake_step h h'"

subsection \<open>The scheduler waits while the tables change\<close>

fun scheduler_at :: "rotation_phase \<Rightarrow> scheduler_pc set" where
  "scheduler_at PHASE_NORMAL = {S_LOOP, S_END}"
| "scheduler_at PAUSE_REQUESTED = {S_LOOP, S_PAUSING, S_END}"
| "scheduler_at PAUSED = {S_PAUSED, S_END}"
| "scheduler_at RESUME_REQUESTED = {S_PAUSED, S_RESUMING, S_END}"

fun phase_at :: "coordinator_pc \<Rightarrow> rotation_phase set" where
  "phase_at C_POLL = {PHASE_NORMAL}"
| "phase_at C_WAIT_PAUSE = {PAUSE_REQUESTED, PAUSED}"
| "phase_at C_EXCLUSIVE = {PAUSED}"
| "phase_at C_WAIT_RESUME = {RESUME_REQUESTED, PHASE_NORMAL}"
| "phase_at (C_FINAL n) = {PAUSE_REQUESTED, PAUSED}"
| "phase_at _ = UNIV"

definition handshake_inv :: "handshake \<Rightarrow> bool" where
  "handshake_inv h \<longleftrightarrow>
     hs_scheduler h \<in> scheduler_at (hs_phase h) \<and> hs_phase h \<in> phase_at (hs_coordinator h) \<and>
     (hs_coordinator h = C_LOOP \<and> \<not> hs_stop h \<and> \<not> hs_fatal h \<longrightarrow> hs_phase h = PHASE_NORMAL) \<and>
     (hs_scheduler h = S_END \<longrightarrow> hs_stop_scheduler h \<or> hs_fatal h) \<and>
     (hs_coordinator h = C_END \<or> (\<exists>n. hs_coordinator h = C_FINAL n) \<longrightarrow> hs_stop h \<or> hs_fatal h)"

lemma handshake_step_inv: "handshake_step h h' \<Longrightarrow> handshake_inv h \<Longrightarrow> handshake_inv h'"
  by (erule handshake_stepE; cases "hs_phase h"; cases "hs_coordinator h"; simp add: handshake_inv_def; auto)

lemma reachable_inv: "handshake_reachable h \<Longrightarrow> handshake_inv h"
  unfolding handshake_reachable_def
proof (induction rule: rtranclp_induct)
  case base
  show ?case by (simp add: handshake_inv_def new_handshake_def)
next
  case (step h h')
  then show ?case by (blast intro: handshake_step_inv)
qed

text \<open>C15: 
  While the coordinator stops the feeds, registers markets and rewrites the timing, the scheduler is
  waiting or has ended; it takes the timing over only after the coordinator has let go of it.
\<close>
theorem rotation_excludes_scheduler:
  assumes "handshake_reachable h" and "hs_coordinator h = C_EXCLUSIVE"
  shows "hs_scheduler h = S_PAUSED \<or> hs_scheduler h = S_END"
  using reachable_inv [OF assms(1)] assms(2) by (auto simp: handshake_inv_def)

lemma exclusive_reachable:
  "handshake_reachable (new_handshake\<lparr> hs_coordinator := C_EXCLUSIVE, hs_phase := PAUSED, hs_scheduler := S_PAUSED \<rparr>)"
proof -
  let ?h = new_handshake
  have "handshake_step ?h (?h\<lparr> hs_coordinator := C_POLL \<rparr>)"
    by (rule enter_poll) (simp_all add: new_handshake_def)
  moreover have "handshake_step (?h\<lparr> hs_coordinator := C_POLL \<rparr>) (?h\<lparr> hs_coordinator := C_WAIT_PAUSE, hs_phase := PAUSE_REQUESTED \<rparr>)"
    using request_pause [of "?h\<lparr> hs_coordinator := C_POLL \<rparr>"] by simp
  moreover have "handshake_step (?h\<lparr> hs_coordinator := C_WAIT_PAUSE, hs_phase := PAUSE_REQUESTED \<rparr>)
      (?h\<lparr> hs_coordinator := C_WAIT_PAUSE, hs_phase := PAUSE_REQUESTED, hs_scheduler := S_PAUSING \<rparr>)"
    using begin_pause [of "?h\<lparr> hs_coordinator := C_WAIT_PAUSE, hs_phase := PAUSE_REQUESTED \<rparr>"] by (simp add: new_handshake_def)
  moreover have "handshake_step (?h\<lparr> hs_coordinator := C_WAIT_PAUSE, hs_phase := PAUSE_REQUESTED, hs_scheduler := S_PAUSING \<rparr>)
      (?h\<lparr> hs_coordinator := C_WAIT_PAUSE, hs_phase := PAUSED, hs_scheduler := S_PAUSED \<rparr>)"
    using acknowledge [of "?h\<lparr> hs_coordinator := C_WAIT_PAUSE, hs_phase := PAUSE_REQUESTED, hs_scheduler := S_PAUSING \<rparr>"]
    by (simp add: new_handshake_def)
  moreover have "handshake_step (?h\<lparr> hs_coordinator := C_WAIT_PAUSE, hs_phase := PAUSED, hs_scheduler := S_PAUSED \<rparr>)
      (?h\<lparr> hs_coordinator := C_EXCLUSIVE, hs_phase := PAUSED, hs_scheduler := S_PAUSED \<rparr>)"
    using pause_seen [of "?h\<lparr> hs_coordinator := C_WAIT_PAUSE, hs_phase := PAUSED, hs_scheduler := S_PAUSED \<rparr>"]
    by (simp add: new_handshake_def)
  ultimately show ?thesis
    unfolding handshake_reachable_def by (meson rtranclp.rtrancl_into_rtrancl rtranclp.rtrancl_refl)
qed

theorem rotation_excludes_scheduler_witness:
  "let h = new_handshake\<lparr> hs_coordinator := C_EXCLUSIVE, hs_phase := PAUSED, hs_scheduler := S_PAUSED \<rparr>
   in handshake_reachable h \<and> (hs_scheduler h = S_PAUSED \<or> hs_scheduler h = S_END)"
  using rotation_excludes_scheduler [OF exclusive_reachable] exclusive_reachable by (simp add: Let_def)

text \<open>The moves of the two threads apart from the setting of flags, towards the end of a rotation.\<close>

definition handshake_idle :: "handshake \<Rightarrow> handshake" where
  "handshake_idle h = h\<lparr> hs_phase := PHASE_NORMAL, hs_coordinator := C_LOOP, hs_scheduler := S_LOOP \<rparr>"

lemma handshake_idle_update [simp]:
  "handshake_idle (h\<lparr> hs_phase := p \<rparr>) = handshake_idle h"
  "handshake_idle (h\<lparr> hs_coordinator := c \<rparr>) = handshake_idle h"
  "handshake_idle (h\<lparr> hs_scheduler := s \<rparr>) = handshake_idle h"
  by (simp_all add: handshake_idle_def)

lemma handshake_idle_idle:
  "hs_coordinator h = C_LOOP \<Longrightarrow> hs_phase h = PHASE_NORMAL \<Longrightarrow> hs_scheduler h = S_LOOP \<Longrightarrow> handshake_idle h = h"
  by (simp add: handshake_idle_def)

definition can_finish :: "handshake \<Rightarrow> bool" where
  "can_finish h = handshake_step\<^sup>*\<^sup>* h (handshake_idle h)"

lemma idle_step: "handshake_step h h' \<Longrightarrow> can_finish h' \<Longrightarrow>
   handshake_idle h' = handshake_idle h \<Longrightarrow> can_finish h"
  unfolding can_finish_def by (metis converse_rtranclp_into_rtranclp)

lemma idle_from_loop:
  assumes "hs_coordinator h \<in> {C_LOOP, C_POLL}" and "hs_phase h = PHASE_NORMAL" and "hs_scheduler h = S_LOOP"
  shows "can_finish h"
proof (cases "hs_coordinator h = C_LOOP")
  case True
  then show ?thesis using assms by (simp add: handshake_idle_idle can_finish_def)
next
  case False
  then have "hs_coordinator h = C_POLL" using assms(1) by simp
  then show ?thesis by (rule idle_step [OF leave_poll]) (use assms handshake_idle_idle [of "h\<lparr> hs_coordinator := C_LOOP \<rparr>"] in \<open>simp_all add: can_finish_def\<close>)
qed

lemma idle_from_resume:
  assumes "hs_coordinator h = C_WAIT_RESUME" and "hs_scheduler h \<in> scheduler_at (hs_phase h) - {S_END}"
    and "hs_phase h \<in> {RESUME_REQUESTED, PHASE_NORMAL}"
  shows "can_finish h"
proof -
  have normal: "can_finish k"
    if "hs_coordinator k = C_WAIT_RESUME" "hs_phase k = PHASE_NORMAL" "hs_scheduler k = S_LOOP" for k
    by (rule idle_step [OF resume_seen]) (use that in \<open>auto intro: idle_from_loop\<close>)
  have resuming: "can_finish k"
    if "hs_coordinator k = C_WAIT_RESUME" "hs_scheduler k = S_RESUMING" for k
    by (rule idle_step [OF resume]) (use that in \<open>auto intro: normal\<close>)
  have "can_finish k"
    if "hs_coordinator k = C_WAIT_RESUME" "hs_phase k = RESUME_REQUESTED" "hs_scheduler k = S_PAUSED" for k
    by (rule idle_step [OF begin_resume]) (use that in \<open>auto intro: resuming\<close>)
  with assms normal resuming show ?thesis by auto
qed

lemma idle_from_exclusive:
  "hs_coordinator h = C_EXCLUSIVE \<Longrightarrow> hs_scheduler h = S_PAUSED \<Longrightarrow> can_finish h"
  by (rule idle_step [OF request_resume]) (auto intro: idle_from_resume)

lemma idle_from_pause:
  assumes "hs_coordinator h = C_WAIT_PAUSE" and "hs_scheduler h \<in> scheduler_at (hs_phase h) - {S_END}"
    and "hs_phase h \<in> {PAUSE_REQUESTED, PAUSED}" and "\<not> hs_stop h"
  shows "can_finish h"
proof -
  have paused: "can_finish k"
    if "hs_coordinator k = C_WAIT_PAUSE" "hs_phase k = PAUSED" "hs_scheduler k = S_PAUSED" "\<not> hs_stop k" for k
    by (rule idle_step [OF pause_seen]) (use that in \<open>auto intro: idle_from_exclusive\<close>)
  have pausing: "can_finish k"
    if "hs_coordinator k = C_WAIT_PAUSE" "hs_scheduler k = S_PAUSING" "\<not> hs_stop k" for k
    by (rule idle_step [OF acknowledge]) (use that in \<open>auto intro: paused\<close>)
  have "can_finish k"
    if "hs_coordinator k = C_WAIT_PAUSE" "hs_phase k = PAUSE_REQUESTED" "hs_scheduler k = S_LOOP" "\<not> hs_stop k" for k
    by (rule idle_step [OF begin_pause]) (use that in \<open>auto intro: pausing\<close>)
  with assms paused pausing show ?thesis by auto
qed

text \<open>
  As long as no flag is set, the two threads can always bring a rotation to its end, from every state
  they can be in, without any flag being set: neither waits for the other for ever.
\<close>
theorem rotation_handshake_completes:
  assumes "handshake_reachable h" and "\<not> hs_stop h" and "\<not> hs_fatal h" and "\<not> hs_stop_scheduler h"
  shows "handshake_step\<^sup>*\<^sup>* h (handshake_idle h)"
proof -
  note i = reachable_inv [OF assms(1), unfolded handshake_inv_def]
  have s: "hs_scheduler h \<in> scheduler_at (hs_phase h) - {S_END}" using i assms by auto
  have "can_finish h"
  proof (cases "hs_coordinator h")
    case C_WAIT_PAUSE
    then show ?thesis using i s assms by (intro idle_from_pause) auto
  next
    case C_WAIT_RESUME
    then show ?thesis using i s by (intro idle_from_resume) auto
  next
    case C_EXCLUSIVE
    then show ?thesis using i s by (intro idle_from_exclusive) auto
  qed (use i s assms in \<open>auto intro: idle_from_loop\<close>)
  then show ?thesis by (simp add: can_finish_def)
qed

theorem rotation_handshake_completes_witness:
  "let h = new_handshake\<lparr> hs_coordinator := C_EXCLUSIVE, hs_phase := PAUSED, hs_scheduler := S_PAUSED \<rparr>
   in handshake_step\<^sup>*\<^sup>* h new_handshake"
  using rotation_handshake_completes [OF exclusive_reachable] by (simp add: Let_def new_handshake_def handshake_idle_def)

subsection \<open>The market of the window\<close>

abbreviation rot_period :: "rotation \<Rightarrow> int" where
  "rot_period r \<equiv> timeframe_period_seconds (rc_timeframe (ro_config r))"

lemma rot_period_pos: "0 < timeframe_period_seconds tf"
  by (cases tf) simp_all

lemma rot_window_start_at:
  assumes "timeframe_period_seconds (rc_timeframe cfg) dvd w" and "0 \<le> w" and "w \<le> t"
    and "t < w + timeframe_period_seconds (rc_timeframe cfg)"
  shows "rot_window_start cfg t = w"
proof -
  let ?p = "timeframe_period_seconds (rc_timeframe cfg)"
  have p: "0 < ?p" by (rule rot_period_pos)
  obtain k where k: "w = ?p * k" using assms(1) by blast
  have "t div ?p = k"
    using assms(3,4) p by (intro int_div_pos_eq [where r = "t - w"]) (auto simp: k)
  then have "(t sdiv ?p) * ?p = w" using assms(2,3) p by (simp add: sdiv_nonneg k)
  then show ?thesis
    using assms(3) p by (simp add: rot_window_start_def discovery_window_candidates_def align_window_with_offset_def Let_def)
qed

lemma rot_discover_cong:
  "ro_host r' = ro_host r \<Longrightarrow> ro_config r' = ro_config r \<Longrightarrow> rot_discover parse get r' w = rot_discover parse get r w"
  by (simp add: rot_discover_def)

text \<open>
  The coordinator holds the market of the window its timing names, and what it has found of the two
  windows after it.
\<close>

definition tracks :: "(int \<Rightarrow> discovered_market) \<Rightarrow> rotation \<Rightarrow> bool" where
  "tracks mkt r \<longleftrightarrow>
     (let w = rt_window_start (ro_timing r); p = rot_period r
      in 0 \<le> w \<and> p dvd w \<and> rt_window_end (ro_timing r) = w + p \<and> ro_current r = mkt w \<and>
         (\<forall>n. ro_next r = Some n \<longrightarrow> n = mkt (w + p)) \<and> (\<forall>n. ro_pre r = Some n \<longrightarrow> n = mkt (w + p + p)))"

text \<open>The poll, and the switch it may make, fall into the window of the timing or the one after it.\<close>

definition timely :: "rotation \<Rightarrow> rotation_env \<Rightarrow> bool" where
  "timely r env \<longleftrightarrow>
     rt_window_start (ro_timing r) \<le> re_now env \<and> re_now env \<le> re_switch_now env \<and>
     re_switch_now env < rt_window_end (ro_timing r) + rot_period r"

text \<open>Whatever the market service answers for a window is the market of that window.\<close>

definition serves :: "(string \<Rightarrow> json option) \<Rightarrow> rotation_env \<Rightarrow> rotation \<Rightarrow> (int \<Rightarrow> discovered_market) \<Rightarrow> bool" where
  "serves parse env r mkt \<longleftrightarrow> (\<forall>w m. rot_discover parse (re_get env) r w = Some m \<longrightarrow> m = mkt w)"

lemma tracks_end_nonneg: "tracks mkt r \<Longrightarrow> 0 \<le> rt_window_end (ro_timing r)"
proof -
  assume "tracks mkt r"
  then have "0 \<le> rt_window_start (ro_timing r)" "rt_window_end (ro_timing r) = rt_window_start (ro_timing r) + rot_period r"
    by (simp_all add: tracks_def Let_def)
  with rot_period_pos [of "rc_timeframe (ro_config r)"] show ?thesis by linarith
qed

lemma tracks_switch:
  assumes "tracks mkt r" and "ro_next r = Some nxt" and "rt_window_end (ro_timing r) \<le> re_switch_now env"
    and "re_switch_now env < rt_window_end (ro_timing r) + rot_period r" and "ro_pre r = None"
    and "dm_condition_id m \<noteq> [] \<longrightarrow> m = mkt (rt_window_end (ro_timing r) + rot_period r)"
  shows "tracks mkt (switch_market env nxt m r)"
proof -
  let ?w = "rt_window_end (ro_timing r)"
  have "rot_window_start (ro_config r) (re_switch_now env) = ?w"
    using assms(1,3,4) tracks_end_nonneg [OF assms(1)] by (intro rot_window_start_at) (simp_all add: tracks_def Let_def)
  moreover have "0 \<le> ?w" by (rule tracks_end_nonneg [OF assms(1)])
  moreover have "rot_period r dvd ?w" "nxt = mkt ?w" using assms(1,2) by (simp_all add: tracks_def Let_def)
  ultimately show ?thesis
    using assms(5,6) by (auto simp: tracks_def switch_market_def rot_window_end_def Let_def)
qed

lemma tracks_rotate:
  assumes "tracks mkt r" and "ro_next r = Some nxt" and "rt_window_end (ro_timing r) \<le> re_switch_now env"
    and "re_switch_now env < rt_window_end (ro_timing r) + rot_period r"
    and "serves parse env r mkt"
  shows "tracks mkt (fst (rotate_now parse env nxt r))"
proof -
  let ?r = "r\<lparr> ro_pre := None \<rparr>"
  have t: "tracks mkt ?r" using assms(1) by (simp add: tracks_def Let_def)
  have s: "m = mkt w" if "rot_discover parse (re_get env) ?r w = Some m" for w m
    using assms(5) that rot_discover_cong [of ?r r parse "re_get env" w] by (simp add: serves_def)
  have pre: "n = mkt (rt_window_end (ro_timing r) + rot_period r)" if "ro_pre r = Some n" for n
    using assms(1) that by (simp add: tracks_def Let_def)
  have last: "tracks mkt (k\<lparr> ro_last_poll := x \<rparr>) = tracks mkt k" for k x by (simp add: tracks_def)
  have ex: "tracks mkt (fst (execute_rotation env nxt m ?r))"
    if "dm_condition_id m \<noteq> [] \<longrightarrow> m = mkt (rt_window_end (ro_timing r) + rot_period r)" for m
    using t tracks_switch [OF t, of nxt env m] assms(2-4) that by (simp add: execute_rotation_def Let_def)
  have new: "dm_condition_id new_discovered_market = []" by (simp add: new_discovered_market_def)
  show ?thesis
    by (auto simp: rotate_now_def Let_def last split_beta new intro!: ex dest: s pre split: option.splits)
qed

lemma tracks_redeems: "tracks mkt (fst (fire_redeems env r)) = tracks mkt r"
  by (simp add: fire_redeems_def tracks_def)

lemma tracks_poll_discovery:
  assumes "tracks mkt r" and "serves parse env r mkt"
  shows "tracks mkt (fst (poll_discovery parse env r))"
proof -
  have s: "m = mkt w" if "rot_discover parse (re_get env) (r\<lparr> ro_last_poll := x \<rparr>) w = Some m" for w m x
    using assms(2) that rot_discover_cong [of "r\<lparr> ro_last_poll := x \<rparr>" r parse "re_get env" w] by (simp add: serves_def)
  show ?thesis
    using assms(1) by (auto simp: poll_discovery_def tracks_def Let_def split: option.splits dest: s)
qed

lemma tracks_quiet:
  assumes "tracks mkt r" and "serves parse env r mkt"
  shows "tracks mkt (fst (poll_discovery parse env (fst (fire_redeems env r))))"
  using assms rot_discover_cong [of "fst (fire_redeems env r)" r parse "re_get env"]
  by (intro tracks_poll_discovery) (simp_all only: tracks_redeems serves_def, simp add: fire_redeems_def)

definition uninterrupted :: "rotation_env \<Rightarrow> bool" where
  "uninterrupted env \<longleftrightarrow> rot_sleep 100 (re_stopped env) \<and> re_paused env \<and> drain_wait env kDrainPolls 0"

definition rotates :: "rotation_env \<Rightarrow> rotation \<Rightarrow> bool" where
  "rotates env r \<longleftrightarrow> uninterrupted env \<and> ro_next r \<noteq> None \<and>
     (rt_window_end (ro_timing r) - re_now env) * 1000 \<le> rc_pre_rotation_ms (ro_config r)"

lemma rotates_poll:
  assumes "rotates env r" and "ro_next r = Some nxt"
  obtains m where "fst (rotation_poll parse env r) =
      (switch_market env nxt m (r\<lparr> ro_pre := None \<rparr>))\<lparr> ro_last_poll := re_steady_poll env \<rparr>"
    and "\<And>n. ro_pre r = Some n \<Longrightarrow> dm_condition_id n \<noteq> [] \<Longrightarrow> m = n"
    and "\<And>n. ro_pre r = None \<Longrightarrow>
      rot_discover parse (re_get env) r (rt_window_end (ro_timing r) + rot_period r) = Some n \<Longrightarrow> m = n"
proof -
  have e: "fst (execute_rotation env nxt m r') = switch_market env nxt m r'" for m r'
    using assms(1) by (simp add: execute_rotation_def rotates_def uninterrupted_def Let_def)
  have p: "fst (rotation_poll parse env r) = fst (rotate_now parse env nxt r)"
    using assms by (simp add: rotation_poll_def rotates_def uninterrupted_def Let_def)
  have d: "rot_discover parse get (r\<lparr> ro_pre := None \<rparr>) w = rot_discover parse get r w" for get w
    by (rule rot_discover_cong) simp_all
  show ?thesis
    by (rule that [OF trans [OF p]])
      (auto simp: rotate_now_def Let_def split_beta e d new_discovered_market_def)
qed

text \<open>C17: 
  If rotations start at the end of a window and not before it, every poll in time keeps the traded
  market the one of the window in the timing, and a rotation that is not interrupted makes that
  window the one it ends in.  The market service may fail as long as it never gives a wrong market.
\<close>
theorem rotation_tracks_window:
  assumes "tracks mkt r" and "rc_pre_rotation_ms (ro_config r) \<le> 0" and "timely r env"
    and "serves parse env r mkt"
  defines "r' \<equiv> fst (rotation_poll parse env r)"
  shows "tracks mkt r' \<and>
    (rotates env r \<longrightarrow> rt_window_start (ro_timing r') \<le> re_switch_now env \<and> re_switch_now env < rt_window_end (ro_timing r'))"
proof
  have "tracks mkt (fst (rotate_now parse env nxt r))"
    if "ro_next r = Some nxt" "(rt_window_end (ro_timing r) - re_now env) * 1000 \<le> rc_pre_rotation_ms (ro_config r)" for nxt
    using that assms(1-4) by (intro tracks_rotate) (auto simp: timely_def)
  with tracks_quiet [OF assms(1,4)] assms(1) show "tracks mkt r'"
    by (simp add: r'_def rotation_poll_def Let_def split_beta split: option.splits bool.splits)
next
  show "rotates env r \<longrightarrow> rt_window_start (ro_timing r') \<le> re_switch_now env \<and> re_switch_now env < rt_window_end (ro_timing r')"
  proof
    assume ro: "rotates env r"
    then have w: "rt_window_end (ro_timing r) \<le> re_switch_now env" "re_switch_now env < rt_window_end (ro_timing r) + rot_period r"
      using assms(2,3) by (auto simp: rotates_def timely_def)
    have "rot_window_start (ro_config r) (re_switch_now env) = rt_window_end (ro_timing r)"
      using assms(1) w tracks_end_nonneg [OF assms(1)] by (intro rot_window_start_at) (simp_all add: tracks_def Let_def)
    moreover obtain nxt where "ro_next r = Some nxt" using ro by (auto simp: rotates_def)
    ultimately show "rt_window_start (ro_timing r') \<le> re_switch_now env \<and> re_switch_now env < rt_window_end (ro_timing r')"
      using w by (rule_tac rotates_poll [OF ro, of nxt parse]) (simp_all add: r'_def switch_market_def rot_window_end_def)
  qed
qed

subsection \<open>A rotation before the end of the window\<close>

lemma rotates_found:
  assumes "rotates env r" and "ro_next r = Some nxt" and "\<forall>w. rot_discover parse (re_get env) r w = Some (mkt w)"
    and "\<forall>w. dm_condition_id (mkt w) \<noteq> []" and "\<forall>n. ro_pre r = Some n \<longrightarrow> n = mkt (rt_window_end (ro_timing r) + rot_period r)"
  shows "fst (rotation_poll parse env r) =
    (switch_market env nxt (mkt (rt_window_end (ro_timing r) + rot_period r)) (r\<lparr> ro_pre := None \<rparr>))\<lparr> ro_last_poll := re_steady_poll env \<rparr>"
proof -
  obtain m where m: "fst (rotation_poll parse env r) =
      (switch_market env nxt m (r\<lparr> ro_pre := None \<rparr>))\<lparr> ro_last_poll := re_steady_poll env \<rparr>"
    "\<And>n. ro_pre r = Some n \<Longrightarrow> dm_condition_id n \<noteq> [] \<Longrightarrow> m = n"
    "\<And>n. ro_pre r = None \<Longrightarrow> rot_discover parse (re_get env) r (rt_window_end (ro_timing r) + rot_period r) = Some n \<Longrightarrow> m = n"
    using rotates_poll [OF assms(1,2)] by blast
  have "m = mkt (rt_window_end (ro_timing r) + rot_period r)"
    using m(2,3) assms(3-5) by (cases "ro_pre r") auto
  with m(1) show ?thesis by simp
qed

text \<open>C37: 
  A rotation that finishes before the end of its window leaves the window in the timing as it was, so
  the next poll rotates again: the coordinator ends up in the market of the window after the next,
  and queues the market of the next window, which has not begun, for redemption.  This happens with
  every market service and with every positive lead time, the default of five seconds among them.
\<close>
theorem early_rotation_skips_market:
  fixes r :: rotation
  defines "w \<equiv> rt_window_start (ro_timing r)" and "p \<equiv> rot_period r"
  assumes "tracks mkt r" and "ro_next r \<noteq> None" and "\<forall>v. dm_condition_id (mkt v) \<noteq> []"
    and "\<forall>v. rot_discover parse (re_get e1) r v = Some (mkt v)"
    and "\<forall>v. rot_discover parse (re_get e2) r v = Some (mkt v)"
    and "uninterrupted e1" and "uninterrupted e2"
    and "w \<le> re_now e1" and "(w + p - re_now e1) * 1000 \<le> rc_pre_rotation_ms (ro_config r)"
    and "re_now e1 \<le> re_switch_now e1" and "re_switch_now e1 \<le> re_now e2" and "re_now e2 \<le> re_switch_now e2"
    and "re_switch_now e2 < w + p"
  defines "r2 \<equiv> fst (rotation_poll parse e2 (fst (rotation_poll parse e1 r)))"
  shows "ro_current r2 = mkt (w + 2 * p) \<and> rt_window_end (ro_timing r2) = w + p \<and> ro_count r2 = ro_count r + 2 \<and>
    (\<exists>q \<in> set (ro_pending r2). pr_condition_id q = dm_condition_id (mkt (w + p)))"
proof -
  have tr: "0 \<le> w" "p dvd w" "rt_window_end (ro_timing r) = w + p" "ro_next r = Some (mkt (w + p))"
    "\<forall>n. ro_pre r = Some n \<longrightarrow> n = mkt (w + p + p)"
    using assms(3,4) by (auto simp: tracks_def Let_def w_def p_def)
  have ws: "rot_window_start (ro_config r) t = w" if "w \<le> t" "t < w + p" for t
    using tr that by (intro rot_window_start_at) (simp_all add: p_def)
  let ?r1 = "(switch_market e1 (mkt (w + p)) (mkt (w + p + p)) (r\<lparr> ro_pre := None \<rparr>))\<lparr> ro_last_poll := re_steady_poll e1 \<rparr>"
  have "rotates e1 r" using assms(8,11) tr by (simp add: rotates_def)
  then have r1: "fst (rotation_poll parse e1 r) = ?r1"
    using rotates_found [of e1 r "mkt (w + p)" parse mkt] assms(5,6) tr by (simp add: p_def)
  have f1: "rt_window_end (ro_timing ?r1) = w + p" "ro_next ?r1 = Some (mkt (w + p + p))" "ro_pre ?r1 = None"
    "rot_period ?r1 = p" "ro_config ?r1 = ro_config r" "rt_window_start (ro_timing ?r1) = w"
    using ws [of "re_switch_now e1"] assms(5,10,12-15) by (simp_all add: switch_market_def rot_window_end_def p_def)
  have "rotates e2 ?r1" using assms(9,11,12,13) f1 by (simp add: rotates_def)
  moreover have "\<forall>v. rot_discover parse (re_get e2) ?r1 v = Some (mkt v)"
    using assms(7) rot_discover_cong [of ?r1 r parse "re_get e2"] by (simp add: switch_market_def)
  ultimately have "r2 = (switch_market e2 (mkt (w + p + p)) (mkt (w + p + p)) (?r1\<lparr> ro_pre := None \<rparr>))\<lparr> ro_last_poll := re_steady_poll e2 \<rparr>"
    using rotates_found [of e2 ?r1 "mkt (w + p + p)" parse mkt] assms(5) f1 by (simp add: r2_def r1)
  with ws [of "re_switch_now e2"] assms(5,10,12-15) show ?thesis
    by (simp add: switch_market_def rot_window_end_def old_market_redeem_def p_def Let_def algebra_simps)
qed

text \<open>A market service whose market of a window is named by the request for it; the token queries fail.\<close>

definition named_market :: "string \<Rightarrow> json" where
  "named_market name =
     JArr [JObj [(''markets'', JArr [JObj [(''conditionId'', JStr name),
       (''clobTokenIds'', JArr [JStr ''11'', JStr ''22''])]])]]"

definition sample_rot_get :: "nat \<Rightarrow> string \<Rightarrow> string \<Rightarrow> string" where
  "sample_rot_get k host target = (if k = 0 then target else [])"

definition sample_rot_market :: "int \<Rightarrow> discovered_market" where
  "sample_rot_market w = new_discovered_market\<lparr> dm_condition_id := hd (build_discovery_targets BTC_5M w),
     dm_token_id_up := ''11'', dm_token_id_down := ''22'' \<rparr>"

lemma sample_rot_market_named: "dm_condition_id (sample_rot_market w) \<noteq> []"
  by (simp add: sample_rot_market_def build_discovery_targets_def)

lemma sample_rot_discover:
  assumes "rc_timeframe (ro_config r) = BTC_5M"
  shows "rot_discover (\<lambda>s. Some (named_market s)) sample_rot_get r w = Some (sample_rot_market w)"
proof -
  have "parse_gamma_response (\<lambda>s. Some (named_market s)) (hd (build_discovery_targets BTC_5M w)) = Some (sample_rot_market w)"
    by (simp add: parse_gamma_response_def build_discovery_targets_def named_market_def parse_gamma_event_def
        parse_gamma_market_def array_at_def string_at_def bool_at_def outcomes_of_def token_ids_of_def sample_rot_market_def
        new_discovered_market_def)
  moreover have "retry_query (\<lambda>i. query_neg_risk parse (sample_rot_get (1 + i)) t) = None"
    "retry_query (\<lambda>i. query_fee_rate parse (sample_rot_get (4 + i)) t) = None" for parse t
    by (simp_all add: retry_query_def kMetadataRetries_def query_neg_risk_def query_fee_rate_def sample_rot_get_def
        upt_rec numeral_eq_Suc)
  ultimately show ?thesis
    using assms by (simp add: rot_discover_def discover_btc_market_for_window_def sample_rot_get_def
        build_discovery_targets_def sample_rot_market_def Let_def)
qed

definition sample_rotation :: "int \<Rightarrow> rotation" where
  "sample_rotation lead =
     (new_rotation (default_rotation_config\<lparr> rc_pre_rotation_ms := lead \<rparr>))\<lparr>
       ro_timing := \<lparr> rt_window_start = 300, rt_window_end = 600, rt_period = 300, rt_no_trade_start_ms = 0,
                     rt_no_trade_end_ms = 0, rt_enabled = True \<rparr>,
       ro_current := sample_rot_market 300, ro_next := Some (sample_rot_market 600) \<rparr>"

definition sample_rot_env :: "int \<Rightarrow> rotation_env" where
  "sample_rot_env now =
     \<lparr> re_stopped = (\<lambda>_. False), re_now = now, re_steady = 0, re_steady_poll = 0, re_get = sample_rot_get,
       re_paused = True, re_drained = (\<lambda>_. True), re_drain_stopped = (\<lambda>_ _. False),
       re_switch_steady = 0, re_switch_now = now \<rparr>"

lemma sample_rotation_tracks: "tracks sample_rot_market (sample_rotation lead)"
  by (simp add: tracks_def sample_rotation_def new_rotation_def default_rotation_config_def)

lemma sample_rotation_frame:
  "rc_timeframe (ro_config (sample_rotation lead)) = BTC_5M" "ro_next (sample_rotation lead) = Some (sample_rot_market 600)"
  "rc_pre_rotation_ms (ro_config (sample_rotation lead)) = lead" "rt_window_start (ro_timing (sample_rotation lead)) = 300"
  "rt_window_end (ro_timing (sample_rotation lead)) = 600" "ro_count (sample_rotation lead) = 0"
  by (simp_all add: sample_rotation_def new_rotation_def default_rotation_config_def)

lemma sample_env_uninterrupted: "uninterrupted (sample_rot_env now)"
  by (simp add: uninterrupted_def sample_rot_env_def rot_sleep_def kDrainPolls_def numeral_eq_Suc)

theorem rotation_tracks_window_witness:
  "tracks sample_rot_market (fst (rotation_poll (\<lambda>s. Some (named_market s)) (sample_rot_env 601) (sample_rotation 0)))"
proof -
  have "timely (sample_rotation 0) (sample_rot_env 601)"
    by (simp add: timely_def sample_rotation_frame sample_rot_env_def)
  moreover have "serves (\<lambda>s. Some (named_market s)) (sample_rot_env 601) (sample_rotation 0) sample_rot_market"
    by (simp add: serves_def sample_rot_env_def sample_rot_discover sample_rotation_frame)
  ultimately show ?thesis
    using rotation_tracks_window [OF sample_rotation_tracks] by (simp add: sample_rotation_frame)
qed

theorem early_rotation_skips_market_witness:
  "ro_current (fst (rotation_poll (\<lambda>s. Some (named_market s)) (sample_rot_env 597)
     (fst (rotation_poll (\<lambda>s. Some (named_market s)) (sample_rot_env 596) (sample_rotation 5000))))) =
   sample_rot_market 900"
  using early_rotation_skips_market [OF sample_rotation_tracks [of 5000], of "\<lambda>s. Some (named_market s)" "sample_rot_env 596" "sample_rot_env 597"]
    sample_env_uninterrupted sample_rot_market_named
  by (simp add: sample_rotation_frame sample_rot_discover sample_rot_env_def)

subsection \<open>Redemptions\<close>

fun fired :: "rotation_out list \<Rightarrow> string list" where
  "fired [] = []"
| "fired (Callback (FireRedeem c u d) # out) = c # fired out"
| "fired (_ # out) = fired out"

fun rotation_run :: "(string \<Rightarrow> json option) \<Rightarrow> rotation_env list \<Rightarrow> rotation \<Rightarrow> rotation \<times> rotation_out list" where
  "rotation_run parse [] r = (r, [])"
| "rotation_run parse (e # es) r =
     (let (r1, out1) = rotation_poll parse e r; (r2, out2) = rotation_run parse es r1 in (r2, out1 @ out2))"

text \<open>The markets left by the rotations of a run, in order.\<close>

fun left_markets :: "(string \<Rightarrow> json option) \<Rightarrow> rotation_env list \<Rightarrow> rotation \<Rightarrow> string list" where
  "left_markets parse [] r = []"
| "left_markets parse (e # es) r =
     (if rotates e r \<and> dm_condition_id (ro_current r) \<noteq> [] then [dm_condition_id (ro_current r)] else []) @
     left_markets parse es (fst (rotation_poll parse e r))"

lemma fired_append: "fired (a @ b) = fired a @ fired b"
  by (induction a rule: fired.induct) simp_all

lemma fired_register [simp]: "fired (rot_register m) = []"
  by (simp add: rot_register_def Let_def)

lemma fired_map: "fired (map (\<lambda>p. Callback (FireRedeem (f p) (g p) (h p))) ps) = map f ps"
  by (induction ps) simp_all

lemma fired_rotate: "fired (snd (execute_rotation env nxt m r)) = []"
  by (simp add: execute_rotation_def Let_def fired_append start_feeds_def ui_rotation_def)

lemma poll_discovery_redeems:
  "ro_pending (fst (poll_discovery parse env r)) = ro_pending r" "fired (snd (poll_discovery parse env r)) = []"
  by (auto simp: poll_discovery_def Let_def split: option.splits)

lemma rotation_poll_redeems:
  "mset (fired (snd (rotation_poll parse env r))) + mset (map pr_condition_id (ro_pending (fst (rotation_poll parse env r)))) =
   mset (map pr_condition_id (ro_pending r)) +
   mset (if rotates env r \<and> dm_condition_id (ro_current r) \<noteq> [] then [dm_condition_id (ro_current r)] else [])"
proof (cases "rot_sleep 100 (re_stopped env) \<and> ro_next r \<noteq> None \<and>
    (rt_window_end (ro_timing r) - re_now env) * 1000 \<le> rc_pre_rotation_ms (ro_config r)")
  case True
  then obtain nxt where n: "ro_next r = Some nxt" by blast
  have e: "map pr_condition_id (ro_pending (fst (execute_rotation env nxt m (r\<lparr> ro_pre := None \<rparr>)))) =
      map pr_condition_id (ro_pending r) @
      (if rotates env r \<and> dm_condition_id (ro_current r) \<noteq> [] then [dm_condition_id (ro_current r)] else [])" for m
    using True by (simp add: execute_rotation_def switch_market_def old_market_redeem_def rotates_def uninterrupted_def Let_def)
  have "rotation_poll parse env r = rotate_now parse env nxt r" using True n by (simp add: rotation_poll_def Let_def)
  then show ?thesis by (simp add: rotate_now_def Let_def split_beta fired_rotate e)
next
  case False
  have "mset (map f (filter P xs)) + mset (map f (filter (\<lambda>x. \<not> P x) xs)) = mset (map f xs)" for f :: "'a \<Rightarrow> 'b" and P xs
    by (induction xs) simp_all
  note parts = this [of pr_condition_id "\<lambda>p. pr_fire_at p \<le> re_steady env"]
  have "\<not> rotates env r" using False by (auto simp: rotates_def uninterrupted_def)
  moreover have "rotation_poll parse env r = (r, []) \<or> rotation_poll parse env r =
      (let (r1, out1) = fire_redeems env r; (r2, out2) = poll_discovery parse env r1 in (r2, out1 @ out2))"
    using False by (auto simp: rotation_poll_def Let_def split: option.splits bool.splits)
  ultimately show ?thesis
    using parts [of "ro_pending r"]
    by (auto simp: split_beta Let_def fire_redeems_def fired_append fired_map poll_discovery_redeems not_le)
qed

text \<open>
  In every run of the coordinator each market that a rotation leaves is redeemed exactly once or
  still waits for its redemption, and nothing else is redeemed.
\<close>
theorem redeem_once_per_rotation:
  "mset (fired (snd (rotation_run parse es r))) + mset (map pr_condition_id (ro_pending (fst (rotation_run parse es r)))) =
   mset (map pr_condition_id (ro_pending r)) + mset (left_markets parse es r)"
proof (induction es arbitrary: r)
  case (Cons e es)
  have s: "rotation_run parse (e # es) r = (fst (rotation_run parse es (fst (rotation_poll parse e r))),
      snd (rotation_poll parse e r) @ snd (rotation_run parse es (fst (rotation_poll parse e r))))"
    by (simp add: split_beta Let_def)
  show ?case
    unfolding s left_markets.simps fst_conv snd_conv fired_append mset_append
    using Cons [of "fst (rotation_poll parse e r)"] rotation_poll_redeems [of parse e r]
    by (metis (no_types, lifting) union_assoc)
qed simp

end
