(* ===== verification/Inventory_Service.thy ===== *)
theory Inventory_Service
  imports Scheduler Tx_Encoding Order_Builder Json_Doc
begin

section \<open>The inventory service\<close>

text \<open>
  src/src/inventory/inventory_service.cpp with the clients it submits through, relayer_client.cpp and
  polygon_rpc_client.cpp: the worker that takes split, merge and redeem requests off its queue, sends
  the transaction through the relayer or straight to a node, waits for its result, and books it into
  the token inventory.  The bodies of the answers, the JSON parser, the hash function and the curve
  are parameters; every request that leaves the program is an output value.  The lemmas show that a
  transaction is taken as confirmed only on an answer that says so, that no transaction is sent above
  the configured gas price, what each operation does to positions and cash, and where the books can
  depart from the chain.
\<close>

subsection \<open>Answers of the node\<close>

definition hex_step :: "64 word \<Rightarrow> char \<Rightarrow> 64 word" where
  "hex_step val c = push_bit 4 val OR (case hex_nibble c of Some d \<Rightarrow> ucast d | None \<Rightarrow> 0)"

definition parse_hex_uint64 :: "string \<Rightarrow> 64 word" where
  "parse_hex_uint64 hex = foldl hex_step 0 (strip_0x hex)"

text \<open>The checks all four calls of the node client share, up to the member \<open>result\<close>.\<close>

definition rpc_answer :: "(string \<Rightarrow> json option) \<Rightarrow> string \<Rightarrow> json expected" where
  "rpc_answer parse response =
     (if response = [] then Err NETWORK_ERROR
      else case parse response of
        None \<Rightarrow> Err JSON_PARSE_ERROR
      | Some doc \<Rightarrow>
          if found (field_bind (json_at doc ''error'') get_object) then Err NETWORK_ERROR else Value doc)"

definition rpc_string :: "(string \<Rightarrow> json option) \<Rightarrow> string \<Rightarrow> string expected" where
  "rpc_string parse response =
     ebind (rpc_answer parse response)
       (\<lambda>doc. case string_at doc ''result'' of Found s \<Rightarrow> Value s | _ \<Rightarrow> Err JSON_MISSING_FIELD)"

definition rpc_uint64 :: "(string \<Rightarrow> json option) \<Rightarrow> string \<Rightarrow> 64 word expected" where
  "rpc_uint64 parse response = ebind (rpc_string parse response) (\<lambda>s. Value (parse_hex_uint64 s))"

text \<open>The status of a receipt, the member of it the service uses.\<close>

definition rpc_receipt_status :: "(string \<Rightarrow> json option) \<Rightarrow> string \<Rightarrow> 64 word expected" where
  "rpc_receipt_status parse response =
     ebind (rpc_answer parse response)
       (\<lambda>doc. if json_at doc ''result'' = Found JNull then Err JSON_MISSING_FIELD
              else case field_bind (json_at doc ''result'') get_object of
                Found fs \<Rightarrow>
                  (case string_at (JObj fs) ''status'' of Found s \<Rightarrow> Value (parse_hex_uint64 s) | _ \<Rightarrow> Value 0)
              | _ \<Rightarrow> Err JSON_PARSE_ERROR)"

definition rpc_body :: "string \<Rightarrow> string \<Rightarrow> int \<Rightarrow> string" where
  "rpc_body meth params n =
     ''{'' @ str_field ''jsonrpc'' ''2.0'' @ str_field ''method'' meth @
     dq @ ''params'' @ dq @ '':['' @ params @ ''],'' @ dq @ ''id'' @ dq @ '':'' @ int_to_view n @ ''}''"

subsection \<open>Answers of the relayer\<close>

record relay_payload =
  rp_nonce :: "64 word"
  rp_relay_address :: string

text \<open>\<open>std::stoull\<close>: blanks, a sign and digits; nothing when there is no digit or the number is too large.\<close>

definition is_blank :: "char \<Rightarrow> bool" where
  "is_blank c \<longleftrightarrow> char_code c = 32 \<or> (9 \<le> char_code c \<and> char_code c \<le> 13)"

definition is_digit_char :: "char \<Rightarrow> bool" where
  "is_digit_char c \<longleftrightarrow> 48 \<le> char_code c \<and> char_code c \<le> 57"

definition stoull :: "string \<Rightarrow> 64 word option" where
  "stoull s =
     (let t = dropWhile is_blank s;
          neg = (case t of c # _ \<Rightarrow> c = CHR ''-'' | [] \<Rightarrow> False);
          u = (case t of c # r \<Rightarrow> if c = CHR ''-'' \<or> c = CHR ''+'' then r else t | [] \<Rightarrow> []);
          ds = takeWhile is_digit_char u;
          n = foldl (\<lambda>a c. 10 * a + (char_code c - 48)) 0 ds
      in if ds = [] \<or> 2 ^ 64 \<le> n then None else Some (if neg then - of_nat n else of_nat n))"

fun get_uint64 :: "json \<Rightarrow> 64 word field" where
  "get_uint64 (JInt i) = (if 0 \<le> i \<and> i < 2 ^ 64 then Found (word_of_int i) else OtherError)"
| "get_uint64 _ = OtherError"

definition get_relay_payload :: "(string \<Rightarrow> json option) \<Rightarrow> string option \<Rightarrow> relay_payload expected" where
  "get_relay_payload parse answer =
     (case answer of
        None \<Rightarrow> Err NETWORK_ERROR
      | Some body \<Rightarrow>
          (case parse body of
             None \<Rightarrow> Err JSON_PARSE_ERROR
           | Some doc \<Rightarrow>
               ebind (case string_at doc ''nonce'' of
                        Found s \<Rightarrow> (case stoull s of Some n \<Rightarrow> Value n | None \<Rightarrow> Err JSON_PARSE_ERROR)
                      | _ \<Rightarrow> (case field_bind (json_at doc ''nonce'') get_uint64 of
                                 Found n \<Rightarrow> Value n | _ \<Rightarrow> Err JSON_MISSING_FIELD))
                 (\<lambda>n. case string_at doc ''address'' of
                        Found a \<Rightarrow> Value \<lparr> rp_nonce = n, rp_relay_address = a \<rparr>
                      | _ \<Rightarrow> Err JSON_MISSING_FIELD)))"

text \<open>The first of the given members that is a string.\<close>

definition first_string :: "json \<Rightarrow> string list \<Rightarrow> string" where
  "first_string doc keys =
     (case first_some (\<lambda>k. case string_at doc k of Found s \<Rightarrow> Some s | _ \<Rightarrow> None) keys of
        Some s \<Rightarrow> s | None \<Rightarrow> [])"

text \<open>Transaction id and immediate state of a submission.\<close>

definition relayer_submit :: "(string \<Rightarrow> json option) \<Rightarrow> string option \<Rightarrow> (string \<times> string) expected" where
  "relayer_submit parse answer =
     (case answer of
        None \<Rightarrow> Err NETWORK_ERROR
      | Some body \<Rightarrow>
          (case parse body of
             None \<Rightarrow> Err JSON_PARSE_ERROR
           | Some doc \<Rightarrow>
               let tx = first_string doc [''transactionID'', ''transactionId'', ''id'']
               in if tx = [] then Err JSON_MISSING_FIELD else Value (tx, first_string doc [''state''])))"

definition get_transaction_state :: "(string \<Rightarrow> json option) \<Rightarrow> string option \<Rightarrow> string expected" where
  "get_transaction_state parse answer =
     (case answer of
        None \<Rightarrow> Err NETWORK_ERROR
      | Some body \<Rightarrow>
          (case parse body of
             None \<Rightarrow> Err JSON_PARSE_ERROR
           | Some doc \<Rightarrow>
               ebind (case doc of JArr [] \<Rightarrow> Err JSON_MISSING_FIELD | JArr (x # _) \<Rightarrow> Value x | _ \<Rightarrow> Value doc)
                 (\<lambda>txn. case string_at txn ''state'' of
                          Found s \<Rightarrow> Value s
                        | _ \<Rightarrow> (case string_at txn ''status'' of
                                   Found s \<Rightarrow> Value s | _ \<Rightarrow> Err JSON_MISSING_FIELD))))"

definition query_safe_address :: "(string \<Rightarrow> json option) \<Rightarrow> string option \<Rightarrow> string expected" where
  "query_safe_address parse answer =
     (case answer of
        None \<Rightarrow> Err NETWORK_ERROR
      | Some body \<Rightarrow>
          (case parse body of
             None \<Rightarrow> Err JSON_PARSE_ERROR
           | Some doc \<Rightarrow>
               (case string_at doc ''address'' of
                  Found a \<Rightarrow> Value a
                | _ \<Rightarrow> (case string_at doc ''safe'' of Found a \<Rightarrow> Value a | _ \<Rightarrow> Err JSON_MISSING_FIELD))))"

definition is_terminal_state :: "string \<Rightarrow> bool" where
  "is_terminal_state st \<longleftrightarrow> st = ''STATE_CONFIRMED'' \<or> st = ''STATE_FAILED'' \<or> st = ''STATE_INVALID''"

subsection \<open>The service\<close>

record inventory_service_config =
  ic_dry_run :: bool
  ic_use_direct_rpc :: bool
  ic_has_private_key :: bool
  ic_polygon_rpc_url :: string
  ic_builder_api_key :: string
  ic_max_gas_price_gwei :: int
  ic_gas_limit :: "64 word"
  ic_max_poll_attempts :: int

record inventory_service =
  iv_config :: inventory_service_config
  iv_rpc_ready :: bool
  iv_relayer_ready :: bool
  iv_eoa :: bytes
  iv_eoa_address :: string
  iv_proxy_address :: string
  iv_usdc_approved :: bool
  iv_rpc_id :: int
  iv_inventory :: "token_inventory option"

text \<open>The address is what the signer derives from its key, if it can.\<close>

definition new_inventory_service ::
  "(bytes \<Rightarrow> bytes) \<Rightarrow> bytes option \<Rightarrow> inventory_service_config \<Rightarrow> token_inventory option \<Rightarrow> inventory_service" where
  "new_inventory_service keccak256 address cfg inventory =
     (let eoa = (if ic_has_private_key cfg then address else None)
      in \<lparr> iv_config = cfg,
           iv_rpc_ready = (ic_use_direct_rpc cfg \<and> ic_has_private_key cfg \<and> ic_polygon_rpc_url cfg \<noteq> []),
           iv_relayer_ready = (\<not> ic_use_direct_rpc cfg \<and> ic_has_private_key cfg \<and> ic_builder_api_key cfg \<noteq> []),
           iv_eoa = (case eoa of Some a \<Rightarrow> a | None \<Rightarrow> replicate 20 0),
           iv_eoa_address = (case eoa of Some a \<Rightarrow> ''0x'' @ hex_encode a | None \<Rightarrow> []),
           iv_proxy_address = (case eoa of Some a \<Rightarrow> derive_proxy_address keccak256 a | None \<Rightarrow> []),
           iv_usdc_approved = False, iv_rpc_id = 1, iv_inventory = inventory \<rparr>)"

datatype inventory_out =
    RelayerGet string
  | RelayerPost string string
  | RpcPost string

text \<open>
  The world of one submission: the answers to its requests, and for each poll whether a stop is seen
  before it and whether the sleep after it is not interrupted.
\<close>

record tx_env =
  te_payload :: "string option"
  te_submit :: "string option"
  te_state :: "nat \<Rightarrow> string option"
  te_gas_price :: string
  te_nonce :: string
  te_send :: string
  te_receipt :: "nat \<Rightarrow> string"
  te_stopped :: "nat \<Rightarrow> bool"
  te_slept :: "nat \<Rightarrow> bool"

text \<open>The loop both ways share: poll until an answer ends it, the attempts are used up, or a stop is seen.\<close>

fun poll_result :: "tx_env \<Rightarrow> (nat \<Rightarrow> string option) \<Rightarrow> nat \<Rightarrow> nat \<Rightarrow> string \<times> nat" where
  "poll_result env answer 0 k = ([], k)"
| "poll_result env answer (Suc n) k =
     (if te_stopped env k then ([], k)
      else case answer k of
        Some st \<Rightarrow> (st, Suc k)
      | None \<Rightarrow> if te_slept env k then poll_result env answer n (Suc k) else ([], Suc k))"

subsection \<open>Submission through the relayer\<close>

definition PROXY_DEFAULT_GAS_LIMIT :: "64 word" where "PROXY_DEFAULT_GAS_LIMIT = 500000"

definition checksummed :: "(bytes \<Rightarrow> bytes) \<Rightarrow> string \<Rightarrow> string" where
  "checksummed keccak256 a =
     eip55_checksum keccak256 (case parse_eth_address a of Some b \<Rightarrow> b | None \<Rightarrow> replicate 20 0)"

definition build_proxy_submit_body ::
  "(bytes \<Rightarrow> bytes) \<Rightarrow> string \<Rightarrow> string \<Rightarrow> bytes \<Rightarrow> 64 word \<Rightarrow> bytes \<Rightarrow> 64 word \<Rightarrow> string \<Rightarrow> string" where
  "build_proxy_submit_body keccak256 eoa proxy proxy_data nonce sig gas_limit relay =
     ''{'' @ str_field ''type'' ''PROXY'' @ str_field ''from'' (checksummed keccak256 eoa) @
     str_field ''to'' (eip55_checksum keccak256 PROXY_FACTORY_ADDRESS) @
     str_field ''proxyWallet'' (checksummed keccak256 proxy) @
     str_field ''data'' (''0x'' @ hex_encode proxy_data) @ str_field ''nonce'' (to_string (unat nonce)) @
     str_field ''signature'' (''0x'' @ hex_encode sig) @
     dq @ ''signatureParams'' @ dq @ '':{'' @ str_field ''gasPrice'' ''0'' @
     str_field ''gasLimit'' (to_string (unat gas_limit)) @ str_field ''relayerFee'' ''0'' @
     str_field ''relayHub'' (eip55_checksum keccak256 RELAY_HUB_ADDRESS) @
     dq @ ''relay'' @ dq @ '':'' @ dq @ relay @ dq @ ''},'' @
     dq @ ''metadata'' @ dq @ '':'' @ dq @ dq @ ''}''"

definition ascii_lower :: "string \<Rightarrow> string" where
  "ascii_lower = map (\<lambda>c. if 65 \<le> char_code c \<and> char_code c \<le> 90 then char_of (char_code c + 32) else c)"

definition relay_params :: "inventory_service \<Rightarrow> bytes \<Rightarrow> 64 word \<Rightarrow> bytes \<Rightarrow> proxy_tx_params" where
  "relay_params s proxy_data nonce relay =
     \<lparr> px_from = iv_eoa s, px_to = PROXY_FACTORY_ADDRESS, px_data = proxy_data, px_tx_fee = 0, px_gas_price = 0,
       px_gas_limit = PROXY_DEFAULT_GAS_LIMIT, px_nonce = nonce, px_relay_hub = RELAY_HUB_ADDRESS, px_relay = relay \<rparr>"

definition poll_relayer :: "(string \<Rightarrow> json option) \<Rightarrow> tx_env \<Rightarrow> inventory_service \<Rightarrow> string \<Rightarrow> string \<times> inventory_out list" where
  "poll_relayer parse env s tx =
     (let answer = (\<lambda>k. case get_transaction_state parse (te_state env k) of
                          Value st \<Rightarrow> if is_terminal_state st then Some st else None | _ \<Rightarrow> None);
          (st, polls) = poll_result env answer (nat (ic_max_poll_attempts (iv_config s))) 0
      in (st, replicate polls (RelayerGet (''/transaction?id='' @ tx))))"

definition submit_proxy_tx ::
  "(bytes \<Rightarrow> bytes) \<Rightarrow> ecdsa \<Rightarrow> (string \<Rightarrow> json option) \<Rightarrow> tx_env \<Rightarrow> bytes \<Rightarrow> bytes \<Rightarrow> inventory_service \<Rightarrow>
   string \<times> inventory_out list" where
  "submit_proxy_tx keccak256 sign parse env target inner s =
     (let ask = RelayerGet (''/relay-payload?address='' @ ascii_lower (iv_eoa_address s) @ ''&type=PROXY'')
      in case get_relay_payload parse (te_payload env) of
           Value payload \<Rightarrow>
             (case parse_eth_address (rp_relay_address payload) of
                None \<Rightarrow> ([], [ask])
              | Some relay \<Rightarrow>
                  let proxy_data = encode_proxy_call_data keccak256 target inner;
                      struct_hash = create_proxy_struct_hash keccak256 (relay_params s proxy_data (rp_nonce payload) relay)
                  in case sign_hash sign (eth_sign_hash keccak256 struct_hash) of
                       None \<Rightarrow> ([], [ask])
                     | Some sig \<Rightarrow>
                         let body = build_proxy_submit_body keccak256 (iv_eoa_address s) (iv_proxy_address s) proxy_data
                                      (rp_nonce payload) sig PROXY_DEFAULT_GAS_LIMIT (rp_relay_address payload);
                             post = RelayerPost ''/submit'' body
                         in case relayer_submit parse (te_submit env) of
                              Value (tx, st) \<Rightarrow>
                                if st = ''STATE_FAILED'' \<or> st = ''STATE_INVALID'' then (st, [ask, post])
                                else let (final, polls) = poll_relayer parse env s tx in (final, [ask, post] @ polls)
                            | _ \<Rightarrow> ([], [ask, post]))
         | _ \<Rightarrow> ([], [ask]))"

subsection \<open>Submission to a node\<close>

definition direct_params :: "inventory_service \<Rightarrow> bytes \<Rightarrow> 64 word \<Rightarrow> 64 word \<Rightarrow> raw_tx_params" where
  "direct_params s proxy_data gas nonce =
     \<lparr> rt_nonce = nonce, rt_gas_price = gas, rt_gas_limit = ic_gas_limit (iv_config s), rt_to = PROXY_FACTORY_ADDRESS,
       rt_value = 0, rt_data = proxy_data, rt_chain_id = 137 \<rparr>"

definition quoted :: "string \<Rightarrow> string" where
  "quoted v = dq @ v @ dq"

definition poll_receipt ::
  "(string \<Rightarrow> json option) \<Rightarrow> tx_env \<Rightarrow> inventory_service \<Rightarrow> string \<Rightarrow> int \<Rightarrow> string \<times> inventory_out list" where
  "poll_receipt parse env s tx_hash rpc_id =
     (let answer = (\<lambda>k. case rpc_receipt_status parse (te_receipt env k) of
                          Value st \<Rightarrow> Some (if st = 1 then ''STATE_CONFIRMED'' else ''STATE_FAILED'') | _ \<Rightarrow> None);
          (st, polls) = poll_result env answer (nat (ic_max_poll_attempts (iv_config s))) 0
      in (st, map (\<lambda>k. RpcPost (rpc_body ''eth_getTransactionReceipt'' (quoted tx_hash) (rpc_id + int k))) [0 ..< polls]))"

definition submit_direct_rpc_tx ::
  "(bytes \<Rightarrow> bytes) \<Rightarrow> ecdsa \<Rightarrow> (string \<Rightarrow> json option) \<Rightarrow> tx_env \<Rightarrow> bytes \<Rightarrow> bytes \<Rightarrow> inventory_service \<Rightarrow>
   string \<times> inventory_out list" where
  "submit_direct_rpc_tx keccak256 sign parse env target inner s =
     (let n = iv_rpc_id s;
          ask_gas = RpcPost (rpc_body ''eth_gasPrice'' [] n);
          ask_nonce = RpcPost (rpc_body ''eth_getTransactionCount'' (quoted (iv_eoa_address s) @ '','' @ quoted ''pending'') (n + 1))
      in case rpc_uint64 parse (te_gas_price env) of
           Value gas \<Rightarrow>
             if int (unat gas div 1000000000) > ic_max_gas_price_gwei (iv_config s) then ([], [ask_gas])
             else (case rpc_uint64 parse (te_nonce env) of
                     Value nonce \<Rightarrow>
                       let signed_tx = build_signed_transaction keccak256 sign
                             (direct_params s (encode_proxy_call_data keccak256 target inner) gas nonce)
                       in if signed_tx = [] then ([], [ask_gas, ask_nonce])
                          else
                            let send = RpcPost (rpc_body ''eth_sendRawTransaction''
                                                 (quoted (''0x'' @ hex_encode signed_tx)) (n + 2));
                                tx_hash = ''0x'' @ hex_encode (compute_tx_hash keccak256 signed_tx)
                            in (case rpc_string parse (te_send env) of
                                  Value _ \<Rightarrow>
                                    let (final, polls) = poll_receipt parse env s tx_hash (n + 3)
                                    in (final, [ask_gas, ask_nonce, send] @ polls)
                                | _ \<Rightarrow> ([], [ask_gas, ask_nonce, send]))
                   | _ \<Rightarrow> ([], [ask_gas, ask_nonce]))
         | _ \<Rightarrow> ([], [ask_gas]))"

text \<open>The node client numbers its calls; the relayer client does not.\<close>

definition submit_inventory_tx ::
  "(bytes \<Rightarrow> bytes) \<Rightarrow> ecdsa \<Rightarrow> (string \<Rightarrow> json option) \<Rightarrow> tx_env \<Rightarrow> bytes \<Rightarrow> bytes \<Rightarrow> inventory_service \<Rightarrow>
   inventory_service \<times> string \<times> inventory_out list" where
  "submit_inventory_tx keccak256 sign parse env target inner s =
     (if iv_rpc_ready s then
        let (st, out) = submit_direct_rpc_tx keccak256 sign parse env target inner s
        in (s\<lparr> iv_rpc_id := iv_rpc_id s + int (length out) \<rparr>, st, out)
      else let (st, out) = submit_proxy_tx keccak256 sign parse env target inner s in (s, st, out))"

definition ensure_usdc_approved ::
  "(bytes \<Rightarrow> bytes) \<Rightarrow> ecdsa \<Rightarrow> (string \<Rightarrow> json option) \<Rightarrow> tx_env \<Rightarrow> inventory_service \<Rightarrow>
   inventory_service \<times> inventory_out list" where
  "ensure_usdc_approved keccak256 sign parse env s =
     (if iv_usdc_approved s \<or> ic_dry_run (iv_config s) then (s, [])
      else case submit_inventory_tx keccak256 sign parse env USDC_E_ADDRESS (encode_usdc_approve_ctf keccak256) s of
        (s1, _, out) \<Rightarrow> (s1\<lparr> iv_usdc_approved := True \<rparr>, out))"

subsection \<open>Booking an operation\<close>

definition book_operation :: "inventory_op_request \<Rightarrow> token_inventory \<Rightarrow> token_inventory" where
  "book_operation req v =
     (let up = ir_token_id_up req; down = ir_token_id_down req; qty = ir_quantity req;
          before_up = position_for v up; before_down = position_for v down
      in if up = [] \<or> down = [] then v
         else case ir_type req of
           OP_SPLIT \<Rightarrow> adjust_usdc_balance (adjust_position (adjust_position v up qty) down qty) (wrap64 (- qty))
         | OP_MERGE \<Rightarrow> adjust_usdc_balance (adjust_position (adjust_position v up (wrap64 (- qty))) down (wrap64 (- qty))) qty
         | OP_REDEEM \<Rightarrow> set_position (set_position (adjust_usdc_balance v (max before_up before_down)) up 0) down 0)"

definition operation_call :: "(bytes \<Rightarrow> bytes) \<Rightarrow> inventory_op_request \<Rightarrow> bytes \<Rightarrow> bytes" where
  "operation_call keccak256 req cond =
     (case ir_type req of
        OP_SPLIT \<Rightarrow> encode_split_position keccak256 cond (word_of_int (ir_quantity req))
      | OP_MERGE \<Rightarrow> encode_merge_positions keccak256 cond (word_of_int (ir_quantity req))
      | OP_REDEEM \<Rightarrow> encode_redeem_positions keccak256 cond)"

text \<open>
  \<open>handle_request\<close>; the first environment is that of the approval, the second that of the operation.
  The third component says whether the operation counts as confirmed.
\<close>

definition submit_operation ::
  "(bytes \<Rightarrow> bytes) \<Rightarrow> ecdsa \<Rightarrow> (string \<Rightarrow> json option) \<Rightarrow> tx_env \<Rightarrow> tx_env \<Rightarrow> inventory_op_request \<Rightarrow> bytes \<Rightarrow>
   inventory_service \<Rightarrow> inventory_service \<times> inventory_out list \<times> bool" where
  "submit_operation keccak256 sign parse env1 env2 req cond s =
     (if ic_dry_run (iv_config s) then (s, [], True)
      else
        let (s1, out1) = (if ir_type req = OP_SPLIT then ensure_usdc_approved keccak256 sign parse env1 s else (s, []));
            (s2, st, out2) = submit_inventory_tx keccak256 sign parse env2 CTF_CONTRACT_ADDRESS
                               (operation_call keccak256 req cond) s1
        in (s2, out1 @ out2, st = ''STATE_CONFIRMED''))"

definition handle_request ::
  "(bytes \<Rightarrow> bytes) \<Rightarrow> ecdsa \<Rightarrow> (string \<Rightarrow> json option) \<Rightarrow> tx_env \<Rightarrow> tx_env \<Rightarrow> inventory_op_request \<Rightarrow>
   inventory_service \<Rightarrow> inventory_service \<times> inventory_out list" where
  "handle_request keccak256 sign parse env1 env2 req s =
     (if \<not> iv_relayer_ready s \<and> \<not> iv_rpc_ready s then (s, [])
      else case hex_decode_to_bytes32 (ir_condition_id req) of
        None \<Rightarrow> (s, [])
      | Some cond \<Rightarrow>
          let (s1, out, confirmed) = submit_operation keccak256 sign parse env1 env2 req cond s
          in (if confirmed then s1\<lparr> iv_inventory := map_option (book_operation req) (iv_inventory s1) \<rparr> else s1, out))"

text \<open>The worker takes the requests off its queue in order.\<close>

fun handle_requests ::
  "(bytes \<Rightarrow> bytes) \<Rightarrow> ecdsa \<Rightarrow> (string \<Rightarrow> json option) \<Rightarrow> (tx_env \<times> tx_env \<times> inventory_op_request) list \<Rightarrow>
   inventory_service \<Rightarrow> inventory_service \<times> inventory_out list" where
  "handle_requests keccak256 sign parse [] s = (s, [])"
| "handle_requests keccak256 sign parse ((env1, env2, req) # rs) s =
     (let (s1, out1) = handle_request keccak256 sign parse env1 env2 req s;
          (s2, out2) = handle_requests keccak256 sign parse rs s1
      in (s2, out1 @ out2))"

subsection \<open>What counts as confirmed\<close>

lemma poll_result_answer:
  "poll_result env answer n k = (st, m) \<Longrightarrow> st \<noteq> [] \<Longrightarrow>
   \<exists>i. k \<le> i \<and> i < k + n \<and> answer i = Some st \<and> (\<forall>j. k \<le> j \<and> j < i \<longrightarrow> answer j = None)"
proof (induction n arbitrary: k)
  case (Suc n)
  show ?case
  proof (cases "answer k")
    case None
    then have "poll_result env answer n (Suc k) = (st, m)" using Suc.prems by (auto split: if_splits)
    from Suc.IH [OF this Suc.prems(2)] obtain i where
      i: "Suc k \<le> i" "i < Suc k + n" "answer i = Some st" "\<forall>j. Suc k \<le> j \<and> j < i \<longrightarrow> answer j = None" by blast
    have "answer j = None" if "k \<le> j" "j < i" for j using i(4) None that by (cases "j = k") auto
    with i show ?thesis by (intro exI [of _ i]) auto
  next
    case (Some x)
    then show ?thesis using Suc.prems by (intro exI [of _ k]) (auto split: if_splits)
  qed
qed simp

lemma direct_confirmed:
  assumes "submit_direct_rpc_tx keccak256 sign parse env target inner s = (''STATE_CONFIRMED'', out)"
  shows "\<exists>k < nat (ic_max_poll_attempts (iv_config s)). rpc_receipt_status parse (te_receipt env k) = Value 1 \<and>
    (\<forall>j < k. \<forall>st. rpc_receipt_status parse (te_receipt env j) \<noteq> Value st)"
proof -
  obtain h n where "fst (poll_receipt parse env s h n) = ''STATE_CONFIRMED''"
    using assms by (auto simp: submit_direct_rpc_tx_def Let_def split_beta split: expected.splits if_splits)
  then obtain m where "poll_result env (\<lambda>k. case rpc_receipt_status parse (te_receipt env k) of
      Value st \<Rightarrow> Some (if st = 1 then ''STATE_CONFIRMED'' else ''STATE_FAILED'') | _ \<Rightarrow> None)
      (nat (ic_max_poll_attempts (iv_config s))) 0 = (''STATE_CONFIRMED'', m)"
    by (auto simp: poll_receipt_def Let_def split_beta prod_eq_iff)
  from poll_result_answer [OF this] obtain i where "i < nat (ic_max_poll_attempts (iv_config s))"
    and a: "(case rpc_receipt_status parse (te_receipt env i) of
      Value st \<Rightarrow> Some (if st = 1 then ''STATE_CONFIRMED'' else ''STATE_FAILED'') | _ \<Rightarrow> None) = Some ''STATE_CONFIRMED''"
    and b: "\<forall>j < i. (case rpc_receipt_status parse (te_receipt env j) of
      Value st \<Rightarrow> Some (if st = 1 then ''STATE_CONFIRMED'' else ''STATE_FAILED'') | _ \<Rightarrow> None) = None" by auto
  moreover have "rpc_receipt_status parse (te_receipt env i) = Value 1" using a by (auto split: expected.splits if_splits)
  moreover have "rpc_receipt_status parse (te_receipt env j) \<noteq> Value st" if "j < i" for j st using b that by fastforce
  ultimately show ?thesis by blast
qed

lemma relayed_confirmed:
  assumes "submit_proxy_tx keccak256 sign parse env target inner s = (''STATE_CONFIRMED'', out)"
  shows "\<exists>k < nat (ic_max_poll_attempts (iv_config s)).
    get_transaction_state parse (te_state env k) = Value ''STATE_CONFIRMED'' \<and>
    (\<forall>j < k. \<forall>st. get_transaction_state parse (te_state env j) = Value st \<longrightarrow> \<not> is_terminal_state st)"
proof -
  obtain h where "fst (poll_relayer parse env s h) = ''STATE_CONFIRMED''"
    using assms by (auto simp: submit_proxy_tx_def Let_def split_beta split: expected.splits option.splits if_splits)
  then obtain m where "poll_result env (\<lambda>k. case get_transaction_state parse (te_state env k) of
      Value st \<Rightarrow> if is_terminal_state st then Some st else None | _ \<Rightarrow> None)
      (nat (ic_max_poll_attempts (iv_config s))) 0 = (''STATE_CONFIRMED'', m)"
    by (auto simp: poll_relayer_def Let_def split_beta prod_eq_iff)
  from poll_result_answer [OF this] obtain i where "i < nat (ic_max_poll_attempts (iv_config s))"
    and a: "(case get_transaction_state parse (te_state env i) of
      Value st \<Rightarrow> if is_terminal_state st then Some st else None | _ \<Rightarrow> None) = Some ''STATE_CONFIRMED''"
    and b: "\<forall>j < i. (case get_transaction_state parse (te_state env j) of
      Value st \<Rightarrow> if is_terminal_state st then Some st else None | _ \<Rightarrow> None) = None" by auto
  moreover have "get_transaction_state parse (te_state env i) = Value ''STATE_CONFIRMED''"
    using a by (auto split: expected.splits if_splits)
  moreover have "\<not> is_terminal_state st" if "j < i" "get_transaction_state parse (te_state env j) = Value st" for j st
    using b that by fastforce
  ultimately show ?thesis by blast
qed

text \<open>
  An operation counts as confirmed only if one of the allowed polls was answered by a successful
  receipt, or by the state confirmed of the relayer, and no earlier poll had brought another end.
\<close>
theorem confirmed_on_evidence:
  assumes "submit_inventory_tx keccak256 sign parse env target inner s = (s', ''STATE_CONFIRMED'', out)"
  shows "\<exists>k < nat (ic_max_poll_attempts (iv_config s)).
    if iv_rpc_ready s
    then rpc_receipt_status parse (te_receipt env k) = Value 1 \<and>
         (\<forall>j < k. \<forall>st. rpc_receipt_status parse (te_receipt env j) \<noteq> Value st)
    else get_transaction_state parse (te_state env k) = Value ''STATE_CONFIRMED'' \<and>
         (\<forall>j < k. \<forall>st. get_transaction_state parse (te_state env j) = Value st \<longrightarrow> \<not> is_terminal_state st)"
proof (cases "iv_rpc_ready s")
  case True
  then have "fst (submit_direct_rpc_tx keccak256 sign parse env target inner s) = ''STATE_CONFIRMED''"
    using assms by (auto simp: submit_inventory_tx_def split_beta Let_def)
  then show ?thesis using True direct_confirmed [of keccak256 sign parse env target inner s] by (simp add: prod_eq_iff)
next
  case False
  then have "fst (submit_proxy_tx keccak256 sign parse env target inner s) = ''STATE_CONFIRMED''"
    using assms by (auto simp: submit_inventory_tx_def split_beta Let_def)
  then show ?thesis using False relayed_confirmed [of keccak256 sign parse env target inner s] by (simp add: prod_eq_iff)
qed

text \<open>
  A transaction that reaches the node pays a gas price whose whole gwei do not exceed the configured
  limit; it is the signed transaction of the wrapped call with the price and the nonce the node gave.
\<close>
theorem sent_transaction_within_gas_limit:
  assumes "submit_direct_rpc_tx keccak256 sign parse env target inner s = (st, out)" and "2 < length out"
  shows "\<exists>gas nonce. rpc_uint64 parse (te_gas_price env) = Value gas \<and> rpc_uint64 parse (te_nonce env) = Value nonce \<and>
    int (unat gas) < (ic_max_gas_price_gwei (iv_config s) + 1) * 1000000000 \<and>
    out ! 2 = RpcPost (rpc_body ''eth_sendRawTransaction'' (quoted (''0x'' @ hex_encode (build_signed_transaction keccak256 sign
      (direct_params s (encode_proxy_call_data keccak256 target inner) gas nonce)))) (iv_rpc_id s + 2))"
proof -
  obtain gas where g: "rpc_uint64 parse (te_gas_price env) = Value gas"
    and le: "int (unat gas div 1000000000) \<le> ic_max_gas_price_gwei (iv_config s)"
    using assms by (auto simp: submit_direct_rpc_tx_def Let_def split: expected.splits if_splits)
  obtain nonce where n: "rpc_uint64 parse (te_nonce env) = Value nonce"
    using assms g le by (auto simp: submit_direct_rpc_tx_def Let_def split: expected.splits if_splits)
  have "int (unat gas) < (int (unat gas div 1000000000) + 1) * 1000000000" by (simp add: zdiv_int)
  also have "\<dots> \<le> (ic_max_gas_price_gwei (iv_config s) + 1) * 1000000000" using le by simp
  finally show ?thesis
    using assms g n le by (auto simp: submit_direct_rpc_tx_def Let_def split_beta split: expected.splits if_splits)
qed

subsection \<open>The books\<close>

lemma wrap64_transfer:
  "wrap64 (wrap64 (a + wrap64 (- q)) + wrap64 (p + q)) = wrap64 (a + p)"
  "wrap64 (wrap64 (a + q) + wrap64 (p + wrap64 (- q))) = wrap64 (a + p)"
proof -
  have l: "wrap64 (wrap64 x + y) = wrap64 (x + y)" for x y by (rule wrap64_add_left)
  have r: "wrap64 (x + wrap64 y) = wrap64 (x + y)" for x y using l [of y x] by (simp add: add.commute)
  have m: "wrap64 (x + wrap64 (- q) + y) = wrap64 (x - q + y)" for x y
    using l [of "- q" "x + y"] by (simp add: algebra_simps)
  have "wrap64 (wrap64 (a + wrap64 (- q)) + wrap64 (p + q)) = wrap64 (a + wrap64 (- q) + (p + q))"
    by (rule trans [OF l r])
  also have "\<dots> = wrap64 (a + p)" unfolding m by (simp add: algebra_simps)
  finally show "wrap64 (wrap64 (a + wrap64 (- q)) + wrap64 (p + q)) = wrap64 (a + p)" .
  have "wrap64 (wrap64 (a + q) + wrap64 (p + wrap64 (- q))) = wrap64 (a + q + (p + wrap64 (- q)))"
    by (rule trans [OF l r])
  also have "\<dots> = wrap64 (p + wrap64 (- q) + (a + q))" by (simp add: add.commute)
  also have "\<dots> = wrap64 (a + p)" unfolding m by (simp add: algebra_simps)
  finally show "wrap64 (wrap64 (a + q) + wrap64 (p + wrap64 (- q))) = wrap64 (a + p)" .
qed

text \<open>Cash together with the position on one side of a market, up to the width of the machine.\<close>

definition side_value :: "asset_id \<Rightarrow> token_inventory \<Rightarrow> int" where
  "side_value t v = wrap64 (usdc_balance v + position_for v t)"

definition set_operation :: "asset_id \<Rightarrow> asset_id \<Rightarrow> inventory_op_request \<Rightarrow> bool" where
  "set_operation u d req \<longleftrightarrow> ir_type req \<noteq> OP_REDEEM \<and> ir_token_id_up req = u \<and> ir_token_id_down req = d"

lemma book_operation_value:
  assumes "set_operation u d req" and "u \<noteq> d" and "positions v u \<noteq> None" and "positions v d \<noteq> None"
  shows "side_value u (book_operation req v) = side_value u v" "side_value d (book_operation req v) = side_value d v"
  using assms
  by (cases "ir_type req"; auto simp: set_operation_def side_value_def book_operation_def adjust_position_def
        adjust_usdc_balance_def position_for_def Let_def wrap64_transfer split: option.splits)+

lemma book_operation_dom:
  "set_operation u d req \<Longrightarrow> positions (book_operation req v) t = None \<longleftrightarrow> positions v t = None"
  by (cases "ir_type req"; auto simp: set_operation_def book_operation_def adjust_position_def
        adjust_usdc_balance_def Let_def split: option.splits)

lemma submit_inventory: "iv_inventory (fst (submit_operation keccak256 sign parse env1 env2 req cond s)) = iv_inventory s"
  by (auto simp: submit_operation_def ensure_usdc_approved_def submit_inventory_tx_def Let_def split: prod.splits)

lemma handle_request_inventory:
  "iv_inventory (fst (handle_request keccak256 sign parse env1 env2 req s)) = iv_inventory s \<or>
   iv_inventory (fst (handle_request keccak256 sign parse env1 env2 req s)) = map_option (book_operation req) (iv_inventory s)"
  using submit_inventory [of keccak256 sign parse env1 env2 req _ s]
  by (auto simp: handle_request_def Let_def split_beta split: option.splits)

text \<open>
  Whatever the relayer and the node answer to them, a sequence of splits and merges of one market
  keeps the sum of cash and position on either side of it: only complete sets are bought and sold.
\<close>
theorem splits_and_merges_keep_value:
  assumes "\<forall>(e1, e2, req) \<in> set rs. set_operation u d req" and "u \<noteq> d" and "iv_inventory s = Some v"
    and "positions v u \<noteq> None" and "positions v d \<noteq> None"
  shows "\<exists>v'. iv_inventory (fst (handle_requests keccak256 sign parse rs s)) = Some v' \<and>
    side_value u v' = side_value u v \<and> side_value d v' = side_value d v"
  using assms
proof (induction rs arbitrary: s v)
  case (Cons x rs)
  obtain e1 e2 req where x: "x = (e1, e2, req)" by (cases x) auto
  let ?s = "fst (handle_request keccak256 sign parse e1 e2 req s)"
  have op: "set_operation u d req" using Cons.prems(1) x by simp
  obtain w where w: "iv_inventory ?s = Some w" "w = v \<or> w = book_operation req v"
    using handle_request_inventory [of keccak256 sign parse e1 e2 req s] Cons.prems(3) by auto
  have k: "positions w u \<noteq> None" "positions w d \<noteq> None" "side_value u w = side_value u v" "side_value d w = side_value d v"
    using w(2) book_operation_dom [OF op, of v u] book_operation_dom [OF op, of v d]
      book_operation_value [OF op Cons.prems(2,4,5)] Cons.prems(4,5) by auto
  have "\<exists>v'. iv_inventory (fst (handle_requests keccak256 sign parse rs ?s)) = Some v' \<and>
    side_value u v' = side_value u w \<and> side_value d v' = side_value d w"
    using Cons.prems k w by (intro Cons.IH) simp_all
  with k show ?case by (simp add: x split_beta Let_def)
qed simp

text \<open>
  A confirmed split of a market whose tokens are not registered takes its cost out of the cash and
  adds nothing to a position: the books lose the whole amount.
\<close>
theorem unregistered_split_loses_cash:
  assumes "ir_type req = OP_SPLIT" and "ir_token_id_up req \<noteq> []" and "ir_token_id_down req \<noteq> []"
    and "positions v (ir_token_id_up req) = None" and "positions v (ir_token_id_down req) = None"
    and "0 < ir_quantity req" and "int64_min + ir_quantity req \<le> usdc_balance v" and "usdc_balance v \<le> int64_max"
    and "ir_quantity req \<le> int64_max"
  shows "usdc_balance (book_operation req v) = usdc_balance v - ir_quantity req \<and>
    position_for (book_operation req v) t = position_for v t"
  using assms by (simp add: book_operation_def adjust_unregistered adjust_usdc_balance_def position_for_def Let_def
      wrap_simps int64_min_def int64_max_def)

subsection \<open>A sample run\<close>

definition sample_request :: "inventory_op_type \<Rightarrow> inventory_op_request" where
  "sample_request t =
     \<lparr> ir_type = t, ir_condition_id = replicate 64 (CHR ''a''), ir_token_id = [], ir_token_id_up = ''up'',
       ir_token_id_down = ''down'', ir_quantity = 5000000, ir_request_id = 1, ir_created_ts = 0 \<rparr>"

definition sample_positions :: token_inventory where
  "sample_positions = empty_inventory\<lparr> positions := [''up'' \<mapsto> 0, ''down'' \<mapsto> 0], usdc_balance := 20000000 \<rparr>"

definition sample_service :: "token_inventory \<Rightarrow> inventory_service" where
  "sample_service v = new_inventory_service (\<lambda>_. replicate 32 0) (Some (replicate 20 1))
     \<lparr> ic_dry_run = False, ic_use_direct_rpc = True, ic_has_private_key = True, ic_polygon_rpc_url = ''u'',
       ic_builder_api_key = [], ic_max_gas_price_gwei = 100, ic_gas_limit = 500000, ic_max_poll_attempts = 3 \<rparr> (Some v)"

text \<open>A node that answers every call at once; the receipt comes at the second poll.\<close>

definition sample_tx_env :: tx_env where
  "sample_tx_env =
     \<lparr> te_payload = None, te_submit = None, te_state = (\<lambda>_. None), te_gas_price = ''n'', te_nonce = ''n'',
       te_send = ''n'', te_receipt = (\<lambda>k. if k = 0 then [] else ''r''), te_stopped = (\<lambda>_. False), te_slept = (\<lambda>_. True) \<rparr>"

definition sample_node :: "string \<Rightarrow> json option" where
  "sample_node s =
     (if s = ''n'' then Some (JObj [(''result'', JStr ''0x1'')])
      else if s = ''r'' then Some (JObj [(''result'', JObj [(''status'', JStr ''0x1'')])]) else None)"

definition sample_curve :: ecdsa where
  "sample_curve h = Some (replicate 64 1, 0)"

lemma sample_node_answers:
  "rpc_uint64 sample_node ''n'' = Value 1" "rpc_string sample_node ''n'' = Value ''0x1''"
  "rpc_receipt_status sample_node [] = Err NETWORK_ERROR" "rpc_receipt_status sample_node ''r'' = Value 1"
  by (simp_all add: rpc_uint64_def rpc_string_def rpc_receipt_status_def rpc_answer_def sample_node_def string_at_def
      parse_hex_uint64_def strip_0x_def hex_step_def hex_nibble_def char_code_def)

lemma sample_signed: "build_signed_transaction (\<lambda>_. replicate 32 0) sample_curve p \<noteq> []"
  by (simp add: build_signed_transaction_def sign_hash_def sample_curve_def rlp_wrap_list_def Let_def)

lemma sample_service_frame:
  "iv_rpc_ready (sample_service v)" "ic_max_poll_attempts (iv_config (sample_service v)) = 3"
  "ic_max_gas_price_gwei (iv_config (sample_service v)) = 100" "iv_inventory (sample_service v) = Some v"
  by (simp_all add: sample_service_def new_inventory_service_def)

lemma sample_tx_env_answers:
  "te_gas_price sample_tx_env = ''n''" "te_nonce sample_tx_env = ''n''" "te_send sample_tx_env = ''n''"
  by (simp_all add: sample_tx_env_def)

lemma sample_poll:
  "poll_result sample_tx_env (\<lambda>k. case rpc_receipt_status sample_node (te_receipt sample_tx_env k) of
     Value st \<Rightarrow> Some (if st = 1 then ''STATE_CONFIRMED'' else ''STATE_FAILED'') | _ \<Rightarrow> None) 3 0 = (''STATE_CONFIRMED'', 2)"
  by (simp add: numeral_3_eq_3 sample_tx_env_def sample_node_answers)

lemma sample_direct:
  "fst (submit_direct_rpc_tx (\<lambda>_. replicate 32 0) sample_curve sample_node sample_tx_env target inner (sample_service v)) = ''STATE_CONFIRMED''"
  "length (snd (submit_direct_rpc_tx (\<lambda>_. replicate 32 0) sample_curve sample_node sample_tx_env target inner (sample_service v))) = 5"
  by (simp_all add: submit_direct_rpc_tx_def sample_tx_env_answers sample_node_answers sample_signed sample_service_frame
      poll_receipt_def sample_poll Let_def)

theorem confirmed_on_evidence_witness:
  "\<exists>k < 3. rpc_receipt_status sample_node (te_receipt sample_tx_env k) = Value 1"
proof -
  let ?s = "sample_service sample_positions"
  obtain s' out where "submit_inventory_tx (\<lambda>_. replicate 32 0) sample_curve sample_node sample_tx_env [] [] ?s =
      (s', ''STATE_CONFIRMED'', out)"
    using sample_direct(1) [of "[]" "[]" sample_positions]
    by (simp add: submit_inventory_tx_def sample_service_frame split_beta Let_def)
  from confirmed_on_evidence [OF this] show ?thesis by (auto simp: sample_service_frame)
qed

theorem sent_transaction_within_gas_limit_witness:
  "\<exists>gas nonce. rpc_uint64 sample_node (te_gas_price sample_tx_env) = Value gas \<and>
    rpc_uint64 sample_node (te_nonce sample_tx_env) = Value nonce \<and> int (unat gas) < 101000000000"
proof -
  let ?t = "submit_direct_rpc_tx (\<lambda>_. replicate 32 0) sample_curve sample_node sample_tx_env [] [] (sample_service sample_positions)"
  have "2 < length (snd ?t)" using sample_direct(2) [of "[]" "[]" sample_positions] by simp
  from sent_transaction_within_gas_limit [OF prod.collapse [symmetric] this] show ?thesis
    by (auto simp: sample_service_frame)
qed

theorem splits_and_merges_keep_value_witness:
  "\<exists>v'. iv_inventory (fst (handle_requests (\<lambda>_. replicate 32 0) sample_curve sample_node
       [(sample_tx_env, sample_tx_env, sample_request OP_SPLIT), (sample_tx_env, sample_tx_env, sample_request OP_MERGE)]
       (sample_service sample_positions))) = Some v' \<and> side_value ''up'' v' = side_value ''up'' sample_positions"
  using splits_and_merges_keep_value [of "[(sample_tx_env, sample_tx_env, sample_request OP_SPLIT), (sample_tx_env, sample_tx_env, sample_request OP_MERGE)]"
      "''up''" "''down''" "sample_service sample_positions" sample_positions "\<lambda>_. replicate 32 0" sample_curve sample_node]
  by (auto simp: set_operation_def sample_request_def sample_service_frame sample_positions_def)

theorem unregistered_split_loses_cash_witness:
  "usdc_balance (book_operation (sample_request OP_SPLIT) (empty_inventory\<lparr> usdc_balance := 20000000 \<rparr>)) = 15000000"
  using unregistered_split_loses_cash [of "sample_request OP_SPLIT" "empty_inventory\<lparr> usdc_balance := 20000000 \<rparr>"]
  by (simp add: sample_request_def empty_inventory_def int64_min_def int64_max_def)

end
