(* ===== verification/Spec2Isabelle.thy ===== *)
theory Spec2Isabelle
  imports Price Order_Book Market_Pair Token_Inventory Working_Tracker Exec_State
    Risk_Gate Rate_Limiter Book_Feed Sinks Crypto_Encoding Order_Builder Feed_Parsers
    Rest_Parsers Watcher_Bridge Gateway Discovery Slots Ui_Mirror Scheduler Scheduler_Safety Scheduler_Limits Tx_Encoding Test_Strategy
    Rotation Inventory_Service
begin

text \<open>Verification of a live trading program.\<close>

end
